(* ===== verification/Prelude.thy ===== *)
theory Prelude
  imports Main "HOL-Library.Multiset"
begin

text \<open>
  Shared vocabulary of the development: collections of rewrite rules, the lemmas on lists and
  options that several components use, and the keyed tables that stand for the relational store.
\<close>

section \<open>Collections\<close>

named_theorems frame \<open>what an operation leaves unchanged\<close>
named_theorems table_simps \<open>rewrite rules for keyed tables\<close>
named_theorems text_simps \<open>rewrite rules for text operations\<close>

section \<open>Options and Python truth values\<close>

text \<open>
  \<open>x or d\<close> on an optional list or string: \<open>None\<close> and the empty value are both false.
\<close>

definition or_else :: "'a list option \<Rightarrow> 'a list \<Rightarrow> 'a list" where
  "or_else x d = (case x of None \<Rightarrow> d | Some s \<Rightarrow> if s = [] then d else s)"

definition truthy :: "'a list option \<Rightarrow> bool" where
  "truthy x \<longleftrightarrow> (case x of None \<Rightarrow> False | Some s \<Rightarrow> s \<noteq> [])"

definition truthy_int :: "int option \<Rightarrow> bool" where
  "truthy_int x \<longleftrightarrow> (case x of None \<Rightarrow> False | Some n \<Rightarrow> n \<noteq> 0)"

lemma or_else_simps [simp]:
  "or_else None d = d" "or_else (Some []) d = d" "or_else (Some (x # xs)) d = x # xs"
  by (simp_all add: or_else_def)

lemma or_else_nil [simp]: "or_else x [] = (case x of None \<Rightarrow> [] | Some s \<Rightarrow> s)"
  by (simp add: or_else_def split: option.split)

lemma truthy_simps [simp]:
  "\<not> truthy None" "truthy (Some s) = (s \<noteq> [])"
  by (simp_all add: truthy_def)

lemma truthy_int_simps [simp]:
  "\<not> truthy_int None" "truthy_int (Some n) = (n \<noteq> 0)"
  by (simp_all add: truthy_int_def)

lemma truthyE: "truthy x \<Longrightarrow> (\<And>s. x = Some s \<Longrightarrow> s \<noteq> [] \<Longrightarrow> P) \<Longrightarrow> P"
  by (auto simp: truthy_def split: option.splits)

lemma or_else_truthy: "truthy x \<Longrightarrow> or_else x d = the x"
  by (auto simp: or_else_def truthy_def split: option.splits)

section \<open>Lists\<close>

lemma find_None_filter: "List.find P xs = None \<longleftrightarrow> filter P xs = []"
  by (induction xs) auto

lemma find_SomeD: "List.find P xs = Some x \<Longrightarrow> x \<in> set xs \<and> P x"
  by (auto simp: find_Some_iff)

lemma find_append:
  "List.find P (xs @ ys) = (case List.find P xs of None \<Rightarrow> List.find P ys | Some x \<Rightarrow> Some x)"
  by (induction xs) auto

lemma dropWhile_hd: "dropWhile P xs = y # ys \<Longrightarrow> \<not> P y"
  by (metis hd_dropWhile list.distinct(1) list.sel(1))

lemma filter_length_le_map:
  "(\<And>x. x \<in> set xs \<Longrightarrow> P (f x) \<Longrightarrow> P x) \<Longrightarrow> length (filter P (map f xs)) \<le> length (filter P xs)"
  by (induction xs) auto

lemma length_filter_map_eq:
  "(\<And>x. x \<in> set xs \<Longrightarrow> P (f x) = P x) \<Longrightarrow> length (filter P (map f xs)) = length (filter P xs)"
  by (induction xs) auto

lemma take_filter_subset: "set (take n (filter P xs)) \<subseteq> {x \<in> set xs. P x}"
  by (auto dest: in_set_takeD)

section \<open>Keyed tables\<close>

text \<open>
  A table of the store is the list of its rows in insertion order; \<open>key\<close> reads the primary key.
  \<open>tget\<close> is \<open>session.get\<close>, \<open>tput\<close> writes a changed row back at its place,
  \<open>tdel\<close> is \<open>session.delete\<close>, \<open>tadd\<close> inserts a new row.
\<close>

definition tget :: "('r \<Rightarrow> 'k) \<Rightarrow> 'r list \<Rightarrow> 'k \<Rightarrow> 'r option" where
  "tget key rows k = List.find (\<lambda>r. key r = k) rows"

definition tput :: "('r \<Rightarrow> 'k) \<Rightarrow> 'r \<Rightarrow> 'r list \<Rightarrow> 'r list" where
  "tput key r rows = map (\<lambda>r'. if key r' = key r then r else r') rows"

definition tdel :: "('r \<Rightarrow> 'k) \<Rightarrow> 'k \<Rightarrow> 'r list \<Rightarrow> 'r list" where
  "tdel key k rows = filter (\<lambda>r. key r \<noteq> k) rows"

definition tadd :: "'r \<Rightarrow> 'r list \<Rightarrow> 'r list" where
  "tadd r rows = rows @ [r]"

definition keys :: "('r \<Rightarrow> 'k) \<Rightarrow> 'r list \<Rightarrow> 'k list" where
  "keys key rows = map key rows"

text \<open>The primary-key constraint: no two rows share a key.\<close>

definition unique_keys :: "('r \<Rightarrow> 'k) \<Rightarrow> 'r list \<Rightarrow> bool" where
  "unique_keys key rows \<longleftrightarrow> distinct (keys key rows)"

text \<open>
  The contract between a table and its clients. A client sees lookups, one-row updates, inserts of
  a fresh key and deletes; the laws say what a later lookup returns and that keys stay unique.
\<close>

locale keyed_table =
  fixes key :: "'r \<Rightarrow> 'k"
    and get :: "'r list \<Rightarrow> 'k \<Rightarrow> 'r option"
    and put :: "'r \<Rightarrow> 'r list \<Rightarrow> 'r list"
    and del :: "'k \<Rightarrow> 'r list \<Rightarrow> 'r list"
    and add :: "'r \<Rightarrow> 'r list \<Rightarrow> 'r list"
    and ok :: "'r list \<Rightarrow> bool"
  assumes get_key: "get t k = Some r \<Longrightarrow> key r = k"
    and get_in: "get t k = Some r \<Longrightarrow> r \<in> set t"
    and get_None: "get t k = None \<longleftrightarrow> k \<notin> key ` set t"
    and get_put: "get (put r t) k
        = (if k = key r then map_option (\<lambda>_. r) (get t k) else get t k)"
    and get_del: "get (del k' t) k = (if k = k' then None else get t k)"
    and get_add: "key r \<notin> key ` set t \<Longrightarrow> get (add r t) k = (if k = key r then Some r else get t k)"
    and get_ok: "ok t \<Longrightarrow> r \<in> set t \<Longrightarrow> get t (key r) = Some r"
    and ok_put: "ok t \<Longrightarrow> ok (put r t)"
    and ok_del: "ok t \<Longrightarrow> ok (del k t)"
    and ok_add: "ok t \<Longrightarrow> key r \<notin> key ` set t \<Longrightarrow> ok (add r t)"
begin

lemma put_same: "get t k = Some r0 \<Longrightarrow> key r = k \<Longrightarrow> get (put r t) k = Some r"
  by (simp add: get_put)

lemma put_other: "k \<noteq> key r \<Longrightarrow> get (put r t) k = get t k"
  by (simp add: get_put)

lemma put_put: "key r = key r' \<Longrightarrow> get (put r' (put r t)) k = get (put r' t) k"
  by (cases "get t k") (auto simp: get_put)

lemma del_gone: "get (del k t) k = None"
  by (simp add: get_del)

lemma add_del: "key r \<notin> key ` set t \<Longrightarrow> get (del (key r) (add r t)) k = get t k"
  using get_None [of t k] by (auto simp: get_del get_add)

text \<open>A row is in the table exactly when its own key finds it.\<close>

lemma in_iff_get: "ok t \<Longrightarrow> r \<in> set t \<longleftrightarrow> get t (key r) = Some r"
  using get_ok get_in by blast

lemma put_in: "ok t \<Longrightarrow> r' \<in> set (put r t) \<Longrightarrow> r' = r \<or> r' \<in> set t"
proof -
  assume ok: "ok t" and r': "r' \<in> set (put r t)"
  have "get (put r t) (key r') = Some r'" using get_ok [OF ok_put [OF ok] r'] .
  then have "r' = r \<or> get t (key r') = Some r'" by (auto simp: get_put split: if_splits)
  then show "r' = r \<or> r' \<in> set t" using get_in by blast
qed

end

lemma tget_key: "tget key t k = Some r \<Longrightarrow> key r = k"
  by (auto simp: tget_def dest: find_SomeD)

lemma tget_None: "tget key t k = None \<longleftrightarrow> k \<notin> key ` set t"
  by (auto simp: tget_def find_None_iff)

lemma tget_tput: "tget key (tput key r t) k
    = (if k = key r then map_option (\<lambda>_. r) (tget key t k) else tget key t k)"
  by (induction t) (auto simp: tget_def tput_def)

lemma tget_tdel: "tget key (tdel key k' t) k = (if k = k' then None else tget key t k)"
  by (induction t) (auto simp: tget_def tdel_def)

lemma tget_tadd: "key r \<notin> key ` set t \<Longrightarrow>
    tget key (tadd r t) k = (if k = key r then Some r else tget key t k)"
  by (induction t) (auto simp: tget_def tadd_def)

lemma tget_unique: "unique_keys key t \<Longrightarrow> r \<in> set t \<Longrightarrow> tget key t (key r) = Some r"
  by (induction t) (auto simp: tget_def unique_keys_def keys_def)

lemma keys_tput [simp]: "keys key (tput key r t) = keys key t"
  by (simp add: keys_def tput_def)

lemma unique_keys_tput: "unique_keys key t \<Longrightarrow> unique_keys key (tput key r t)"
  by (simp add: unique_keys_def)

lemma unique_keys_tdel: "unique_keys key t \<Longrightarrow> unique_keys key (tdel key k t)"
  by (auto simp: unique_keys_def keys_def tdel_def distinct_map intro: inj_on_subset)

lemma unique_keys_tadd: "unique_keys key t \<Longrightarrow> key r \<notin> key ` set t \<Longrightarrow> unique_keys key (tadd r t)"
  by (simp add: unique_keys_def keys_def tadd_def)

text \<open>The list-backed table meets the contract for every key function.\<close>

interpretation tbl: keyed_table key "tget key" "tput key" "tdel key" tadd "unique_keys key"
  for key :: "'r \<Rightarrow> 'k"
proof (unfold_locales, goal_cases)
  case 1 then show ?case by (rule tget_key)
next
  case 2 then show ?case by (auto simp: tget_def dest: find_SomeD)
next
  case 3 show ?case by (rule tget_None)
next
  case 4 show ?case by (rule tget_tput)
next
  case 5 show ?case by (rule tget_tdel)
next
  case 6 then show ?case by (rule tget_tadd)
next
  case 7 then show ?case by (rule tget_unique)
next
  case 8 then show ?case by (rule unique_keys_tput)
next
  case 9 then show ?case by (rule unique_keys_tdel)
next
  case 10 then show ?case by (rule unique_keys_tadd)
qed

lemmas [table_simps] = tget_tput tget_tdel tbl.get_add tbl.del_gone

lemma tput_in_set: "r' \<in> set (tput key r t) \<Longrightarrow> r' = r \<or> r' \<in> set t"
  by (auto simp: tput_def)

lemma tput_in_other: "r' \<in> set (tput key r t) \<Longrightarrow> r' = r \<or> r' \<in> set t \<and> key r' \<noteq> key r"
  by (auto simp: tput_def)

lemma tput_absent: "key r \<notin> key ` set t \<Longrightarrow> tput key r t = t"
  by (induction t) (auto simp: tput_def)

lemma tput_image: "key ` set (tput key r t) = key ` set t"
  using keys_tput [of key r t] by (metis keys_def list.set_map)

end
