(* ===== verification/PyText.thy ===== *)
theory PyText
  imports Prelude "HOL-Library.List_Lexorder"
begin

text \<open>
  Python strings as sequences of Unicode code points, and the \<open>str\<close> methods the source uses.
  White space is the exact set that \<open>str.split\<close>, \<open>str.strip\<close> and the class
  \<open>\\s\<close> of \<open>re\<close> share; case folding and the word class beyond ASCII come from the
  Unicode database, which is a parameter.
\<close>

type_synonym pystr = "int list"

definition lit :: "string \<Rightarrow> pystr" where
  "lit s = map of_char s"

text \<open>
  The tables of Python's Unicode database that matter here: \<open>str.lower\<close> of a string with a
  character beyond ASCII, whether a code point beyond ASCII is matched by \<open>\\w\<close>, and the
  value of a decimal digit beyond ASCII.
\<close>

record unicode =
  u_lower :: "pystr \<Rightarrow> pystr"
  u_word :: "int \<Rightarrow> bool"
  u_decimal :: "int \<Rightarrow> int option"

definition is_space :: "int \<Rightarrow> bool" where
  "is_space c \<longleftrightarrow> (9 \<le> c \<and> c \<le> 13) \<or> (28 \<le> c \<and> c \<le> 32) \<or> c = 133 \<or> c = 160 \<or> c = 5760
     \<or> (8192 \<le> c \<and> c \<le> 8202) \<or> c = 8232 \<or> c = 8233 \<or> c = 8239 \<or> c = 8287 \<or> c = 12288"

definition is_digit :: "int \<Rightarrow> bool" where
  "is_digit c \<longleftrightarrow> 48 \<le> c \<and> c \<le> 57"

definition is_upper :: "int \<Rightarrow> bool" where
  "is_upper c \<longleftrightarrow> 65 \<le> c \<and> c \<le> 90"

definition is_lower :: "int \<Rightarrow> bool" where
  "is_lower c \<longleftrightarrow> 97 \<le> c \<and> c \<le> 122"

definition is_word :: "unicode \<Rightarrow> int \<Rightarrow> bool" where
  "is_word U c \<longleftrightarrow>
     (if c < 128 then is_digit c \<or> is_upper c \<or> is_lower c \<or> c = 95
      else \<not> is_space c \<and> u_word U c)"

definition ascii_lower :: "int \<Rightarrow> int" where
  "ascii_lower c = (if is_upper c then c + 32 else c)"

definition py_lower :: "unicode \<Rightarrow> pystr \<Rightarrow> pystr" where
  "py_lower U s = (if \<forall>c \<in> set s. c < 128 then map ascii_lower s else u_lower U s)"

definition lstrip :: "pystr \<Rightarrow> pystr" where
  "lstrip s = dropWhile is_space s"

definition rstrip :: "pystr \<Rightarrow> pystr" where
  "rstrip s = rev (dropWhile is_space (rev s))"

definition strip :: "pystr \<Rightarrow> pystr" where
  "strip s = rstrip (lstrip s)"

text \<open>\<open>s.strip(chars)\<close> with an explicit set of characters.\<close>

definition strip_chars :: "int list \<Rightarrow> pystr \<Rightarrow> pystr" where
  "strip_chars cs s = rev (dropWhile (\<lambda>c. c \<in> set cs) (rev (dropWhile (\<lambda>c. c \<in> set cs) s)))"

text \<open>\<open>s.split()\<close>: the maximal runs of characters that are not white space.\<close>

function split_ws :: "pystr \<Rightarrow> pystr list" where
  "split_ws s =
     (case dropWhile is_space s of
        [] \<Rightarrow> []
      | c # t \<Rightarrow> (c # takeWhile (\<lambda>x. \<not> is_space x) t) # split_ws (dropWhile (\<lambda>x. \<not> is_space x) t))"
  by pat_completeness auto
termination
proof (relation "measure length", simp)
  fix s x21 x22
  assume "dropWhile is_space s = x21 # x22"
  then have "length (x21 # x22) \<le> length s" by (metis length_dropWhile_le)
  moreover have "length (dropWhile (\<lambda>x. \<not> is_space x) x22) \<le> length x22" by (rule length_dropWhile_le)
  ultimately show "(dropWhile (\<lambda>x. \<not> is_space x) x22, s) \<in> measure length" by simp
qed

declare split_ws.simps [simp del]

text \<open>\<open>sep.join(parts)\<close>.\<close>

fun join :: "pystr \<Rightarrow> pystr list \<Rightarrow> pystr" where
  "join sep [] = []"
| "join sep [p] = p"
| "join sep (p # q # ps) = p @ sep @ join sep (q # ps)"

text \<open>\<open>s.replace(a, b)\<close> for single characters, and \<open>s.startswith(p)\<close>.\<close>

definition replace_char :: "int \<Rightarrow> int \<Rightarrow> pystr \<Rightarrow> pystr" where
  "replace_char a b s = map (\<lambda>c. if c = a then b else c) s"

fun startswith :: "pystr \<Rightarrow> pystr \<Rightarrow> bool" where
  "startswith s [] = True"
| "startswith [] (p # ps) = False"
| "startswith (c # s) (p # ps) = (c = p \<and> startswith s ps)"

text \<open>\<open>s.split(sep)\<close> with a one-character separator.\<close>

fun split_on :: "int \<Rightarrow> pystr \<Rightarrow> pystr list" where
  "split_on sep [] = [[]]"
| "split_on sep (c # s) =
     (if c = sep then [] # split_on sep s
      else (case split_on sep s of [] \<Rightarrow> [[c]] | p # ps \<Rightarrow> (c # p) # ps))"

text \<open>\<open>Path(media_dir) / name\<close>, with trailing slashes of the directory dropped.\<close>

definition path_join :: "pystr \<Rightarrow> pystr \<Rightarrow> pystr" where
  "path_join base name =
     (let b = rev (dropWhile (\<lambda>c. c = 47) (rev base))
      in if b = [] then (if base = [] then name else 47 # name) else b @ [47] @ name)"

text \<open>Decimal rendering of an integer, as \<open>str(n)\<close> and f-strings print it.\<close>

function digits :: "int \<Rightarrow> pystr" where
  "digits n = (if n < 10 then [48 + n] else digits (n div 10) @ [48 + n mod 10])"
  by pat_completeness auto
termination
  by (relation "measure nat") auto

declare digits.simps [simp del]

definition str_int :: "int \<Rightarrow> pystr" where
  "str_int n = (if n < 0 then 45 # digits (- n) else digits n)"

section \<open>Facts about stripping, splitting and joining\<close>

lemma lit_Nil [simp]: "lit [] = []"
  by (simp add: lit_def)

lemma lit_Cons: "lit (c # s) = of_char c # lit s"
  by (simp add: lit_def)

lemma lstrip_Nil [simp]: "lstrip [] = []" and rstrip_Nil [simp]: "rstrip [] = []"
  and strip_Nil [simp]: "strip [] = []"
  by (simp_all add: lstrip_def rstrip_def strip_def)

lemma rstrip_snoc: "rstrip (s @ [c]) = (if is_space c then rstrip s else s @ [c])"
  by (simp add: rstrip_def)

lemma rstrip_decomp: "\<exists>ws. s = rstrip s @ ws \<and> (\<forall>c \<in> set ws. is_space c)"
proof (induction s rule: rev_induct)
  case Nil
  then show ?case by simp
next
  case (snoc c s)
  then obtain ws where ws: "s = rstrip s @ ws" "\<forall>c \<in> set ws. is_space c" by blast
  show ?case
  proof (cases "is_space c")
    case True
    then have "s @ [c] = rstrip (s @ [c]) @ (ws @ [c])"
      using ws(1) by (simp add: rstrip_snoc)
    moreover have "\<forall>d \<in> set (ws @ [c]). is_space d"
      using ws(2) True by simp
    ultimately show ?thesis by blast
  next
    case False
    then show ?thesis by (auto simp: rstrip_snoc)
  qed
qed

lemma lstrip_decomp: "\<exists>ws. s = ws @ lstrip s \<and> (\<forall>c \<in> set ws. is_space c)"
  by (metis lstrip_def set_takeWhileD takeWhile_dropWhile_id)

lemma strip_decomp:
  "\<exists>l r. s = l @ strip s @ r \<and> (\<forall>c \<in> set l. is_space c) \<and> (\<forall>c \<in> set r. is_space c)"
  by (metis lstrip_decomp rstrip_decomp strip_def)

lemma rstrip_last: "rstrip s \<noteq> [] \<Longrightarrow> \<not> is_space (last (rstrip s))"
  by (induction s rule: rev_induct) (auto simp: rstrip_snoc)

lemma lstrip_hd: "lstrip s \<noteq> [] \<Longrightarrow> \<not> is_space (hd (lstrip s))"
  by (auto simp: lstrip_def hd_dropWhile)

lemma rstrip_id: "s = [] \<or> \<not> is_space (last s) \<Longrightarrow> rstrip s = s"
  by (cases s rule: rev_cases) (auto simp: rstrip_snoc)

lemma lstrip_id: "s = [] \<or> \<not> is_space (hd s) \<Longrightarrow> lstrip s = s"
  by (cases s) (auto simp: lstrip_def)

lemma strip_id: "s = [] \<or> \<not> is_space (hd s) \<and> \<not> is_space (last s) \<Longrightarrow> strip s = s"
  by (auto simp: strip_def lstrip_id rstrip_id)

lemma rstrip_hd: "rstrip s \<noteq> [] \<Longrightarrow> hd (rstrip s) = hd s"
  by (metis hd_append2 rstrip_decomp)

lemma strip_ends:
  assumes "strip s \<noteq> []"
  shows "\<not> is_space (hd (strip s))" and "\<not> is_space (last (strip s))"
  using assms lstrip_hd rstrip_hd rstrip_last rstrip_Nil unfolding strip_def by metis+

lemma strip_idem [simp]: "strip (strip s) = strip s"
  by (rule strip_id) (use strip_ends in blast)

lemma rstrip_idem [simp]: "rstrip (rstrip s) = rstrip s"
  by (rule rstrip_id) (use rstrip_last in blast)

lemma split_ws_words: "w \<in> set (split_ws s) \<Longrightarrow> w \<noteq> [] \<and> (\<forall>c \<in> set w. \<not> is_space c)"
proof (induction s rule: split_ws.induct)
  case (1 s)
  show ?case
  proof (cases "dropWhile is_space s")
    case Nil
    with "1.prems" show ?thesis by (subst (asm) split_ws.simps) simp
  next
    case (Cons c t)
    then have c: "\<not> is_space c" by (rule dropWhile_hd)
    from "1.prems" have "w = c # takeWhile (\<lambda>x. \<not> is_space x) t
        \<or> w \<in> set (split_ws (dropWhile (\<lambda>x. \<not> is_space x) t))"
      by (simp add: split_ws.simps [of s] Cons)
    then show ?thesis
    proof
      assume "w = c # takeWhile (\<lambda>x. \<not> is_space x) t"
      with c show ?thesis by (auto dest: set_takeWhileD)
    next
      assume "w \<in> set (split_ws (dropWhile (\<lambda>x. \<not> is_space x) t))"
      then show ?thesis by (rule "1.IH" [OF Cons])
    qed
  qed
qed

lemma split_ws_Nil [simp]: "split_ws [] = []"
  by (simp add: split_ws.simps)

lemma split_ws_space: "is_space c \<Longrightarrow> split_ws (c # s) = split_ws s"
  by (subst (1 2) split_ws.simps) simp

lemma split_ws_spaces: "\<forall>c \<in> set ws. is_space c \<Longrightarrow> split_ws (ws @ s) = split_ws s"
  by (induction ws) (auto simp: split_ws_space)

lemma split_ws_word:
  assumes "w \<noteq> []" and "\<forall>c \<in> set w. \<not> is_space c" and "s = [] \<or> is_space (hd s)"
  shows "split_ws (w @ s) = w # split_ws s"
proof -
  obtain c w' where w: "w = c # w'" using assms(1) by (cases w) auto
  have "dropWhile is_space (w @ s) = c # (w' @ s)" using w assms(2) by simp
  moreover have "takeWhile (\<lambda>x. \<not> is_space x) (w' @ s) = w'"
    using w assms(2,3) by (cases s) (auto simp: takeWhile_append)
  moreover have "dropWhile (\<lambda>x. \<not> is_space x) (w' @ s) = s"
    using w assms(2,3) by (cases s) (auto simp: dropWhile_append)
  ultimately show ?thesis using w by (subst split_ws.simps) simp
qed

text \<open>Joining with one space and splitting again gives the words back.\<close>

lemma split_join:
  "\<forall>w \<in> set ws. w \<noteq> [] \<and> (\<forall>c \<in> set w. \<not> is_space c) \<Longrightarrow> split_ws (join [32] ws) = ws"
proof (induction "[32 :: int]" ws rule: join.induct)
  case 1
  then show ?case by simp
next
  case (2 p)
  then show ?case using split_ws_word [of p "[]"] by simp
next
  case (3 p q ps)
  have "is_space 32" by (simp add: is_space_def)
  then have "split_ws (p @ 32 # join [32] (q # ps)) = p # split_ws (join [32] (q # ps))"
    using 3 split_ws_word [of p "32 # join [32] (q # ps)"] by (simp add: split_ws_space)
  with 3 show ?case by simp
qed

lemma split_ws_join_split [simp]: "split_ws (join [32] (split_ws s)) = split_ws s"
  by (rule split_join) (use split_ws_words in blast)

lemma join_hd: "ws \<noteq> [] \<Longrightarrow> hd ws \<noteq> [] \<Longrightarrow> hd (join sep ws) = hd (hd ws)"
  by (cases ws rule: remdups_adj.cases) auto

lemma join_last: "ws \<noteq> [] \<Longrightarrow> \<forall>w \<in> set ws. w \<noteq> [] \<Longrightarrow> last (join sep ws) = last (last ws)"
proof (induction sep ws rule: join.induct)
  case (3 sep p q ps)
  then have "last (join sep (q # ps)) = last (last (q # ps))" by simp
  moreover have "join sep (q # ps) \<noteq> []"
    using 3(3) by (cases ps) (auto split: if_splits)
  ultimately show ?case by simp
qed auto

lemma join_words_strip:
  assumes "\<forall>w \<in> set ws. w \<noteq> [] \<and> (\<forall>c \<in> set w. \<not> is_space c)"
  shows "strip (join [32] ws) = join [32] ws"
proof (cases ws)
  case Nil
  then show ?thesis by simp
next
  case (Cons w ws')
  have "hd ws \<in> set ws" "last ws \<in> set ws" using Cons by auto
  then have "\<not> is_space (hd (hd ws))" "\<not> is_space (last (last ws))" "hd ws \<noteq> []" "last ws \<noteq> []"
    using assms by auto
  then have "\<not> is_space (hd (join [32] ws))" "\<not> is_space (last (join [32] ws))"
    using Cons assms by (simp_all add: join_hd join_last)
  then show ?thesis by (simp add: strip_id)
qed

lemma split_on_nonempty [simp]: "split_on sep s \<noteq> []"
  by (induction s) (auto split: list.splits)

lemma join_split_on: "join [sep] (split_on sep s) = s"
proof (induction s)
  case Nil
  then show ?case by simp
next
  case (Cons c s)
  obtain p ps where "split_on sep s = p # ps"
    by (cases "split_on sep s") (use split_on_nonempty in auto)
  with Cons show ?case by (cases ps) auto
qed

section \<open>Decimal rendering\<close>

lemma digits_small [simp]: "n < 10 \<Longrightarrow> digits n = [48 + n]"
  by (subst digits.simps) simp

lemma digits_chars: "0 \<le> n \<Longrightarrow> c \<in> set (digits n) \<Longrightarrow> is_digit c"
proof (induction n rule: digits.induct)
  case (1 n)
  show ?case
  proof (cases "n < 10")
    case True
    with "1.prems" show ?thesis by (simp add: is_digit_def)
  next
    case False
    with "1.prems" have "c \<in> set (digits (n div 10)) \<or> c = 48 + n mod 10"
      by (subst (asm) digits.simps) auto
    with "1.IH" False show ?thesis by (auto simp: is_digit_def)
  qed
qed

fun undigits :: "int \<Rightarrow> pystr \<Rightarrow> int" where
  "undigits acc [] = acc"
| "undigits acc (c # s) = undigits (10 * acc + (c - 48)) s"

lemma undigits_append: "undigits acc (s @ t) = undigits (undigits acc s) t"
  by (induction s arbitrary: acc) auto

lemma undigits_digits: "undigits 0 (digits n) = n"
proof (induction n rule: digits.induct)
  case (1 n)
  show ?case
  proof (cases "n < 10")
    case True
    then show ?thesis by simp
  next
    case False
    with 1 show ?thesis by (subst digits.simps) (simp add: undigits_append)
  qed
qed

lemma digits_inj: "digits m = digits n \<Longrightarrow> m = n"
  by (metis undigits_digits)

lemma digits_no_minus: "0 \<le> n \<Longrightarrow> digits n \<noteq> 45 # s"
  using digits_chars [of n 45] by (auto simp: is_digit_def)

lemma str_int_inj: "str_int m = str_int n \<Longrightarrow> m = n"
  using digits_no_minus [of n] digits_no_minus [of m] digits_inj [of m n] digits_inj [of "- m" "- n"]
  by (auto simp: str_int_def split: if_splits) (metis linorder_not_less)+

section \<open>Reading an integer\<close>

text \<open>
  \<open>int(s)\<close>: surrounding white space, an optional sign, decimal digits of any script with single
  underscores between them; anything else is a \<open>ValueError\<close>.
\<close>

definition digit_value :: "unicode \<Rightarrow> int \<Rightarrow> int option" where
  "digit_value U c = (if is_digit c then Some (c - 48) else if c < 128 then None else u_decimal U c)"

fun py_digits :: "unicode \<Rightarrow> int \<Rightarrow> bool \<Rightarrow> pystr \<Rightarrow> int option" where
  "py_digits U acc after [] = (if after then Some acc else None)"
| "py_digits U acc after (c # s) =
     (if c = 95 then (if after then py_digits U acc False s else None)
      else (case digit_value U c of None \<Rightarrow> None | Some d \<Rightarrow> py_digits U (10 * acc + d) True s))"

definition py_int :: "unicode \<Rightarrow> pystr \<Rightarrow> int option" where
  "py_int U s =
     (case strip s of
        [] \<Rightarrow> None
      | c # t \<Rightarrow>
          if c = 45 then map_option uminus (py_digits U 0 False t)
          else if c = 43 then py_digits U 0 False t
          else py_digits U 0 False (c # t))"

lemma py_digits_ascii:
  "\<forall>c \<in> set s. is_digit c \<Longrightarrow> s \<noteq> [] \<or> after \<Longrightarrow> py_digits U acc after s = Some (undigits acc s)"
proof (induction s arbitrary: acc after)
  case (Cons c s)
  then have "c \<noteq> 95" "digit_value U c = Some (c - 48)" by (auto simp: digit_value_def is_digit_def)
  with Cons show ?case by simp
qed simp

lemma digits_nonempty [simp]: "digits n \<noteq> []"
  by (subst digits.simps) simp

lemma digits_strip: "0 \<le> n \<Longrightarrow> strip (digits n) = digits n"
proof (rule strip_id, rule disjI2)
  assume n: "0 \<le> n"
  have "hd (digits n) \<in> set (digits n)" "last (digits n) \<in> set (digits n)" by simp_all
  then have "is_digit (hd (digits n))" "is_digit (last (digits n))" using digits_chars [OF n] by blast+
  then show "\<not> is_space (hd (digits n)) \<and> \<not> is_space (last (digits n))"
    by (simp add: is_digit_def is_space_def)
qed

text \<open>What \<open>str\<close> prints, \<open>int\<close> reads back.\<close>

lemma py_digits_digits: "0 \<le> n \<Longrightarrow> py_digits U 0 False (digits n) = Some n"
  using py_digits_ascii [of "digits n" False U 0] digits_chars [of n] by (simp add: undigits_digits)

lemma py_int_str_int [simp]: "py_int U (str_int n) = Some n"
proof (cases "n < 0")
  case True
  have "last (digits (- n)) \<in> set (digits (- n))" by simp
  then have "\<not> is_space (last (digits (- n)))"
    using digits_chars [of "- n" "last (digits (- n))"] True by (auto simp: is_digit_def is_space_def)
  then have "strip (45 # digits (- n)) = 45 # digits (- n)"
    by (intro strip_id disjI2) (simp add: is_space_def)
  with True show ?thesis by (simp add: py_int_def str_int_def py_digits_digits)
next
  case False
  then obtain c t where ct: "digits n = c # t" by (cases "digits n") auto
  with False digits_chars [of n c] have "c \<noteq> 45" "c \<noteq> 43" by (auto simp: is_digit_def)
  with False ct digits_strip [of n] py_digits_digits [of n U] show ?thesis
    by (simp add: py_int_def str_int_def)
qed

end
