(* ===== verification/Enums.thy ===== *)
theory Enums
  imports PyText
begin

text \<open>
  The enumerations of \<open>shared/enums.py\<close>, their wire values, and the role order behind every
  permission check.
\<close>

datatype role = R_editor | R_admin | R_super_admin

datatype policy = P_auto | P_queue

datatype post_state = Pending | Approved | Scheduled | Published | Rejected | Publishing
  | Publish_failed

datatype ai_mode = AI_off | AI_translate | AI_summarize | AI_retone | AI_custom

datatype event_action = Ev_ingested | Ev_edited | Ev_approved | Ev_rejected | Ev_scheduled
  | Ev_published | Ev_publish_failed | Ev_duplicate | Ev_media_omitted | Ev_draft_posted
  | Ev_ai_transformed | Ev_ai_failed

datatype media_type = MT_photo | MT_video | MT_document | MT_audio | MT_animation | MT_voice
  | MT_video_note

fun role_value :: "role \<Rightarrow> pystr" where
  "role_value R_editor = lit ''editor''"
| "role_value R_admin = lit ''admin''"
| "role_value R_super_admin = lit ''super_admin''"

text \<open>\<open>Role(value)\<close> raises \<open>ValueError\<close> on an unknown value: \<open>None\<close> here.\<close>

definition role_of_value :: "pystr \<Rightarrow> role option" where
  "role_of_value s = List.find (\<lambda>r. role_value r = s) [R_editor, R_admin, R_super_admin]"

fun policy_value :: "policy \<Rightarrow> pystr" where
  "policy_value P_auto = lit ''auto''"
| "policy_value P_queue = lit ''queue''"

fun state_value :: "post_state \<Rightarrow> pystr" where
  "state_value Pending = lit ''pending''"
| "state_value Approved = lit ''approved''"
| "state_value Scheduled = lit ''scheduled''"
| "state_value Published = lit ''published''"
| "state_value Rejected = lit ''rejected''"
| "state_value Publishing = lit ''publishing''"
| "state_value Publish_failed = lit ''publish_failed''"

text \<open>The members in declaration order, as iterating over \<open>PostState\<close> lists them.\<close>

definition all_post_states :: "post_state list" where
  "all_post_states =
     [Pending, Approved, Scheduled, Published, Rejected, Publishing, Publish_failed]"

fun ai_mode_value :: "ai_mode \<Rightarrow> pystr" where
  "ai_mode_value AI_off = lit ''off''"
| "ai_mode_value AI_translate = lit ''translate''"
| "ai_mode_value AI_summarize = lit ''summarize''"
| "ai_mode_value AI_retone = lit ''retone''"
| "ai_mode_value AI_custom = lit ''custom''"

fun media_value :: "media_type \<Rightarrow> pystr" where
  "media_value MT_photo = lit ''photo''"
| "media_value MT_video = lit ''video''"
| "media_value MT_document = lit ''document''"
| "media_value MT_audio = lit ''audio''"
| "media_value MT_animation = lit ''animation''"
| "media_value MT_voice = lit ''voice''"
| "media_value MT_video_note = lit ''video_note''"

fun ROLE_RANK :: "role \<Rightarrow> nat" where
  "ROLE_RANK R_editor = 0"
| "ROLE_RANK R_admin = 1"
| "ROLE_RANK R_super_admin = 2"

definition role_at_least :: "role \<Rightarrow> role \<Rightarrow> bool" where
  "role_at_least held required \<longleftrightarrow> ROLE_RANK held \<ge> ROLE_RANK required"

text \<open>
  The order of roles is the order of their ranks, so the library's facts about linear orders apply
  to permission checks.
\<close>

lemma ROLE_RANK_inj: "ROLE_RANK a = ROLE_RANK b \<Longrightarrow> a = b"
  by (cases a; cases b) auto

instantiation role :: linorder
begin

definition less_eq_role :: "role \<Rightarrow> role \<Rightarrow> bool" where
  "less_eq_role a b \<longleftrightarrow> ROLE_RANK a \<le> ROLE_RANK b"

definition less_role :: "role \<Rightarrow> role \<Rightarrow> bool" where
  "less_role a b \<longleftrightarrow> ROLE_RANK a < ROLE_RANK b"

instance
  by standard (auto simp: less_eq_role_def less_role_def dest: ROLE_RANK_inj)

end

lemma role_at_least_iff: "role_at_least held required \<longleftrightarrow> required \<le> held"
  by (simp add: role_at_least_def less_eq_role_def)

lemma role_value_inj: "role_value a = role_value b \<Longrightarrow> a = b"
  by (cases a; cases b) (auto simp: lit_def)

lemma role_of_value_value [simp]: "role_of_value (role_value r) = Some r"
  by (cases r) (auto simp: role_of_value_def lit_def)

lemma role_of_value_SomeD: "role_of_value s = Some r \<Longrightarrow> role_value r = s"
  by (auto simp: role_of_value_def split: if_splits)

lemma state_value_inj: "state_value a = state_value b \<Longrightarrow> a = b"
  by (cases a; cases b) (auto simp: lit_def)

lemma media_value_inj: "media_value a = media_value b \<Longrightarrow> a = b"
  by (cases a; cases b) (auto simp: lit_def)

lemma all_post_states_complete: "s \<in> set all_post_states"
  by (cases s) (auto simp: all_post_states_def)

text \<open>
  The contract a permission gate has with the role check: a reflexive, transitive, total order in
  which every role passes the gate of a role below it. The endpoints rely on nothing else.
\<close>

locale role_gate =
  fixes allows :: "'role \<Rightarrow> 'role \<Rightarrow> bool"
  assumes allows_refl: "allows r r"
    and allows_trans: "allows a b \<Longrightarrow> allows b c \<Longrightarrow> allows a c"
    and allows_total: "allows a b \<or> allows b a"
begin

text \<open>A holder refused at a gate is refused at every higher gate.\<close>

lemma refused_above: "\<not> allows held low \<Longrightarrow> allows high low \<Longrightarrow> \<not> allows held high"
  using allows_trans by blast

lemma refused_below_gate: "\<not> allows held r \<Longrightarrow> allows r held"
  using allows_total by blast

end

interpretation rank: role_gate role_at_least
  by unfold_locales (auto simp: role_at_least_def)

end
