(* ===== verification/Models.thy ===== *)
theory Models
  imports Enums
begin

text \<open>
  The rows of the relational schema in \<open>shared/models.py\<close>, the errors the code raises, and the
  database as one record of tables. Times are microseconds since the epoch in UTC.
\<close>

type_synonym time = int

definition seconds :: "int \<Rightarrow> time" where
  "seconds n = n * 1000000"

definition minutes :: "int \<Rightarrow> time" where
  "minutes n = n * 60 * 1000000"

definition days :: "int \<Rightarrow> time" where
  "days n = n * 86400 * 1000000"

section \<open>Errors\<close>

text \<open>
  The exceptions that flow through the modelled code: HTTP errors of the back office, database
  constraint violations, errors of the Telegram clients, and the rest by class name.
\<close>

datatype exn =
    HTTPException int pystr
  | IntegrityError
  | UnmappedInstanceError
  | TelegramRetryAfter int
  | TelegramAPIError pystr
  | FloodWaitError int
  | ConnectionError pystr
  | AITransformError pystr
  | RuntimeError pystr
  | OtherError pystr

type_synonym 'a result = "exn + 'a"

text \<open>\<open>str(exc)\<close>, cut where the code cuts it. Messages of library errors are opaque.\<close>

fun exn_text :: "exn \<Rightarrow> pystr" where
  "exn_text (TelegramAPIError m) = m"
| "exn_text (AITransformError m) = m"
| "exn_text (RuntimeError m) = m"
| "exn_text (OtherError m) = m"
| "exn_text (HTTPException c m) = m"
| "exn_text IntegrityError = lit ''IntegrityError''"
| "exn_text UnmappedInstanceError = lit ''UnmappedInstanceError''"
| "exn_text (TelegramRetryAfter n) = lit ''TelegramRetryAfter''"
| "exn_text (FloodWaitError n) = lit ''FloodWaitError''"
| "exn_text (ConnectionError m) = m"

section \<open>JSON values\<close>

datatype json = JNull | JBool bool | JInt int | JStr pystr | JList "json list"

type_synonym payload = "(string \<times> json) list"

text \<open>
  One item of \<open>raw_media_refs\<close>: a key that is missing and a key that holds \<open>null\<close>
  read the same through \<open>dict.get\<close>.
\<close>

record media_ref =
  mr_type :: "pystr option"
  mr_file :: "pystr option"
  mr_size :: "int option"
  mr_mime :: "pystr option"
  mr_omitted :: bool

section \<open>Rows\<close>

record admin =
  admin_id :: int
  username :: pystr
  password_hash :: pystr
  admin_role :: role
  tg_user_id :: "int option"
  admin_created_at :: time
  disabled_at :: "time option"

record tag =
  tag_id :: int
  slug :: pystr
  label :: pystr
  color :: "pystr option"
  tag_created_at :: time

record template =
  template_id :: int
  template_name :: pystr
  template_body :: pystr
  template_created_at :: time

record source_channel =
  channel_id :: int
  telegram_channel_id :: int
  title :: pystr
  channel_username :: "pystr option"
  ingestion_enabled :: bool
  channel_policy :: policy
  default_tag_ids :: "int list"
  normalization_template_id :: "int option"
  max_media_size_bytes :: int
  source_label :: "pystr option"
  ai_enabled :: bool
  channel_ai_mode :: ai_mode
  ai_target_language :: "pystr option"
  ai_tone_prompt :: "pystr option"
  ai_custom_system_prompt :: "pystr option"
  watermark_enabled :: bool
  watermark_text :: "pystr option"
  strip_source_tags :: bool
  channel_created_at :: time

record source_channel_tag =
  sct_channel_id :: int
  sct_tag_id :: int

record post =
  post_id :: int
  source_channel_id :: int
  source_message_id :: int
  raw_text :: "pystr option"
  raw_media_refs :: "media_ref list"
  received_at :: time
  post_state :: post_state
  normalized_text :: "pystr option"
  ai_transformed_text :: "pystr option"
  media_paths :: "pystr list"
  tag_ids :: "int list"
  scheduled_for :: "time option"
  published_message_id :: "int option"
  published_at :: "time option"
  dedupe_hash :: "pystr option"
  draft_message_id :: "int option"
  created_by :: "int option"
  handled_by :: "int option"
  post_created_at :: time
  updated_at :: time

record post_event =
  event_id :: int
  event_post_id :: int
  actor_admin_id :: "int option"
  event_action :: event_action
  event_payload :: payload
  event_created_at :: time

record published_dedupe =
  pd_id :: int
  pd_hash :: pystr
  pd_published_at :: time

section \<open>The database\<close>

text \<open>
  One field per table, the rows in insertion order, and the sequences that hand out primary keys.
\<close>

record db =
  admins :: "admin list"
  tags :: "tag list"
  templates :: "template list"
  source_channels :: "source_channel list"
  source_channel_tags :: "source_channel_tag list"
  posts :: "post list"
  post_events :: "post_event list"
  dedupe_rows :: "published_dedupe list"
  next_id :: int

abbreviation get_post :: "db \<Rightarrow> int \<Rightarrow> post option" where
  "get_post d \<equiv> tget post_id (posts d)"

abbreviation get_channel :: "db \<Rightarrow> int \<Rightarrow> source_channel option" where
  "get_channel d \<equiv> tget channel_id (source_channels d)"

abbreviation get_template :: "db \<Rightarrow> int \<Rightarrow> template option" where
  "get_template d \<equiv> tget template_id (templates d)"

abbreviation get_tag :: "db \<Rightarrow> int \<Rightarrow> tag option" where
  "get_tag d \<equiv> tget tag_id (tags d)"

abbreviation get_admin :: "db \<Rightarrow> int \<Rightarrow> admin option" where
  "get_admin d \<equiv> tget admin_id (admins d)"

text \<open>
  Writing back a loaded post at commit: SQLAlchemy emits the UPDATE, which bumps
  \<open>updated_at\<close>, only when a column changed.
\<close>

definition save_post :: "time \<Rightarrow> post \<Rightarrow> db \<Rightarrow> db" where
  "save_post now p d =
     (if get_post d (post_id p) = Some p then d
      else d\<lparr>posts := tput post_id (p\<lparr>updated_at := now\<rparr>) (posts d)\<rparr>)"

text \<open>Appending one audit event.\<close>

definition add_event :: "time \<Rightarrow> int \<Rightarrow> int option \<Rightarrow> event_action \<Rightarrow> payload \<Rightarrow> db \<Rightarrow> db" where
  "add_event now pid actor act pl d =
     d\<lparr>post_events := tadd \<lparr>event_id = next_id d, event_post_id = pid, actor_admin_id = actor,
           event_action = act, event_payload = pl, event_created_at = now\<rparr> (post_events d),
       next_id := next_id d + 1\<rparr>"

text \<open>A freshly inserted post: the column defaults of the model.\<close>

definition new_post :: "int \<Rightarrow> int \<Rightarrow> int \<Rightarrow> pystr option \<Rightarrow> time \<Rightarrow> post" where
  "new_post pid cid mid txt now =
     \<lparr>post_id = pid, source_channel_id = cid, source_message_id = mid, raw_text = txt,
      raw_media_refs = [], received_at = now, post_state = Pending, normalized_text = None,
      ai_transformed_text = None, media_paths = [], tag_ids = [], scheduled_for = None,
      published_message_id = None, published_at = None, dedupe_hash = None,
      draft_message_id = None, created_by = None, handled_by = None, post_created_at = now,
      updated_at = now\<rparr>"

section \<open>Frame facts\<close>

lemma save_post_fields [frame, simp]:
  "admins (save_post now p d) = admins d" "tags (save_post now p d) = tags d"
  "templates (save_post now p d) = templates d"
  "source_channels (save_post now p d) = source_channels d"
  "source_channel_tags (save_post now p d) = source_channel_tags d"
  "post_events (save_post now p d) = post_events d"
  "dedupe_rows (save_post now p d) = dedupe_rows d"
  "next_id (save_post now p d) = next_id d"
  by (simp_all add: save_post_def)

lemma add_event_fields [frame, simp]:
  "admins (add_event now pid a act pl d) = admins d" "tags (add_event now pid a act pl d) = tags d"
  "templates (add_event now pid a act pl d) = templates d"
  "source_channels (add_event now pid a act pl d) = source_channels d"
  "source_channel_tags (add_event now pid a act pl d) = source_channel_tags d"
  "posts (add_event now pid a act pl d) = posts d"
  "dedupe_rows (add_event now pid a act pl d) = dedupe_rows d"
  by (simp_all add: add_event_def)

lemma post_events_add_event [simp]:
  "post_events (add_event now pid a act pl d) = post_events d @ [\<lparr>event_id = next_id d,
     event_post_id = pid, actor_admin_id = a, event_action = act, event_payload = pl,
     event_created_at = now\<rparr>]"
  by (simp add: add_event_def tadd_def)

lemma get_post_save_same:
  "get_post d (post_id p) \<noteq> None \<Longrightarrow>
   \<exists>q. get_post (save_post now p d) (post_id p) = Some q \<and> q\<lparr>updated_at := 0\<rparr> = p\<lparr>updated_at := 0\<rparr>"
  by (auto simp: save_post_def table_simps)

lemma get_post_save_other:
  "k \<noteq> post_id p \<Longrightarrow> get_post (save_post now p d) k = get_post d k"
  by (auto simp: save_post_def table_simps)

text \<open>What is read of a saved post: every column but the bookkeeping stamp.\<close>

lemma get_post_save:
  assumes "get_post d k = Some p0" and "post_id p = k"
  shows "\<exists>u. get_post (save_post now p d) k = Some (p\<lparr>updated_at := u\<rparr>)"
proof (cases "get_post d k = Some p")
  case True
  with assms(2) have "get_post (save_post now p d) k = Some (p\<lparr>updated_at := updated_at p\<rparr>)"
    by (simp add: save_post_def)
  then show ?thesis by blast
next
  case False
  with assms show ?thesis by (auto simp: save_post_def table_simps)
qed

lemma keys_posts_save [simp]: "keys post_id (posts (save_post now p d)) = keys post_id (posts d)"
  by (simp add: save_post_def)

end
