(* ===== verification/Transform.thy ===== *)
theory Transform
  imports Config "HOL-Library.Sublist"
begin

text \<open>
  The AI transformation layer of \<open>shared/transform.py\<close>: prompt selection, the call to the
  OpenAI-compatible endpoint (a parameter) with its error paths, and the watermark step, a text
  operation on its own.
\<close>

section \<open>System prompts\<close>

definition TRANSLATE_SYSTEM :: "pystr \<Rightarrow> pystr" where
  "TRANSLATE_SYSTEM language =
     lit ''You are a professional translator. Translate the following message '' @
     lit ''into '' @ language @ lit ''. Preserve the original formatting, line breaks, and '' @
     lit ''any markdown/HTML tags. Do NOT add any commentary or explanation '' @ [8212] @
     lit '' return only the translated text.''"

definition SUMMARIZE_SYSTEM :: pystr where
  "SUMMARIZE_SYSTEM =
     lit ''You are a professional editor. Summarize the following message into '' @
     lit ''concise bullet points. Keep the key facts, strip opinion and filler. '' @
     lit ''Use the same language as the original unless instructed otherwise. '' @
     lit ''Return only the bullet-point summary, no preamble.''"

definition RETONE_SYSTEM :: "pystr \<Rightarrow> pystr" where
  "RETONE_SYSTEM tone =
     lit ''You are a professional copywriter. Rewrite the following message to '' @
     lit ''match this tone/style: '' @ tone @ lit ''. Preserve all factual information but '' @
     lit ''adjust the language, formality, and voice accordingly. Return only '' @
     lit ''the rewritten text.''"

fun build_system_prompt ::
  "ai_mode \<Rightarrow> pystr option \<Rightarrow> pystr option \<Rightarrow> pystr option \<Rightarrow> pystr" where
  "build_system_prompt AI_translate lang tone custom =
     TRANSLATE_SYSTEM (or_else lang (lit ''Persian''))"
| "build_system_prompt AI_summarize lang tone custom = SUMMARIZE_SYSTEM"
| "build_system_prompt AI_retone lang tone custom =
     RETONE_SYSTEM (or_else tone (lit ''professional and concise''))"
| "build_system_prompt AI_custom lang tone custom =
     or_else custom (lit ''You are a helpful assistant. Process the text below.'')"
| "build_system_prompt AI_off lang tone custom = []"

section \<open>The LLM call\<close>

record transform_result =
  tr_text :: pystr
  tr_model :: pystr
  tr_prompt_tokens :: int
  tr_completion_tokens :: int
  tr_latency_ms :: int

record llm_request =
  rq_model :: pystr
  rq_system :: pystr
  rq_user :: pystr
  rq_max_tokens :: int
  rq_timeout :: int

text \<open>
  What the client library gives back: the contents of the returned choices (\<open>None\<close> for a
  choice without content), the model name, the token usage, and the measured latency.
\<close>

record llm_response =
  rs_choices :: "pystr option list"
  rs_model :: "pystr option"
  rs_usage :: "(int \<times> int) option"
  rs_latency_ms :: int

text \<open>
  The parameter \<open>llm\<close>: \<open>None\<close> when the \<open>openai\<close> package cannot be imported, else the
  outcome of \<open>chat.completions.create\<close>.
\<close>

type_synonym llm = "(llm_request \<Rightarrow> llm_response result) option"

definition transform_text ::
  "settings \<Rightarrow> llm \<Rightarrow> pystr \<Rightarrow> ai_mode \<Rightarrow> pystr option \<Rightarrow> pystr option \<Rightarrow> pystr option
   \<Rightarrow> pystr option \<Rightarrow> int option \<Rightarrow> int option \<Rightarrow> transform_result result" where
  "transform_text s client raw mode lang tone custom model max_tokens timeout =
     (if mode = AI_off then
        Inr \<lparr>tr_text = raw, tr_model = lit ''none'', tr_prompt_tokens = 0,
             tr_completion_tokens = 0, tr_latency_ms = 0\<rparr>
      else if ai_api_key s = [] then
        Inl (AITransformError (lit ''AI_API_KEY is not configured''))
      else
        let system_prompt = build_system_prompt mode lang tone custom;
            effective_model = or_else model (ai_model s);
            effective_max_tokens = (case max_tokens of None \<Rightarrow> ai_max_tokens s | Some n \<Rightarrow> n);
            effective_timeout = (case timeout of None \<Rightarrow> ai_timeout_seconds s | Some n \<Rightarrow> n)
        in (case client of
              None \<Rightarrow> Inl (AITransformError
                (lit ''The 'openai' package is required for AI transformations. Install it with: pip install openai>=1.30.0''))
            | Some create \<Rightarrow>
                (case create \<lparr>rq_model = effective_model, rq_system = system_prompt, rq_user = raw,
                              rq_max_tokens = effective_max_tokens, rq_timeout = effective_timeout\<rparr> of
                   Inl exc \<Rightarrow> Inl (AITransformError (lit ''LLM API call failed: '' @ exn_text exc))
                 | Inr response \<Rightarrow>
                     (case rs_choices response of
                        [] \<Rightarrow> Inl (AITransformError (lit ''LLM returned an empty response''))
                      | content # _ \<Rightarrow>
                          if \<not> truthy content then
                            Inl (AITransformError (lit ''LLM returned an empty response''))
                          else
                            Inr \<lparr>tr_text = strip (the content),
                                 tr_model = or_else (rs_model response) effective_model,
                                 tr_prompt_tokens = (case rs_usage response of None \<Rightarrow> 0 | Some (p, c) \<Rightarrow> p),
                                 tr_completion_tokens = (case rs_usage response of None \<Rightarrow> 0 | Some (p, c) \<Rightarrow> c),
                                 tr_latency_ms = rs_latency_ms response\<rparr>))))"

text \<open>Every failure surfaces as an \<open>AITransformError\<close>, the only class callers must handle.\<close>

lemma transform_text_errors:
  "transform_text s client raw mode lang tone custom model mt tmo = Inl e
   \<Longrightarrow> \<exists>m. e = AITransformError m"
  by (auto simp: transform_text_def Let_def split: if_splits option.splits sum.splits list.splits)

lemma transform_text_off:
  "\<exists>r. transform_text s client raw AI_off lang tone custom model mt tmo = Inr r \<and> tr_text r = raw"
  by (simp add: transform_text_def)

lemma transform_text_stripped:
  "transform_text s client raw mode lang tone custom model mt tmo = Inr r \<Longrightarrow> mode \<noteq> AI_off
   \<Longrightarrow> strip (tr_text r) = tr_text r"
  by (auto simp: transform_text_def Let_def split: if_splits option.splits sum.splits list.splits)

section \<open>Stripping source tags and stamping the brand\<close>

text \<open>
  \<open>re.sub(m + "\\w+", "", s)\<close> for a one-character marker: scan from the left, drop the marker and
  the longest run of word characters after it.
\<close>

function sub_tag :: "unicode \<Rightarrow> int \<Rightarrow> pystr \<Rightarrow> pystr" where
  "sub_tag U m [] = []"
| "sub_tag U m (c # s) =
     (if c = m \<and> s \<noteq> [] \<and> is_word U (hd s) then sub_tag U m (dropWhile (is_word U) s)
      else c # sub_tag U m s)"
  by pat_completeness auto
termination
  by (relation "measure (\<lambda>(U, m, s). length s)") (auto simp: le_imp_less_Suc length_dropWhile_le)

fun strip_prefix :: "pystr \<Rightarrow> pystr \<Rightarrow> pystr option" where
  "strip_prefix [] s = Some s"
| "strip_prefix (p # ps) [] = None"
| "strip_prefix (p # ps) (c # s) = (if p = c then strip_prefix ps s else None)"

text \<open>\<open>https?://t\\.me/\\S+\<close> at the start of the text: what follows the match.\<close>

definition link_head :: "pystr \<Rightarrow> pystr option" where
  "link_head s = (case strip_prefix (lit ''https://t.me/'') s of
      Some r \<Rightarrow> Some r
    | None \<Rightarrow> strip_prefix (lit ''http://t.me/'') s)"

definition link_rest :: "pystr \<Rightarrow> pystr option" where
  "link_rest s = (case link_head s of
      None \<Rightarrow> None
    | Some r \<Rightarrow> if r \<noteq> [] \<and> \<not> is_space (hd r) then Some (dropWhile (\<lambda>c. \<not> is_space c) r) else None)"

lemma strip_prefix_Some: "strip_prefix p s = Some r \<longleftrightarrow> s = p @ r"
  by (induction p s rule: strip_prefix.induct) auto

lemma link_rest_length: "link_rest s = Some r \<Longrightarrow> length r < length s"
proof -
  assume "link_rest s = Some r"
  then obtain q where q: "link_head s = Some q" "r = dropWhile (\<lambda>c. \<not> is_space c) q"
    by (auto simp: link_rest_def split: option.splits if_splits)
  then have "length q < length s"
    by (auto simp: link_head_def strip_prefix_Some lit_def split: option.splits)
  with q show ?thesis by (metis le_less_trans length_dropWhile_le)
qed

function sub_link :: "pystr \<Rightarrow> pystr" where
  "sub_link s = (case link_rest s of
      Some r \<Rightarrow> sub_link r
    | None \<Rightarrow> (case s of [] \<Rightarrow> [] | c # t \<Rightarrow> c # sub_link t))"
  by pat_completeness auto
termination
  by (relation "measure length") (auto simp: link_rest_length)

declare sub_link.simps [simp del]

text \<open>\<open>re.sub("\\n{3,}", "\\n\\n", s)\<close>.\<close>

function collapse_newlines :: "pystr \<Rightarrow> pystr" where
  "collapse_newlines [] = []"
| "collapse_newlines (c # s) =
     (if c = 10 \<and> take 2 s = [10, 10] then 10 # 10 # collapse_newlines (dropWhile (\<lambda>x. x = 10) s)
      else c # collapse_newlines s)"
  by pat_completeness auto
termination
  by (relation "measure length") (auto simp: le_imp_less_Suc length_dropWhile_le)

definition strip_tags :: "unicode \<Rightarrow> pystr \<Rightarrow> pystr" where
  "strip_tags U text = strip (collapse_newlines (sub_link (sub_tag U 64 (sub_tag U 35 text))))"

definition apply_watermark :: "unicode \<Rightarrow> pystr \<Rightarrow> pystr option \<Rightarrow> bool \<Rightarrow> pystr" where
  "apply_watermark U text watermark strip_source =
     (let result = (if strip_source then strip_tags U text else text)
      in if truthy watermark then rstrip result @ [10, 10] @ the watermark else result)"

end
