(* ===== verification/World.thy ===== *)
theory World
  imports Config Transform
begin

text \<open>
  The world the services act on: the database, the job queues in Redis, the calls made to the Bot
  API, the media directory and the clock. The environment holds the settings and everything that
  is not part of the repository: hashing, templates, the language model, Telegram and Redis.
\<close>

section \<open>Jobs\<close>

text \<open>The two queues and the job names of \<open>shared/tasks.py\<close>.\<close>

datatype job_name = JOB_NORMALIZE | JOB_PUBLISH | JOB_POST_DRAFT | JOB_PRUNE_DEDUPE | JOB_ALERT

datatype queue = QUEUE_WORKER | QUEUE_BOT

record job =
  job_name :: job_name
  job_args :: "json list"
  job_queue :: queue
  job_defer :: "time option"

section \<open>The Bot API\<close>

datatype button = Callback_button pystr pystr | Url_button pystr pystr

type_synonym keyboard = "button list list"

datatype send_kind = Photo | Video | Animation | Audio | Voice | Video_note | Document

datatype group_kind = InputMediaPhoto | InputMediaVideo | InputMediaDocument

datatype tg_call =
    Send_message int pystr "keyboard option"
  | Send_media send_kind int pystr "pystr option"
  | Send_media_group int "(group_kind \<times> pystr) list"
  | Edit_message_text int int pystr keyboard
  | Answer_callback pystr bool

datatype tg_outcome = Delivered int | Retry_after int | Refused pystr | Broken pystr

fun call_chat :: "tg_call \<Rightarrow> int option" where
  "call_chat (Send_message c t k) = Some c"
| "call_chat (Send_media k c f cap) = Some c"
| "call_chat (Send_media_group c g) = Some c"
| "call_chat (Edit_message_text c m t k) = Some c"
| "call_chat (Answer_callback t alert) = None"

text \<open>The text a call puts in front of the readers of a chat.\<close>

fun call_text :: "tg_call \<Rightarrow> pystr option" where
  "call_text (Send_message c t k) = Some t"
| "call_text (Send_media k c f cap) = cap"
| "call_text (Send_media_group c g) = None"
| "call_text (Edit_message_text c m t k) = Some t"
| "call_text (Answer_callback t alert) = None"

text \<open>A call that creates a new message, as opposed to editing or answering.\<close>

fun is_send :: "tg_call \<Rightarrow> bool" where
  "is_send (Send_message c t k) = True"
| "is_send (Send_media k c f cap) = True"
| "is_send (Send_media_group c g) = True"
| "is_send (Edit_message_text c m t k) = False"
| "is_send (Answer_callback t alert) = False"

definition is_delivered :: "tg_outcome \<Rightarrow> bool" where
  "is_delivered out' \<longleftrightarrow> (case out' of Delivered n \<Rightarrow> True | _ \<Rightarrow> False)"

text \<open>\<open>TelegramRetryAfter\<close> is a subclass of \<open>TelegramAPIError\<close>.\<close>

fun is_telegram_error :: "exn \<Rightarrow> bool" where
  "is_telegram_error (TelegramAPIError m) = True"
| "is_telegram_error (TelegramRetryAfter n) = True"
| "is_telegram_error e = False"

section \<open>World and environment\<close>

record world =
  wdb :: db
  wjobs :: "job list"
  wpool :: bool
  wcalls :: "(tg_call \<times> tg_outcome) list"
  wfiles :: "(pystr \<times> time) list"
  wclock :: time

text \<open>
  The environment. \<open>jinja body text source_label tags\<close> is \<open>from_string(body).render(...)\<close>;
  \<open>telegram\<close> answers a call given the calls made before it; \<open>redis_create\<close> and
  \<open>redis_push\<close> say whether opening the pool and pushing a job raise; \<open>orm_add_statement\<close>
  is what \<open>AsyncSession.add\<close> raises when it is given a Core statement instead of a mapped
  object; \<open>hd_quote\<close> is the HTML quoting of the bot library.
\<close>

record env =
  cfg :: settings
  uni :: unicode
  sha256_hex :: "pystr \<Rightarrow> pystr"
  jinja :: "pystr \<Rightarrow> pystr \<Rightarrow> pystr \<Rightarrow> pystr \<Rightarrow> pystr result"
  openai :: llm
  telegram :: "(tg_call \<times> tg_outcome) list \<Rightarrow> tg_call \<Rightarrow> tg_outcome"
  redis_create :: "job list \<Rightarrow> exn option"
  redis_push :: "job list \<Rightarrow> job \<Rightarrow> exn option"
  orm_add_statement :: "exn option"
  hd_quote :: "pystr \<Rightarrow> pystr"

type_synonym 'a eff = "world \<Rightarrow> 'a result \<times> world"

definition sleep :: "time \<Rightarrow> world \<Rightarrow> world" where
  "sleep t w = w\<lparr>wclock := wclock w + t\<rparr>"

lemma sleep_fields [frame, simp]:
  "wdb (sleep t w) = wdb w" "wjobs (sleep t w) = wjobs w" "wpool (sleep t w) = wpool w"
  "wcalls (sleep t w) = wcalls w" "wfiles (sleep t w) = wfiles w"
  "wclock (sleep t w) = wclock w + t"
  by (simp_all add: sleep_def)

text \<open>One request to the Bot API: the call and its outcome are recorded.\<close>

definition tg_do :: "env \<Rightarrow> tg_call \<Rightarrow> int eff" where
  "tg_do E c w =
     (let out' = telegram E (wcalls w) c; w' = w\<lparr>wcalls := wcalls w @ [(c, out')]\<rparr>
      in case out' of
           Delivered n \<Rightarrow> (Inr n, w')
         | Retry_after n \<Rightarrow> (Inl (TelegramRetryAfter n), w')
         | Refused m \<Rightarrow> (Inl (TelegramAPIError m), w')
         | Broken m \<Rightarrow> (Inl (OtherError m), w'))"

lemma tg_do_world: "snd (tg_do E c w) = w\<lparr>wcalls := wcalls w @ [(c, telegram E (wcalls w) c)]\<rparr>"
  by (simp add: tg_do_def Let_def split: tg_outcome.split)

lemma tg_do_frame [frame, simp]:
  "wdb (snd (tg_do E c w)) = wdb w" "wjobs (snd (tg_do E c w)) = wjobs w"
  "wfiles (snd (tg_do E c w)) = wfiles w" "wclock (snd (tg_do E c w)) = wclock w"
  "wpool (snd (tg_do E c w)) = wpool w"
  by (simp_all add: tg_do_world)

lemma tg_do_ok: "fst (tg_do E c w) = Inr n \<longleftrightarrow> telegram E (wcalls w) c = Delivered n"
  by (auto simp: tg_do_def Let_def split: tg_outcome.split)

text \<open>
  A small concrete environment and an empty world, for evaluating the definitions on examples:
  hashing is the identity, a template renders to its text, every call is delivered.
\<close>

definition sample_env :: env where
  "sample_env = \<lparr>
     cfg = default_settings\<lparr>destination_channel_id := -100, editor_group_id := -200\<rparr>,
     uni = \<lparr>u_lower = (\<lambda>s. s), u_word = (\<lambda>c. True), u_decimal = (\<lambda>c. None)\<rparr>, sha256_hex = (\<lambda>s. s),
     jinja = (\<lambda>b t l g. Inr t), openai = None, telegram = (\<lambda>h c. Delivered 7),
     redis_create = (\<lambda>js. None), redis_push = (\<lambda>js j. None),
     orm_add_statement = Some UnmappedInstanceError, hd_quote = (\<lambda>s. s)\<rparr>"

definition sample_channel :: source_channel where
  "sample_channel = \<lparr>
     channel_id = 3, telegram_channel_id = -500, title = lit ''Src'', channel_username = None,
     ingestion_enabled = True, channel_policy = P_auto, default_tag_ids = [5],
     normalization_template_id = None, max_media_size_bytes = 1000, source_label = None,
     ai_enabled = False, channel_ai_mode = AI_off, ai_target_language = None, ai_tone_prompt = None,
     ai_custom_system_prompt = None, watermark_enabled = False, watermark_text = None,
     strip_source_tags = False, channel_created_at = 0\<rparr>"

definition sample_db :: "post list \<Rightarrow> published_dedupe list \<Rightarrow> db" where
  "sample_db ps rows = \<lparr>admins = [], tags = [], templates = [], source_channels = [sample_channel],
     source_channel_tags = [], posts = ps, post_events = [], dedupe_rows = rows, next_id = 100\<rparr>"

definition sample_world :: "post list \<Rightarrow> published_dedupe list \<Rightarrow> world" where
  "sample_world ps rows = \<lparr>wdb = sample_db ps rows, wjobs = [], wpool = True, wcalls = [],
     wfiles = [], wclock = days 1000\<rparr>"

definition sample_post :: post where
  "sample_post = new_post 9 3 41 (Some (lit ''hi'')) 0"

lemmas sample_defs = sample_env_def sample_channel_def sample_db_def sample_world_def sample_post_def
  new_post_def default_settings_def

lemma sample_redis_up: "redis_create sample_env = (\<lambda>js. None)" "redis_push sample_env = (\<lambda>js j. None)"
  by (simp_all add: sample_env_def)

end
