(* ===== verification/NormalizeText.thy ===== *)
theory NormalizeText
  imports World
begin

text \<open>
  Template rendering and tag labels, \<open>shared/normalize.py\<close>. Jinja2 is a parameter of the
  environment; what the code wraps around it (defaults, stripping, the tag string) is here.
\<close>

definition DEFAULT_TEMPLATE_BODY :: pystr where
  "DEFAULT_TEMPLATE_BODY =
     lit ''{% if tags %}{{ tags }}'' @ [10] @ lit ''{% endif %}'' @
     lit ''{{ text }}'' @ [10, 10] @
     [8212] @ lit '' {{ source_label }}''"

definition render_template :: "env \<Rightarrow> pystr \<Rightarrow> pystr \<Rightarrow> pystr \<Rightarrow> pystr \<Rightarrow> pystr result" where
  "render_template E body text source tags' =
     (case jinja E body text source tags' of Inl e \<Rightarrow> Inl e | Inr out' \<Rightarrow> Inr (strip out'))"

definition format_tag_string :: "unicode \<Rightarrow> pystr list \<Rightarrow> pystr" where
  "format_tag_string U labels =
     join [32] (map (\<lambda>l. 35 # replace_char 32 95 (py_lower U l)) (filter (\<lambda>l. l \<noteq> []) labels))"

text \<open>The rows come back in table order, whatever the order of the ids.\<close>

definition resolve_tag_labels :: "db \<Rightarrow> int list \<Rightarrow> pystr list" where
  "resolve_tag_labels d ids =
     (if ids = [] then [] else map label (filter (\<lambda>t. tag_id t \<in> set ids) (tags d)))"

definition normalize_text :: "env \<Rightarrow> db \<Rightarrow> pystr \<Rightarrow> pystr \<Rightarrow> pystr \<Rightarrow> int list \<Rightarrow> pystr result" where
  "normalize_text E d body raw source ids =
     (let labels = resolve_tag_labels d ids
      in render_template E body raw source (format_tag_string (uni E) labels))"

lemma normalize_text_stripped: "normalize_text E d b r s ids = Inr out' \<Longrightarrow> strip out' = out'"
  by (auto simp: normalize_text_def render_template_def Let_def split: sum.splits)

text \<open>
  The tag string of labels that hold no white space but the blank: one hashtag per non-empty label,
  blanks turned into underscores.
\<close>

definition tag_word :: "pystr \<Rightarrow> pystr" where
  "tag_word l = 35 # replace_char 32 95 (map ascii_lower l)"

definition plain_label :: "pystr \<Rightarrow> bool" where
  "plain_label l \<longleftrightarrow> l \<noteq> [] \<and> (\<forall>c \<in> set l. c < 128 \<and> (is_space c \<longrightarrow> c = 32))"

lemma is_space_ascii_lower: "is_space (ascii_lower c) = is_space c"
  by (auto simp: is_space_def ascii_lower_def is_upper_def)

lemma tag_word_ok: "plain_label l \<Longrightarrow> tag_word l \<noteq> [] \<and> (\<forall>c \<in> set (tag_word l). \<not> is_space c)"
proof -
  assume l: "plain_label l"
  have s: "\<not> is_space 35" "\<not> is_space 95" by (simp_all add: is_space_def)
  have "ascii_lower c \<noteq> 32 \<Longrightarrow> \<not> is_space (ascii_lower c)" if "c \<in> set l" for c
  proof
    assume "ascii_lower c \<noteq> 32" "is_space (ascii_lower c)"
    then have "c \<noteq> 32" "is_space c"
      using is_space_ascii_lower by (auto simp: ascii_lower_def is_upper_def split: if_splits)
    with l that show False by (auto simp: plain_label_def)
  qed
  with s show ?thesis by (auto simp: tag_word_def replace_char_def)
qed

lemma format_tag_string_words:
  assumes "\<forall>l \<in> set labels. plain_label l"
  shows "split_ws (format_tag_string U labels) = map tag_word labels"
proof -
  have f: "filter (\<lambda>l. l \<noteq> []) labels = labels"
    using assms by (auto simp: filter_id_conv plain_label_def)
  have m: "map (\<lambda>l. 35 # replace_char 32 95 (py_lower U l)) labels = map tag_word labels"
    using assms by (auto simp: tag_word_def py_lower_def plain_label_def)
  have "\<forall>w \<in> set (map tag_word labels). w \<noteq> [] \<and> (\<forall>c \<in> set w. \<not> is_space c)"
    using assms tag_word_ok by auto
  then show ?thesis by (simp only: format_tag_string_def f m split_join)
qed

end
