(* ===== verification/Dedupe.thy ===== *)
theory Dedupe
  imports Models "HOL-Library.Product_Lexorder"
begin

text \<open>
  The dedupe key of \<open>shared/dedupe.py\<close>. The parameter \<open>H\<close> stands for
  \<open>hashlib.sha256(s.encode("utf-8")).hexdigest()\<close>; the collision freedom the code relies on is
  stated for the strings at hand, never for all strings.
\<close>

definition text_fingerprint ::
  "unicode \<Rightarrow> (pystr \<Rightarrow> pystr) \<Rightarrow> pystr option \<Rightarrow> pystr" where
  "text_fingerprint U H t =
     (let cleaned = py_lower U (strip (join [32] (split_ws (or_else t [])))) in H cleaned)"

text \<open>The sort key \<open>(r.get("type", ""), r.get("size") or 0)\<close> and one rendered part.\<close>

definition media_sort_key :: "media_ref \<Rightarrow> pystr \<times> int" where
  "media_sort_key r = ((case mr_type r of None \<Rightarrow> [] | Some t \<Rightarrow> t),
                       (case mr_size r of None \<Rightarrow> 0 | Some n \<Rightarrow> n))"

definition media_part :: "media_ref \<Rightarrow> pystr" where
  "media_part r =
     (let mtype = (case mr_type r of None \<Rightarrow> [] | Some t \<Rightarrow> t);
          size' = (case mr_size r of None \<Rightarrow> 0 | Some n \<Rightarrow> n);
          mime = or_else (mr_mime r) []
      in mtype @ [58] @ str_int size' @ [58] @ mime)"

definition media_parts :: "media_ref list \<Rightarrow> pystr" where
  "media_parts refs = join [124] (map media_part (sort_key media_sort_key refs))"

definition media_fingerprint :: "(pystr \<Rightarrow> pystr) \<Rightarrow> media_ref list \<Rightarrow> pystr" where
  "media_fingerprint H refs = H (media_parts refs)"

definition compute_dedupe_hash ::
  "unicode \<Rightarrow> (pystr \<Rightarrow> pystr) \<Rightarrow> pystr option \<Rightarrow> media_ref list \<Rightarrow> pystr" where
  "compute_dedupe_hash U H t refs =
     H (text_fingerprint U H t @ [58] @ media_fingerprint H refs)"

definition local_media_path ::
  "unicode \<Rightarrow> pystr \<Rightarrow> int \<Rightarrow> int \<Rightarrow> pystr \<Rightarrow> media_type \<Rightarrow> pystr" where
  "local_media_path U dir pid index ext mtype =
     (let stripped = dropWhile (\<lambda>c. c = 46) ext;
          safe_ext = (if py_lower U stripped = [] then lit ''bin'' else py_lower U stripped)
      in path_join dir (str_int pid @ [95] @ str_int index @ [95] @ media_value mtype @ [46] @ safe_ext))"

section \<open>The text that is hashed\<close>

text \<open>The canonical text: words separated by single spaces, in lower case.\<close>

definition canonical_text :: "unicode \<Rightarrow> pystr option \<Rightarrow> pystr" where
  "canonical_text U t = py_lower U (join [32] (split_ws (or_else t [])))"

lemma text_fingerprint_canonical: "text_fingerprint U H t = H (canonical_text U t)"
proof -
  have "strip (join [32] (split_ws s)) = join [32] (split_ws s)" for s
    by (rule join_words_strip) (use split_ws_words in blast)
  then show ?thesis by (simp add: text_fingerprint_def canonical_text_def)
qed

text \<open>White space at the ends and the shape of inner runs do not matter.\<close>

lemma canonical_text_respace:
  "split_ws (or_else t []) = split_ws (or_else t' []) \<Longrightarrow> canonical_text U t = canonical_text U t'"
  by (simp add: canonical_text_def)

lemma split_ws_trailing:
  "\<forall>c \<in> set ws. is_space c \<Longrightarrow> split_ws (s @ ws) = split_ws s"
proof (induction s rule: split_ws.induct)
  case (1 s)
  show ?case
  proof (cases "dropWhile is_space s")
    case Nil
    then have "\<forall>c \<in> set s. is_space c" by (simp add: dropWhile_eq_Nil_conv)
    with "1.prems" show ?thesis
      using split_ws_spaces [of "s @ ws" "[]"] split_ws_spaces [of s "[]"] by auto
  next
    case (Cons c t)
    let ?nw = "\<lambda>x. \<not> is_space x"
    have d: "dropWhile is_space (s @ ws) = c # (t @ ws)"
      using Cons by (metis append_Cons dropWhile_append1 dropWhile_eq_Nil_conv list.distinct(1))
    have tk: "takeWhile ?nw (t @ ws) = takeWhile ?nw t"
      using "1.prems" by (cases ws) (auto simp: takeWhile_append takeWhile_eq_all_conv [THEN iffD2])
    have dr: "split_ws (dropWhile ?nw (t @ ws)) = split_ws (dropWhile ?nw t @ ws)"
      using "1.prems" by (cases "\<forall>x \<in> set t. ?nw x"; cases ws)
        (auto simp: dropWhile_append dropWhile_eq_Nil_conv [THEN iffD2])
    show ?thesis
      using d tk dr "1.IH" [OF Cons "1.prems"] by (simp add: split_ws.simps [of s] split_ws.simps [of "s @ ws"] Cons)
  qed
qed

lemma split_ws_strip: "split_ws (strip s) = split_ws s"
proof -
  obtain l r where "s = l @ strip s @ r" "\<forall>c \<in> set l. is_space c" "\<forall>c \<in> set r. is_space c"
    using strip_decomp by blast
  then show ?thesis by (metis split_ws_spaces split_ws_trailing)
qed

lemma canonical_text_strip: "canonical_text U (Some (strip s)) = canonical_text U (Some s)"
  by (rule canonical_text_respace) (simp add: split_ws_strip)

section \<open>The media key\<close>

lemma media_part_key:
  assumes "media_sort_key a = media_sort_key b" and "or_else (mr_mime a) [] = or_else (mr_mime b) []"
  shows "media_part a = media_part b"
  using assms unfolding media_part_def media_sort_key_def Let_def by (metis prod.inject)

text \<open>
  Reordering the items leaves the key alone as long as items of one type and size also agree in
  their rendered part: the stable sort then puts equal parts in equal places.
\<close>

lemma media_parts_perm:
  assumes perm: "mset xs = mset ys"
    and det: "\<And>a b. a \<in> set xs \<Longrightarrow> b \<in> set xs \<Longrightarrow> media_sort_key a = media_sort_key b
        \<Longrightarrow> media_part a = media_part b"
  shows "media_parts xs = media_parts ys"
proof -
  define f where "f k = media_part (SOME a. a \<in> set xs \<and> media_sort_key a = k)" for k
  have set_eq: "set xs = set ys" using perm by (metis set_mset_mset)
  have f: "media_part a = f (media_sort_key a)" if "a \<in> set xs" for a
  proof -
    let ?b = "SOME b. b \<in> set xs \<and> media_sort_key b = media_sort_key a"
    have "?b \<in> set xs \<and> media_sort_key ?b = media_sort_key a"
      by (rule someI [of _ a]) (use that in simp)
    then show ?thesis unfolding f_def using det [OF that] by metis
  qed
  have keys: "map media_sort_key (sort_key media_sort_key xs)
      = map media_sort_key (sort_key media_sort_key ys)"
  proof -
    have "sort (map media_sort_key xs) = sort (map media_sort_key ys)"
    proof (rule properties_for_sort)
      show "mset (sort (map media_sort_key ys)) = mset (map media_sort_key xs)"
        using perm by (metis mset_map mset_sort)
    qed simp
    moreover have "map media_sort_key (sort_key media_sort_key zs) = sort (map media_sort_key zs)" for zs
      by (rule sym, rule properties_for_sort) simp_all
    ultimately show ?thesis by simp
  qed
  have "map media_part (sort_key media_sort_key zs)
      = map f (map media_sort_key (sort_key media_sort_key zs))" if "set zs = set xs" for zs
    using f that by simp
  then show ?thesis unfolding media_parts_def using keys set_eq by metis
qed

end
