(* ===== verification/Watermark.thy ===== *)
theory Watermark
  imports Transform
begin

text \<open>
  Correctness of the watermark step: after stripping, no hashtag, no mention, no channel link and
  no run of three line breaks is left, whatever the passes exposed along the way; stripping twice
  is stripping once.
\<close>

section \<open>What must be gone\<close>

fun has_tag :: "unicode \<Rightarrow> int \<Rightarrow> pystr \<Rightarrow> bool" where
  "has_tag U m [] = False"
| "has_tag U m (c # s) = ((c = m \<and> s \<noteq> [] \<and> is_word U (hd s)) \<or> has_tag U m s)"

fun has_link :: "pystr \<Rightarrow> bool" where
  "has_link [] = False"
| "has_link (c # s) = (link_rest (c # s) \<noteq> None \<or> has_link s)"

fun has_nl3 :: "pystr \<Rightarrow> bool" where
  "has_nl3 [] = False"
| "has_nl3 (c # s) = ((c = 10 \<and> take 2 s = [10, 10]) \<or> has_nl3 s)"

definition clean :: "unicode \<Rightarrow> pystr \<Rightarrow> bool" where
  "clean U s \<longleftrightarrow> \<not> has_tag U 35 s \<and> \<not> has_tag U 64 s \<and> \<not> has_link s \<and> \<not> has_nl3 s"

abbreviation nonspace :: "pystr \<Rightarrow> pystr" where
  "nonspace s \<equiv> takeWhile (\<lambda>c. \<not> is_space c) s"

section \<open>Infixes\<close>

lemma has_tag_append1: "has_tag U m s \<Longrightarrow> has_tag U m (s @ t)"
  by (induction s) (auto simp: hd_append)

lemma has_tag_append2: "has_tag U m t \<Longrightarrow> has_tag U m (s @ t)"
  by (induction s) auto

lemma link_head_append: "link_head s = Some r \<Longrightarrow> link_head (s @ t) = Some (r @ t)"
  by (auto simp: link_head_def strip_prefix_Some lit_def split: option.splits)

lemma link_rest_append: "link_rest s \<noteq> None \<Longrightarrow> link_rest (s @ t) \<noteq> None"
proof -
  assume "link_rest s \<noteq> None"
  then obtain r where r: "link_head s = Some r" "r \<noteq> []" "\<not> is_space (hd r)"
    by (auto simp: link_rest_def split: option.splits if_splits)
  then show "link_rest (s @ t) \<noteq> None"
    using link_head_append [OF r(1), of t] by (simp add: link_rest_def)
qed

lemma has_link_append1: "has_link s \<Longrightarrow> has_link (s @ t)"
  by (induction s) (use link_rest_append in force)+

lemma has_link_append2: "has_link t \<Longrightarrow> has_link (s @ t)"
  by (induction s) auto

lemma has_nl3_append1: "has_nl3 s \<Longrightarrow> has_nl3 (s @ t)"
proof (induction s)
  case (Cons c s)
  have "take 2 (s @ t) = [10, 10]" if "take 2 s = [10, 10]"
  proof -
    from that have "2 \<le> length s" by (metis length_Cons length_take list.size(3) min.cobounded1 numeral_2_eq_2)
    with that show ?thesis by simp
  qed
  with Cons show ?case by auto
qed simp

lemma has_nl3_append2: "has_nl3 t \<Longrightarrow> has_nl3 (s @ t)"
  by (induction s) auto

lemma clean_infix: "clean U (l @ s @ r) \<Longrightarrow> clean U s"
  unfolding clean_def
  using has_tag_append1 has_tag_append2 has_link_append1 has_link_append2 has_nl3_append1 has_nl3_append2
  by blast

lemma clean_strip: "clean U s \<Longrightarrow> clean U (strip s)"
  by (metis clean_infix strip_decomp)

section \<open>The hashtag and mention passes\<close>

lemma sub_tag_hd:
  "s = [] \<or> \<not> is_word U (hd s) \<Longrightarrow> \<not> is_word U m \<Longrightarrow>
   sub_tag U m s = [] \<or> \<not> is_word U (hd (sub_tag U m s))"
proof (induction U m s rule: sub_tag.induct)
  case (2 U m c s)
  have "dropWhile (is_word U) s = [] \<or> \<not> is_word U (hd (dropWhile (is_word U) s))"
    using hd_dropWhile by blast
  with 2 show ?case by auto
qed simp

lemma sub_tag_gone: "\<not> is_word U m \<Longrightarrow> \<not> has_tag U m (sub_tag U m s)"
proof (induction U m s rule: sub_tag.induct)
  case (2 U m c s)
  then show ?case using sub_tag_hd [of s U m] by auto
qed simp

lemma has_tag_dropWhile: "has_tag U m (dropWhile P s) \<Longrightarrow> has_tag U m s"
  by (metis has_tag_append2 takeWhile_dropWhile_id)

lemma sub_tag_keeps: "\<not> is_word U m \<Longrightarrow> \<not> has_tag U k s \<Longrightarrow> \<not> has_tag U k (sub_tag U m s)"
proof (induction U m s rule: sub_tag.induct)
  case (2 U m c s)
  then show ?case using sub_tag_hd [of s U m] has_tag_dropWhile [of U k "is_word U" s] by auto
qed simp

lemma sub_tag_id: "\<not> has_tag U m s \<Longrightarrow> sub_tag U m s = s"
  by (induction U m s rule: sub_tag.induct) auto

section \<open>The link pass\<close>

lemma link_head_starts: "link_head s = Some r \<Longrightarrow> \<exists>t. s = 104 # t"
  by (auto simp: link_head_def strip_prefix_Some lit_def split: option.splits)

lemma link_rest_starts: "link_rest s = Some r \<Longrightarrow> \<exists>t. s = 104 # t"
  using link_head_starts by (fastforce simp: link_rest_def split: option.splits)

lemma link_rest_suffix: "link_rest s = Some r \<Longrightarrow> \<exists>l. s = l @ r"
proof -
  assume "link_rest s = Some r"
  then obtain q where q: "link_head s = Some q" "r = dropWhile (\<lambda>c. \<not> is_space c) q"
    by (auto simp: link_rest_def split: option.splits if_splits)
  then obtain p where "s = p @ q"
    by (auto simp: link_head_def strip_prefix_Some split: option.splits)
  with q show ?thesis by (metis append.assoc takeWhile_dropWhile_id)
qed

lemma link_rest_space: "link_rest s = Some r \<Longrightarrow> r = [] \<or> is_space (hd r)"
proof -
  assume "link_rest s = Some r"
  then obtain q where "r = dropWhile (\<lambda>c. \<not> is_space c) q"
    by (auto simp: link_rest_def split: option.splits if_splits)
  then show ?thesis using hd_dropWhile [of "\<lambda>c. \<not> is_space c" q] by blast
qed

lemma not_space_104: "\<not> is_space 104"
  by (simp add: is_space_def)

lemma link_rest_None_space: "s = [] \<or> is_space (hd s) \<Longrightarrow> link_rest s = None"
proof (rule ccontr)
  assume s: "s = [] \<or> is_space (hd s)" and "link_rest s \<noteq> None"
  then obtain t where "s = 104 # t" using link_rest_starts by blast
  with s not_space_104 show False by simp
qed

lemma sub_link_Nil [simp]: "sub_link [] = []"
  by (simp add: sub_link.simps link_rest_None_space)

lemma sub_link_match: "link_rest s = Some r \<Longrightarrow> sub_link s = sub_link r"
  by (subst sub_link.simps) simp

lemma sub_link_nomatch: "link_rest (c # s) = None \<Longrightarrow> sub_link (c # s) = c # sub_link s"
  by (subst sub_link.simps) simp

lemma sub_link_space:
  assumes "s = [] \<or> is_space (hd s)"
  shows "sub_link s = [] \<or> is_space (hd (sub_link s))"
  using assms link_rest_None_space [OF assms] by (cases s) (auto simp: sub_link_nomatch)

text \<open>
  Whether a link starts here depends only on the characters before the first white space, and
  removing links further on can only shorten that run.
\<close>

lemma strip_prefix_nonspace:
  "\<forall>c \<in> set p. \<not> is_space c \<Longrightarrow>
   strip_prefix p (nonspace s) = map_option nonspace (strip_prefix p s)"
  by (induction p s rule: strip_prefix.induct) auto

lemma http_nonspace:
  "\<forall>c \<in> set (lit ''https://t.me/''). \<not> is_space c" "\<forall>c \<in> set (lit ''http://t.me/''). \<not> is_space c"
  by (simp_all add: is_space_def lit_def)

lemma link_rest_nonspace: "link_rest (nonspace s) = None \<longleftrightarrow> link_rest s = None"
proof -
  have "link_head (nonspace s) = map_option nonspace (link_head s)"
    using http_nonspace by (simp add: link_head_def strip_prefix_nonspace split: option.split)
  moreover have "(nonspace r \<noteq> [] \<and> \<not> is_space (hd (nonspace r))) = (r \<noteq> [] \<and> \<not> is_space (hd r))" for r
    by (cases r) auto
  ultimately show ?thesis by (auto simp: link_rest_def split: option.splits)
qed

lemma link_rest_prefix: "prefix a b \<Longrightarrow> link_rest a \<noteq> None \<Longrightarrow> link_rest b \<noteq> None"
  using link_rest_append by (metis prefixE)

lemma sub_link_prefix: "prefix (nonspace (sub_link s)) (nonspace s)"
proof (induction s rule: sub_link.induct)
  case (1 s)
  show ?case
  proof (cases "link_rest s")
    case (Some r)
    then have "sub_link r = [] \<or> is_space (hd (sub_link r))"
      by (intro sub_link_space link_rest_space)
    then have "nonspace (sub_link r) = []" by (cases "sub_link r") auto
    with Some show ?thesis by (simp add: sub_link_match)
  next
    case None
    then show ?thesis using 1(1) by (cases s) (auto simp: sub_link_nomatch)
  qed
qed

lemma sub_link_gone: "\<not> has_link (sub_link s)"
proof (induction s rule: sub_link.induct)
  case (1 s)
  show ?case
  proof (cases "link_rest s")
    case (Some r)
    with 1(2) show ?thesis by (simp add: sub_link_match)
  next
    case None
    show ?thesis
    proof (cases s)
      case (Cons c t)
      have "prefix (nonspace (c # sub_link t)) (nonspace (c # t))"
        using sub_link_prefix by simp
      then have "link_rest (c # sub_link t) = None"
        using link_rest_prefix link_rest_nonspace None Cons by metis
      with None Cons 1(1) show ?thesis by (simp add: sub_link_nomatch)
    qed simp
  qed
qed

lemma word_104: "is_word U 104"
  by (simp add: is_word_def is_lower_def)

lemma sub_link_keeps: "\<not> has_tag U k s \<Longrightarrow> \<not> has_tag U k (sub_link s)"
proof (induction s rule: sub_link.induct)
  case (1 s)
  show ?case
  proof (cases "link_rest s")
    case (Some r)
    with link_rest_suffix have "\<not> has_tag U k r" using 1(3) has_tag_append2 by metis
    with Some 1(2) show ?thesis by (simp add: sub_link_match)
  next
    case None
    show ?thesis
    proof (cases s)
      case (Cons c t)
      have hd: "hd (sub_link t) = hd t \<or> is_word U (hd t)" if "t \<noteq> []"
      proof (cases "link_rest t")
        case None
        then show ?thesis using that by (cases t) (auto simp: sub_link_nomatch)
      next
        case (Some r)
        then show ?thesis using link_rest_starts word_104 by fastforce
      qed
      show ?thesis
      proof (cases "t = []")
        case False
        with hd [OF False] None Cons 1(1,3) show ?thesis by (auto simp: sub_link_nomatch)
      qed (use None Cons in \<open>simp add: sub_link_nomatch\<close>)
    qed simp
  qed
qed

lemma sub_link_id: "\<not> has_link s \<Longrightarrow> sub_link s = s"
  by (induction s rule: has_link.induct) (auto simp: sub_link_nomatch)

section \<open>The line-break pass\<close>

lemma collapse_hd: "s \<noteq> [] \<Longrightarrow> collapse_newlines s \<noteq> [] \<and> hd (collapse_newlines s) = hd s"
  by (cases s) auto

lemma collapse_hd_other:
  "s = [] \<or> hd s \<noteq> k \<Longrightarrow> collapse_newlines s = [] \<or> hd (collapse_newlines s) \<noteq> k"
  using collapse_hd [of s] by (cases "s = []") auto

lemma collapse_nonspace: "nonspace (collapse_newlines s) = nonspace s"
  by (induction s rule: collapse_newlines.induct) (auto simp: is_space_def)

lemma collapse_keeps_tag:
  "k \<noteq> 10 \<Longrightarrow> \<not> has_tag U k s \<Longrightarrow> \<not> has_tag U k (collapse_newlines s)"
proof (induction s rule: collapse_newlines.induct)
  case (2 c s)
  have "\<not> has_tag U k (dropWhile (\<lambda>x. x = 10) s)"
    using "2.prems"(2) has_tag_dropWhile by (metis has_tag.simps(2))
  with 2 collapse_hd [of s] show ?case
    by (cases "c = 10 \<and> take 2 s = [10, 10]"; cases "s = []") auto
qed simp

lemma has_link_dropWhile: "has_link (dropWhile P s) \<Longrightarrow> has_link s"
  by (metis has_link_append2 takeWhile_dropWhile_id)

lemma link_rest_newline: "link_rest (10 # s) = None"
  by (rule link_rest_None_space) (simp add: is_space_def)

lemma collapse_keeps_link: "\<not> has_link s \<Longrightarrow> \<not> has_link (collapse_newlines s)"
proof (induction s rule: collapse_newlines.induct)
  case (2 c s)
  have drop: "\<not> has_link (dropWhile (\<lambda>x. x = 10) s)"
    using "2.prems" has_link_dropWhile by (metis has_link.simps(2))
  have "nonspace (c # collapse_newlines s) = nonspace (c # s)"
    by (simp add: collapse_nonspace)
  then have "link_rest (c # collapse_newlines s) = None"
    using "2.prems" link_rest_nonspace by (metis has_link.simps(2))
  with 2 drop show ?case
    by (cases "c = 10 \<and> take 2 s = [10, 10]") (auto simp: link_rest_newline)
qed simp

lemma has_nl3_10: "c \<noteq> 10 \<Longrightarrow> has_nl3 (10 # 10 # c # s) = has_nl3 (c # s)"
  by simp

lemma collapse_no_nl3: "\<not> has_nl3 (collapse_newlines s)"
proof (induction s rule: collapse_newlines.induct)
  case (2 c s)
  show ?case
  proof (cases "c = 10 \<and> take 2 s = [10, 10]")
    case True
    let ?d = "dropWhile (\<lambda>x. x = 10) s"
    have "?d = [] \<or> hd ?d \<noteq> 10" using hd_dropWhile by blast
    then have "collapse_newlines ?d = [] \<or> hd (collapse_newlines ?d) \<noteq> 10"
      by (rule collapse_hd_other)
    with True 2(1) show ?thesis
      by (cases "collapse_newlines ?d") auto
  next
    case False
    have "take 2 (collapse_newlines s) = [10, 10] \<Longrightarrow> take 2 s = [10, 10]"
    proof -
      assume t: "take 2 (collapse_newlines s) = [10, 10]"
      then obtain c1 s1 where s: "s = c1 # s1" by (cases s) auto
      with t have "c1 = 10" using collapse_hd [of s] by (cases "collapse_newlines s") auto
      moreover have "s1 \<noteq> [] \<and> hd s1 = 10"
        using t s \<open>c1 = 10\<close> collapse_hd [of s1]
        by (cases s1; cases "collapse_newlines s1") (auto split: if_splits)
      ultimately show ?thesis using s by (cases s1) auto
    qed
    with False 2(2) show ?thesis by auto
  qed
qed simp

lemma collapse_id: "\<not> has_nl3 s \<Longrightarrow> collapse_newlines s = s"
  by (induction s rule: collapse_newlines.induct) auto

section \<open>The whole step\<close>

lemma strip_tags_clean: "clean U (strip_tags U text)"
proof -
  have w: "\<not> is_word U 35" "\<not> is_word U 64"
    by (simp_all add: is_word_def is_digit_def is_upper_def is_lower_def)
  let ?a = "sub_tag U 64 (sub_tag U 35 text)"
  have "\<not> has_tag U 35 ?a" "\<not> has_tag U 64 ?a"
    using w by (simp_all add: sub_tag_gone sub_tag_keeps)
  then have "clean U (collapse_newlines (sub_link ?a))"
    unfolding clean_def
    by (intro conjI collapse_keeps_tag collapse_keeps_link collapse_no_nl3 sub_link_keeps sub_link_gone)
      simp_all
  then show ?thesis unfolding strip_tags_def by (rule clean_strip)
qed

lemma strip_tags_id: "clean U s \<Longrightarrow> strip s = s \<Longrightarrow> strip_tags U s = s"
  by (simp add: strip_tags_def clean_def sub_tag_id sub_link_id collapse_id)

lemma strip_tags_stripped: "strip (strip_tags U text) = strip_tags U text"
  by (simp add: strip_tags_def)

text \<open>C33: stripping leaves no hashtag, mention, channel link or triple line break behind.\<close>

theorem strip_source_tags_removes_everything:
  "clean U (apply_watermark U text None True)
   \<and> strip (apply_watermark U text None True) = apply_watermark U text None True
   \<and> apply_watermark U (apply_watermark U text None True) None True = apply_watermark U text None True"
proof -
  have "apply_watermark U s None True = strip_tags U s" for s
    by (simp add: apply_watermark_def)
  then show ?thesis
    using strip_tags_clean strip_tags_stripped strip_tags_id by simp
qed

end
