(* ===== verification/Tasks.thy ===== *)
theory Tasks
  imports World
begin

text \<open>
  The job registry and the producers of \<open>shared/tasks.py\<close>, with the consumers registered in
  \<open>worker/main.py\<close> and \<open>bot/main.py\<close>.
\<close>

text \<open>\<open>_get_pool\<close>: the process-wide pool is created on first use.\<close>

definition get_pool :: "env \<Rightarrow> unit eff" where
  "get_pool E w =
     (if wpool w then (Inr (), w)
      else (case redis_create E (wjobs w) of
              None \<Rightarrow> (Inr (), w\<lparr>wpool := True\<rparr>)
            | Some e \<Rightarrow> (Inl e, w)))"

text \<open>A connection error drops the pool before it is raised again; other errors keep it.\<close>

fun is_connection_error :: "exn \<Rightarrow> bool" where
  "is_connection_error (ConnectionError m) = True"
| "is_connection_error e = False"

definition enqueue_job :: "env \<Rightarrow> job \<Rightarrow> unit eff" where
  "enqueue_job E j w =
     (case get_pool E w of
        (Inl e, w1) \<Rightarrow> (Inl e, if is_connection_error e then w1\<lparr>wpool := False\<rparr> else w1)
      | (Inr u, w1) \<Rightarrow>
          (case redis_push E (wjobs w1) j of
             None \<Rightarrow> (Inr (), w1\<lparr>wjobs := wjobs w1 @ [j]\<rparr>)
           | Some e \<Rightarrow> (Inl e, if is_connection_error e then w1\<lparr>wpool := False\<rparr> else w1)))"

definition normalize_job :: "int \<Rightarrow> job" where
  "normalize_job pid = \<lparr>job_name = JOB_NORMALIZE, job_args = [JInt pid], job_queue = QUEUE_WORKER,
     job_defer = None\<rparr>"

definition publish_job :: "int \<Rightarrow> time option \<Rightarrow> job" where
  "publish_job pid delay = \<lparr>job_name = JOB_PUBLISH, job_args = [JInt pid], job_queue = QUEUE_BOT,
     job_defer = delay\<rparr>"

definition post_draft_job :: "int \<Rightarrow> job" where
  "post_draft_job pid = \<lparr>job_name = JOB_POST_DRAFT, job_args = [JInt pid], job_queue = QUEUE_BOT,
     job_defer = None\<rparr>"

definition prune_dedupe_job :: job where
  "prune_dedupe_job = \<lparr>job_name = JOB_PRUNE_DEDUPE, job_args = [], job_queue = QUEUE_WORKER,
     job_defer = None\<rparr>"

definition alert_job :: "pystr \<Rightarrow> job" where
  "alert_job text = \<lparr>job_name = JOB_ALERT, job_args = [JStr text], job_queue = QUEUE_BOT,
     job_defer = None\<rparr>"

definition enqueue_normalize :: "env \<Rightarrow> int \<Rightarrow> unit eff" where
  "enqueue_normalize E pid = enqueue_job E (normalize_job pid)"

definition enqueue_publish :: "env \<Rightarrow> int \<Rightarrow> time option \<Rightarrow> unit eff" where
  "enqueue_publish E pid delay = enqueue_job E (publish_job pid delay)"

definition enqueue_post_draft :: "env \<Rightarrow> int \<Rightarrow> unit eff" where
  "enqueue_post_draft E pid = enqueue_job E (post_draft_job pid)"

definition enqueue_prune_dedupe :: "env \<Rightarrow> unit eff" where
  "enqueue_prune_dedupe E = enqueue_job E prune_dedupe_job"

definition enqueue_alert :: "env \<Rightarrow> pystr \<Rightarrow> unit eff" where
  "enqueue_alert E text = enqueue_job E (alert_job text)"

lemmas enqueue_defs = enqueue_normalize_def enqueue_publish_def enqueue_post_draft_def
  enqueue_prune_dedupe_def enqueue_alert_def

text \<open>The functions each consumer registers.\<close>

fun WorkerSettings_functions :: "queue \<Rightarrow> job_name list" where
  "WorkerSettings_functions QUEUE_WORKER = [JOB_NORMALIZE, JOB_PRUNE_DEDUPE]"
| "WorkerSettings_functions QUEUE_BOT = [JOB_PUBLISH, JOB_POST_DRAFT, JOB_ALERT]"

definition owned :: "job \<Rightarrow> bool" where
  "owned j \<longleftrightarrow> job_name j \<in> set (WorkerSettings_functions (job_queue j))"

section \<open>Facts\<close>

lemma enqueue_job_cases:
  "(\<exists>b. enqueue_job E j w = (Inr (), w\<lparr>wpool := b, wjobs := wjobs w @ [j]\<rparr>))
   \<or> (\<exists>e b. enqueue_job E j w = (Inl e, w\<lparr>wpool := b\<rparr>))"
proof (cases "fst (get_pool E w)")
  case (Inl e)
  then show ?thesis
    by (cases w) (auto simp: enqueue_job_def get_pool_def split: if_splits option.splits)
next
  case (Inr u)
  then obtain b where b: "get_pool E w = (Inr (), w\<lparr>wpool := b\<rparr>)"
    by (cases w) (auto simp: get_pool_def split: if_splits option.splits)
  show ?thesis
  proof (cases "redis_push E (wjobs w) j")
    case None
    with b have "enqueue_job E j w = (Inr (), w\<lparr>wpool := b, wjobs := wjobs w @ [j]\<rparr>)"
      by (simp add: enqueue_job_def)
    then show ?thesis by blast
  next
    case (Some e)
    with b have "enqueue_job E j w
        = (Inl e, w\<lparr>wpool := if is_connection_error e then False else b\<rparr>)"
      by (simp add: enqueue_job_def)
    then show ?thesis by blast
  qed
qed

lemma enqueue_job_ok:
  "fst (enqueue_job E j w) = Inr u \<Longrightarrow> wjobs (snd (enqueue_job E j w)) = wjobs w @ [j]"
  using enqueue_job_cases [of E j w] by auto

lemma enqueue_job_err:
  "fst (enqueue_job E j w) = Inl e \<Longrightarrow> wjobs (snd (enqueue_job E j w)) = wjobs w"
  using enqueue_job_cases [of E j w] by auto

lemma enqueue_job_frame [frame, simp]:
  "wdb (snd (enqueue_job E j w)) = wdb w" "wcalls (snd (enqueue_job E j w)) = wcalls w"
  "wfiles (snd (enqueue_job E j w)) = wfiles w" "wclock (snd (enqueue_job E j w)) = wclock w"
  using enqueue_job_cases [of E j w] by auto

lemma enqueue_job_jobs:
  "wjobs (snd (enqueue_job E j w)) =
     (case fst (enqueue_job E j w) of Inl e \<Rightarrow> wjobs w | Inr u \<Rightarrow> wjobs w @ [j])"
  using enqueue_job_cases [of E j w] by auto

text \<open>Redis is up: no pool creation and no push raises.\<close>

definition redis_up :: "env \<Rightarrow> bool" where
  "redis_up E \<longleftrightarrow> redis_create E = (\<lambda>js. None) \<and> redis_push E = (\<lambda>js j. None)"

lemma enqueue_job_up:
  "redis_up E \<Longrightarrow> enqueue_job E j w = (Inr (), w\<lparr>wpool := True, wjobs := wjobs w @ [j]\<rparr>)"
  by (cases "wpool w") (auto simp: enqueue_job_def get_pool_def redis_up_def)

end
