(* ===== verification/WorkerNormalize.thy ===== *)
theory WorkerNormalize
  imports NormalizeText Dedupe Watermark Tasks
begin

text \<open>
  The \<open>normalize\<close> job of \<open>worker/normalize.py\<close>: render, transform, brand, hash, check for a
  duplicate, commit, route. A branch that raises before the commit leaves the database as it was;
  a failed enqueue after the commit leaves the committed row without a job.
\<close>

definition is_duplicate :: "settings \<Rightarrow> time \<Rightarrow> db \<Rightarrow> pystr \<Rightarrow> bool" where
  "is_duplicate s now d h \<longleftrightarrow>
     (let cutoff = now - days (dedupe_lookback_days s)
      in list_ex (\<lambda>r. pd_hash r = h \<and> pd_published_at r \<ge> cutoff) (dedupe_rows d))"

definition decide_route :: "policy \<Rightarrow> bool \<Rightarrow> string" where
  "decide_route policy is_dup =
     (if is_dup then ''duplicate'' else if policy = P_auto then ''publish'' else ''draft'')"

definition should_ai_transform :: "settings \<Rightarrow> source_channel \<Rightarrow> bool" where
  "should_ai_transform s ch \<longleftrightarrow>
     (if \<not> global_ai_enabled s then False else ai_enabled ch \<and> channel_ai_mode ch \<noteq> AI_off)"

text \<open>\<open>channel.source_label or channel.username or channel.title\<close>.\<close>

definition channel_label :: "source_channel \<Rightarrow> pystr" where
  "channel_label ch = or_else (source_label ch) (or_else (channel_username ch) (title ch))"

definition channel_template :: "db \<Rightarrow> source_channel \<Rightarrow> pystr" where
  "channel_template d ch =
     (if truthy_int (normalization_template_id ch)
      then (case get_template d (the (normalization_template_id ch)) of
              None \<Rightarrow> DEFAULT_TEMPLATE_BODY
            | Some tpl \<Rightarrow> template_body tpl)
      else DEFAULT_TEMPLATE_BODY)"

text \<open>
  The AI step: the text to go on with, the post with its transformed text, and the audit event.
\<close>

definition ai_step ::
  "env \<Rightarrow> source_channel \<Rightarrow> post \<Rightarrow> pystr \<Rightarrow> pystr \<times> post \<times> (event_action \<times> payload) option" where
  "ai_step E ch post normalized =
     (if should_ai_transform (cfg E) ch
      then (case transform_text (cfg E) (openai E) normalized (channel_ai_mode ch)
                   (ai_target_language ch) (ai_tone_prompt ch) (ai_custom_system_prompt ch)
                   (Some (ai_model (cfg E))) (Some (ai_max_tokens (cfg E)))
                   (Some (ai_timeout_seconds (cfg E))) of
              Inr r \<Rightarrow>
                (tr_text r, post\<lparr>ai_transformed_text := Some (tr_text r)\<rparr>,
                 Some (Ev_ai_transformed,
                   [(''model'', JStr (tr_model r)), (''mode'', JStr (ai_mode_value (channel_ai_mode ch))),
                    (''prompt_tokens'', JInt (tr_prompt_tokens r)),
                    (''completion_tokens'', JInt (tr_completion_tokens r)),
                    (''latency_ms'', JInt (tr_latency_ms r))]))
            | Inl exc \<Rightarrow>
                (normalized, post,
                 Some (Ev_ai_failed, [(''error'', JStr (take 500 (exn_text exc)))])))
      else (normalized, post, None))"

definition usable_files :: "media_ref list \<Rightarrow> pystr list" where
  "usable_files refs = map (\<lambda>m. the (mr_file m)) (filter (\<lambda>m. truthy (mr_file m) \<and> \<not> mr_omitted m) refs)"

text \<open>The columns written by the job, before the duplicate check.\<close>

definition normalized_row :: "env \<Rightarrow> source_channel \<Rightarrow> post \<Rightarrow> pystr \<Rightarrow> int list \<Rightarrow> post" where
  "normalized_row E ch post final_text ids =
     post\<lparr>normalized_text := Some (apply_watermark (uni E) final_text
              (if watermark_enabled ch then watermark_text ch else None) (strip_source_tags ch)),
          tag_ids := ids,
          dedupe_hash := Some (compute_dedupe_hash (uni E) (sha256_hex E) (raw_text post) (raw_media_refs post)),
          media_paths := usable_files (raw_media_refs post)\<rparr>"

definition add_opt_event :: "time \<Rightarrow> int \<Rightarrow> (event_action \<times> payload) option \<Rightarrow> db \<Rightarrow> db" where
  "add_opt_event now pid ev d =
     (case ev of None \<Rightarrow> d | Some (act, pl) \<Rightarrow> add_event now pid None act pl d)"

definition normalize_write ::
  "env \<Rightarrow> source_channel \<Rightarrow> post \<Rightarrow> pystr \<Rightarrow> int list \<Rightarrow> pystr eff" where
  "normalize_write E ch post normalized ids w =
     (let now = wclock w;
          (final_text, post1, ev) = ai_step E ch post normalized;
          p = normalized_row E ch post1 final_text ids;
          h = the (dedupe_hash p);
          d1 = add_opt_event now (post_id post) ev (wdb w)
      in if is_duplicate (cfg E) now d1 h
         then (Inr (lit ''duplicate''),
               w\<lparr>wdb := add_event now (post_id post) None Ev_duplicate [(''dedupe_hash'', JStr h)]
                          (save_post now (p\<lparr>post_state := Rejected\<rparr>) d1)\<rparr>)
         else
           let w1 = w\<lparr>wdb := add_event now (post_id post) None Ev_edited [(''normalized'', JBool True)]
                              (save_post now p d1)\<rparr>
           in if decide_route (channel_policy ch) False = ''publish''
              then (case enqueue_publish E (post_id post) None w1 of
                      (Inl e, w2) \<Rightarrow> (Inl e, w2)
                    | (Inr u, w2) \<Rightarrow> (Inr (lit ''enqueued_publish''), w2))
              else (case enqueue_post_draft E (post_id post) w1 of
                      (Inl e, w2) \<Rightarrow> (Inl e, w2)
                    | (Inr u, w2) \<Rightarrow> (Inr (lit ''enqueued_draft''), w2)))"

definition normalize :: "env \<Rightarrow> int \<Rightarrow> pystr eff" where
  "normalize E pid w =
     (case get_post (wdb w) pid of
        None \<Rightarrow> (Inr (lit ''not_found''), w)
      | Some post \<Rightarrow>
          if post_state post \<in> {Published, Rejected}
          then (Inr (lit ''skip:'' @ state_value (post_state post)), w)
          else (case get_channel (wdb w) (source_channel_id post) of
                  None \<Rightarrow> (Inr (lit ''no_channel''), w)
                | Some ch \<Rightarrow>
                    let ids = (if channel_policy ch = P_auto then default_tag_ids ch else [])
                    in (case normalize_text E (wdb w) (channel_template (wdb w) ch)
                               (or_else (raw_text post) []) (channel_label ch) ids of
                          Inl e \<Rightarrow> (Inl e, w)
                        | Inr normalized \<Rightarrow> normalize_write E ch post normalized ids w)))"

section \<open>Facts about the steps\<close>

lemma decide_route_publish [simp]: "decide_route p False = ''publish'' \<longleftrightarrow> p = P_auto"
  by (simp add: decide_route_def)

lemma ai_step_row:
  assumes "ai_step E ch p n = (t, p', ev)"
  shows "\<exists>a. p' = p\<lparr>ai_transformed_text := a\<rparr>"
proof -
  have "p = p\<lparr>ai_transformed_text := ai_transformed_text p\<rparr>" by simp
  with assms show ?thesis
    by (auto simp: ai_step_def split: if_splits sum.splits intro: exI [of _ "ai_transformed_text p"])
qed

lemma ai_step_off: "\<not> should_ai_transform (cfg E) ch \<Longrightarrow> ai_step E ch p n = (n, p, None)"
  by (simp add: ai_step_def)

lemma ai_step_failed:
  assumes "transform_text (cfg E) (openai E) n (channel_ai_mode ch)
                   (ai_target_language ch) (ai_tone_prompt ch) (ai_custom_system_prompt ch)
                   (Some (ai_model (cfg E))) (Some (ai_max_tokens (cfg E)))
                   (Some (ai_timeout_seconds (cfg E))) = Inl e"
  shows "fst (ai_step E ch p n) = n \<and> fst (snd (ai_step E ch p n)) = p"
  using assms by (simp add: ai_step_def)

lemma add_opt_event_fields [frame, simp]:
  "posts (add_opt_event now pid ev d) = posts d"
  "dedupe_rows (add_opt_event now pid ev d) = dedupe_rows d"
  "source_channels (add_opt_event now pid ev d) = source_channels d"
  "tags (add_opt_event now pid ev d) = tags d"
  "templates (add_opt_event now pid ev d) = templates d"
  "admins (add_opt_event now pid ev d) = admins d"
  "source_channel_tags (add_opt_event now pid ev d) = source_channel_tags d"
  by (auto simp: add_opt_event_def split: option.splits prod.splits)

lemma is_duplicate_rows: "dedupe_rows d = dedupe_rows d' \<Longrightarrow> is_duplicate s now d h = is_duplicate s now d' h"
  by (simp add: is_duplicate_def)

lemma normalized_row_fields [simp]:
  "post_id (normalized_row E ch p t ids) = post_id p"
  "post_state (normalized_row E ch p t ids) = post_state p"
  "published_message_id (normalized_row E ch p t ids) = published_message_id p"
  "ai_transformed_text (normalized_row E ch p t ids) = ai_transformed_text p"
  "raw_text (normalized_row E ch p t ids) = raw_text p"
  "raw_media_refs (normalized_row E ch p t ids) = raw_media_refs p"
  "tag_ids (normalized_row E ch p t ids) = ids"
  by (simp_all add: normalized_row_def)

text \<open>The hash of the row is the hash of what was received, whatever the template, the model, or
  the watermark made of the text.\<close>

lemma normalized_row_hash:
  "dedupe_hash (normalized_row E ch p t ids)
     = Some (compute_dedupe_hash (uni E) (sha256_hex E) (raw_text p) (raw_media_refs p))"
  by (simp add: normalized_row_def)


section \<open>What one run does\<close>

text \<open>The row and the audit event that one run would write for a post.\<close>

definition final_row :: "env \<Rightarrow> source_channel \<Rightarrow> post \<Rightarrow> pystr \<Rightarrow> int list \<Rightarrow> post" where
  "final_row E ch post n ids =
     normalized_row E ch (fst (snd (ai_step E ch post n))) (fst (ai_step E ch post n)) ids"

definition content_hash :: "env \<Rightarrow> post \<Rightarrow> pystr" where
  "content_hash E p = compute_dedupe_hash (uni E) (sha256_hex E) (raw_text p) (raw_media_refs p)"

definition normalize_tags :: "source_channel \<Rightarrow> int list" where
  "normalize_tags ch = (if channel_policy ch = P_auto then default_tag_ids ch else [])"

lemma ai_step_keeps [simp]:
  "raw_text (fst (snd (ai_step E ch p n))) = raw_text p"
  "raw_media_refs (fst (snd (ai_step E ch p n))) = raw_media_refs p"
  "post_id (fst (snd (ai_step E ch p n))) = post_id p"
  "post_state (fst (snd (ai_step E ch p n))) = post_state p"
  "published_message_id (fst (snd (ai_step E ch p n))) = published_message_id p"
  "source_channel_id (fst (snd (ai_step E ch p n))) = source_channel_id p"
  "draft_message_id (fst (snd (ai_step E ch p n))) = draft_message_id p"
  by (cases "ai_step E ch p n"; use ai_step_row in fastforce)+

lemma final_row_fields [simp]:
  "post_id (final_row E ch p n ids) = post_id p"
  "post_state (final_row E ch p n ids) = post_state p"
  "published_message_id (final_row E ch p n ids) = published_message_id p"
  "tag_ids (final_row E ch p n ids) = ids"
  "dedupe_hash (final_row E ch p n ids) = Some (content_hash E p)"
  "media_paths (final_row E ch p n ids) = usable_files (raw_media_refs p)"
  "raw_text (final_row E ch p n ids) = raw_text p"
  "raw_media_refs (final_row E ch p n ids) = raw_media_refs p"
  by (simp_all add: final_row_def normalized_row_hash content_hash_def)
    (simp add: normalized_row_def)

text \<open>The database after the commit, with the state, audit action and payload of the branch.\<close>

definition committed_db ::
  "world \<Rightarrow> (event_action \<times> payload) option \<Rightarrow> post \<Rightarrow> event_action \<Rightarrow> payload \<Rightarrow> db" where
  "committed_db w ev p act pl =
     add_event (wclock w) (post_id p) None act pl
       (save_post (wclock w) p (add_opt_event (wclock w) (post_id p) ev (wdb w)))"

lemma is_duplicate_opt [simp]:
  "is_duplicate s now (add_opt_event t pid ev d) h = is_duplicate s now d h"
  by (rule is_duplicate_rows) simp

lemma normalize_write_dup:
  assumes "is_duplicate (cfg E) (wclock w) (wdb w) (content_hash E post)"
  shows "normalize_write E ch post n ids w =
     (Inr (lit ''duplicate''), w\<lparr>wdb := committed_db w (snd (snd (ai_step E ch post n)))
        ((final_row E ch post n ids)\<lparr>post_state := Rejected\<rparr>) Ev_duplicate
        [(''dedupe_hash'', JStr (content_hash E post))]\<rparr>)"
  using assms
  by (simp add: normalize_write_def final_row_def committed_db_def normalized_row_hash content_hash_def
      Let_def case_prod_beta)

lemma normalize_write_fresh:
  assumes "\<not> is_duplicate (cfg E) (wclock w) (wdb w) (content_hash E post)"
  shows "normalize_write E ch post n ids w =
     (let w1 = w\<lparr>wdb := committed_db w (snd (snd (ai_step E ch post n))) (final_row E ch post n ids)
           Ev_edited [(''normalized'', JBool True)]\<rparr>
      in if channel_policy ch = P_auto
      then (map_sum id (\<lambda>u. lit ''enqueued_publish'') (fst (enqueue_publish E (post_id post) None w1)),
            snd (enqueue_publish E (post_id post) None w1))
      else (map_sum id (\<lambda>u. lit ''enqueued_draft'') (fst (enqueue_post_draft E (post_id post) w1)),
            snd (enqueue_post_draft E (post_id post) w1)))"
  using assms
  by (simp add: normalize_write_def final_row_def committed_db_def normalized_row_hash content_hash_def
      Let_def case_prod_beta split: sum.split)

lemma committed_db_post:
  assumes "get_post (wdb w) (post_id p) = Some p0"
  shows "\<exists>u. get_post (committed_db w ev p act pl) (post_id p) = Some (p\<lparr>updated_at := u\<rparr>)"
proof -
  have "get_post (add_opt_event (wclock w) (post_id p) ev (wdb w)) (post_id p) = Some p0"
    using assms by simp
  from get_post_save [OF this refl] show ?thesis by (simp add: committed_db_def)
qed

lemma committed_db_other:
  "k \<noteq> post_id p \<Longrightarrow> get_post (committed_db w ev p act pl) k = get_post (wdb w) k"
  by (simp add: committed_db_def get_post_save_other)

lemma committed_db_frame [frame, simp]:
  "dedupe_rows (committed_db w ev p act pl) = dedupe_rows (wdb w)"
  "source_channels (committed_db w ev p act pl) = source_channels (wdb w)"
  "tags (committed_db w ev p act pl) = tags (wdb w)"
  "templates (committed_db w ev p act pl) = templates (wdb w)"
  "admins (committed_db w ev p act pl) = admins (wdb w)"
  by (simp_all add: committed_db_def)

lemma normalize_ready:
  assumes "get_post (wdb w) pid = Some post" "post_state post \<notin> {Published, Rejected}"
    "get_channel (wdb w) (source_channel_id post) = Some ch"
    "normalize_text E (wdb w) (channel_template (wdb w) ch) (or_else (raw_text post) [])
       (channel_label ch) (normalize_tags ch) = Inr n"
  shows "normalize E pid w = normalize_write E ch post n (normalize_tags ch) w"
  using assms by (simp add: normalize_def normalize_tags_def)

lemma normalize_cases:
  "normalize E pid w = (fst (normalize E pid w), w) \<or>
   (\<exists>post ch n. get_post (wdb w) pid = Some post \<and> post_state post \<notin> {Published, Rejected} \<and>
      get_channel (wdb w) (source_channel_id post) = Some ch \<and>
      normalize E pid w = normalize_write E ch post n (normalize_tags ch) w)"
  by (auto simp: normalize_def normalize_tags_def Let_def split: option.split sum.split)

lemma normalize_write_wdb:
  "wdb (snd (normalize_write E ch post n ids w)) =
     (if is_duplicate (cfg E) (wclock w) (wdb w) (content_hash E post)
      then committed_db w (snd (snd (ai_step E ch post n)))
        ((final_row E ch post n ids)\<lparr>post_state := Rejected\<rparr>) Ev_duplicate
        [(''dedupe_hash'', JStr (content_hash E post))]
      else committed_db w (snd (snd (ai_step E ch post n))) (final_row E ch post n ids)
        Ev_edited [(''normalized'', JBool True)])"
  by (simp add: normalize_write_dup normalize_write_fresh enqueue_defs Let_def)

lemma normalize_write_post:
  assumes "get_post (wdb w) (post_id post) = Some post"
  shows "\<exists>u. get_post (wdb (snd (normalize_write E ch post n ids w))) (post_id post)
     = Some ((if is_duplicate (cfg E) (wclock w) (wdb w) (content_hash E post)
          then (final_row E ch post n ids)\<lparr>post_state := Rejected\<rparr>
          else final_row E ch post n ids)\<lparr>updated_at := u\<rparr>)"
proof -
  let ?p = "final_row E ch post n ids"
  have "get_post (wdb w) (post_id (?p\<lparr>post_state := Rejected\<rparr>)) = Some post"
    and "get_post (wdb w) (post_id ?p) = Some post"
    using assms by simp_all
  from this [THEN committed_db_post] show ?thesis by (simp add: normalize_write_wdb)
qed

text \<open>The job never talks to Telegram, never touches the dedupe index, and writes one post only.\<close>

lemma normalize_write_frame:
  "wcalls (snd (normalize_write E ch post n ids w)) = wcalls w"
  "wfiles (snd (normalize_write E ch post n ids w)) = wfiles w"
  "wclock (snd (normalize_write E ch post n ids w)) = wclock w"
  "dedupe_rows (wdb (snd (normalize_write E ch post n ids w))) = dedupe_rows (wdb w)"
  "k \<noteq> post_id post \<Longrightarrow>
     get_post (wdb (snd (normalize_write E ch post n ids w))) k = get_post (wdb w) k"
  by (cases "is_duplicate (cfg E) (wclock w) (wdb w) (content_hash E post)";
      simp add: normalize_write_dup normalize_write_fresh enqueue_defs Let_def committed_db_other)+

lemma normalize_frame [frame]:
  "wcalls (snd (normalize E pid w)) = wcalls w"
  "wfiles (snd (normalize E pid w)) = wfiles w"
  "wclock (snd (normalize E pid w)) = wclock w"
  "dedupe_rows (wdb (snd (normalize E pid w))) = dedupe_rows (wdb w)"
  "k \<noteq> pid \<Longrightarrow> get_post (wdb (snd (normalize E pid w))) k = get_post (wdb w) k"
proof -
  consider "snd (normalize E pid w) = w"
    | post ch n where "post_id post = pid"
        "snd (normalize E pid w) = snd (normalize_write E ch post n (normalize_tags ch) w)"
    using normalize_cases [of E pid w] by (metis snd_conv tget_key)
  then show "wcalls (snd (normalize E pid w)) = wcalls w"
    "wfiles (snd (normalize E pid w)) = wfiles w"
    "wclock (snd (normalize E pid w)) = wclock w"
    "dedupe_rows (wdb (snd (normalize E pid w))) = dedupe_rows (wdb w)"
    "k \<noteq> pid \<Longrightarrow> get_post (wdb (snd (normalize E pid w))) k = get_post (wdb w) k"
    by (cases; simp add: normalize_write_frame)+
qed

end
