(* ===== verification/Reconcile.thy ===== *)
theory Reconcile
  imports WorkerNormalize
begin

text \<open>
  Boot-time reconcile and housekeeping of \<open>worker/reconcile.py\<close>: overdue scheduled posts are
  queued again, old dedupe rows, audit events and unreferenced media files are dropped.
\<close>

section \<open>Overdue scheduled posts\<close>

definition RECONCILE_BATCH :: nat where
  "RECONCILE_BATCH = 100"

definition RECONCILE_MAX_AGE_DAYS :: int where
  "RECONCILE_MAX_AGE_DAYS = 30"

definition overdue :: "time \<Rightarrow> post \<Rightarrow> bool" where
  "overdue now p \<longleftrightarrow>
     (let stale_cutoff = now - days RECONCILE_MAX_AGE_DAYS
      in post_state p = Scheduled \<and>
         (case scheduled_for p of None \<Rightarrow> False | Some t \<Rightarrow> t \<le> now \<and> t \<ge> stale_cutoff) \<and>
         published_message_id p = None)"

definition overdue_posts :: "time \<Rightarrow> db \<Rightarrow> post list" where
  "overdue_posts now d =
     take RECONCILE_BATCH (sort_key (\<lambda>p. the (scheduled_for p)) (filter (overdue now) (posts d)))"

text \<open>The loop: one job per post; an enqueue that raises ends it.\<close>

fun enqueue_each :: "env \<Rightarrow> (int \<Rightarrow> job) \<Rightarrow> post list \<Rightarrow> int \<Rightarrow> int eff" where
  "enqueue_each E mk [] n w = (Inr n, w)"
| "enqueue_each E mk (p # ps) n w =
     (case enqueue_job E (mk (post_id p)) w of
        (Inl e, w1) \<Rightarrow> (Inl e, w1)
      | (Inr u, w1) \<Rightarrow> enqueue_each E mk ps (n + 1) w1)"

definition reconcile_scheduled :: "env \<Rightarrow> int eff" where
  "reconcile_scheduled E w =
     enqueue_each E (\<lambda>pid. publish_job pid None) (overdue_posts (wclock w) (wdb w)) 0 w"

section \<open>Housekeeping\<close>

definition prune_dedupe_rows :: "settings \<Rightarrow> time \<Rightarrow> db \<Rightarrow> int \<times> db" where
  "prune_dedupe_rows s now d =
     (let cutoff = now - days (dedupe_lookback_days s);
          keep = filter (\<lambda>r. \<not> pd_published_at r < cutoff) (dedupe_rows d)
      in (int (length (dedupe_rows d)) - int (length keep), d\<lparr>dedupe_rows := keep\<rparr>))"

definition prune_audit_events :: "settings \<Rightarrow> time \<Rightarrow> db \<Rightarrow> int \<times> db" where
  "prune_audit_events s now d =
     (let cutoff = now - days (audit_retention_days s);
          keep = filter (\<lambda>e. \<not> event_created_at e < cutoff) (post_events d)
      in (int (length (post_events d)) - int (length keep), d\<lparr>post_events := keep\<rparr>))"

definition MEDIA_RELEVANT_STATES :: "post_state list" where
  "MEDIA_RELEVANT_STATES = [Pending, Approved, Scheduled, Published]"

definition basename :: "pystr \<Rightarrow> pystr" where
  "basename path = rev (takeWhile (\<lambda>c. c \<noteq> 47) (rev path))"

definition referenced_media :: "db \<Rightarrow> pystr set" where
  "referenced_media d =
     set (concat (map media_paths (filter (\<lambda>p. post_state p \<in> set MEDIA_RELEVANT_STATES) (posts d))))"

text \<open>
  \<open>rm_ok\<close> says whether removing a file succeeds; an \<open>OSError\<close> skips the file.
\<close>

definition prunable :: "settings \<Rightarrow> time \<Rightarrow> db \<Rightarrow> pystr \<times> time \<Rightarrow> bool" where
  "prunable s now d f \<longleftrightarrow>
     (let cutoff_ts = now - days (media_retention_days s)
      in snd f < cutoff_ts \<and> fst f \<notin> referenced_media d \<and> basename (fst f) \<notin> referenced_media d)"

definition prune_media_files :: "settings \<Rightarrow> (pystr \<Rightarrow> bool) \<Rightarrow> world \<Rightarrow> int \<times> world" where
  "prune_media_files s rm_ok w =
     (let gone = (\<lambda>f. prunable s (wclock w) (wdb w) f \<and> rm_ok (fst f));
          keep = filter (\<lambda>f. \<not> gone f) (wfiles w)
      in (int (length (wfiles w)) - int (length keep), w\<lparr>wfiles := keep\<rparr>))"

definition prune_dedupe :: "settings \<Rightarrow> (pystr \<Rightarrow> bool) \<Rightarrow> world \<Rightarrow> pystr \<times> world" where
  "prune_dedupe s rm_ok w =
     (let (removed_hashes, d1) = prune_dedupe_rows s (wclock w) (wdb w);
          (removed_events, d2) = prune_audit_events s (wclock w) d1;
          (removed_files, w1) = prune_media_files s rm_ok (w\<lparr>wdb := d2\<rparr>)
      in (lit ''ok'', w1))"

section \<open>Facts\<close>

lemma enqueue_each_up:
  "redis_up E \<Longrightarrow>
   fst (enqueue_each E mk ps n w) = Inr (n + int (length ps)) \<and>
   wjobs (snd (enqueue_each E mk ps n w)) = wjobs w @ map (\<lambda>p. mk (post_id p)) ps"
  by (induction ps arbitrary: n w) (simp_all add: enqueue_job_up)

text \<open>Whether or not Redis fails midway, the jobs added are those of a prefix of the list, and
  nothing else in the world but the pool changes.\<close>

lemma enqueue_each_prefix:
  "\<exists>k. wjobs (snd (enqueue_each E mk ps n w)) = wjobs w @ map (\<lambda>p. mk (post_id p)) (take k ps)"
proof (induction ps arbitrary: n w)
  case Nil
  then show ?case by simp
next
  case (Cons p ps)
  show ?case
  proof (cases "enqueue_job E (mk (post_id p)) w")
    case (Pair r w1)
    show ?thesis
    proof (cases r)
      case (Inl e)
      with Pair enqueue_job_err [of E "mk (post_id p)" w e]
      show ?thesis by (intro exI [of _ 0]) simp
    next
      case (Inr u)
      obtain k where k: "wjobs (snd (enqueue_each E mk ps (n + 1) w1))
          = wjobs w1 @ map (\<lambda>p. mk (post_id p)) (take k ps)"
        using Cons.IH by blast
      from Inr Pair enqueue_job_ok [of E "mk (post_id p)" w u]
      have "wjobs w1 = wjobs w @ [mk (post_id p)]" by simp
      with Inr Pair k show ?thesis by (intro exI [of _ "Suc k"]) simp
    qed
  qed
qed

lemma enqueue_each_frame [frame, simp]:
  "wdb (snd (enqueue_each E mk ps n w)) = wdb w \<and> wcalls (snd (enqueue_each E mk ps n w)) = wcalls w"
proof (induction ps arbitrary: n w)
  case (Cons p ps)
  have "wdb (snd (enqueue_job E (mk (post_id p)) w)) = wdb w"
    "wcalls (snd (enqueue_job E (mk (post_id p)) w)) = wcalls w" by simp_all
  then show ?case
    using Cons by (cases "enqueue_job E (mk (post_id p)) w") (auto split: sum.split)
qed simp

lemma overdue_posts_sound: "p \<in> set (overdue_posts now d) \<Longrightarrow> p \<in> set (posts d) \<and> overdue now p"
  by (auto simp: overdue_posts_def dest: in_set_takeD)

lemma overdue_posts_length: "length (overdue_posts now d) \<le> RECONCILE_BATCH"
  by (simp add: overdue_posts_def)

lemma sorted_overdue: "sorted (map (\<lambda>p. the (scheduled_for p)) (overdue_posts now d))"
  by (simp add: overdue_posts_def take_map [symmetric] sorted_wrt_take)

lemma overdue_posts_all:
  "length (filter (overdue now) (posts d)) \<le> RECONCILE_BATCH \<Longrightarrow>
   mset (overdue_posts now d) = mset (filter (overdue now) (posts d))"
  by (simp add: overdue_posts_def)

text \<open>What the batch leaves out is due no earlier than anything in it.\<close>

lemma overdue_posts_earliest:
  assumes "p \<in> set (overdue_posts now d)" and "q \<in> set (posts d)" and "overdue now q"
    and "q \<notin> set (overdue_posts now d)"
  shows "the (scheduled_for p) \<le> the (scheduled_for q)"
proof -
  let ?xs = "sort_key (\<lambda>p. the (scheduled_for p)) (filter (overdue now) (posts d))"
  have q: "q \<in> set (drop RECONCILE_BATCH ?xs)"
  proof -
    have "q \<in> set ?xs" using assms(2,3) by simp
    then have "q \<in> set (take RECONCILE_BATCH ?xs) \<union> set (drop RECONCILE_BATCH ?xs)"
      by (metis append_take_drop_id set_append)
    with assms(4) show ?thesis by (simp add: overdue_posts_def)
  qed
  have "sorted (map (\<lambda>p. the (scheduled_for p)) (take RECONCILE_BATCH ?xs @ drop RECONCILE_BATCH ?xs))"
    by simp
  then have "\<forall>x \<in> set (take RECONCILE_BATCH ?xs). \<forall>y \<in> set (drop RECONCILE_BATCH ?xs).
      the (scheduled_for x) \<le> the (scheduled_for y)"
    by (simp only: map_append sorted_append) auto
  with assms(1) q show ?thesis by (simp add: overdue_posts_def)
qed

section \<open>Properties\<close>

text \<open>A selection, sorted and cut, has no row twice.\<close>

lemma distinct_selection:
  assumes "distinct (map f xs)" shows "distinct (map f (take n (sort_key k (filter P xs))))"
proof -
  have "distinct (map f (filter P xs))" using assms by (simp add: distinct_map_filter)
  then have "distinct (map f (sort_key k (filter P xs)))"
    by (metis distinct_map distinct_sort set_sort)
  then show ?thesis by (metis distinct_take take_map)
qed

text \<open>
  C38: on boot, with Redis up, the earliest hundred scheduled posts that are due, not older than thirty days and
  not published get a publish job, in the order they are due: one each, as ids are unique, and no other post gets
  one.
\<close>

theorem reconcile_scheduled_spec:
  assumes "redis_up E" and "distinct (map post_id (posts (wdb w)))"
  shows "\<exists>ps. wjobs (snd (reconcile_scheduled E w)) = wjobs w @ map (\<lambda>p. publish_job (post_id p) None) ps \<and>
    fst (reconcile_scheduled E w) = Inr (int (length ps)) \<and> length ps \<le> 100 \<and> distinct (map post_id ps) \<and>
    sorted (map (\<lambda>p. the (scheduled_for p)) ps) \<and>
    (\<forall>p \<in> set ps. p \<in> set (posts (wdb w)) \<and> post_state p = Scheduled \<and> published_message_id p = None \<and>
       (\<exists>t. scheduled_for p = Some t \<and> wclock w - days 30 \<le> t \<and> t \<le> wclock w)) \<and>
    (\<forall>q \<in> set (posts (wdb w)) - set ps. \<forall>t. post_state q = Scheduled \<and> published_message_id q = None \<and>
         scheduled_for q = Some t \<and> wclock w - days 30 \<le> t \<and> t \<le> wclock w \<longrightarrow>
       length ps = 100 \<and> (\<forall>p \<in> set ps. the (scheduled_for p) \<le> t))"
proof (intro exI conjI)
  let ?ps = "overdue_posts (wclock w) (wdb w)"
  show "wjobs (snd (reconcile_scheduled E w)) = wjobs w @ map (\<lambda>p. publish_job (post_id p) None) ?ps"
    "fst (reconcile_scheduled E w) = Inr (int (length ?ps))"
    using enqueue_each_up [OF assms(1)] by (simp_all add: reconcile_scheduled_def)
  show "length ?ps \<le> 100" using overdue_posts_length by (simp add: RECONCILE_BATCH_def)
  show "sorted (map (\<lambda>p. the (scheduled_for p)) ?ps)" by (rule sorted_overdue)
  show "distinct (map post_id ?ps)" unfolding overdue_posts_def by (rule distinct_selection [OF assms(2)])
  show "\<forall>p \<in> set ?ps. p \<in> set (posts (wdb w)) \<and> post_state p = Scheduled \<and> published_message_id p = None \<and>
      (\<exists>t. scheduled_for p = Some t \<and> wclock w - days 30 \<le> t \<and> t \<le> wclock w)"
    using overdue_posts_sound by (fastforce simp: overdue_def Let_def RECONCILE_MAX_AGE_DAYS_def split: option.splits)
  have full: "length ?ps = 100" if "q \<in> set (posts (wdb w))" "q \<notin> set ?ps" "overdue (wclock w) q" for q
  proof (rule ccontr)
    assume "length ?ps \<noteq> 100"
    then have "length (filter (overdue (wclock w)) (posts (wdb w))) \<le> RECONCILE_BATCH"
      by (auto simp: overdue_posts_def RECONCILE_BATCH_def)
    from overdue_posts_all [OF this] have "set ?ps = set (filter (overdue (wclock w)) (posts (wdb w)))"
      by (metis set_mset_mset)
    with that show False by auto
  qed
  show "\<forall>q \<in> set (posts (wdb w)) - set ?ps. \<forall>t. post_state q = Scheduled \<and> published_message_id q = None \<and>
      scheduled_for q = Some t \<and> wclock w - days 30 \<le> t \<and> t \<le> wclock w \<longrightarrow>
      length ?ps = 100 \<and> (\<forall>p \<in> set ?ps. the (scheduled_for p) \<le> t)"
  proof (intro ballI allI impI)
    fix q t
    assume q: "q \<in> set (posts (wdb w)) - set ?ps" and t: "post_state q = Scheduled \<and> published_message_id q = None \<and>
      scheduled_for q = Some t \<and> wclock w - days 30 \<le> t \<and> t \<le> wclock w"
    then have o: "overdue (wclock w) q" by (simp add: overdue_def Let_def RECONCILE_MAX_AGE_DAYS_def)
    with q t full overdue_posts_earliest show "length ?ps = 100 \<and> (\<forall>p \<in> set ?ps. the (scheduled_for p) \<le> t)"
      by (metis DiffE option.sel)
  qed
qed

definition due_world :: world where
  "due_world = sample_world [sample_post\<lparr>post_state := Scheduled, scheduled_for := Some (days 999)\<rparr>] []"

theorem reconcile_scheduled_spec_witness:
  "publish_job 9 None \<in> set (wjobs (snd (reconcile_scheduled sample_env due_world)))"
proof -
  have up: "redis_up sample_env" by (simp add: redis_up_def sample_redis_up)
  let ?p = "sample_post\<lparr>post_state := Scheduled, scheduled_for := Some (days 999)\<rparr>"
  have n: "fst (reconcile_scheduled sample_env due_world) = Inr 1" by code_simp
  have u: "distinct (map post_id (posts (wdb due_world)))" by code_simp
  from reconcile_scheduled_spec [OF up u] obtain ps where
    ps: "wjobs (snd (reconcile_scheduled sample_env due_world))
        = wjobs due_world @ map (\<lambda>p. publish_job (post_id p) None) ps"
      "fst (reconcile_scheduled sample_env due_world) = Inr (int (length ps))"
      "\<forall>p \<in> set ps. p \<in> set (posts (wdb due_world))"
    by auto
  from ps(2) n have "length ps = 1" by simp
  then obtain q where q: "ps = [q]" by (cases ps) auto
  have "post_id q = 9" using ps(3) q by (auto simp: due_world_def sample_defs)
  with ps(1) q show ?thesis by simp
qed

text \<open>
  pruning never changes the verdict of the duplicate check at the same moment, for any hash, and
  afterwards every row of the index is inside the lookback window.
\<close>

theorem prune_keeps_duplicate_check:
  "is_duplicate s now (snd (prune_dedupe_rows s now d)) h = is_duplicate s now d h \<and>
   (\<forall>r. r \<in> set (dedupe_rows (snd (prune_dedupe_rows s now d)))
      \<longleftrightarrow> r \<in> set (dedupe_rows d) \<and> now - days (dedupe_lookback_days s) \<le> pd_published_at r)"
  by (auto simp: prune_dedupe_rows_def is_duplicate_def Let_def list_ex_iff)

lemma prune_dedupe_files:
  "wfiles (snd (prune_dedupe s rm_ok w)) =
     filter (\<lambda>f. \<not> (prunable s (wclock w) (wdb w) f \<and> rm_ok (fst f))) (wfiles w)"
  by (simp add: prune_dedupe_def prune_dedupe_rows_def prune_audit_events_def prune_media_files_def
      prunable_def referenced_media_def Let_def)


definition media_post :: "post_state \<Rightarrow> post" where
  "media_post st = sample_post\<lparr>post_state := st, media_paths := [lit ''/media/a'']\<rparr>"

definition old_media_world :: "post_state \<Rightarrow> world" where
  "old_media_world st = (sample_world [media_post st] [])\<lparr>wfiles := [(lit ''/media/a'', 0)]\<rparr>"


text \<open>
  a post whose publish failed may be retried, yet its media is not protected: an old file that
  only failed or in-flight posts refer to is removed.
\<close>

theorem prune_drops_media_of_failed_posts:
  assumes "f \<in> set (wfiles w)" and "snd f < wclock w - days (media_retention_days s)" and "rm_ok (fst f)"
    and "\<And>p. p \<in> set (posts (wdb w)) \<Longrightarrow>
      fst f \<in> set (media_paths p) \<or> basename (fst f) \<in> set (media_paths p) \<Longrightarrow>
      post_state p \<in> {Publish_failed, Publishing, Rejected}"
  shows "f \<notin> set (wfiles (snd (prune_dedupe s rm_ok w)))"
proof -
  have "fst f \<notin> referenced_media (wdb w)" "basename (fst f) \<notin> referenced_media (wdb w)"
    using assms(4) by (fastforce simp: referenced_media_def MEDIA_RELEVANT_STATES_def)+
  with assms show ?thesis by (simp add: prune_dedupe_files prunable_def)
qed

theorem prune_drops_media_of_failed_posts_witness:
  "post_state (media_post Publish_failed) = Publish_failed \<and>
   (lit ''/media/a'', 0) \<notin> set (wfiles (snd (prune_dedupe default_settings (\<lambda>x. True) (old_media_world Publish_failed))))"
proof (rule conjI, simp add: media_post_def, rule prune_drops_media_of_failed_posts)
  show "snd (lit ''/media/a'', 0) < wclock (old_media_world Publish_failed) - days (media_retention_days default_settings)"
    by code_simp
qed (auto simp: old_media_world_def media_post_def sample_world_def sample_db_def)

definition waiting_post :: post where
  "waiting_post = sample_post\<lparr>raw_media_refs := [\<lparr>mr_type = Some (lit ''photo''), mr_file = Some (lit ''/media/a''), mr_size = None, mr_mime = None, mr_omitted = False\<rparr>]\<rparr>"

text \<open>
  A post that waits for its normalization names its file in the raw references, which the publisher sends from
  later; the file is not protected.
\<close>

theorem prune_drops_media_before_normalization:
  "raw_media_refs waiting_post = [\<lparr>mr_type = Some (lit ''photo''), mr_file = Some (lit ''/media/a''), mr_size = None, mr_mime = None, mr_omitted = False\<rparr>] \<and>
   post_state waiting_post = Pending \<and>
   wfiles (snd (prune_dedupe default_settings (\<lambda>x. True) ((sample_world [waiting_post] [])\<lparr>wfiles := [(lit ''/media/a'', 0)]\<rparr>))) = []"
proof -
  have "wfiles (snd (prune_dedupe default_settings (\<lambda>x. True) ((sample_world [waiting_post] [])\<lparr>wfiles := [(lit ''/media/a'', 0)]\<rparr>))) = []"
    by code_simp
  then show ?thesis by (simp add: waiting_post_def sample_defs)
qed

end
