(* ===== verification/DateTime.thy ===== *)
theory DateTime
  imports Models
begin

text \<open>
  The part of Python's \<open>datetime\<close> the code uses: the civil date of an instant, \<open>strftime\<close>
  with the one format of the draft card, \<open>isoformat\<close>, and the comparison of aware and naive
  values, which raises.
\<close>

definition day_us :: int where
  "day_us = 86400 * 1000000"

text \<open>Proleptic Gregorian date of a day number counted from 1970-01-01, by 400-year eras.\<close>

definition civil_from_days :: "int \<Rightarrow> int \<times> int \<times> int" where
  "civil_from_days n =
     (let z = n + 719468;
          era = z div 146097;
          doe = z mod 146097;
          yoe = (doe - doe div 1460 + doe div 36524 - doe div 146096) div 365;
          doy = doe - (365 * yoe + yoe div 4 - yoe div 100);
          mp = (5 * doy + 2) div 153;
          d = doy - (153 * mp + 2) div 5 + 1;
          m = (if mp < 10 then mp + 3 else mp - 9);
          y = yoe + era * 400 + (if m \<le> 2 then 1 else 0)
      in (y, m, d))"

text \<open>\<open>n\<close> in decimal, padded with zeros to a width.\<close>

definition pad :: "nat \<Rightarrow> int \<Rightarrow> pystr" where
  "pad k n = (let s = str_int n in replicate (k - length s) 48 @ s)"

definition strftime_utc :: "time \<Rightarrow> pystr" where
  "strftime_utc t =
     (let (y, m, d) = civil_from_days (t div day_us); s = (t mod day_us) div 1000000
      in pad 4 y @ [45] @ pad 2 m @ [45] @ pad 2 d @ [32] @ pad 2 (s div 3600) @ [58]
         @ pad 2 (s div 60 mod 60) @ lit '' UTC'')"

text \<open>A \<open>datetime\<close>: the wall clock in microseconds and the UTC offset of an aware value.\<close>

record py_datetime =
  dt_local :: time
  dt_offset :: "time option"

definition dt_utc :: "py_datetime \<Rightarrow> time option" where
  "dt_utc t = map_option (\<lambda>off. dt_local t - off) (dt_offset t)"

text \<open>\<open>a <= now\<close> for an aware \<open>now\<close>: a naive \<open>a\<close> raises \<open>TypeError\<close>.\<close>

definition le_now :: "py_datetime \<Rightarrow> time \<Rightarrow> bool result" where
  "le_now a now = (case dt_utc a of
      None \<Rightarrow> Inl (OtherError (lit ''can't compare offset-naive and offset-aware datetimes''))
    | Some t \<Rightarrow> Inr (t \<le> now))"

definition iso_offset :: "time \<Rightarrow> pystr" where
  "iso_offset off =
     (let s = abs off div 1000000
      in (if off < 0 then [45] else [43]) @ pad 2 (s div 3600) @ [58] @ pad 2 (s div 60 mod 60)
         @ (if s mod 60 = 0 then [] else [58] @ pad 2 (s mod 60)))"

definition isoformat :: "py_datetime \<Rightarrow> pystr" where
  "isoformat t =
     (let (y, m, d) = civil_from_days (dt_local t div day_us);
          us = dt_local t mod day_us; s = us div 1000000; frac = us mod 1000000
      in pad 4 y @ [45] @ pad 2 m @ [45] @ pad 2 d @ [84] @ pad 2 (s div 3600) @ [58]
         @ pad 2 (s div 60 mod 60) @ [58] @ pad 2 (s mod 60)
         @ (if frac = 0 then [] else [46] @ pad 6 frac)
         @ (case dt_offset t of None \<Rightarrow> [] | Some off \<Rightarrow> iso_offset off))"

lemma civil_examples:
  "civil_from_days 0 = (1970, 1, 1)" "civil_from_days 19782 = (2024, 2, 29)"
  "civil_from_days (- 1) = (1969, 12, 31)" "civil_from_days 11016 = (2000, 2, 29)"
  by code_simp+

end
