(* ===== verification/Cards.thy ===== *)
theory Cards
  imports World DateTime
begin

text \<open>
  Draft cards of \<open>bot/cards.py\<close>: the text of a card for a post's current state and the buttons
  that go with it.
\<close>

definition CAPTION_LIMIT :: nat where
  "CAPTION_LIMIT = 1024"

definition PREVIEW_LIMIT :: nat where
  "PREVIEW_LIMIT = 900"

text \<open>The badge table; \<open>publishing\<close> is not in it and falls back to its upper-cased value.\<close>

fun state_badge :: "post_state \<Rightarrow> pystr" where
  "state_badge Pending = [9203] @ lit '' PENDING''"
| "state_badge Approved = [9989] @ lit '' APPROVED''"
| "state_badge Scheduled = [128467] @ lit '' SCHEDULED''"
| "state_badge Published = [9745, 65039] @ lit '' PUBLISHED''"
| "state_badge Rejected = [128465] @ lit '' REJECTED''"
| "state_badge Publish_failed = [9888, 65039] @ lit '' FAILED''"
| "state_badge Publishing = lit ''PUBLISHING''"

definition media_note :: "media_ref list \<Rightarrow> pystr" where
  "media_note refs =
     (if refs = [] then []
      else let kinds = sort (remdups (map (\<lambda>m. case mr_type m of None \<Rightarrow> lit ''media'' | Some t \<Rightarrow> t) refs));
               omitted = list_ex mr_omitted refs
           in [10, 128206] @ lit '' media: '' @ join (lit '', '') kinds
              @ (if omitted then lit '' (omitted: too large)'' else []))"

definition card_body :: "post \<Rightarrow> pystr" where
  "card_body p =
     (let body = or_else (normalized_text p) (or_else (raw_text p) (lit ''(empty)''))
      in if length body > PREVIEW_LIMIT then take PREVIEW_LIMIT body @ [8230] else body)"

definition render_draft_text :: "env \<Rightarrow> post \<Rightarrow> source_channel \<Rightarrow> tag list \<Rightarrow> pystr" where
  "render_draft_text E p ch ts =
     (let q = hd_quote E;
          lbl = or_else (source_label ch) (or_else (channel_username ch) (title ch));
          tag_str = (case join (lit '', '') (map label ts) of [] \<Rightarrow> [8212] | s \<Rightarrow> s);
          lines = [lit ''<b>'' @ state_badge (post_state p) @ lit ''</b>  '' @ [183] @ lit ''  <b>'' @ q lbl @ lit ''</b>'',
                   lit ''<i>post #'' @ str_int (post_id p) @ lit ''</i>  '' @ [183] @ lit ''  src msg '' @ str_int (source_message_id p),
                   lit ''tags: '' @ q tag_str @ media_note (raw_media_refs p),
                   [8212],
                   q (card_body p)]
      in join [10] (lines @ (case scheduled_for p of
             None \<Rightarrow> []
           | Some t \<Rightarrow> [[10, 128467] @ lit '' scheduled for '' @ q (strftime_utc t)])))"

definition draft_keyboard :: "settings \<Rightarrow> post \<Rightarrow> keyboard" where
  "draft_keyboard s p =
     (let web_url = public_web_url s @ lit ''/queue/'' @ str_int (post_id p)
      in [[Callback_button ([9989] @ lit '' Approve'') (lit ''ap:'' @ str_int (post_id p)),
           Callback_button ([128465] @ lit '' Reject'') (lit ''rj:'' @ str_int (post_id p))],
          [Url_button ([127991] @ lit '' Edit tags'') web_url,
           Url_button ([128467] @ lit '' Schedule'') web_url]])"

definition published_keyboard :: keyboard where
  "published_keyboard = [[Callback_button ([9745, 65039] @ lit '' Published '' @ [10003]) (lit ''noop'')]]"

definition build_draft_payload :: "env \<Rightarrow> db \<Rightarrow> post \<Rightarrow> source_channel \<Rightarrow> pystr \<times> keyboard" where
  "build_draft_payload E d p ch =
     (let ts = (if tag_ids p = [] then [] else filter (\<lambda>t. tag_id t \<in> set (tag_ids p)) (tags d));
          text = render_draft_text E p ch ts
      in if post_state p = Published then (text, published_keyboard)
         else if post_state p \<in> {Rejected, Publish_failed} then (text, [])
         else (text, draft_keyboard (cfg E) p))"

section \<open>Buttons\<close>

fun callback_datas :: "keyboard \<Rightarrow> pystr list" where
  "callback_datas kb = concat (map (\<lambda>b. case b of Callback_button t dat \<Rightarrow> [dat] | Url_button t u \<Rightarrow> []) (concat kb))"

definition offers_approval :: "keyboard \<Rightarrow> bool" where
  "offers_approval kb \<longleftrightarrow> list_ex (\<lambda>dat. startswith dat (lit ''ap:'')) (callback_datas kb)"

lemma offers_approval_iff:
  "offers_approval (snd (build_draft_payload E d p ch))
     \<longleftrightarrow> post_state p \<notin> {Published, Rejected, Publish_failed}"
  by (auto simp: build_draft_payload_def offers_approval_def draft_keyboard_def published_keyboard_def
      Let_def lit_def)

lemma card_body_length: "length (card_body p) \<le> PREVIEW_LIMIT + 1"
  by (simp add: card_body_def Let_def)

end
