(* ===== verification/Publisher.thy ===== *)
theory Publisher
  imports Cards Tasks
begin

text \<open>
  The \<open>publish\<close> job of \<open>bot/publisher.py\<close>: the dedupe reservation, the spaced send with one
  retry, the bookkeeping after a send, and the failure path. Each database transaction of the code
  is a definition of its own, so that the job is their sequential composition here and their
  interleaving in \<open>PublishRace\<close>.
\<close>

section \<open>Sending one post\<close>

definition SKIP_STATES :: "post_state set" where
  "SKIP_STATES = {Rejected, Published, Publishing}"

text \<open>The media that is sent: downloaded, not omitted, and within the size limit.\<close>

definition sendable :: "settings \<Rightarrow> media_ref list \<Rightarrow> media_ref list" where
  "sendable s refs =
     filter (\<lambda>m. \<not> truthy_int (mr_size m) \<or> the (mr_size m) \<le> media_max_size_default s)
       (filter (\<lambda>m. truthy (mr_file m) \<and> \<not> mr_omitted m) refs)"

definition file_exists :: "world \<Rightarrow> pystr \<Rightarrow> bool" where
  "file_exists w path \<longleftrightarrow> path \<in> fst ` set (wfiles w)"

definition media_kind_of :: "pystr option \<Rightarrow> send_kind" where
  "media_kind_of t =
     (if t = Some (lit ''photo'') then Photo
      else if t = Some (lit ''video'') then Video
      else if t = Some (lit ''animation'') then Animation
      else if t = Some (lit ''audio'') then Audio
      else if t = Some (lit ''voice'') then Voice
      else if t = Some (lit ''video_note'') then Video_note
      else Document)"

definition group_kind_of :: "pystr option \<Rightarrow> group_kind" where
  "group_kind_of t =
     (if t = Some (lit ''photo'') then InputMediaPhoto
      else if t = Some (lit ''video'') then InputMediaVideo
      else InputMediaDocument)"

definition caption_of :: "pystr \<Rightarrow> pystr option" where
  "caption_of text = (if text \<noteq> [] \<and> length text \<le> CAPTION_LIMIT then Some text else None)"

text \<open>\<open>send_voice\<close> and \<open>send_video_note\<close> are called without a caption.\<close>

definition primary_call :: "send_kind \<Rightarrow> int \<Rightarrow> pystr \<Rightarrow> pystr option \<Rightarrow> tg_call" where
  "primary_call k chat path caption =
     Send_media k chat path (if k = Voice \<or> k = Video_note then None else caption)"

definition media_group :: "world \<Rightarrow> media_ref list \<Rightarrow> (group_kind \<times> pystr) list" where
  "media_group w extra =
     map (\<lambda>m. (group_kind_of (mr_type m), the (mr_file m)))
       (filter (\<lambda>m. file_exists w (the (mr_file m))) (take 9 extra))"

text \<open>What follows the primary message: the group of the other media, then a text too long to
  have been a caption.\<close>

definition send_rest ::
  "env \<Rightarrow> int \<Rightarrow> pystr \<Rightarrow> pystr option \<Rightarrow> media_ref list \<Rightarrow> int \<Rightarrow> (int option) eff" where
  "send_rest E chat text caption extra mid w =
     (case (if media_group w extra \<noteq> []
            then tg_do E (Send_media_group chat (media_group w extra)) w else (Inr 0, w)) of
        (Inl e, w1) \<Rightarrow> (Inl e, w1)
      | (Inr g, w1) \<Rightarrow>
          if caption = None \<and> text \<noteq> []
          then (case tg_do E (Send_message chat text None) w1 of
                  (Inl e, w2) \<Rightarrow> (Inl e, w2)
                | (Inr m, w2) \<Rightarrow> (Inr (Some mid), w2))
          else (Inr (Some mid), w1))"

definition send_post ::
  "env \<Rightarrow> int \<Rightarrow> pystr \<Rightarrow> media_ref list \<Rightarrow> (int option) eff" where
  "send_post E chat text refs w =
     (let plain = (if text = [] then [32] else text)
      in case sendable (cfg E) refs of
           [] \<Rightarrow> (case tg_do E (Send_message chat plain None) w of
                    (Inl e, w1) \<Rightarrow> (Inl e, w1) | (Inr m, w1) \<Rightarrow> (Inr (Some m), w1))
         | primary # extra \<Rightarrow>
             let path = the (mr_file primary)
             in if \<not> file_exists w path
                then (case tg_do E (Send_message chat plain None) w of
                        (Inl e, w1) \<Rightarrow> (Inl e, w1) | (Inr m, w1) \<Rightarrow> (Inr (Some m), w1))
                else (case tg_do E (primary_call (media_kind_of (mr_type primary)) chat path (caption_of text)) w of
                        (Inl e, w1) \<Rightarrow> (Inl e, w1)
                      | (Inr mid, w1) \<Rightarrow> send_rest E chat text (caption_of text) extra mid w1))"

text \<open>The spaced send under the lock, with one retry after a flood-control answer.\<close>

definition send_spaced ::
  "env \<Rightarrow> int \<Rightarrow> pystr \<Rightarrow> media_ref list \<Rightarrow> (int option) eff" where
  "send_spaced E chat text refs w =
     (case send_post E chat text refs (sleep (publish_spacing_seconds (cfg E)) w) of
        (Inl (TelegramRetryAfter n), w1) \<Rightarrow> send_post E chat text refs (sleep (seconds (n + 1)) w1)
      | (r, w1) \<Rightarrow> (r, w1))"

section \<open>The dedupe index\<close>

definition dedupe_exists :: "db \<Rightarrow> pystr \<Rightarrow> bool" where
  "dedupe_exists d h \<longleftrightarrow> list_ex (\<lambda>r. pd_hash r = h) (dedupe_rows d)"

text \<open>\<open>INSERT ... ON CONFLICT DO NOTHING RETURNING\<close>: whether a row was created.\<close>

definition reserve_dedupe :: "time \<Rightarrow> pystr option \<Rightarrow> db \<Rightarrow> bool \<times> db" where
  "reserve_dedupe now h d =
     (if \<not> truthy h then (True, d)
      else if dedupe_exists d (the h) then (False, d)
      else (True, d\<lparr>dedupe_rows := tadd \<lparr>pd_id = next_id d, pd_hash = the h, pd_published_at = now\<rparr>
                      (dedupe_rows d), next_id := next_id d + 1\<rparr>))"

definition release_dedupe :: "pystr option \<Rightarrow> db \<Rightarrow> db" where
  "release_dedupe h d =
     (if \<not> truthy h then d else d\<lparr>dedupe_rows := tdel pd_hash (the h) (dedupe_rows d)\<rparr>)"

section \<open>Bookkeeping\<close>

definition mark_duplicate :: "time \<Rightarrow> int \<Rightarrow> pystr \<Rightarrow> db \<Rightarrow> db" where
  "mark_duplicate now pid h d =
     (case get_post d pid of
        None \<Rightarrow> d
      | Some p \<Rightarrow> add_event now pid None Ev_duplicate
            [(''dedupe_hash'', JStr h), (''reason'', JStr (lit ''race_at_publish''))]
            (save_post now (p\<lparr>post_state := Rejected\<rparr>) d))"

text \<open>
  The transaction ends in \<open>session.add\<close> of a Core insert when there is a hash; if that raises, the
  session is closed without a commit and nothing of the transaction is kept.
\<close>

definition mark_published :: "env \<Rightarrow> time \<Rightarrow> int \<Rightarrow> int \<Rightarrow> pystr option \<Rightarrow> db \<Rightarrow> unit result \<times> db" where
  "mark_published E now pid mid h d =
     (case get_post d pid of
        None \<Rightarrow> (Inr (), d)
      | Some p \<Rightarrow>
          let d1 = add_event now pid None Ev_published
                [(''published_message_id'', JInt mid), (''chat_id'', JInt (destination_channel_id (cfg E)))]
                (save_post now (p\<lparr>post_state := Published, published_message_id := Some mid,
                                  published_at := Some now\<rparr>) d)
          in if truthy h
             then (case orm_add_statement E of
                     Some e \<Rightarrow> (Inl e, d)
                   | None \<Rightarrow> (Inr (), snd (reserve_dedupe now h d1)))
             else (Inr (), d1))"

definition edit_draft_card :: "env \<Rightarrow> post \<Rightarrow> source_channel \<Rightarrow> unit eff" where
  "edit_draft_card E p ch w =
     (if \<not> truthy_int (draft_message_id p) then (Inr (), w)
      else let (text, kb) = build_draft_payload E (wdb w) p ch
           in (case tg_do E (Edit_message_text (editor_group_id (cfg E)) (the (draft_message_id p)) text kb) w of
                 (Inl e, w1) \<Rightarrow> (if is_telegram_error e then Inr () else Inl e, w1)
               | (Inr m, w1) \<Rightarrow> (Inr (), w1)))"

definition alert_failure :: "env \<Rightarrow> post \<Rightarrow> pystr \<Rightarrow> unit eff" where
  "alert_failure E p err w =
     (if editor_group_id (cfg E) = 0 then (Inr (), w)
      else (case tg_do E (Send_message (editor_group_id (cfg E))
                   ([9888, 65039] @ lit '' <b>Publish failed</b> for post #'' @ str_int (post_id p)
                    @ [10] @ lit ''<code>'' @ take 300 err @ lit ''</code>'') None) w of
              (Inl e, w1) \<Rightarrow> (if is_telegram_error e then Inr () else Inl e, w1)
            | (Inr m, w1) \<Rightarrow> (Inr (), w1)))"

section \<open>The job\<close>

text \<open>The text that is published: the transformed text wins over the normalized one.\<close>

definition publish_text :: "post \<Rightarrow> pystr" where
  "publish_text p = or_else (ai_transformed_text p) (or_else (normalized_text p) (or_else (raw_text p) []))"

text \<open>The guard of the first transaction: \<open>Inl\<close> the early return, \<open>Inr\<close> the post to publish.\<close>

definition publish_guard :: "db \<Rightarrow> int \<Rightarrow> pystr + post" where
  "publish_guard d pid =
     (case get_post d pid of
        None \<Rightarrow> Inl (lit ''not_found'')
      | Some p \<Rightarrow>
          if published_message_id p \<noteq> None then Inl (lit ''already_published'')
          else if post_state p \<in> SKIP_STATES then Inl (lit ''skip:'' @ state_value (post_state p))
          else Inr p)"

definition claim_post :: "time \<Rightarrow> post \<Rightarrow> db \<Rightarrow> db" where
  "claim_post now p d = save_post now (p\<lparr>post_state := Publishing\<rparr>) d"

text \<open>The last part: bookkeeping and the draft card, after a delivered message.\<close>

definition publish_finish ::
  "env \<Rightarrow> int \<Rightarrow> int \<Rightarrow> pystr option \<Rightarrow> source_channel \<Rightarrow> pystr eff" where
  "publish_finish E pid mid h ch w =
     (case mark_published E (wclock w) pid mid h (wdb w) of
        (Inl e, d) \<Rightarrow> (Inl e, w\<lparr>wdb := d\<rparr>)
      | (Inr u, d) \<Rightarrow>
          let w1 = w\<lparr>wdb := d\<rparr>
          in (case get_post d pid of
                None \<Rightarrow> (Inr (lit ''published''), w1)
              | Some p \<Rightarrow> (case edit_draft_card E p ch w1 of
                    (Inl e, w2) \<Rightarrow> (Inl e, w2)
                  | (Inr v, w2) \<Rightarrow> (Inr (lit ''published''), w2))))"

definition publish_core :: "env \<Rightarrow> int \<Rightarrow> pystr eff" where
  "publish_core E pid w =
     (case publish_guard (wdb w) pid of
        Inl r \<Rightarrow> (Inr r, w)
      | Inr p \<Rightarrow>
          let w1 = w\<lparr>wdb := claim_post (wclock w) p (wdb w)\<rparr>; h = dedupe_hash p
          in (case get_channel (wdb w1) (source_channel_id p) of
                None \<Rightarrow> (Inr (lit ''no_channel''), w1)
              | Some ch \<Rightarrow>
                  if truthy h \<and> dedupe_exists (wdb w1) (the h)
                  then (Inr (lit ''duplicate''), w1\<lparr>wdb := mark_duplicate (wclock w1) pid (the h) (wdb w1)\<rparr>)
                  else
                    let (won, d2) = reserve_dedupe (wclock w1) h (wdb w1); w2 = w1\<lparr>wdb := d2\<rparr>
                    in if truthy h \<and> \<not> won
                       then (Inr (lit ''duplicate''), w2\<lparr>wdb := mark_duplicate (wclock w2) pid (the h) (wdb w2)\<rparr>)
                       else (case send_spaced E (destination_channel_id (cfg E)) (publish_text p)
                                    (raw_media_refs p) w2 of
                               (Inl e, w3) \<Rightarrow> (Inl e, w3\<lparr>wdb := release_dedupe h (wdb w3)\<rparr>)
                             | (Inr mid, w3) \<Rightarrow>
                                 if \<not> truthy_int mid
                                 then (Inl (RuntimeError (lit ''_send_post returned no message_id for post '' @ str_int pid)),
                                       w3\<lparr>wdb := release_dedupe h (wdb w3)\<rparr>)
                                 else publish_finish E pid (the mid) h ch w3)))"

definition on_publish_failure :: "env \<Rightarrow> int \<Rightarrow> pystr \<Rightarrow> unit eff" where
  "on_publish_failure E pid err w =
     (case get_post (wdb w) pid of
        None \<Rightarrow> (Inr (), w)
      | Some p \<Rightarrow>
          let p' = p\<lparr>post_state := Publish_failed\<rparr>;
              d = add_event (wclock w) pid None Ev_publish_failed [(''error'', JStr (take 500 err))]
                    (save_post (wclock w) p' (wdb w))
          in alert_failure E p' err (w\<lparr>wdb := d\<rparr>))"

definition publish :: "env \<Rightarrow> int \<Rightarrow> pystr eff" where
  "publish E pid w =
     (case publish_core E pid w of
        (Inr r, w1) \<Rightarrow> (Inr r, w1)
      | (Inl exc, w1) \<Rightarrow>
          (case on_publish_failure E pid (exn_text exc) w1 of
             (Inl e, w2) \<Rightarrow> (Inl e, w2)
           | (Inr u, w2) \<Rightarrow> (Inl exc, w2)))"

end
