(* ===== verification/PublisherFacts.thy ===== *)
theory PublisherFacts
  imports Publisher
begin

text \<open>
  Facts about the publish job: the reservation contract of the dedupe index, what a send adds to
  the call log, and the outcome of the job on each of its branches.
\<close>

section \<open>The reservation contract\<close>

text \<open>
  A client reserves a key before an action, keeps it when the action succeeded and frees it when it
  failed. Exactly one of several clients that ask for a free key gets it.
\<close>

locale reservation =
  fixes held :: "'d \<Rightarrow> 'k \<Rightarrow> bool"
    and acquire :: "'k \<Rightarrow> 'd \<Rightarrow> bool \<times> 'd"
    and free :: "'k \<Rightarrow> 'd \<Rightarrow> 'd"
    and valid :: "'k \<Rightarrow> bool"
  assumes won_iff: "valid k \<Longrightarrow> fst (acquire k d) \<longleftrightarrow> \<not> held d k"
    and held_acquire: "valid k \<Longrightarrow> held (snd (acquire k d)) k' \<longleftrightarrow> held d k' \<or> k' = k"
    and held_free: "valid k \<Longrightarrow> held (free k d) k' \<longleftrightarrow> held d k' \<and> k' \<noteq> k"
begin

lemma second_acquire_loses: "valid k \<Longrightarrow> \<not> fst (acquire k (snd (acquire k d)))"
  by (simp add: won_iff held_acquire)

lemma free_then_acquire: "valid k \<Longrightarrow> fst (acquire k (free k d))"
  by (simp add: won_iff held_free)

lemma acquire_free_restores:
  "valid k \<Longrightarrow> fst (acquire k d) \<Longrightarrow> held (free k (snd (acquire k d))) k' \<longleftrightarrow> held d k'"
  by (auto simp: won_iff held_acquire held_free)

lemma losing_changes_nothing: "valid k \<Longrightarrow> \<not> fst (acquire k d) \<Longrightarrow> held (snd (acquire k d)) = held d"
  by (auto simp: fun_eq_iff held_acquire won_iff)

end

lemma dedupe_exists_cong: "dedupe_rows d = dedupe_rows d' \<Longrightarrow> dedupe_exists d = dedupe_exists d'"
  by (auto simp: dedupe_exists_def fun_eq_iff)

lemma dedupe_exists_reserve:
  "h \<noteq> [] \<Longrightarrow> dedupe_exists (snd (reserve_dedupe now (Some h) d)) h' \<longleftrightarrow> dedupe_exists d h' \<or> h' = h"
  by (auto simp: reserve_dedupe_def dedupe_exists_def tadd_def list_ex_iff)

lemma dedupe_exists_release:
  "h \<noteq> [] \<Longrightarrow> dedupe_exists (release_dedupe (Some h) d) h' \<longleftrightarrow> dedupe_exists d h' \<and> h' \<noteq> h"
  by (auto simp: release_dedupe_def dedupe_exists_def tdel_def list_ex_iff)

interpretation dedupe_index: reservation dedupe_exists "\<lambda>h. reserve_dedupe now (Some h)"
    "\<lambda>h. release_dedupe (Some h)" "\<lambda>h. h \<noteq> []"
  for now :: time
  by unfold_locales (simp_all add: dedupe_exists_reserve dedupe_exists_release, simp add: reserve_dedupe_def)

lemma reserve_dedupe_frame [frame, simp]:
  "posts (snd (reserve_dedupe now h d)) = posts d"
  "source_channels (snd (reserve_dedupe now h d)) = source_channels d"
  "tags (snd (reserve_dedupe now h d)) = tags d"
  "post_events (snd (reserve_dedupe now h d)) = post_events d"
  by (simp_all add: reserve_dedupe_def)

lemma release_dedupe_frame [frame, simp]:
  "posts (release_dedupe h d) = posts d"
  "source_channels (release_dedupe h d) = source_channels d"
  "tags (release_dedupe h d) = tags d"
  "post_events (release_dedupe h d) = post_events d"
  by (simp_all add: release_dedupe_def)

text \<open>Reserving a free hash and releasing it again gives the same rows.\<close>

lemma release_reserve_rows:
  "\<not> (truthy h \<and> dedupe_exists d (the h)) \<Longrightarrow>
   dedupe_rows (release_dedupe h (snd (reserve_dedupe now h d))) = dedupe_rows d"
  by (auto simp: reserve_dedupe_def release_dedupe_def dedupe_exists_def tdel_def tadd_def
      list_ex_iff filter_id_conv)

lemma release_rows_cong:
  "dedupe_rows d = dedupe_rows d' \<Longrightarrow> dedupe_rows (release_dedupe h d) = dedupe_rows (release_dedupe h d')"
  by (simp add: release_dedupe_def)

section \<open>What a send does to the world\<close>

text \<open>A world that differs only by more calls, all of them new messages to one chat.\<close>

definition only_sends :: "int \<Rightarrow> world \<Rightarrow> world \<Rightarrow> bool" where
  "only_sends chat w w' \<longleftrightarrow>
     wdb w' = wdb w \<and> wjobs w' = wjobs w \<and> wfiles w' = wfiles w \<and> wpool w' = wpool w \<and>
     (\<exists>xs. wcalls w' = wcalls w @ xs \<and>
        (\<forall>(c, r) \<in> set xs. call_chat c = Some chat \<and> is_send c))"

lemma only_sends_refl [simp]: "only_sends chat w w"
  by (simp add: only_sends_def)

lemma only_sends_trans: "only_sends chat a b \<Longrightarrow> only_sends chat b c \<Longrightarrow> only_sends chat a c"
  by (fastforce simp: only_sends_def)

lemma only_sends_sleep: "only_sends chat w (sleep t w)"
  by (simp add: only_sends_def)

lemma only_sends_tg:
  "call_chat c = Some chat \<Longrightarrow> is_send c \<Longrightarrow> only_sends chat w (snd (tg_do E c w))"
  by (simp add: only_sends_def tg_do_world)

lemma only_sends_db: "only_sends chat w w' \<Longrightarrow> wdb w' = wdb w"
  by (simp add: only_sends_def)

text \<open>Sequencing: a failed call ends the sequence, a delivered one goes on.\<close>

lemma only_sends_bind:
  assumes "only_sends chat w (snd r)"
    and "\<And>m w1. r = (Inr m, w1) \<Longrightarrow> only_sends chat w1 (snd (k m w1))"
  shows "only_sends chat w (snd (case r of (Inl e, w1) \<Rightarrow> (Inl e, w1) | (Inr m, w1) \<Rightarrow> k m w1))"
proof (cases r)
  case (Pair x w1)
  with assms show ?thesis by (cases x) (auto intro: only_sends_trans)
qed

lemma send_rest_only: "only_sends chat w (snd (send_rest E chat text cap extra mid w))"
  unfolding send_rest_def
  by (rule only_sends_bind) (auto simp: only_sends_tg intro!: only_sends_bind)

lemma send_post_only: "only_sends chat w (snd (send_post E chat text refs w))"
  unfolding send_post_def Let_def
  by (auto simp: only_sends_tg primary_call_def send_rest_only split: list.split intro!: only_sends_bind)

lemma send_spaced_only: "only_sends chat w (snd (send_spaced E chat text refs w))"
proof -
  let ?w0 = "sleep (publish_spacing_seconds (cfg E)) w"
  have a: "only_sends chat w (snd (send_post E chat text refs ?w0))"
    using only_sends_trans only_sends_sleep send_post_only by blast
  have b: "only_sends chat w' (snd (send_post E chat text refs (sleep t w')))" for w' t
    using only_sends_trans only_sends_sleep send_post_only by blast
  show ?thesis
  proof (cases "send_post E chat text refs ?w0")
    case (Pair r w1)
    with a have "only_sends chat w w1" by simp
    with Pair b [of w1] show ?thesis
      unfolding send_spaced_def
      by (auto split: sum.split exn.split intro: only_sends_trans)
  qed
qed

lemmas send_spaced_frame = send_spaced_only [unfolded only_sends_def]

section \<open>Guards\<close>

lemma publish_guard_Inr:
  "publish_guard d pid = Inr p \<longleftrightarrow>
     get_post d pid = Some p \<and> published_message_id p = None \<and> post_state p \<notin> SKIP_STATES"
  by (auto simp: publish_guard_def split: option.split)

lemma publish_core_skip: "publish_guard (wdb w) pid = Inl r \<Longrightarrow> publish_core E pid w = (Inr r, w)"
  by (simp add: publish_core_def)

lemma publish_skip: "publish_guard (wdb w) pid = Inl r \<Longrightarrow> publish E pid w = (Inr r, w)"
  by (simp add: publish_def publish_core_skip)

lemma claim_post_frame [frame, simp]:
  "dedupe_rows (claim_post now p d) = dedupe_rows d"
  "source_channels (claim_post now p d) = source_channels d"
  "post_events (claim_post now p d) = post_events d"
  by (simp_all add: claim_post_def)

lemma claim_post_get:
  "get_post d pid = Some p \<Longrightarrow>
   \<exists>u. get_post (claim_post now p d) pid = Some (p\<lparr>post_state := Publishing, updated_at := u\<rparr>)"
  using get_post_save [of d pid p "p\<lparr>post_state := Publishing\<rparr>" now] tget_key
  by (fastforce simp: claim_post_def)

section \<open>The branches of the job\<close>

text \<open>The world in which the send starts: the post claimed, its hash reserved.\<close>

definition reserved_world :: "world \<Rightarrow> post \<Rightarrow> world" where
  "reserved_world w p =
     w\<lparr>wdb := snd (reserve_dedupe (wclock w) (dedupe_hash p) (claim_post (wclock w) p (wdb w)))\<rparr>"

abbreviation send_of :: "env \<Rightarrow> post \<Rightarrow> world \<Rightarrow> int option result \<times> world" where
  "send_of E p w \<equiv> send_spaced E (destination_channel_id (cfg E)) (publish_text p) (raw_media_refs p)
     (reserved_world w p)"

lemma publish_core_no_channel:
  "publish_guard (wdb w) pid = Inr p \<Longrightarrow> get_channel (wdb w) (source_channel_id p) = None \<Longrightarrow>
   publish_core E pid w = (Inr (lit ''no_channel''), w\<lparr>wdb := claim_post (wclock w) p (wdb w)\<rparr>)"
  by (simp add: publish_core_def Let_def)

lemma publish_core_dup:
  assumes "publish_guard (wdb w) pid = Inr p" "get_channel (wdb w) (source_channel_id p) = Some ch"
    "truthy (dedupe_hash p)" "dedupe_exists (wdb w) (the (dedupe_hash p))"
  shows "publish_core E pid w = (Inr (lit ''duplicate''),
     w\<lparr>wdb := mark_duplicate (wclock w) pid (the (dedupe_hash p)) (claim_post (wclock w) p (wdb w))\<rparr>)"
proof -
  have "dedupe_exists (claim_post (wclock w) p (wdb w)) = dedupe_exists (wdb w)"
    by (rule dedupe_exists_cong) simp
  with assms show ?thesis by (simp add: publish_core_def Let_def)
qed

lemma publish_core_send:
  assumes "publish_guard (wdb w) pid = Inr p" "get_channel (wdb w) (source_channel_id p) = Some ch"
    "\<not> (truthy (dedupe_hash p) \<and> dedupe_exists (wdb w) (the (dedupe_hash p)))"
  shows "publish_core E pid w = (case send_of E p w of
      (Inl e, w3) \<Rightarrow> (Inl e, w3\<lparr>wdb := release_dedupe (dedupe_hash p) (wdb w3)\<rparr>)
    | (Inr mid, w3) \<Rightarrow>
        if \<not> truthy_int mid
        then (Inl (RuntimeError (lit ''_send_post returned no message_id for post '' @ str_int pid)),
              w3\<lparr>wdb := release_dedupe (dedupe_hash p) (wdb w3)\<rparr>)
        else publish_finish E pid (the mid) (dedupe_hash p) ch w3)"
proof -
  let ?d = "claim_post (wclock w) p (wdb w)"
  have ex: "dedupe_exists ?d = dedupe_exists (wdb w)" by (rule dedupe_exists_cong) simp
  have won: "fst (reserve_dedupe (wclock w) (dedupe_hash p) ?d)"
    using assms(3) ex by (auto simp: reserve_dedupe_def)
  then obtain d2 where r: "reserve_dedupe (wclock w) (dedupe_hash p) ?d = (True, d2)"
    by (metis (full_types) prod.collapse)
  show ?thesis
    unfolding publish_core_def reserved_world_def Let_def
    using assms(1,2) ex r assms(3) by (auto simp: Let_def)
qed

lemma alert_failure_frame [frame, simp]:
  "wdb (snd (alert_failure E p err w)) = wdb w" "wjobs (snd (alert_failure E p err w)) = wjobs w"
  by (auto simp: alert_failure_def tg_do_world split: prod.split sum.split)
    (metis snd_conv tg_do_frame)+

text \<open>The failure path: the post is marked, the index is left alone.\<close>

lemma on_publish_failure_db:
  assumes "get_post (wdb w) pid = Some p"
  shows "\<exists>u. get_post (wdb (snd (on_publish_failure E pid err w))) pid
       = Some (p\<lparr>post_state := Publish_failed, updated_at := u\<rparr>)"
    and "dedupe_rows (wdb (snd (on_publish_failure E pid err w))) = dedupe_rows (wdb w)"
  using assms get_post_save [OF assms, of "p\<lparr>post_state := Publish_failed\<rparr>"] tget_key [OF assms]
  by (simp_all add: on_publish_failure_def Let_def)

lemma publish_failed:
  assumes "publish_core E pid w = (Inl e, w1)" and "get_post (wdb w1) pid = Some p"
  shows "\<exists>r u. fst (publish E pid w) = Inl r \<and>
      get_post (wdb (snd (publish E pid w))) pid = Some (p\<lparr>post_state := Publish_failed, updated_at := u\<rparr>) \<and>
      dedupe_rows (wdb (snd (publish E pid w))) = dedupe_rows (wdb w1)"
  using assms on_publish_failure_db [OF assms(2), of E "exn_text e"]
  by (auto simp: publish_def split: prod.split sum.split)

lemma publish_ok: "publish_core E pid w = (Inr r, w1) \<Longrightarrow> publish E pid w = (Inr r, w1)"
  by (simp add: publish_def)

text \<open>The post in the reserved world, and after the send.\<close>

lemma reserved_post:
  assumes "publish_guard (wdb w) pid = Inr p"
  shows "\<exists>u. get_post (wdb (reserved_world w p)) pid = Some (p\<lparr>post_state := Publishing, updated_at := u\<rparr>)"
  using assms claim_post_get by (fastforce simp: publish_guard_Inr reserved_world_def)

lemma send_of_db: "wdb (snd (send_of E p w)) = wdb (reserved_world w p)"
  using send_spaced_only only_sends_db by blast

lemma reserved_released_rows:
  assumes "\<not> (truthy (dedupe_hash p) \<and> dedupe_exists (wdb w) (the (dedupe_hash p)))"
  shows "dedupe_rows (release_dedupe (dedupe_hash p) (wdb (reserved_world w p))) = dedupe_rows (wdb w)"
proof -
  have "dedupe_exists (claim_post (wclock w) p (wdb w)) = dedupe_exists (wdb w)"
    by (rule dedupe_exists_cong) simp
  with assms show ?thesis by (simp add: reserved_world_def release_reserve_rows)
qed

lemma reserved_exists:
  "truthy (dedupe_hash p) \<Longrightarrow> dedupe_exists (wdb (reserved_world w p)) (the (dedupe_hash p))"
  by (erule truthyE) (simp add: reserved_world_def dedupe_exists_reserve)

end
