(* ===== verification/SendPlan.thy ===== *)
theory SendPlan
  imports PublisherFacts "HOL-Library.Sublist"
begin

text \<open>
  The calls that one attempt to send a post makes, as a list worked out beforehand, and that \<open>_send_post\<close> of
  \<open>bot/publisher.py\<close> makes exactly these, in this order, up to the first one that fails.
\<close>

section \<open>The plan\<close>

text \<open>
  The first media with the text as its caption, if it fits; the other media, nine at most, as one group; the text on
  its own if it does not fit. Without media, or when the first file is gone, the text alone, or a blank.
\<close>

definition send_plan :: "settings \<Rightarrow> (pystr \<Rightarrow> bool) \<Rightarrow> int \<Rightarrow> pystr \<Rightarrow> media_ref list \<Rightarrow> tg_call list" where
  "send_plan s there chat text refs =
     (let alone = [Send_message chat (if text = [] then [32] else text) None]
      in case sendable s refs of
           [] \<Rightarrow> alone
         | m # ms \<Rightarrow>
             if \<not> there (the (mr_file m)) then alone
             else
               let group = map (\<lambda>m. (group_kind_of (mr_type m), the (mr_file m)))
                     (filter (\<lambda>m. there (the (mr_file m))) (take 9 ms))
               in [primary_call (media_kind_of (mr_type m)) chat (the (mr_file m)) (caption_of text)] @
                  (if group = [] then [] else [Send_media_group chat group]) @
                  (if caption_of text = None \<and> text \<noteq> [] then [Send_message chat text None] else []))"

text \<open>Calls one after the other, until one fails; the ids of the messages.\<close>

fun run_calls :: "env \<Rightarrow> tg_call list \<Rightarrow> int list eff" where
  "run_calls E [] w = (Inr [], w)"
| "run_calls E (c # cs) w =
     (case tg_do E c w of
        (Inl e, w1) \<Rightarrow> (Inl e, w1)
      | (Inr n, w1) \<Rightarrow> (case run_calls E cs w1 of (Inl e, w2) \<Rightarrow> (Inl e, w2) | (Inr ns, w2) \<Rightarrow> (Inr (n # ns), w2)))"

lemma send_plan_nonempty [simp]: "send_plan s there chat t refs \<noteq> []"
  by (simp add: send_plan_def Let_def split: list.split)

lemma send_plan_calls: "c \<in> set (send_plan s there chat t refs) \<Longrightarrow> call_chat c = Some chat \<and> is_send c"
  by (auto simp: send_plan_def Let_def primary_call_def split: list.splits if_splits)

lemma file_exists_calls [simp]: "file_exists (w\<lparr>wcalls := xs\<rparr>) = file_exists w"
  by (simp add: file_exists_def fun_eq_iff)

lemma media_group_calls [simp]: "media_group (w\<lparr>wcalls := xs\<rparr>) = media_group w"
  by (simp add: media_group_def fun_eq_iff)

lemma send_rest_runs:
  "send_rest E chat t cap extra mid w =
     (case run_calls E ((if media_group w extra = [] then [] else [Send_media_group chat (media_group w extra)]) @
          (if cap = None \<and> t \<noteq> [] then [Send_message chat t None] else [])) w of
        (Inl e, w1) \<Rightarrow> (Inl e, w1)
      | (Inr ns, w1) \<Rightarrow> (Inr (Some mid), w1))"
  by (auto simp: send_rest_def split: prod.split sum.split)

lemma send_post_runs:
  "send_post E chat t refs w =
     (case run_calls E (send_plan (cfg E) (file_exists w) chat t refs) w of
        (Inl e, w1) \<Rightarrow> (Inl e, w1)
      | (Inr ns, w1) \<Rightarrow> (Inr (Some (hd ns)), w1))"
proof (cases "sendable (cfg E) refs")
  case Nil
  then show ?thesis by (auto simp: send_post_def send_plan_def Let_def split: prod.split sum.split)
next
  case (Cons m ms)
  show ?thesis
  proof (cases "file_exists w (the (mr_file m))")
    case False
    then show ?thesis using Cons by (auto simp: send_post_def send_plan_def Let_def split: prod.split sum.split)
  next
    case True
    let ?c = "primary_call (media_kind_of (mr_type m)) chat (the (mr_file m)) (caption_of t)"
    let ?rest = "(if media_group w ms = [] then [] else [Send_media_group chat (media_group w ms)]) @
          (if caption_of t = None \<and> t \<noteq> [] then [Send_message chat t None] else [])"
    have plan: "send_plan (cfg E) (file_exists w) chat t refs = ?c # ?rest"
      using True Cons by (simp add: send_plan_def Let_def media_group_def)
    have group: "media_group (snd (tg_do E ?c w)) = media_group w" by (simp add: tg_do_world)
    show ?thesis
      using True Cons group unfolding plan
      by (cases "tg_do E ?c w"; cases "fst (tg_do E ?c w)")
        (simp_all add: send_post_def Let_def send_rest_runs split: prod.split sum.split)
  qed
qed

text \<open>What a list of calls leaves in the log: all of them delivered, or the first ones and then one that was not.\<close>

lemma run_calls_log:
  "case run_calls E cs w of
     (Inr ns, w1) \<Rightarrow> length ns = length cs \<and> w1 = w\<lparr>wcalls := wcalls w @ zip cs (map Delivered ns)\<rparr>
   | (Inl e, w1) \<Rightarrow> \<exists>as c bs ns r. cs = as @ c # bs \<and> length ns = length as \<and> \<not> is_delivered r \<and>
       w1 = w\<lparr>wcalls := wcalls w @ zip as (map Delivered ns) @ [(c, r)]\<rparr>"
proof (induction cs arbitrary: w)
  case (Cons c cs)
  obtain x w1 where d: "tg_do E c w = (x, w1)" by fastforce
  show ?case
  proof (cases x)
    case (Inl e)
    have "\<not> is_delivered (telegram E (wcalls w) c)" "w1 = w\<lparr>wcalls := wcalls w @ [(c, telegram E (wcalls w) c)]\<rparr>"
      using d Inl by (auto simp: tg_do_def is_delivered_def Let_def split: tg_outcome.splits)
    then have "\<exists>as c' bs ns r. c # cs = as @ c' # bs \<and> length ns = length as \<and> \<not> is_delivered r \<and>
       w1 = w\<lparr>wcalls := wcalls w @ zip as (map Delivered ns) @ [(c', r)]\<rparr>"
      by (intro exI [of _ "[]"] exI [of _ c] exI [of _ cs] exI [of _ "telegram E (wcalls w) c"]) simp
    then show ?thesis using d Inl by simp
  next
    case (Inr n)
    have w1: "w1 = w\<lparr>wcalls := wcalls w @ [(c, Delivered n)]\<rparr>"
      using d Inr by (auto simp: tg_do_def Let_def split: tg_outcome.splits)
    obtain y w2 where r: "run_calls E cs w1 = (y, w2)" by fastforce
    show ?thesis
    proof (cases y)
      case (Inl e)
      then obtain as c' bs ns out where i: "cs = as @ c' # bs" "length ns = length as" "\<not> is_delivered out"
         "w2 = w1\<lparr>wcalls := wcalls w1 @ zip as (map Delivered ns) @ [(c', out)]\<rparr>"
        using Cons.IH [of w1] r by auto
      then have "\<exists>as c' bs ns out. c # cs = as @ c' # bs \<and> length ns = length as \<and> \<not> is_delivered out \<and>
         w2 = w\<lparr>wcalls := wcalls w @ zip as (map Delivered ns) @ [(c', out)]\<rparr>"
        by (intro exI [of _ "c # as"] exI [of _ c'] exI [of _ bs] exI [of _ "n # ns"] exI [of _ out]) (simp add: w1)
      then show ?thesis using d Inr r Inl by simp
    next
      case (Inr ns)
      then show ?thesis using Cons.IH [of w1] d \<open>x = Inr n\<close> r by (simp add: w1)
    qed
  qed
qed simp

section \<open>Properties\<close>


end
