(* ===== verification/PublishRace.thy ===== *)
theory PublishRace
  imports Reconcile SendPlan
begin

text \<open>
  Publish jobs that overlap. Each database transaction and each send of \<open>_publish_core\<close> is one
  step of one job; steps of different jobs, the housekeeping of the dedupe index, changes by other
  services and crashes may come in between anywhere.
\<close>

section \<open>Jobs in flight\<close>

text \<open>
  A claim writes the state column of the row as it is by then, whatever was loaded; when the row has
  been deleted meanwhile, the update finds nothing and raises.
\<close>

text \<open>
  How far a job has got: queued, post loaded, claimed, index checked, reservation held since an instant, at its calls
  (the ones that remain of this attempt, and whether flood control may still have it start again), sent, error to
  record, over.
\<close>

datatype phase =
    Queued int | Loaded post | Claimed post | Checked post | Holding post time
  | Sending post time "tg_call list" bool | Sent post int | Failing int pystr | Finished

text \<open>What the log says of a job: a message that reached the channel, or that the send has returned.\<close>

datatype sent = Message tg_call | Complete int

record race =
  rdb :: db
  rclock :: time
  rjobs :: "nat \<Rightarrow> phase"
  rlog :: "(nat \<times> post \<times> time \<times> sent) list"

definition at :: "race \<Rightarrow> nat \<Rightarrow> phase \<Rightarrow> race" where
  "at S j ph = S\<lparr>rjobs := (rjobs S)(j := ph)\<rparr>"

text \<open>The post for which a job holds a reservation, and since when.\<close>

fun held :: "phase \<Rightarrow> (post \<times> time) option" where
  "held (Holding p t) = Some (p, t)"
| "held (Sending p t cs b) = Some (p, t)"
| "held ph = None"

text \<open>
  No reservation in flight is older than the lookback window when the index is pruned: a send takes
  seconds or minutes, the window is counted in days.
\<close>

definition window :: "settings \<Rightarrow> time" where
  "window s = days (dedupe_lookback_days s)"

definition no_stale_reservation :: "settings \<Rightarrow> race \<Rightarrow> bool" where
  "no_stale_reservation s S \<longleftrightarrow> (\<forall>j p t. held (rjobs S j) = Some (p, t) \<longrightarrow> rclock S - window s \<le> t)"

text \<open>The calls of one attempt, given the files that are there when it looks for them.\<close>

definition plan_of :: "env \<Rightarrow> (pystr \<Rightarrow> bool) \<Rightarrow> post \<Rightarrow> tg_call list" where
  "plan_of E there p = send_plan (cfg E) there (destination_channel_id (cfg E)) (publish_text p) (raw_media_refs p)"

text \<open>
  The steps of one job. An attempt may fail at any call, after those before it have reached the channel; the first
  one may be answered by flood control, and then the calls start over once. A send that returns no message id, and one that
  raises, release the reservation.
\<close>

inductive job_step :: "env \<Rightarrow> nat \<Rightarrow> race \<Rightarrow> race \<Rightarrow> bool" for E j where
  Skip: "rjobs S j = Queued pid \<Longrightarrow> publish_guard (rdb S) pid = Inl r \<Longrightarrow> job_step E j S (at S j Finished)"
| Load: "rjobs S j = Queued pid \<Longrightarrow> publish_guard (rdb S) pid = Inr p \<Longrightarrow> job_step E j S (at S j (Loaded p))"
| Claim: "rjobs S j = Loaded p \<Longrightarrow> get_post (rdb S) (post_id p) = Some q \<Longrightarrow>
    job_step E j S ((at S j (Claimed p))\<lparr>rdb := claim_post (rclock S) q (rdb S)\<rparr>)"
| Claim_gone: "rjobs S j = Loaded p \<Longrightarrow> get_post (rdb S) (post_id p) = None \<Longrightarrow>
    job_step E j S (at S j (Failing (post_id p) (lit ''StaleDataError'')))"
| No_channel: "rjobs S j = Claimed p \<Longrightarrow> get_channel (rdb S) (source_channel_id p) = None \<Longrightarrow>
    job_step E j S (at S j Finished)"
| Check_fresh: "rjobs S j = Claimed p \<Longrightarrow>
    \<not> (truthy (dedupe_hash p) \<and> dedupe_exists (rdb S) (the (dedupe_hash p))) \<Longrightarrow>
    job_step E j S (at S j (Checked p))"
| Check_taken: "rjobs S j = Claimed p \<Longrightarrow>
    truthy (dedupe_hash p) \<Longrightarrow> dedupe_exists (rdb S) (the (dedupe_hash p)) \<Longrightarrow>
    job_step E j S ((at S j Finished)\<lparr>rdb := mark_duplicate (rclock S) (post_id p) (the (dedupe_hash p)) (rdb S)\<rparr>)"
| Reserve_won: "rjobs S j = Checked p \<Longrightarrow> reserve_dedupe (rclock S) (dedupe_hash p) (rdb S) = (True, d) \<Longrightarrow>
    job_step E j S ((at S j (Holding p (rclock S)))\<lparr>rdb := d\<rparr>)"
| Reserve_lost: "rjobs S j = Checked p \<Longrightarrow> reserve_dedupe (rclock S) (dedupe_hash p) (rdb S) = (False, d) \<Longrightarrow>
    job_step E j S ((at S j Finished)\<lparr>rdb := mark_duplicate (rclock S) (post_id p) (the (dedupe_hash p)) d\<rparr>)"
| Start_send: "rjobs S j = Holding p t \<Longrightarrow> job_step E j S (at S j (Sending p t (plan_of E there p) True))"
| Deliver: "rjobs S j = Sending p t (c # cs) b \<Longrightarrow>
    job_step E j S ((at S j (Sending p t cs b))\<lparr>rlog := rlog S @ [(j, p, t, Message c)]\<rparr>)"
| Flood: "rjobs S j = Sending p t (c # cs) True \<Longrightarrow> job_step E j S (at S j (Sending p t (plan_of E there p) False))"
| Send_ok: "rjobs S j = Sending p t [] b \<Longrightarrow>
    job_step E j S ((at S j (Sent p mid))\<lparr>rlog := rlog S @ [(j, p, t, Complete mid)]\<rparr>)"
| Send_failed: "rjobs S j = Sending p t cs b \<Longrightarrow>
    job_step E j S ((at S j (Failing (post_id p) err))\<lparr>rdb := release_dedupe (dedupe_hash p) (rdb S)\<rparr>)"
| Mark: "rjobs S j = Sent p mid \<Longrightarrow>
    mark_published E (rclock S) (post_id p) mid (dedupe_hash p) (rdb S) = (Inr (), d) \<Longrightarrow>
    job_step E j S ((at S j Finished)\<lparr>rdb := d\<rparr>)"
| Mark_failed: "rjobs S j = Sent p mid \<Longrightarrow>
    mark_published E (rclock S) (post_id p) mid (dedupe_hash p) (rdb S) = (Inl e, d) \<Longrightarrow>
    job_step E j S ((at S j (Failing (post_id p) (exn_text e)))\<lparr>rdb := d\<rparr>)"
| Card_failed: "rjobs S j = Sent p mid \<Longrightarrow>
    mark_published E (rclock S) (post_id p) mid (dedupe_hash p) (rdb S) = (Inr (), d) \<Longrightarrow>
    job_step E j S ((at S j (Failing (post_id p) err))\<lparr>rdb := d\<rparr>)"
| Record_failure: "rjobs S j = Failing pid err \<Longrightarrow> wdb w = rdb S \<Longrightarrow> wclock w = rclock S \<Longrightarrow>
    job_step E j S ((at S j Finished)\<lparr>rdb := wdb (snd (on_publish_failure E pid err w))\<rparr>)"

text \<open>
  Any number of jobs, queued at any time and ended by a crash at any time, the housekeeping of the index, the passing
  of time, and whatever other services do to the rest of the store.
\<close>

inductive race_step :: "env \<Rightarrow> race \<Rightarrow> race \<Rightarrow> bool" for E where
  Job: "job_step E j S S' \<Longrightarrow> race_step E S S'"
| Enqueue: "rjobs S j = Finished \<Longrightarrow> race_step E S (at S j (Queued pid))"
| Crash: "race_step E S (at S j Finished)"
| Prune: "no_stale_reservation (cfg E) S \<Longrightarrow>
    race_step E S (S\<lparr>rdb := snd (prune_dedupe_rows (cfg E) (rclock S) (rdb S))\<rparr>)"
| Others: "dedupe_rows d = dedupe_rows (rdb S) \<Longrightarrow> race_step E S (S\<lparr>rdb := d\<rparr>)"
| Tick: "0 \<le> dt \<Longrightarrow> race_step E S (S\<lparr>rclock := rclock S + dt\<rparr>)"

inductive races :: "env \<Rightarrow> race \<Rightarrow> race \<Rightarrow> bool" for E S where
  Here: "races E S S"
| There: "races E S S1 \<Longrightarrow> race_step E S1 S2 \<Longrightarrow> races E S S2"

text \<open>
  A race seen from one job: its phase, the store, the clock and the log, with everything else as in
  \<open>S\<close>. The steps of that job read on these four.
\<close>

definition conf :: "race \<Rightarrow> nat \<Rightarrow> phase \<Rightarrow> db \<Rightarrow> time \<Rightarrow> (nat \<times> post \<times> time \<times> sent) list \<Rightarrow> race" where
  "conf S j ph d t l = S\<lparr>rdb := d, rclock := t, rjobs := (rjobs S)(j := ph), rlog := l\<rparr>"

lemma conf_fields [simp]:
  "rdb (conf S j ph d t l) = d" "rclock (conf S j ph d t l) = t" "rlog (conf S j ph d t l) = l"
  "rjobs (conf S j ph d t l) i = (if i = j then ph else rjobs S i)"
  by (simp_all add: conf_def)

lemma conf_updates:
  "at (conf S j ph d t l) j ph' = conf S j ph' d t l" "(conf S j ph d t l)\<lparr>rdb := d'\<rparr> = conf S j ph d' t l"
  "(conf S j ph d t l)\<lparr>rclock := t'\<rparr> = conf S j ph d t' l" "(conf S j ph d t l)\<lparr>rlog := l'\<rparr> = conf S j ph d t l'"
  by (simp_all add: conf_def at_def)

lemma conf_self: "rjobs S j = ph \<Longrightarrow> conf S j ph (rdb S) (rclock S) (rlog S) = S"
  by (cases S) (auto simp: conf_def)

lemma races_one: "race_step E S S' \<Longrightarrow> races E S S'"
  by (rule races.There [OF races.Here])

lemma races_trans: "races E S1 S2 \<Longrightarrow> races E S0 S1 \<Longrightarrow> races E S0 S2"
  by (induction rule: races.induct) (auto intro: races.There)

lemma conf_steps:
  "publish_guard d pid = Inl r \<Longrightarrow> job_step E j (conf S j (Queued pid) d t l) (conf S j Finished d t l)"
  "publish_guard d pid = Inr p \<Longrightarrow> job_step E j (conf S j (Queued pid) d t l) (conf S j (Loaded p) d t l)"
  "get_post d (post_id p) = Some q \<Longrightarrow>
     job_step E j (conf S j (Loaded p) d t l) (conf S j (Claimed p) (claim_post t q d) t l)"
  "get_channel d (source_channel_id p) = None \<Longrightarrow> job_step E j (conf S j (Claimed p) d t l) (conf S j Finished d t l)"
  "\<not> (truthy (dedupe_hash p) \<and> dedupe_exists d (the (dedupe_hash p))) \<Longrightarrow>
     job_step E j (conf S j (Claimed p) d t l) (conf S j (Checked p) d t l)"
  "truthy (dedupe_hash p) \<Longrightarrow> dedupe_exists d (the (dedupe_hash p)) \<Longrightarrow>
     job_step E j (conf S j (Claimed p) d t l) (conf S j Finished (mark_duplicate t (post_id p) (the (dedupe_hash p)) d) t l)"
  "reserve_dedupe t (dedupe_hash p) d = (True, d') \<Longrightarrow>
     job_step E j (conf S j (Checked p) d t l) (conf S j (Holding p t) d' t l)"
  "job_step E j (conf S j (Holding p u) d t l) (conf S j (Sending p u (plan_of E there p) True) d t l)"
  "job_step E j (conf S j (Sending p u (c # cs) b) d t l) (conf S j (Sending p u cs b) d t (l @ [(j, p, u, Message c)]))"
  "job_step E j (conf S j (Sending p u (c # cs) True) d t l) (conf S j (Sending p u (plan_of E there p) False) d t l)"
  "job_step E j (conf S j (Sending p u [] b) d t l) (conf S j (Sent p mid) d t (l @ [(j, p, u, Complete mid)]))"
  "job_step E j (conf S j (Sending p u cs b) d t l) (conf S j (Failing (post_id p) err) (release_dedupe (dedupe_hash p) d) t l)"
  "mark_published E t (post_id p) mid (dedupe_hash p) d = (Inr (), d') \<Longrightarrow>
     job_step E j (conf S j (Sent p mid) d t l) (conf S j Finished d' t l)"
  "mark_published E t (post_id p) mid (dedupe_hash p) d = (Inl e, d') \<Longrightarrow>
     job_step E j (conf S j (Sent p mid) d t l) (conf S j (Failing (post_id p) (exn_text e)) d' t l)"
  "mark_published E t (post_id p) mid (dedupe_hash p) d = (Inr (), d') \<Longrightarrow>
     job_step E j (conf S j (Sent p mid) d t l) (conf S j (Failing (post_id p) err) d' t l)"
  "wdb w = d \<Longrightarrow> wclock w = t \<Longrightarrow> job_step E j (conf S j (Failing pid err) d t l)
     (conf S j Finished (wdb (snd (on_publish_failure E pid err w))) t l)"
  using Skip [of "conf S j (Queued pid) d t l" j pid r E]
    Load [of "conf S j (Queued pid) d t l" j pid p E]
    Claim [of "conf S j (Loaded p) d t l" j p q E]
    No_channel [of "conf S j (Claimed p) d t l" j p E]
    Check_fresh [of "conf S j (Claimed p) d t l" j p E]
    Check_taken [of "conf S j (Claimed p) d t l" j p E]
    Reserve_won [of "conf S j (Checked p) d t l" j p d' E]
    Start_send [of "conf S j (Holding p u) d t l" j p u E there]
    Deliver [of "conf S j (Sending p u (c # cs) b) d t l" j p u c cs b E]
    Flood [of "conf S j (Sending p u (c # cs) True) d t l" j p u c cs E there]
    Send_ok [of "conf S j (Sending p u [] b) d t l" j p u b E mid]
    Send_failed [of "conf S j (Sending p u cs b) d t l" j p u cs b E err]
    Mark [of "conf S j (Sent p mid) d t l" j p mid E d']
    Mark_failed [of "conf S j (Sent p mid) d t l" j p mid E e d']
    Card_failed [of "conf S j (Sent p mid) d t l" j p mid E d' err]
    Record_failure [of "conf S j (Failing pid err) d t l" j pid err w E]
  by (simp_all add: conf_updates)

lemma conf_race_steps:
  "race_step E (conf S j Finished d t l) (conf S j (Queued pid) d t l)"
  "race_step E (conf S j ph d t l) (conf S j Finished d t l)"
  "0 \<le> dt \<Longrightarrow> race_step E (conf S j ph d t l) (conf S j ph d (t + dt) l)"
  using Enqueue [of "conf S j Finished d t l" j E pid] Crash [of E "conf S j ph d t l" j] Tick [of dt E "conf S j ph d t l"]
  by (simp_all add: conf_updates)

section \<open>The invariant\<close>

definition row_at :: "db \<Rightarrow> pystr \<Rightarrow> time \<Rightarrow> bool" where
  "row_at d h t \<longleftrightarrow> (\<exists>r \<in> set (dedupe_rows d). pd_hash r = h \<and> pd_published_at r = t)"

definition holds :: "race \<Rightarrow> nat \<Rightarrow> pystr \<Rightarrow> time \<Rightarrow> bool" where
  "holds S j h t \<longleftrightarrow> (\<exists>p. held (rjobs S j) = Some (p, t) \<and> dedupe_hash p = Some h \<and> h \<noteq> [])"

definition delivered :: "race \<Rightarrow> pystr \<Rightarrow> time \<Rightarrow> bool" where
  "delivered S h t \<longleftrightarrow> (\<exists>j p mid. (j, p, t, Complete mid) \<in> set (rlog S) \<and> dedupe_hash p = Some h \<and> h \<noteq> [])"

fun is_complete :: "sent \<Rightarrow> bool" where
  "is_complete (Complete mid) = True"
| "is_complete (Message c) = False"

definition spaced :: "time \<Rightarrow> (nat \<times> post \<times> time \<times> sent) list \<Rightarrow> bool" where
  "spaced L log \<longleftrightarrow> sorted_wrt (\<lambda>(j, p, t, s) (j', p', t', s').
      is_complete s \<and> truthy (dedupe_hash p) \<and> dedupe_hash p' = dedupe_hash p \<longrightarrow> t + L < t') log"

definition race_inv :: "time \<Rightarrow> race \<Rightarrow> bool" where
  "race_inv L S \<longleftrightarrow>
     distinct (map pd_hash (dedupe_rows (rdb S))) \<and>
     (\<forall>j h t. holds S j h t \<longrightarrow> t \<le> rclock S \<and> row_at (rdb S) h t) \<and>
     (\<forall>j j' h t t'. holds S j h t \<longrightarrow> holds S j' h t' \<longrightarrow> j = j') \<and>
     (\<forall>h t. delivered S h t \<longrightarrow> row_at (rdb S) h t \<or> t + L < rclock S) \<and>
     (\<forall>j h t t'. holds S j h t \<longrightarrow> delivered S h t' \<longrightarrow> t' + L < t) \<and>
     spaced L (rlog S)"

lemma race_invI:
  assumes "distinct (map pd_hash (dedupe_rows (rdb S)))"
    and "\<And>j h t. holds S j h t \<Longrightarrow> t \<le> rclock S \<and> row_at (rdb S) h t"
    and "\<And>j j' h t t'. holds S j h t \<Longrightarrow> holds S j' h t' \<Longrightarrow> j = j'"
    and "\<And>h t. delivered S h t \<Longrightarrow> row_at (rdb S) h t \<or> t + L < rclock S"
    and "\<And>j h t t'. holds S j h t \<Longrightarrow> delivered S h t' \<Longrightarrow> t' + L < t"
    and "spaced L (rlog S)"
  shows "race_inv L S"
  unfolding race_inv_def using assms by blast

lemma race_invD:
  assumes "race_inv L S"
  shows "distinct (map pd_hash (dedupe_rows (rdb S)))"
    and "holds S j h t \<Longrightarrow> t \<le> rclock S" and "holds S j h t \<Longrightarrow> row_at (rdb S) h t"
    and "holds S j h t \<Longrightarrow> holds S j' h t' \<Longrightarrow> j = j'"
    and "delivered S h t \<Longrightarrow> row_at (rdb S) h t \<or> t + L < rclock S"
    and "holds S j h t \<Longrightarrow> delivered S h t' \<Longrightarrow> t' + L < t"
    and "spaced L (rlog S)"
  using assms unfolding race_inv_def by blast+

lemma row_at_unique: "distinct (map pd_hash (dedupe_rows d)) \<Longrightarrow> row_at d h t \<Longrightarrow> row_at d h t' \<Longrightarrow> t = t'"
  by (auto simp: row_at_def distinct_map inj_on_def)

lemma row_at_exists: "row_at d h t \<Longrightarrow> dedupe_exists d h"
  by (auto simp: row_at_def dedupe_exists_def list_ex_iff)

lemma row_at_cong: "dedupe_rows d = dedupe_rows d' \<Longrightarrow> row_at d = row_at d'"
  by (auto simp: row_at_def fun_eq_iff)

lemma row_at_reserve:
  "row_at (snd (reserve_dedupe now h d)) k t \<longleftrightarrow>
     row_at d k t \<or> (h = Some k \<and> k \<noteq> [] \<and> t = now \<and> \<not> dedupe_exists d k)"
  by (cases h) (auto simp: reserve_dedupe_def row_at_def tadd_def)

lemma distinct_reserve:
  "distinct (map pd_hash (dedupe_rows d)) \<Longrightarrow> distinct (map pd_hash (dedupe_rows (snd (reserve_dedupe now h d))))"
  by (auto simp: reserve_dedupe_def tadd_def dedupe_exists_def list_ex_iff)

lemma row_at_release: "row_at (release_dedupe h d) k t \<longleftrightarrow> row_at d k t \<and> (h \<noteq> Some k \<or> k = [])"
  by (cases h) (auto simp: release_dedupe_def row_at_def tdel_def)

lemma mark_published_rows:
  "row_at d k t \<Longrightarrow> row_at (snd (mark_published E now pid mid h d)) k t"
  "distinct (map pd_hash (dedupe_rows d)) \<Longrightarrow>
     distinct (map pd_hash (dedupe_rows (snd (mark_published E now pid mid h d))))"
proof -
  have "\<exists>d0. dedupe_rows d0 = dedupe_rows d \<and> snd (mark_published E now pid mid h d) \<in> {d, d0, snd (reserve_dedupe now h d0)}"
  proof (cases "get_post d pid")
    case None
    then show ?thesis by (auto simp: mark_published_def)
  next
    case (Some q)
    define d1 where "d1 = add_event now pid None Ev_published
        [(''published_message_id'', JInt mid), (''chat_id'', JInt (destination_channel_id (cfg E)))]
        (save_post now (q\<lparr>post_state := Published, published_message_id := Some mid, published_at := Some now\<rparr>) d)"
    have "dedupe_rows d1 = dedupe_rows d" by (simp add: d1_def)
    moreover have "snd (mark_published E now pid mid h d) \<in> {d, d1, snd (reserve_dedupe now h d1)}"
      using Some by (simp add: mark_published_def Let_def d1_def split: option.split)
    ultimately show ?thesis by blast
  qed
  then obtain d0 where d0: "dedupe_rows d0 = dedupe_rows d"
    "snd (mark_published E now pid mid h d) \<in> {d, d0, snd (reserve_dedupe now h d0)}" by blast
  show "row_at d k t \<Longrightarrow> row_at (snd (mark_published E now pid mid h d)) k t"
    using d0 row_at_cong [OF d0(1)] by (auto simp: row_at_reserve)
  show "distinct (map pd_hash (dedupe_rows d)) \<Longrightarrow>
     distinct (map pd_hash (dedupe_rows (snd (mark_published E now pid mid h d))))"
    using d0 distinct_reserve [of d0] by auto
qed

lemma mark_duplicate_dedupe [simp]: "dedupe_rows (mark_duplicate now pid h d) = dedupe_rows d"
  by (simp add: mark_duplicate_def split: option.split)

text \<open>A step that grows the index, lets time pass or takes a job out of its reservation.\<close>

lemma inv_mono:
  assumes "race_inv L S" and "distinct (map pd_hash (dedupe_rows (rdb S')))"
    and "\<And>h t. row_at (rdb S) h t \<Longrightarrow> row_at (rdb S') h t" and "rclock S \<le> rclock S'" and "rlog S' = rlog S"
    and "\<And>j h t. holds S' j h t \<Longrightarrow> holds S j h t"
  shows "race_inv L S'"
proof -
  have del: "delivered S' = delivered S" using assms(5) by (simp add: delivered_def fun_eq_iff)
  show ?thesis
  proof (rule race_invI)
    show "t \<le> rclock S' \<and> row_at (rdb S') h t" if "holds S' j h t" for j h t
      using race_invD(2,3) [OF assms(1) assms(6) [OF that]] assms(3,4) by fastforce
    show "j = j'" if "holds S' j h t" "holds S' j' h t'" for j j' h t t'
      using race_invD(4) [OF assms(1) assms(6) assms(6)] that by blast
    show "row_at (rdb S') h t \<or> t + L < rclock S'" if "delivered S' h t" for h t
      using race_invD(5) [OF assms(1), of h t] that assms(3,4) by (fastforce simp: del)
    show "t' + L < t" if "holds S' j h t" "delivered S' h t'" for j h t t'
      using race_invD(6) [OF assms(1) assms(6)] that by (auto simp: del)
  qed (use assms race_invD(7) [OF assms(1)] in simp_all)
qed

lemma holds_at: "holds (at S j ph) i h t \<longleftrightarrow> (if i = j then \<exists>p. held ph = Some (p, t) \<and> dedupe_hash p = Some h \<and> h \<noteq> [] else holds S i h t)"
  by (simp add: holds_def at_def)

lemma at_fields [simp]: "rdb (at S j ph) = rdb S" "rclock (at S j ph) = rclock S" "rlog (at S j ph) = rlog S"
  by (simp_all add: at_def)

lemma holds_rdb [simp]: "holds (S\<lparr>rdb := d\<rparr>) = holds S" "holds (S\<lparr>rclock := c\<rparr>) = holds S" "holds (S\<lparr>rlog := l\<rparr>) = holds S"
  by (simp_all add: holds_def fun_eq_iff)

text \<open>Steps of a job that leave it without a reservation and keep the rows.\<close>

lemma inv_move:
  assumes "race_inv L S" and "held ph = None" and "distinct (map pd_hash (dedupe_rows d))"
    and "\<And>h t. row_at (rdb S) h t \<Longrightarrow> row_at d h t"
  shows "race_inv L ((at S j ph)\<lparr>rdb := d\<rparr>)"
  by (rule inv_mono [OF assms(1)]) (use assms in \<open>auto simp: holds_at split: if_splits\<close>)

lemma inv_move_same:
  assumes "race_inv L S" and "held ph = None" and "dedupe_rows d = dedupe_rows (rdb S)"
  shows "race_inv L ((at S j ph)\<lparr>rdb := d\<rparr>)"
  by (rule inv_move [OF assms(1,2)]) (use assms(3) race_invD(1) [OF assms(1)] row_at_cong [OF assms(3)] in simp_all)

lemma inv_move_at:
  assumes "race_inv L S" and "held ph = None"
  shows "race_inv L (at S j ph)"
  by (rule inv_mono [OF assms(1)]) (use assms(2) race_invD(1) [OF assms(1)] in \<open>auto simp: holds_at split: if_splits\<close>)

text \<open>Winning the reservation: the index had no row, so every earlier delivery is out of the window.\<close>

lemma inv_reserve:
  assumes "race_inv L S" and "0 \<le> L" and "reserve_dedupe (rclock S) (dedupe_hash p) (rdb S) = (True, d)"
  shows "race_inv L ((at S j (Holding p (rclock S)))\<lparr>rdb := d\<rparr>)" (is "race_inv L ?S")
proof (cases "dedupe_hash p")
  case None
  have "d = rdb S" using assms(3) None by (simp add: reserve_dedupe_def)
  then show ?thesis
    by (intro inv_mono [OF assms(1)]) (use race_invD(1) [OF assms(1)] None in \<open>auto simp: holds_at split: if_splits\<close>)
next
  case (Some h0)
  have d: "d = snd (reserve_dedupe (rclock S) (dedupe_hash p) (rdb S))" using assms(3) by simp
  have rows: "row_at d h t \<longleftrightarrow> row_at (rdb S) h t \<or> (h = h0 \<and> h0 \<noteq> [] \<and> t = rclock S \<and> \<not> dedupe_exists (rdb S) h0)" for h t
    unfolding d row_at_reserve Some by auto
  have fresh: "h0 \<noteq> [] \<Longrightarrow> \<not> dedupe_exists (rdb S) h0"
    using dedupe_index.won_iff [of h0 "rclock S" "rdb S"] assms(3) Some by simp
  then have none: "h0 \<noteq> [] \<Longrightarrow> \<not> row_at (rdb S) h0 t" for t using row_at_exists by blast
  have unheld: "\<not> holds S i h0 t" for i t
  proof
    assume h: "holds S i h0 t"
    then have "h0 \<noteq> []" by (auto simp: holds_def)
    with none race_invD(3) [OF assms(1) h] show False by blast
  qed
  have del: "delivered ?S = delivered S" by (simp add: delivered_def fun_eq_iff)
  have new: "holds (at S j (Holding p (rclock S))) i h t \<longleftrightarrow> (if i = j then h = h0 \<and> h0 \<noteq> [] \<and> t = rclock S else holds S i h t)" for i h t
    by (auto simp: holds_at Some)
  show ?thesis
  proof (rule race_invI)
    show "distinct (map pd_hash (dedupe_rows (rdb ?S)))"
      using distinct_reserve [OF race_invD(1) [OF assms(1)]] d by simp
    show "t \<le> rclock ?S \<and> row_at (rdb ?S) h t" if "holds ?S i h t" for i h t
      using that race_invD(2,3) [OF assms(1)] rows fresh by (auto simp: new split: if_splits)
    show "i = i'" if "holds ?S i h t" "holds ?S i' h t'" for i i' h t t'
      using that race_invD(4) [OF assms(1)] unheld by (auto simp: new split: if_splits)
    show "row_at (rdb ?S) h t \<or> t + L < rclock ?S" if "delivered ?S h t" for h t
      using that race_invD(5) [OF assms(1), of h t] rows by (auto simp: del)
    show "t' + L < t" if "holds ?S i h t" "delivered ?S h t'" for i h t t'
      using that race_invD(5) [OF assms(1), of h t'] race_invD(6) [OF assms(1), of i h t t'] none
      by (auto simp: new del split: if_splits)
    show "spaced L (rlog ?S)" using race_invD(7) [OF assms(1)] by simp
  qed
qed

text \<open>A job that goes on under its reservation.\<close>

lemma rjobs_at: "rjobs (at S j ph) i = (if i = j then ph else rjobs S i)"
  by (simp add: at_def)

lemma inv_hold:
  assumes "race_inv L S" and "held ph = held (rjobs S j)"
  shows "race_inv L (at S j ph)"
  by (rule inv_mono [OF assms(1)])
    (use assms(2) race_invD(1) [OF assms(1)] in \<open>auto simp: rjobs_at holds_def split: if_splits\<close>)

text \<open>What a job does to the log: it holds the hash alone, after every earlier delivery of it left the window.\<close>

lemma inv_log:
  assumes "race_inv L S" and "held (rjobs S j) = Some (p, t)" and "held ph = (if is_complete s then None else Some (p, t))"
  shows "race_inv L ((at S j ph)\<lparr>rlog := rlog S @ [(j, p, t, s)]\<rparr>)" (is "race_inv L ?S")
proof -
  have held: "holds S j h t" if "dedupe_hash p = Some h" "h \<noteq> []" for h using that assms(2) by (simp add: holds_def)
  have new: "holds (at S j ph) i h u \<Longrightarrow> holds S i h u \<and> (i = j \<longrightarrow> \<not> is_complete s)" for i h u
    using assms(2,3) by (auto simp: rjobs_at holds_def split: if_splits)
  have del: "delivered ?S h u \<longleftrightarrow> delivered S h u \<or> (is_complete s \<and> u = t \<and> dedupe_hash p = Some h \<and> h \<noteq> [])" for h u
    by (cases s) (auto simp: delivered_def)
  have last: "u + L < t" if "(i, q, u, s') \<in> set (rlog S)" "is_complete s'" "truthy (dedupe_hash q)" "dedupe_hash p = dedupe_hash q" for i q u s'
  proof -
    from that(3) obtain h where h: "dedupe_hash q = Some h" "h \<noteq> []" by (auto elim: truthyE)
    with that have "delivered S h u" by (cases s') (auto simp: delivered_def)
    with race_invD(6) [OF assms(1) held] h that(4) show ?thesis by auto
  qed
  show ?thesis
  proof (rule race_invI)
    show "u \<le> rclock ?S \<and> row_at (rdb ?S) h u" if "holds ?S i h u" for i h u
      using race_invD(2,3) [OF assms(1) conjunct1 [OF new]] that by auto
    show "i = i'" if "holds ?S i h u" "holds ?S i' h u'" for i i' h u u'
      using that new race_invD(4) [OF assms(1)] by (metis holds_rdb(3))
    show "row_at (rdb ?S) h u \<or> u + L < rclock ?S" if "delivered ?S h u" for h u
      using that race_invD(3) [OF assms(1) held] race_invD(5) [OF assms(1), of h u] by (auto simp: del)
    show "u' + L < u" if "holds ?S i h u" "delivered ?S h u'" for i h u u'
    proof -
      have h: "holds S i h u" "i = j \<Longrightarrow> \<not> is_complete s" using that(1) new by auto
      show ?thesis
        using that(2) race_invD(6) [OF assms(1) h(1)] race_invD(4) [OF assms(1) h(1)] held h(2) by (auto simp: del)
    qed
    show "spaced L (rlog ?S)"
      using race_invD(7) [OF assms(1)] last by (auto simp: spaced_def sorted_wrt_append)
  qed (use race_invD(1) [OF assms(1)] in simp)
qed

lemma inv_release:
  assumes "race_inv L S" and "0 \<le> L" and "held (rjobs S j) = Some (p, t)" and "held ph = None"
  shows "race_inv L ((at S j ph)\<lparr>rdb := release_dedupe (dedupe_hash p) (rdb S)\<rparr>)" (is "race_inv L ?S")
proof -
  have held: "holds S j h t" if "dedupe_hash p = Some h" "h \<noteq> []" for h using that assms(3) by (simp add: holds_def)
  have new: "holds (at S j ph) i h u \<longleftrightarrow> i \<noteq> j \<and> holds S i h u" for i h u using assms(4) by (auto simp: holds_at)
  have del: "delivered ?S = delivered S" by (simp add: delivered_def fun_eq_iff)
  show ?thesis
  proof (rule race_invI)
    show "distinct (map pd_hash (dedupe_rows (rdb ?S)))"
      using race_invD(1) [OF assms(1)] by (auto simp: release_dedupe_def tdel_def distinct_map_filter)
    show "u \<le> rclock ?S \<and> row_at (rdb ?S) h u" if "holds ?S i h u" for i h u
    proof -
      have "holds S i h u" "i \<noteq> j" using that new by auto
      moreover from this have "h \<noteq> []" by (auto simp: holds_def)
      moreover from calculation have "dedupe_hash p \<noteq> Some h"
        using race_invD(4) [OF assms(1), of i h u j t] held by blast
      ultimately show ?thesis
        using race_invD(2,3) [OF assms(1), of i h u] by (simp add: row_at_release)
    qed
    show "row_at (rdb ?S) h u \<or> u + L < rclock ?S" if "delivered ?S h u" for h u
    proof (cases "dedupe_hash p = Some h \<and> h \<noteq> []")
      case True
      then have h: "holds S j h t" using held by blast
      have "u + L < t" using race_invD(6) [OF assms(1) h] that by (simp add: del)
      with race_invD(2) [OF assms(1) h] show ?thesis by simp
    next
      case False
      with that race_invD(5) [OF assms(1), of h u] show ?thesis by (auto simp: del row_at_release)
    qed
  qed (use race_invD(4,6,7) [OF assms(1)] in \<open>auto simp: new del\<close>)
qed

lemma inv_prune:
  assumes "race_inv (window s) S" and "no_stale_reservation s S"
  shows "race_inv (window s) (S\<lparr>rdb := snd (prune_dedupe_rows s (rclock S) (rdb S))\<rparr>)" (is "race_inv _ ?S")
proof -
  have rows: "row_at (snd (prune_dedupe_rows s (rclock S) (rdb S))) h t \<longleftrightarrow> row_at (rdb S) h t \<and> rclock S - window s \<le> t" for h t
    by (auto simp: prune_dedupe_rows_def row_at_def Let_def window_def)
  have del: "delivered ?S = delivered S" by (simp add: delivered_def fun_eq_iff)
  have stay: "rclock S - window s \<le> t" if "holds S j h t" for j h t
    using that assms(2) by (auto simp: no_stale_reservation_def holds_def)
  show ?thesis
  proof (rule race_invI)
    show "distinct (map pd_hash (dedupe_rows (rdb ?S)))"
      using race_invD(1) [OF assms(1)] by (simp add: prune_dedupe_rows_def Let_def distinct_map_filter)
    show "row_at (rdb ?S) h t \<or> t + window s < rclock ?S" if "delivered ?S h t" for h t
      using that race_invD(5) [OF assms(1), of h t] by (auto simp: del rows)
  qed (use race_invD [OF assms(1)] stay rows del in \<open>auto\<close>)
qed

lemma job_step_inv:
  assumes "job_step E j S S'" and "race_inv (window (cfg E)) S" and "0 \<le> window (cfg E)"
  shows "race_inv (window (cfg E)) S'"
  using assms(1)
proof cases
  case (Reserve_won p d)
  then show ?thesis using inv_reserve [OF assms(2,3)] by simp
next
  case (Reserve_lost p d)
  have "d = rdb S" using Reserve_lost(3) by (auto simp: reserve_dedupe_def split: if_splits)
  then show ?thesis using inv_move_same [OF assms(2), of Finished] Reserve_lost(1) by simp
next
  case (Start_send p t there)
  then show ?thesis using inv_hold [OF assms(2)] by simp
next
  case (Deliver p t c cs b)
  then show ?thesis using inv_log [OF assms(2), of j p t "Sending p t cs b" "Message c"] by simp
next
  case (Flood p t c cs there)
  then show ?thesis using inv_hold [OF assms(2)] by simp
next
  case (Send_ok p t b mid)
  then show ?thesis using inv_log [OF assms(2), of j p t "Sent p mid" "Complete mid"] by simp
next
  case (Send_failed p t cs b err)
  then show ?thesis using inv_release [OF assms(2,3), of j p t] by simp
next
  case (Mark p mid d)
  then show ?thesis
    using inv_move [OF assms(2), of Finished d j]
      mark_published_rows [where d = "rdb S" and E = E and now = "rclock S" and pid = "post_id p" and mid = mid and h = "dedupe_hash p"]
      race_invD(1) [OF assms(2)] by auto
next
  case (Mark_failed p mid e d)
  then show ?thesis
    using inv_move [OF assms(2), of "Failing (post_id p) (exn_text e)" d j]
      mark_published_rows [where d = "rdb S" and E = E and now = "rclock S" and pid = "post_id p" and mid = mid and h = "dedupe_hash p"]
      race_invD(1) [OF assms(2)] by auto
next
  case (Card_failed p mid d err)
  then show ?thesis
    using inv_move [OF assms(2), of "Failing (post_id p) err" d j]
      mark_published_rows [where d = "rdb S" and E = E and now = "rclock S" and pid = "post_id p" and mid = mid and h = "dedupe_hash p"]
      race_invD(1) [OF assms(2)] by auto
next
  case (Record_failure pid err w)
  have "dedupe_rows (wdb (snd (on_publish_failure E pid err w))) = dedupe_rows (rdb S)"
    using Record_failure(3) by (cases "get_post (wdb w) pid") (auto simp: on_publish_failure_def Let_def)
  then show ?thesis using inv_move_same [OF assms(2), of Finished] Record_failure(1) by simp
qed (use inv_move_at [OF assms(2)] inv_move_same [OF assms(2)] in simp_all)

lemma race_step_inv:
  assumes "race_step E S S'" and "race_inv (window (cfg E)) S" and "0 \<le> window (cfg E)"
  shows "race_inv (window (cfg E)) S'"
  using assms(1)
proof cases
  case (Job j)
  then show ?thesis by (rule job_step_inv [OF _ assms(2,3)])
next
  case Prune
  then show ?thesis using inv_prune [OF assms(2)] by simp
next
  case (Others d)
  have "row_at d = row_at (rdb S)" using Others(2) by (rule row_at_cong)
  then show ?thesis
    using Others race_invD(1) [OF assms(2)] by (intro inv_mono [OF assms(2)]) simp_all
next
  case (Tick dt)
  then show ?thesis using race_invD(1) [OF assms(2)] by (intro inv_mono [OF assms(2)]) simp_all
qed (use inv_move_at [OF assms(2)] in simp_all)

lemma races_inv:
  "races E S S' \<Longrightarrow> race_inv (window (cfg E)) S \<Longrightarrow> 0 \<le> window (cfg E) \<Longrightarrow> race_inv (window (cfg E)) S'"
  by (induction rule: races.induct) (auto intro: race_step_inv)

definition at_rest :: "race \<Rightarrow> bool" where
  "at_rest S \<longleftrightarrow> rjobs S = (\<lambda>j. Finished) \<and> rlog S = [] \<and> distinct (map pd_hash (dedupe_rows (rdb S)))"

lemma at_rest_inv: "at_rest S \<Longrightarrow> race_inv L S"
  by (auto simp: at_rest_def race_inv_def holds_def delivered_def spaced_def)

section \<open>Properties\<close>

text \<open>
  C1: content that has been delivered is not delivered again within the lookback window. Let jobs overlap, fail at any
  call, crash and be queued again, let other services change the rest of the store, and let the index be pruned while
  no send is older than the window. Once a send of a post with a hash has returned, no message with that
  hash goes out, not even one of a send that fails later, unless its job reserved the hash more than the lookback period
  after the job that returned did.
\<close>

theorem no_double_delivery:
  assumes "at_rest S0" and "races E S0 S" and "0 \<le> dedupe_lookback_days (cfg E)"
  shows "sorted_wrt (\<lambda>(j, p, t, s) (j', p', t', s').
      is_complete s \<and> truthy (dedupe_hash p) \<and> dedupe_hash p' = dedupe_hash p \<longrightarrow>
        t + days (dedupe_lookback_days (cfg E)) < t') (rlog S)"
proof -
  have "0 \<le> window (cfg E)" using assms(3) by (simp add: window_def days_def)
  then have "race_inv (window (cfg E)) S" by (rule races_inv [OF assms(2) at_rest_inv [OF assms(1)]])
  then show ?thesis by (simp add: race_inv_def spaced_def window_def)
qed

definition idle :: "post list \<Rightarrow> race" where
  "idle ps = \<lparr>rdb = sample_db ps [], rclock = 0, rjobs = (\<lambda>j. Finished), rlog = []\<rparr>"

lemma idle_rest: "at_rest (idle ps)"
  by (simp add: at_rest_def idle_def sample_db_def)

text \<open>An example: two posts with one hash, the second delivered when the first has left the window.\<close>

definition twin :: "int \<Rightarrow> int \<Rightarrow> post" where
  "twin k mid = (new_post k 3 mid (Some (lit ''hi'')) 0)\<lparr>dedupe_hash := Some (lit ''abc'')\<rparr>"

definition delivered_db :: "post \<Rightarrow> time \<Rightarrow> db \<Rightarrow> db" where
  "delivered_db p t d = snd (reserve_dedupe t (dedupe_hash p) (claim_post t p d))"

text \<open>The entries of a whole delivery of a text.\<close>

definition text_log :: "nat \<Rightarrow> post \<Rightarrow> time \<Rightarrow> (nat \<times> post \<times> time \<times> sent) list" where
  "text_log j p t = [(j, p, t, Message (Send_message (-100) (publish_text p) None)), (j, p, t, Complete 7)]"

lemma text_plan:
  "raw_media_refs p = [] \<Longrightarrow> publish_text p \<noteq> [] \<Longrightarrow> plan_of sample_env there p = [Send_message (-100) (publish_text p) None]"
  by (simp add: plan_of_def send_plan_def sendable_def sample_env_def)

lemma job_chain: "races E S0 S1 \<Longrightarrow> job_step E j S1 S2 \<Longrightarrow> races E S0 S2"
  by (rule races.There [OF _ race_step.Job])

lemma deliver_run:
  assumes "publish_guard d pid = Inr p" and "\<not> dedupe_exists d (the (dedupe_hash p))"
    and "raw_media_refs p = []" and "publish_text p \<noteq> []"
  shows "races sample_env (conf S j Finished d t l) (conf S j Finished (delivered_db p t d) t (l @ text_log j p t))"
proof -
  let ?d = "claim_post t p d"
  have g: "get_post d (post_id p) = Some p" using assms(1) tget_key by (fastforce simp: publish_guard_Inr)
  have ex: "dedupe_exists ?d = dedupe_exists d" by (rule dedupe_exists_cong) simp
  have won: "reserve_dedupe t (dedupe_hash p) ?d = (True, delivered_db p t d)"
    using assms(2) ex by (auto simp: reserve_dedupe_def delivered_db_def)
  note plan = text_plan [OF assms(3,4)]
  have a: "races sample_env (conf S j Finished d t l) (conf S j (Claimed p) ?d t l)"
    by (rule job_chain [OF job_chain [OF races_one [OF conf_race_steps(1)] conf_steps(2) [OF assms(1)]] conf_steps(3) [OF g]])
  have b: "races sample_env (conf S j Finished d t l) (conf S j (Holding p t) (delivered_db p t d) t l)"
    by (rule job_chain [OF job_chain [OF a conf_steps(5)] conf_steps(7) [OF won]]) (use assms(2) ex in simp)
  note c = job_chain [OF b conf_steps(8), of "\<lambda>f. True", unfolded plan]
  note e = job_chain [OF job_chain [OF c conf_steps(9)] conf_steps(11) [where mid = 7]]
  from races.There [OF e conf_race_steps(2)] show ?thesis by (simp add: text_log_def)
qed

theorem no_double_delivery_witness:
  "\<exists>S. races sample_env (idle [twin 9 41, twin 10 42]) S \<and>
     map (\<lambda>(j, p, t, s). (post_id p, t, is_complete s)) (rlog S) =
       [(9, 0, False), (9, 0, True), (10, days 8, False), (10, days 8, True)] \<and> spaced (days 7) (rlog S)"
proof -
  let ?a = "twin 9 41" and ?b = "twin 10 42"
  define S0 where "S0 = idle [?a, ?b]"
  define d0 where "d0 = sample_db [?a, ?b] []"
  define d1 where "d1 = delivered_db ?a 0 d0"
  define d2 where "d2 = snd (prune_dedupe_rows (cfg sample_env) (days 8) d1)"
  define S where "S = conf S0 0 Finished (delivered_db ?b (days 8) d2) (days 8) (text_log 0 ?a 0 @ text_log 0 ?b (days 8))"
  have start: "conf S0 0 Finished d0 0 [] = S0" by (simp add: S0_def d0_def idle_def conf_def fun_eq_iff)
  have g0: "publish_guard d0 9 = Inr ?a" "\<not> dedupe_exists d0 (the (dedupe_hash ?a))" unfolding d0_def by code_simp+
  have g2: "publish_guard d2 10 = Inr ?b" "\<not> dedupe_exists d2 (the (dedupe_hash ?b))" unfolding d2_def d1_def d0_def by code_simp+
  have t: "raw_media_refs (twin k m) = []" "publish_text (twin k m) \<noteq> []" for k m
    by (simp_all add: twin_def new_post_def publish_text_def or_else_def lit_def)
  have first: "races sample_env S0 (conf S0 0 Finished d1 0 (text_log 0 ?a 0))"
    using deliver_run [OF g0 t, of S0 0 0 "[]"] start by (simp add: d1_def)
  have week: "race_step sample_env (conf S0 0 Finished d1 0 (text_log 0 ?a 0)) (conf S0 0 Finished d1 (0 + days 8) (text_log 0 ?a 0))"
    by (rule conf_race_steps(3)) (simp add: days_def)
  have rest: "no_stale_reservation (cfg sample_env) (conf S0 0 Finished d1 (days 8) (text_log 0 ?a 0))"
    by (simp add: no_stale_reservation_def S0_def idle_def)
  have prune: "race_step sample_env (conf S0 0 Finished d1 (0 + days 8) (text_log 0 ?a 0)) (conf S0 0 Finished d2 (days 8) (text_log 0 ?a 0))"
    using Prune [OF rest] by (simp add: conf_updates d2_def)
  have run: "races sample_env S0 S" unfolding S_def
    by (rule races_trans [OF deliver_run [OF g2 t] races.There [OF races.There [OF first week] prune]])
  have log: "map (\<lambda>(j, p, t, s). (post_id p, t, is_complete s)) (rlog S) =
       [(9, 0, False), (9, 0, True), (10, days 8, False), (10, days 8, True)]"
    unfolding S_def conf_fields by (simp add: text_log_def twin_def new_post_def)
  have days: "dedupe_lookback_days (cfg sample_env) = 7" by (simp add: sample_env_def default_settings_def)
  have "races sample_env (idle ps) X \<Longrightarrow> spaced (days 7) (rlog X)" for ps X
    using no_double_delivery [OF idle_rest, of sample_env ps X] by (simp add: days spaced_def)
  then have "spaced (days 7) (rlog S)" using run [unfolded S0_def] .
  then show ?thesis using run [unfolded S0_def] log by (intro exI [of _ S] conjI)
qed

text \<open>
  a post without a hash, such as one approved before it was normalized, has no such protection:
  the state is read in one transaction step and claimed in another, so two jobs that load it before
  either claims it both send it.
\<close>

theorem unhashed_post_sent_twice:
  "\<exists>S. races sample_env (idle [sample_post]) S \<and>
     map (\<lambda>(j, p, t, s). post_id p) (filter (\<lambda>(j, p, t, s). is_complete s) (rlog S)) = [9, 9]"
proof -
  let ?S0 = "idle [sample_post]"
  have guard: "publish_guard (rdb ?S0) 9 = Inr sample_post" by code_simp
  have pid: "post_id sample_post = 9" and h: "dedupe_hash sample_post = None" by (simp_all add: sample_post_def new_post_def)
  have res: "reserve_dedupe t (dedupe_hash sample_post) d = (True, d)" for t d by (simp add: h reserve_dedupe_def)
  have plan: "plan_of sample_env there sample_post = [Send_message (-100) (publish_text sample_post) None]" for there
    by (rule text_plan) (simp_all add: sample_post_def new_post_def publish_text_def or_else_def lit_def)
  define S1 where "S1 = at (at ?S0 0 (Queued 9)) 1 (Queued 9)"
  define S2 where "S2 = at (at S1 0 (Loaded sample_post)) 1 (Loaded sample_post)"
  have f: "rjobs (idle ps) j = Finished" for ps j by (simp add: idle_def)
  have a: "races sample_env ?S0 S1" unfolding S1_def
    by (rule races.There [OF races.There [OF races.Here Enqueue] Enqueue]) (simp_all add: f rjobs_at)
  have b: "races sample_env ?S0 S2" unfolding S2_def
    by (rule job_chain [OF job_chain [OF a Load [where pid = 9]] Load [where pid = 9]]) (simp_all add: S1_def rjobs_at guard)
  have solo: "\<exists>S'. races sample_env ?S0 S' \<and> rlog S' = rlog S @ text_log j sample_post (rclock S) \<and>
      (\<forall>i. i \<noteq> j \<longrightarrow> rjobs S' i = rjobs S i) \<and> get_post (rdb S') 9 \<noteq> None"
    if S: "races sample_env ?S0 S" "rjobs S j = Loaded sample_post" and row: "get_post (rdb S) 9 \<noteq> None" for S j
  proof -
    obtain q where q: "get_post (rdb S) (post_id sample_post) = Some q" using row pid by auto
    define d where "d = claim_post (rclock S) q (rdb S)"
    have dq: "get_post d 9 \<noteq> None" using claim_post_get [OF q, of "rclock S"] pid by (auto simp: d_def)
    let ?c = "\<lambda>ph d l. conf S j ph d (rclock S) l"
    have S: "races sample_env ?S0 (?c (Loaded sample_post) (rdb S) (rlog S))" using conf_self [OF S(2)] S(1) by simp
    have "races sample_env ?S0 (?c (Claimed sample_post) d (rlog S))"
      unfolding d_def by (rule job_chain [OF S conf_steps(3) [OF q]])
    then have "races sample_env ?S0 (?c (Checked sample_post) d (rlog S))"
      by (rule job_chain) (rule conf_steps(5), simp add: h)
    then have "races sample_env ?S0 (?c (Holding sample_post (rclock S)) d (rlog S))"
      by (rule job_chain) (rule conf_steps(7), rule res)
    note run = job_chain [OF this conf_steps(8), of "\<lambda>f. True", unfolded plan]
    from job_chain [OF job_chain [OF run conf_steps(9)] conf_steps(11) [where mid = 7]]
    show ?thesis using dq by (intro exI conjI) (assumption, simp_all add: text_log_def)
  qed
  have j2: "rjobs S2 0 = Loaded sample_post" "rjobs S2 1 = Loaded sample_post" by (simp_all add: S2_def rjobs_at)
  have g2: "get_post (rdb S2) 9 \<noteq> None" by (simp add: S2_def S1_def idle_def sample_db_def tget_def pid)
  obtain S3 where c: "races sample_env ?S0 S3" "rlog S3 = rlog S2 @ text_log 0 sample_post (rclock S2)"
    "\<forall>i. i \<noteq> 0 \<longrightarrow> rjobs S3 i = rjobs S2 i" "get_post (rdb S3) 9 \<noteq> None"
    using solo [OF b j2(1) g2] by (elim exE conjE) (rule that)
  have "rjobs S3 1 = rjobs S2 1" by (rule c(3) [rule_format]) simp
  then have j3: "rjobs S3 1 = Loaded sample_post" using j2(2) by (rule trans)
  obtain S4 where e: "races sample_env ?S0 S4" "rlog S4 = rlog S3 @ text_log 1 sample_post (rclock S3)"
    using solo [OF c(1) j3 c(4)] by (elim exE conjE) (rule that)
  have "rlog S2 = []" by (simp add: S2_def S1_def idle_def)
  with pid have "map (\<lambda>(j, p, t, s). post_id p) (filter (\<lambda>(j, p, t, s). is_complete s) (rlog S4)) = [9, 9]"
    unfolding e(2) c(2) by (simp add: text_log_def)
  then show ?thesis using e(1) by (intro exI [of _ S4] conjI)
qed

end
