(* ===== verification/PublishSpec.thy ===== *)
theory PublishSpec
  imports PublisherFacts
begin

text \<open>
  What the publish job guarantees: guards, duplicates, failed sends, the bookkeeping after a
  delivered message, and which texts reach the channel.
\<close>

section \<open>Texts that reach the channel\<close>

definition text_delivered :: "pystr \<Rightarrow> (tg_call \<times> tg_outcome) list \<Rightarrow> bool" where
  "text_delivered text xs \<longleftrightarrow>
     list_ex (\<lambda>(c, r). call_text c = Some text \<and> is_delivered r) xs"

definition new_calls :: "world \<Rightarrow> world \<Rightarrow> (tg_call \<times> tg_outcome) list" where
  "new_calls w w' = drop (length (wcalls w)) (wcalls w')"

lemma new_calls_append: "wcalls w' = wcalls w @ xs \<Longrightarrow> new_calls w w' = xs"
  by (simp add: new_calls_def)

lemma only_sends_new: "only_sends chat w w' \<Longrightarrow> wcalls w' = wcalls w @ new_calls w w'"
  by (auto simp: only_sends_def new_calls_def)

lemma tg_do_delivered:
  assumes "tg_do E c w = (Inr m, w1)"
  shows "wcalls w1 = wcalls w @ [(c, Delivered m)]"
  using assms tg_do_ok [of E c w m] tg_do_world [of E c w] by simp

lemma text_delivered_append [simp]:
  "text_delivered t (xs @ ys) \<longleftrightarrow> text_delivered t xs \<or> text_delivered t ys"
  by (simp add: text_delivered_def)

lemma text_delivered_Cons [simp]:
  "text_delivered t ((c, Delivered m) # xs) \<longleftrightarrow> call_text c = Some t \<or> text_delivered t xs"
  "\<not> text_delivered t []"
  by (simp_all add: text_delivered_def is_delivered_def)

text \<open>A long text follows the media as a message of its own.\<close>

lemma send_rest_text:
  assumes "send_rest E chat text cap extra mid w = (Inr r, w')" and "cap = None" and "text \<noteq> []"
  shows "text_delivered text (new_calls w w')"
proof -
  let ?g = "if media_group w extra \<noteq> [] then tg_do E (Send_media_group chat (media_group w extra)) w
    else (Inr 0, w)"
  obtain x w1 where g: "?g = (x, w1)" by (cases ?g)
  have "only_sends chat w (snd ?g)" by (simp add: only_sends_tg)
  with g have w1: "only_sends chat w w1" by simp
  from assms g obtain m w2 where m: "tg_do E (Send_message chat text None) w1 = (Inr m, w2)" "w' = w2"
    by (auto simp: send_rest_def split: sum.splits prod.splits)
  then have "wcalls w' = wcalls w @ new_calls w w1 @ [(Send_message chat text None, Delivered m)]"
    using only_sends_new [OF w1] tg_do_delivered by simp
  from new_calls_append [OF this] show ?thesis by simp
qed

lemma send_rest_calls: "wcalls (snd (send_rest E chat text cap extra mid w)) = wcalls w @
    new_calls w (snd (send_rest E chat text cap extra mid w))"
  by (rule only_sends_new) (rule send_rest_only)

text \<open>a send that reports success has put the whole text in front of the channel's readers,
  as a caption or as a message, unless the primary media is a voice or video note with a short text.\<close>

theorem send_post_delivers_text:
  assumes ok: "send_post E chat text refs w = (Inr r, w')" and nonempty: "text \<noteq> []"
    and not_voice: "\<And>primary extra. sendable (cfg E) refs = primary # extra \<Longrightarrow>
       media_kind_of (mr_type primary) \<in> {Voice, Video_note} \<Longrightarrow> length text > CAPTION_LIMIT"
  shows "text_delivered text (new_calls w w')"
proof -
  have plain: "text_delivered text (new_calls w w')"
    if "tg_do E (Send_message chat text None) w = (Inr m, w')" for m
    using new_calls_append [OF tg_do_delivered [OF that]] by simp
  show ?thesis
  proof (cases "sendable (cfg E) refs")
    case Nil
    with ok nonempty plain show ?thesis by (auto simp: send_post_def split: prod.splits sum.splits)
  next
    case (Cons primary extra)
    let ?path = "the (mr_file primary)"
    let ?call = "primary_call (media_kind_of (mr_type primary)) chat ?path (caption_of text)"
    show ?thesis
    proof (cases "file_exists w ?path")
      case False
      with ok nonempty plain Cons show ?thesis
        by (auto simp: send_post_def Let_def split: prod.splits sum.splits)
    next
      case True
      with ok Cons obtain mid w1 where p: "tg_do E ?call w = (Inr mid, w1)"
        and rest: "send_rest E chat text (caption_of text) extra mid w1 = (Inr r, w')"
        by (auto simp: send_post_def Let_def split: prod.splits sum.splits)
      have calls: "wcalls w' = wcalls w @ [(?call, Delivered mid)] @ new_calls w1 w'"
        using tg_do_delivered [OF p] send_rest_calls [of E chat "text" "caption_of text" extra mid w1] rest
        by simp
      show ?thesis
      proof (cases "length text \<le> CAPTION_LIMIT")
        case True
        then have "call_text ?call = Some text"
          using not_voice [OF Cons] nonempty by (auto simp: primary_call_def caption_of_def)
        with new_calls_append [OF calls] show ?thesis by simp
      next
        case False
        then have "text_delivered text (new_calls w1 w')"
          using send_rest_text [OF rest] nonempty by (simp add: caption_of_def)
        with new_calls_append [OF calls] show ?thesis by simp
      qed
    qed
  qed
qed

definition photo_ref :: media_ref where
  "photo_ref = \<lparr>mr_type = Some (lit ''photo''), mr_file = Some (lit ''/media/9_0_photo.bin''),
     mr_size = None, mr_mime = None, mr_omitted = False\<rparr>"

definition voice_ref :: media_ref where
  "voice_ref = photo_ref\<lparr>mr_type := Some (lit ''voice'')\<rparr>"

definition media_world :: world where
  "media_world = (sample_world [] [])\<lparr>wfiles := [(lit ''/media/9_0_photo.bin'', 0)]\<rparr>"

theorem send_post_delivers_text_witness:
  "\<exists>r w'. send_post sample_env 1 (lit ''hi'') [photo_ref] media_world = (Inr r, w') \<and>
     text_delivered (lit ''hi'') (new_calls media_world w')"
proof -
  let ?s = "send_post sample_env 1 (lit ''hi'') [photo_ref] media_world"
  have k: "media_kind_of (mr_type photo_ref) = Photo" and s: "sendable (cfg sample_env) [photo_ref] = [photo_ref]"
    by code_simp+
  have ok: "fst ?s = Inr (Some 7)" by code_simp
  then have e: "?s = (Inr (Some 7), snd ?s)" by (metis prod.collapse)
  have "text_delivered (lit ''hi'') (new_calls media_world (snd ?s))"
    by (rule send_post_delivers_text [OF e]) (use k s in \<open>auto simp: lit_def\<close>)
  with e show ?thesis by blast
qed

text \<open>a post whose primary media is a voice or video note and whose text would fit a caption is
  sent without its text: no call of the whole send carries any text.\<close>

theorem send_post_voice_drops_text:
  assumes "sendable (cfg E) refs = primary # extra"
    and "media_kind_of (mr_type primary) \<in> {Voice, Video_note}"
    and "file_exists w (the (mr_file primary))"
    and "text \<noteq> []" and "length text \<le> CAPTION_LIMIT"
    and "(c, r) \<in> set (new_calls w (snd (send_post E chat text refs w)))"
  shows "call_text c = None"
proof -
  let ?call = "primary_call (media_kind_of (mr_type primary)) chat (the (mr_file primary)) (Some text)"
  have none: "call_text ?call = None" using assms(2) by (auto simp: primary_call_def)
  obtain x w1 where p: "tg_do E ?call w = (x, w1)" by (cases "tg_do E ?call w")
  have w1: "\<exists>r1. wcalls w1 = wcalls w @ [(?call, r1)]"
    using tg_do_world [of E ?call w] p by simp
  have rest: "\<exists>xs. wcalls (snd (send_rest E chat text (Some text) extra mid w1)) = wcalls w1 @ xs \<and>
      (\<forall>(c, r) \<in> set xs. call_text c = None)" for mid
    by (cases "tg_do E (Send_media_group chat (media_group w1 extra)) w1")
      (use tg_do_world [of E "Send_media_group chat (media_group w1 extra)" w1] in
        \<open>auto simp: send_rest_def split: sum.split\<close>)
  have "\<exists>xs. wcalls (snd (send_post E chat text refs w)) = wcalls w @ xs \<and>
      (\<forall>(c, r) \<in> set xs. call_text c = None)"
  proof (cases x)
    case (Inl e)
    with assms(1,3-5) p w1 none show ?thesis
      by (auto simp: send_post_def Let_def caption_of_def)
  next
    case (Inr mid)
    then have eq: "send_post E chat text refs w = send_rest E chat text (Some text) extra mid w1"
      using assms(1,3-5) p by (simp add: send_post_def Let_def caption_of_def)
    from rest [of mid] w1 none show ?thesis by (auto simp: eq)
  qed
  with assms(6) show ?thesis by (auto simp: new_calls_append)
qed

theorem send_post_voice_drops_text_witness:
  "sendable (cfg sample_env) [voice_ref] = [voice_ref] \<and>
   (\<exists>c r. (c, r) \<in> set (new_calls media_world (snd (send_post sample_env 1 (lit ''hi'') [voice_ref] media_world)))
      \<and> call_text c = None)"
proof -
  let ?n = "new_calls media_world (snd (send_post sample_env 1 (lit ''hi'') [voice_ref] media_world))"
  have s: "sendable (cfg sample_env) [voice_ref] = voice_ref # []" by code_simp
  have k: "media_kind_of (mr_type voice_ref) \<in> {Voice, Video_note}" by code_simp
  have f: "file_exists media_world (the (mr_file voice_ref))" by code_simp
  have t: "lit ''hi'' \<noteq> []" "length (lit ''hi'') \<le> CAPTION_LIMIT" by (code_simp, code_simp)
  have n: "?n = [(Send_media Voice 1 (lit ''/media/9_0_photo.bin'') None, Delivered 7)]" by code_simp
  then have m: "(Send_media Voice 1 (lit ''/media/9_0_photo.bin'') None, Delivered 7) \<in> set ?n" by simp
  from send_post_voice_drops_text [OF s k f t m] s m show ?thesis by blast
qed

section \<open>Guards and duplicates\<close>

text \<open>a job for a post that is missing, already has a message id, or is rejected, published or
  in flight changes nothing and calls nobody.\<close>

theorem publish_skips:
  assumes "get_post (wdb w) pid = None \<or>
    (\<exists>p. get_post (wdb w) pid = Some p \<and> (published_message_id p \<noteq> None \<or> post_state p \<in> SKIP_STATES))"
  shows "\<exists>r. publish E pid w = (Inr r, w)"
proof -
  have "\<exists>r. publish_guard (wdb w) pid = Inl r"
    using assms by (auto simp: publish_guard_def split: option.split)
  then show ?thesis using publish_skip by blast
qed

theorem publish_skips_witness:
  "\<exists>r. publish sample_env 9 (sample_world [sample_post\<lparr>post_state := Publishing\<rparr>] [])
     = (Inr r, sample_world [sample_post\<lparr>post_state := Publishing\<rparr>] [])"
proof -
  have "get_post (wdb (sample_world [sample_post\<lparr>post_state := Publishing\<rparr>] [])) 9
      = Some (sample_post\<lparr>post_state := Publishing\<rparr>)"
    by (simp add: sample_defs tget_def)
  then show ?thesis by (intro publish_skips) (auto simp: SKIP_STATES_def)
qed

lemma mark_duplicate_get:
  assumes "get_post d pid = Some p"
  shows "\<exists>u. get_post (mark_duplicate now pid h d) pid = Some (p\<lparr>post_state := Rejected, updated_at := u\<rparr>)"
  using assms get_post_save [OF assms, of "p\<lparr>post_state := Rejected\<rparr>" now] tget_key [OF assms]
  by (simp add: mark_duplicate_def)

lemma mark_duplicate_rows [frame, simp]:
  "dedupe_rows (mark_duplicate now pid h d) = dedupe_rows d"
  by (simp add: mark_duplicate_def split: option.split)

lemma publish_duplicate_outcome:
  assumes "publish_guard (wdb w) pid = Inr p" and "get_channel (wdb w) (source_channel_id p) = Some ch"
    and "truthy (dedupe_hash p)" and "dedupe_exists (wdb w) (the (dedupe_hash p))"
  shows "fst (publish E pid w) = Inr (lit ''duplicate'') \<and> wcalls (snd (publish E pid w)) = wcalls w \<and>
    dedupe_rows (wdb (snd (publish E pid w))) = dedupe_rows (wdb w) \<and>
    (\<exists>q. get_post (wdb (snd (publish E pid w))) pid = Some q \<and> post_state q = Rejected)"
proof -
  obtain u where "get_post (claim_post (wclock w) p (wdb w)) pid
      = Some (p\<lparr>post_state := Publishing, updated_at := u\<rparr>)"
    using assms(1) claim_post_get by (meson publish_guard_Inr)
  from mark_duplicate_get [OF this] show ?thesis
    by (fastforce simp: publish_ok [OF publish_core_dup [OF assms]])
qed


definition hashed_post :: post where
  "hashed_post = sample_post\<lparr>dedupe_hash := Some (lit ''k''), normalized_text := Some (lit ''hi'')\<rparr>"

definition dup_world :: world where
  "dup_world = sample_world [hashed_post] [\<lparr>pd_id = 1, pd_hash = lit ''k'', pd_published_at = 0\<rparr>]"


section \<open>Failed sends\<close>

text \<open>C10: when the send raises, the job raises, the post is marked failed and stays publishable, and
  the index holds exactly the rows it held before, so a retry is not taken for a duplicate.\<close>

theorem publish_send_failure:
  assumes "publish_guard (wdb w) pid = Inr p" and "get_channel (wdb w) (source_channel_id p) = Some ch"
    and "\<not> (truthy (dedupe_hash p) \<and> dedupe_exists (wdb w) (the (dedupe_hash p)))"
    and "fst (send_of E p w) = Inl e"
  shows "(\<exists>r. fst (publish E pid w) = Inl r) \<and>
    dedupe_rows (wdb (snd (publish E pid w))) = dedupe_rows (wdb w) \<and>
    (\<exists>q. publish_guard (wdb (snd (publish E pid w))) pid = Inr q \<and> post_state q = Publish_failed \<and>
       dedupe_hash q = dedupe_hash p)"
proof -
  let ?w3 = "snd (send_of E p w)"
  let ?w4 = "?w3\<lparr>wdb := release_dedupe (dedupe_hash p) (wdb ?w3)\<rparr>"
  have core: "publish_core E pid w = (Inl e, ?w4)"
    using publish_core_send [OF assms(1-3)] assms(4) by (simp add: case_prod_beta)
  obtain u where "get_post (wdb (reserved_world w p)) pid = Some (p\<lparr>post_state := Publishing, updated_at := u\<rparr>)"
    using reserved_post [OF assms(1)] by blast
  then have q: "get_post (wdb ?w4) pid = Some (p\<lparr>post_state := Publishing, updated_at := u\<rparr>)"
    by (simp add: send_of_db)
  have rows: "dedupe_rows (wdb ?w4) = dedupe_rows (wdb w)"
    using reserved_released_rows [OF assms(3)] by (simp add: send_of_db)
  from publish_failed [OF core q] rows assms(1) show ?thesis
    by (auto simp: publish_guard_Inr SKIP_STATES_def)
qed

definition fresh_world :: world where
  "fresh_world = sample_world [hashed_post] []"

definition refusing_env :: env where
  "refusing_env = sample_env\<lparr>telegram := (\<lambda>h c. Refused (lit ''x''))\<rparr>"

lemma fresh_guard: "publish_guard (wdb fresh_world) 9 = Inr hashed_post"
  by (simp add: publish_guard_def fresh_world_def hashed_post_def sample_defs tget_def SKIP_STATES_def)

lemma fresh_channel: "get_channel (wdb fresh_world) (source_channel_id hashed_post) = Some sample_channel"
  by (simp add: fresh_world_def hashed_post_def sample_defs tget_def)

lemma fresh_free:
  "\<not> (truthy (dedupe_hash hashed_post) \<and> dedupe_exists (wdb fresh_world) (the (dedupe_hash hashed_post)))"
  by code_simp

theorem publish_send_failure_witness:
  "\<exists>r. fst (publish refusing_env 9 fresh_world) = Inl r"
proof -
  have "fst (send_of refusing_env hashed_post fresh_world) = Inl (TelegramAPIError (lit ''x''))"
    by code_simp
  from publish_send_failure [OF fresh_guard fresh_channel fresh_free this] show ?thesis by blast
qed

section \<open>After a delivered message\<close>

text \<open>No step of the job touches the channels.\<close>

lemma mark_channels [frame, simp]:
  "source_channels (mark_duplicate now pid h d) = source_channels d"
  "source_channels (snd (mark_published E now pid mid hh d)) = source_channels d"
  by (simp_all add: mark_duplicate_def mark_published_def Let_def split: option.split)

lemma edit_draft_card_db [frame, simp]: "wdb (snd (edit_draft_card E p ch w)) = wdb w"
proof -
  have "wdb (snd (tg_do E c w)) = wdb w" for c by simp
  then show ?thesis
    by (auto simp: edit_draft_card_def Let_def case_prod_beta split: sum.split)
qed

text \<open>Whatever Telegram answers about the card, the job goes on; only another exception ends it.\<close>

lemma edit_draft_card_ok:
  assumes "truthy_int (draft_message_id p) \<Longrightarrow> (\<And>h c m. telegram E h c \<noteq> Broken m)"
  shows "fst (edit_draft_card E p ch w) = Inr ()"
  using assms by (auto simp: edit_draft_card_def tg_do_def Let_def split: prod.split tg_outcome.split)

lemma publish_finish_channels:
  "source_channels (wdb (snd (publish_finish E pid mid h ch w))) = source_channels (wdb w)"
proof -
  have "source_channels (snd (mark_published E (wclock w) pid mid h (wdb w))) = source_channels (wdb w)"
    by simp
  then show ?thesis
    by (cases "mark_published E (wclock w) pid mid h (wdb w)")
      (auto simp: publish_finish_def Let_def case_prod_beta split: sum.split option.split)
qed

lemma publish_core_channels: "source_channels (wdb (snd (publish_core E pid w))) = source_channels (wdb w)"
proof (cases "publish_guard (wdb w) pid")
  case (Inl r)
  then show ?thesis by (simp add: publish_core_skip)
next
  case (Inr p)
  have send: "source_channels (wdb (snd (send_of E p w))) = source_channels (wdb w)"
    unfolding send_of_db by (simp add: reserved_world_def)
  show ?thesis
  proof (cases "get_channel (wdb w) (source_channel_id p)")
    case None
    with Inr show ?thesis by (simp add: publish_core_no_channel)
  next
    case (Some ch)
    then show ?thesis
      using publish_core_dup [OF Inr Some] publish_core_send [OF Inr Some, of E] send
      by (cases "truthy (dedupe_hash p) \<and> dedupe_exists (wdb w) (the (dedupe_hash p))")
        (auto simp: case_prod_beta publish_finish_channels split: sum.split)
  qed
qed

lemma publish_channels [frame]: "source_channels (wdb (snd (publish E pid w))) = source_channels (wdb w)"
proof (cases "publish_core E pid w")
  case (Pair r w1)
  have w1: "source_channels (wdb w1) = source_channels (wdb w)"
    using publish_core_channels [of E pid w] Pair by simp
  have f: "source_channels (wdb (snd (on_publish_failure E pid err w1))) = source_channels (wdb w1)" for err
    by (simp add: on_publish_failure_def Let_def split: option.split)
  show ?thesis using Pair w1 f
    by (auto simp: publish_def case_prod_beta split: sum.split)
qed

lemma send_of_post:
  assumes "publish_guard (wdb w) pid = Inr p"
  shows "\<exists>u. get_post (wdb (snd (send_of E p w))) pid = Some (p\<lparr>post_state := Publishing, updated_at := u\<rparr>)"
  using reserved_post [OF assms] by (simp add: send_of_db)

lemma mark_published_raises:
  assumes "get_post d pid = Some q" and "truthy h" and "orm_add_statement E = Some e"
  shows "mark_published E now pid mid h d = (Inl e, d)"
  using assms by (simp add: mark_published_def Let_def)

lemma mark_published_commits:
  assumes "get_post d pid = Some q" and "truthy h \<Longrightarrow> orm_add_statement E = None"
  shows "\<exists>d' u. mark_published E now pid mid h d = (Inr (), d') \<and>
     get_post d' pid = Some (q\<lparr>post_state := Published, published_message_id := Some mid,
        published_at := Some now, updated_at := u\<rparr>) \<and>
     (\<forall>k. dedupe_exists d k \<longrightarrow> dedupe_exists d' k)"
proof -
  let ?q = "q\<lparr>post_state := Published, published_message_id := Some mid, published_at := Some now\<rparr>"
  let ?d1 = "add_event now pid None Ev_published
     [(''published_message_id'', JInt mid), (''chat_id'', JInt (destination_channel_id (cfg E)))]
     (save_post now ?q d)"
  obtain u where u: "get_post ?d1 pid = Some (?q\<lparr>updated_at := u\<rparr>)"
    using get_post_save [OF assms(1), of ?q now] tget_key [OF assms(1)] by auto
  have r: "dedupe_exists ?d1 = dedupe_exists d" by (rule dedupe_exists_cong) simp
  show ?thesis
  proof (cases "truthy h")
    case True
    then obtain k where k: "h = Some k" "k \<noteq> []" by (rule truthyE)
    let ?d' = "snd (reserve_dedupe now h ?d1)"
    have "mark_published E now pid mid h d = (Inr (), ?d')"
      using assms True by (simp add: mark_published_def Let_def)
    moreover have "get_post ?d' pid = Some (?q\<lparr>updated_at := u\<rparr>)"
      using u by simp
    moreover have "\<forall>k. dedupe_exists d k \<longrightarrow> dedupe_exists ?d' k"
      using r k by (simp add: dedupe_exists_reserve)
    ultimately show ?thesis by blast
  next
    case False
    then have "mark_published E now pid mid h d = (Inr (), ?d1)"
      using assms by (simp add: mark_published_def Let_def)
    with u r show ?thesis by (metis (no_types, lifting))
  qed
qed

text \<open>
  The state after a delivered message whose bookkeeping transaction raised.
\<close>

lemma unrecorded_outcome:
  assumes "publish_guard (wdb w) pid = Inr p" and "get_channel (wdb w) (source_channel_id p) = Some ch"
    and "truthy (dedupe_hash p)" and "\<not> dedupe_exists (wdb w) (the (dedupe_hash p))"
    and "fst (send_of E p w) = Inr (Some mid)" and "mid \<noteq> 0"
    and "orm_add_statement E = Some e"
  shows "\<exists>r u. fst (publish E pid w) = Inl r \<and>
    dedupe_exists (wdb (snd (publish E pid w))) (the (dedupe_hash p)) \<and>
    get_post (wdb (snd (publish E pid w))) pid = Some (p\<lparr>post_state := Publish_failed, updated_at := u\<rparr>)"
proof -
  let ?w3 = "snd (send_of E p w)"
  obtain u where q: "get_post (wdb ?w3) pid = Some (p\<lparr>post_state := Publishing, updated_at := u\<rparr>)"
    using send_of_post [OF assms(1)] by blast
  have "publish_finish E pid mid (dedupe_hash p) ch ?w3 = (Inl e, ?w3\<lparr>wdb := wdb ?w3\<rparr>)"
    using mark_published_raises [OF q assms(3,7)] by (simp add: publish_finish_def)
  then have core: "publish_core E pid w = (Inl e, ?w3)"
    using publish_core_send [OF assms(1,2)] assms(3-6) by (simp add: case_prod_beta)
  have ex: "dedupe_exists (wdb ?w3) (the (dedupe_hash p))"
    using reserved_exists [OF assms(3)] by (simp add: send_of_db)
  from publish_failed [OF core q] obtain r u' where
    f: "fst (publish E pid w) = Inl r"
      "get_post (wdb (snd (publish E pid w))) pid
        = Some (p\<lparr>post_state := Publish_failed, updated_at := u'\<rparr>)"
      "dedupe_rows (wdb (snd (publish E pid w))) = dedupe_rows (wdb ?w3)"
    by auto
  from dedupe_exists_cong [OF f(3)] ex have "dedupe_exists (wdb (snd (publish E pid w))) (the (dedupe_hash p))"
    by simp
  with f(1,2) show ?thesis by blast
qed

text \<open>
  SQLAlchemy's \<open>add\<close> raises on a Core statement, so for a post with a hash every delivered
  message ends as a failure: the job raises, the post is \<open>publish_failed\<close> without a message id, and
  the reservation stays.
\<close>

theorem publish_sent_but_unrecorded:
  assumes "publish_guard (wdb w) pid = Inr p" and "get_channel (wdb w) (source_channel_id p) = Some ch"
    and "truthy (dedupe_hash p)" and "\<not> dedupe_exists (wdb w) (the (dedupe_hash p))"
    and "fst (send_of E p w) = Inr (Some mid)" and "mid \<noteq> 0"
    and "orm_add_statement E = Some e"
  shows "(\<exists>r. fst (publish E pid w) = Inl r) \<and>
    dedupe_exists (wdb (snd (publish E pid w))) (the (dedupe_hash p)) \<and>
    (\<exists>q. get_post (wdb (snd (publish E pid w))) pid = Some q \<and> post_state q = Publish_failed \<and>
       published_message_id q = None)"
  using unrecorded_outcome [OF assms] assms(1) by (auto simp: publish_guard_Inr)

lemma fresh_send: "fst (send_of sample_env hashed_post fresh_world) = Inr (Some 7)"
  by code_simp

lemma fresh_facts:
  "truthy (dedupe_hash hashed_post)" "\<not> dedupe_exists (wdb fresh_world) (the (dedupe_hash hashed_post))"
  "(7 :: int) \<noteq> 0" "orm_add_statement sample_env = Some UnmappedInstanceError"
  by (code_simp, code_simp, simp, simp add: sample_env_def)

theorem publish_sent_but_unrecorded_witness:
  "\<exists>r q. fst (publish sample_env 9 fresh_world) = Inl r \<and>
     get_post (wdb (snd (publish sample_env 9 fresh_world))) 9 = Some q \<and> post_state q = Publish_failed"
  using publish_sent_but_unrecorded [OF fresh_guard fresh_channel fresh_facts(1,2) fresh_send fresh_facts(3,4)]
  by blast

text \<open>
  at most one delivery survives the lost bookkeeping: the next job for that post sends nothing
  and rejects it as a duplicate of itself.
\<close>

theorem publish_retry_after_unrecorded:
  assumes "publish_guard (wdb w) pid = Inr p" and "get_channel (wdb w) (source_channel_id p) = Some ch"
    and "truthy (dedupe_hash p)" and "\<not> dedupe_exists (wdb w) (the (dedupe_hash p))"
    and "fst (send_of E p w) = Inr (Some mid)" and "mid \<noteq> 0"
    and "orm_add_statement E = Some e"
    and w': "w' = snd (publish E pid w)"
  shows "fst (publish E pid w') = Inr (lit ''duplicate'') \<and> wcalls (snd (publish E pid w')) = wcalls w' \<and>
    (\<exists>q. get_post (wdb (snd (publish E pid w'))) pid = Some q \<and> post_state q = Rejected)"
proof -
  obtain u where f: "dedupe_exists (wdb w') (the (dedupe_hash p))"
      "get_post (wdb w') pid = Some (p\<lparr>post_state := Publish_failed, updated_at := u\<rparr>)"
    using unrecorded_outcome [OF assms(1-7)] by (auto simp: w')
  let ?q = "p\<lparr>post_state := Publish_failed, updated_at := u\<rparr>"
  have g: "publish_guard (wdb w') pid = Inr ?q"
    using f(2) assms(1) by (simp add: publish_guard_Inr SKIP_STATES_def)
  have c: "get_channel (wdb w') (source_channel_id ?q) = Some ch"
    using assms(2) by (simp add: w' publish_channels)
  have "truthy (dedupe_hash ?q)" "dedupe_exists (wdb w') (the (dedupe_hash ?q))"
    using assms(3) f(1) by simp_all
  from publish_duplicate_outcome [OF g c this] show ?thesis by blast
qed

theorem publish_retry_after_unrecorded_witness:
  "fst (publish sample_env 9 (snd (publish sample_env 9 fresh_world))) = Inr (lit ''duplicate'')"
  using publish_retry_after_unrecorded
    [OF fresh_guard fresh_channel fresh_facts(1,2) fresh_send fresh_facts(3,4) refl] by blast

lemma recorded_outcome:
  assumes "publish_guard (wdb w) pid = Inr p" and "get_channel (wdb w) (source_channel_id p) = Some ch"
    and "\<not> (truthy (dedupe_hash p) \<and> dedupe_exists (wdb w) (the (dedupe_hash p)))"
    and "send_of E p w = (Inr (Some mid), w3)" and "mid \<noteq> 0"
    and "truthy (dedupe_hash p) \<Longrightarrow> orm_add_statement E = None"
    and "truthy_int (draft_message_id p) \<Longrightarrow> (\<And>h c m. telegram E h c \<noteq> Broken m)"
  shows "fst (publish E pid w) = Inr (lit ''published'') \<and>
    (\<exists>q. get_post (wdb (snd (publish E pid w))) pid = Some q \<and> post_state q = Published \<and>
       published_message_id q = Some mid \<and> published_at q = Some (wclock w3)) \<and>
    wdb (snd (publish E pid w)) = snd (mark_published E (wclock w3) pid mid (dedupe_hash p) (wdb w3)) \<and>
    (truthy (dedupe_hash p) \<longrightarrow> dedupe_exists (wdb (snd (publish E pid w))) (the (dedupe_hash p)))"
proof -
  obtain u where q3: "get_post (wdb w3) pid = Some (p\<lparr>post_state := Publishing, updated_at := u\<rparr>)"
    using send_of_post [OF assms(1), of E] assms(4) by auto
  let ?q = "p\<lparr>post_state := Publishing, updated_at := u\<rparr>"
  obtain d' u' where m: "mark_published E (wclock w3) pid mid (dedupe_hash p) (wdb w3) = (Inr (), d')"
      "get_post d' pid = Some (?q\<lparr>post_state := Published, published_message_id := Some mid,
        published_at := Some (wclock w3), updated_at := u'\<rparr>)"
      "\<forall>k. dedupe_exists (wdb w3) k \<longrightarrow> dedupe_exists d' k"
    using mark_published_commits [OF q3] assms(6) by blast
  let ?p' = "?q\<lparr>post_state := Published, published_message_id := Some mid,
        published_at := Some (wclock w3), updated_at := u'\<rparr>"
  have card: "fst (edit_draft_card E ?p' ch (w3\<lparr>wdb := d'\<rparr>)) = Inr ()"
    by (rule edit_draft_card_ok) (use assms(7) in simp)
  have fin: "publish_finish E pid mid (dedupe_hash p) ch w3
      = (Inr (lit ''published''), snd (edit_draft_card E ?p' ch (w3\<lparr>wdb := d'\<rparr>)))"
    using m card by (simp add: publish_finish_def case_prod_beta)
  have core: "publish_core E pid w = (Inr (lit ''published''), snd (edit_draft_card E ?p' ch (w3\<lparr>wdb := d'\<rparr>)))"
    using publish_core_send [OF assms(1-3), of E] assms(4,5) fin by simp
  have "truthy (dedupe_hash p) \<Longrightarrow> dedupe_exists (wdb w3) (the (dedupe_hash p))"
    using reserved_exists [of p w] send_of_db [of E p w] assms(4) by simp
  with m show ?thesis by (simp add: publish_ok [OF core])
qed

text \<open>
  C9: the delivery of a post without a hash is recorded. Once its send has returned a message id, the job returns
  \<open>published\<close>; the post has the state, the message id and the time of the delivery; the event of the publication
  is the only new one and names the message; and the dedupe index is as before. What Telegram answers to the edit
  of the draft card makes no difference; only another exception than Telegram's would.
\<close>

theorem publish_records_success:
  assumes "publish_guard (wdb w) pid = Inr p" and "get_channel (wdb w) (source_channel_id p) = Some ch"
    and "\<not> truthy (dedupe_hash p)" and "send_of E p w = (Inr (Some mid), w3)" and "mid \<noteq> 0"
    and "truthy_int (draft_message_id p) \<Longrightarrow> (\<And>h c m. telegram E h c \<noteq> Broken m)"
  shows "fst (publish E pid w) = Inr (lit ''published'') \<and>
    (\<exists>q. get_post (wdb (snd (publish E pid w))) pid = Some q \<and> post_state q = Published \<and>
       published_message_id q = Some mid \<and> published_at q = Some (wclock w3)) \<and>
    (\<exists>e. post_events (wdb (snd (publish E pid w))) = post_events (wdb w) @ [e] \<and> event_post_id e = pid \<and>
       actor_admin_id e = None \<and> event_action e = Ev_published \<and> (''published_message_id'', JInt mid) \<in> set (event_payload e)) \<and>
    dedupe_rows (wdb (snd (publish E pid w))) = dedupe_rows (wdb w)"
proof -
  have free: "\<not> (truthy (dedupe_hash p) \<and> dedupe_exists (wdb w) (the (dedupe_hash p)))" using assms(3) by simp
  note out = recorded_outcome [OF assms(1,2) free assms(4,5) _ assms(6)]
  obtain u where q3: "get_post (wdb w3) pid = Some (p\<lparr>post_state := Publishing, updated_at := u\<rparr>)"
    using send_of_post [OF assms(1), of E] assms(4) by auto
  have "wdb w3 = claim_post (wclock w) p (wdb w)"
    using send_of_db [of E p w] assms(3,4) by (simp add: reserved_world_def reserve_dedupe_def)
  then have "post_events (wdb w3) = post_events (wdb w)" "dedupe_rows (wdb w3) = dedupe_rows (wdb w)" by simp_all
  then show ?thesis
    using out assms(3) q3 by (auto simp: mark_published_def Let_def add_event_def tadd_def)
qed

theorem publish_records_success_witness:
  "fst (publish sample_env 9 (sample_world [sample_post] [])) = Inr (lit ''published'')"
proof -
  let ?w = "sample_world [sample_post] []"
  have g: "publish_guard (wdb ?w) 9 = Inr sample_post" and c: "get_channel (wdb ?w) (source_channel_id sample_post) = Some sample_channel"
    and h: "\<not> truthy (dedupe_hash sample_post)" and s: "fst (send_of sample_env sample_post ?w) = Inr (Some 7)" by code_simp+
  have s': "send_of sample_env sample_post ?w = (Inr (Some 7), snd (send_of sample_env sample_post ?w))"
    using s by (metis prod.collapse)
  have d: "telegram sample_env hist call \<noteq> Broken m" for hist call m by (simp add: sample_env_def)
  from publish_records_success [OF g c h s' _ d] show ?thesis by simp
qed

text \<open>
  A send that fails halfway releases the reservation although something has reached the channel: the photo of a post
  whose text is too long for a caption goes out with each attempt.
\<close>

definition long_env :: env where
  "long_env = sample_env\<lparr>telegram := (\<lambda>h c. case c of Send_message n t k \<Rightarrow> Refused (lit ''x'') | _ \<Rightarrow> Delivered 7)\<rparr>"

definition long_post :: post where
  "long_post = hashed_post\<lparr>normalized_text := Some (replicate 1025 97), raw_media_refs := [photo_ref]\<rparr>"

definition long_world :: world where
  "long_world = (sample_world [long_post] [])\<lparr>wfiles := [(lit ''/media/9_0_photo.bin'', 0)]\<rparr>"

theorem partial_send_is_repeated:
  "length (filter (\<lambda>(c, r). call_chat c = Some (-100) \<and> is_delivered r)
     (wcalls (snd (publish long_env 9 (snd (publish long_env 9 long_world)))))) = 2 \<and>
   dedupe_rows (wdb (snd (publish long_env 9 (snd (publish long_env 9 long_world))))) = []"
  by code_simp

end
