(* ===== verification/PublishRun.thy ===== *)
theory PublishRun
  imports PublishRace PublishSpec
begin

text \<open>
  The publish job as a function and the publish job among others. A run of \<open>publish\<close> that nobody
  interrupts is one of the runs of the step relation, so what holds of every interleaving holds of it.
\<close>

section \<open>The clock\<close>

text \<open>Pauses are not negative: neither the configured spacing nor what flood control asks for.\<close>

definition patient :: "env \<Rightarrow> bool" where
  "patient E \<longleftrightarrow> 0 \<le> publish_spacing_seconds (cfg E) \<and> (\<forall>h c n. telegram E h c = Retry_after n \<longrightarrow> 0 \<le> n)"

text \<open>A call takes no time of its own, and asks for a wait that is not negative.\<close>

definition prompt :: "world \<Rightarrow> 'a result \<times> world \<Rightarrow> bool" where
  "prompt w r \<longleftrightarrow> wclock (snd r) = wclock w \<and> (\<forall>n. fst r = Inl (TelegramRetryAfter n) \<longrightarrow> 0 \<le> n)"

lemma prompt_Inr [simp]: "prompt w (Inr x, w') \<longleftrightarrow> wclock w' = wclock w"
  by (simp add: prompt_def)

lemma prompt_tg: "patient E \<Longrightarrow> prompt w (tg_do E c w)"
  by (auto simp: prompt_def tg_do_def patient_def Let_def split: tg_outcome.split)

lemma prompt_bind:
  assumes "prompt w r" and "\<And>m w1. r = (Inr m, w1) \<Longrightarrow> wclock w1 = wclock w \<Longrightarrow> prompt w (k m w1)"
  shows "prompt w (case r of (Inl e, w1) \<Rightarrow> (Inl e, w1) | (Inr m, w1) \<Rightarrow> k m w1)"
  using assms by (cases r; cases "fst r") (auto simp: prompt_def)

lemma prompt_later: "prompt w1 r \<Longrightarrow> wclock w1 = wclock w \<Longrightarrow> prompt w r"
  by (simp add: prompt_def)

lemma prompt_send_rest:
  assumes "patient E" shows "prompt w (send_rest E chat text cap extra mid w)"
  unfolding send_rest_def
  by (rule prompt_bind) (auto simp: prompt_tg [OF assms] intro!: prompt_bind prompt_later [OF prompt_tg [OF assms]])

lemma prompt_send_post:
  assumes "patient E" shows "prompt w (send_post E chat text refs w)"
proof -
  have plain: "prompt w (case tg_do E c w of (Inl e, w1) \<Rightarrow> (Inl e, w1) | (Inr m, w1) \<Rightarrow> (Inr (Some m), w1))" for c
    by (rule prompt_bind) (simp_all add: prompt_tg [OF assms])
  have media: "prompt w (case tg_do E c w of (Inl e, w1) \<Rightarrow> (Inl e, w1)
      | (Inr mid, w1) \<Rightarrow> send_rest E chat text (caption_of text) extra mid w1)" for c extra
    by (rule prompt_bind) (auto simp: prompt_tg [OF assms] intro: prompt_later [OF prompt_send_rest [OF assms]])
  show ?thesis by (auto simp: send_post_def Let_def plain media split: list.split)
qed

lemma send_spaced_clock:
  assumes "patient E" shows "wclock w \<le> wclock (snd (send_spaced E chat text refs w))"
proof -
  let ?w0 = "sleep (publish_spacing_seconds (cfg E)) w"
  obtain r w1 where s: "send_post E chat text refs ?w0 = (r, w1)" by fastforce
  have w1: "wclock w \<le> wclock w1" "r = Inl (TelegramRetryAfter n) \<Longrightarrow> 0 \<le> n" for n
    using prompt_send_post [OF assms, of ?w0 chat "text" refs] assms by (simp_all add: s prompt_def patient_def)
  show ?thesis
  proof (cases "\<exists>n. r = Inl (TelegramRetryAfter n)")
    case True
    then obtain n where n: "r = Inl (TelegramRetryAfter n)" by blast
    have "wclock (snd (send_post E chat text refs (sleep (seconds (n + 1)) w1))) = wclock w1 + seconds (n + 1)"
      using prompt_send_post [OF assms] by (simp add: prompt_def)
    then show ?thesis using w1(1) w1(2) [OF n] by (simp add: send_spaced_def s n seconds_def)
  next
    case False
    then show ?thesis using w1(1) by (auto simp: send_spaced_def s split: sum.split exn.split)
  qed
qed

lemma edit_draft_card_clock [simp]: "wclock (snd (edit_draft_card E p ch w)) = wclock w"
  by (auto simp: edit_draft_card_def tg_do_def Let_def split: prod.split tg_outcome.split)

lemma alert_failure_clock [simp]: "wclock (snd (alert_failure E p err w)) = wclock w"
  by (auto simp: alert_failure_def tg_do_def Let_def split: prod.split tg_outcome.split)

lemma on_publish_failure_clock [simp]: "wclock (snd (on_publish_failure E pid err w)) = wclock w"
  by (auto simp: on_publish_failure_def Let_def split: option.split)

section \<open>Calls to the editors\<close>

text \<open>A world after nothing but calls to the editor group.\<close>

definition card_calls :: "env \<Rightarrow> world \<Rightarrow> world \<Rightarrow> bool" where
  "card_calls E w w' \<longleftrightarrow> wjobs w' = wjobs w \<and>
     (\<exists>xs. wcalls w' = wcalls w @ xs \<and> list_all (\<lambda>x. call_chat (fst x) = Some (editor_group_id (cfg E))) xs)"

lemma card_calls_refl [simp]: "card_calls E w w"
  by (simp add: card_calls_def)

lemma card_calls_trans: "card_calls E w w1 \<Longrightarrow> card_calls E w1 w2 \<Longrightarrow> card_calls E w w2"
  by (fastforce simp: card_calls_def)

lemma card_calls_db [simp]: "card_calls E (w\<lparr>wdb := d\<rparr>) w' = card_calls E w w'" "card_calls E w (w'\<lparr>wdb := d\<rparr>) = card_calls E w w'"
  by (simp_all add: card_calls_def)

lemma card_calls_tg: "call_chat c = Some (editor_group_id (cfg E)) \<Longrightarrow> card_calls E w (snd (tg_do E c w))"
  by (simp add: card_calls_def tg_do_world)

lemma edit_draft_card_calls: "card_calls E w (snd (edit_draft_card E p ch w))"
proof -
  have "snd (edit_draft_card E p ch w) = w \<or> (\<exists>m text kb. snd (edit_draft_card E p ch w)
      = snd (tg_do E (Edit_message_text (editor_group_id (cfg E)) m text kb) w))"
    by (auto simp: edit_draft_card_def Let_def case_prod_beta split: sum.split)
  then show ?thesis using card_calls_tg by fastforce
qed

lemma alert_failure_calls: "card_calls E w (snd (alert_failure E p err w))"
proof -
  have "snd (alert_failure E p err w) = w \<or>
      (\<exists>text. snd (alert_failure E p err w) = snd (tg_do E (Send_message (editor_group_id (cfg E)) text None) w))"
    by (auto simp: alert_failure_def case_prod_beta split: sum.split)
  then show ?thesis using card_calls_tg by fastforce
qed

lemma publish_finish_calls: "card_calls E w (snd (publish_finish E pid mid h ch w))"
proof -
  obtain r d where m: "mark_published E (wclock w) pid mid h (wdb w) = (r, d)" by fastforce
  have "card_calls E w (snd (edit_draft_card E p ch (w\<lparr>wdb := d\<rparr>)))" for p
    using edit_draft_card_calls [of E "w\<lparr>wdb := d\<rparr>" p ch] by simp
  then show ?thesis by (simp add: publish_finish_def m Let_def case_prod_beta split: sum.split option.split)
qed

lemma on_publish_failure_calls: "card_calls E w (snd (on_publish_failure E pid err w))"
proof -
  have "card_calls E w (snd (alert_failure E p err (w\<lparr>wdb := d\<rparr>)))" for p d
    using alert_failure_calls [of E "w\<lparr>wdb := d\<rparr>" p err] by simp
  then show ?thesis by (simp add: on_publish_failure_def Let_def split: option.split)
qed

lemma publish_after_core: "card_calls E (snd (publish_core E pid w)) (snd (publish E pid w))"
  using on_publish_failure_calls by (auto simp: publish_def case_prod_beta split: sum.split)

section \<open>Runs of one job\<close>

text \<open>A step of the job, or the passing of time; nothing else happens.\<close>

definition own_step :: "env \<Rightarrow> nat \<Rightarrow> race \<Rightarrow> race \<Rightarrow> bool" where
  "own_step E j S S' \<longleftrightarrow> job_step E j S S' \<or> (\<exists>dt. 0 \<le> dt \<and> S' = S\<lparr>rclock := rclock S + dt\<rparr>)"

abbreviation own_run :: "env \<Rightarrow> nat \<Rightarrow> race \<Rightarrow> race \<Rightarrow> bool" where
  "own_run E j \<equiv> (own_step E j)\<^sup>*\<^sup>*"

lemma own_one: "job_step E j S S' \<Longrightarrow> own_run E j S S'"
  by (rule r_into_rtranclp) (simp add: own_step_def)

lemma chain: "own_run E j S0 S1 \<Longrightarrow> job_step E j S1 S2 \<Longrightarrow> own_run E j S0 S2"
  by (rule rtranclp.rtrancl_into_rtrancl) (auto simp: own_step_def)

lemma own_tick: "0 \<le> dt \<Longrightarrow> own_run E j (conf S j ph d t l) (conf S j ph d (t + dt) l)"
  by (rule r_into_rtranclp) (auto simp: own_step_def conf_updates intro!: exI [of _ dt])

text \<open>The messages that calls put into a chat, and how the log of the race has them.\<close>

definition messages_to :: "int \<Rightarrow> (tg_call \<times> tg_outcome) list \<Rightarrow> tg_call list" where
  "messages_to chat xs = map fst (filter (\<lambda>(c, r). call_chat c = Some chat \<and> is_send c \<and> is_delivered r) xs)"

definition entries :: "nat \<Rightarrow> post \<Rightarrow> time \<Rightarrow> tg_call list \<Rightarrow> (nat \<times> post \<times> time \<times> sent) list" where
  "entries j p t cs = map (\<lambda>c. (j, p, t, Message c)) cs"

lemma messages_to_append [simp]: "messages_to chat (xs @ ys) = messages_to chat xs @ messages_to chat ys" "messages_to chat [] = []"
  by (simp_all add: messages_to_def)

lemma entries_append [simp]: "entries j p t (cs @ ds) = entries j p t cs @ entries j p t ds" "entries j p t [] = []"
  by (simp_all add: entries_def)

lemma messages_delivered:
  assumes "length ns = length cs" and "\<And>c. c \<in> set cs \<Longrightarrow> call_chat c = Some chat \<and> is_send c"
  shows "messages_to chat (zip cs (map Delivered ns)) = cs"
  using assms by (induction ns cs rule: list_induct2) (simp_all add: messages_to_def is_delivered_def)

lemma messages_failed: "\<not> is_delivered r \<Longrightarrow> messages_to chat [(c, r)] = []"
  by (simp add: messages_to_def)

lemma messages_cards:
  assumes "card_calls E w w'" and "editor_group_id (cfg E) \<noteq> destination_channel_id (cfg E)"
  shows "\<exists>xs. wcalls w' = wcalls w @ xs \<and> messages_to (destination_channel_id (cfg E)) xs = []"
proof -
  obtain xs where "wcalls w' = wcalls w @ xs" "list_all (\<lambda>x. call_chat (fst x) = Some (editor_group_id (cfg E))) xs"
    using assms(1) by (auto simp: card_calls_def)
  then show ?thesis using assms(2) by (intro exI [of _ xs]) (auto simp: messages_to_def filter_empty_conv list_all_iff)
qed

text \<open>An attempt to send is a run of the calls of its plan.\<close>

lemma deliver_all: "own_run E j (conf S j (Sending p u (cs @ ds) b) d t l) (conf S j (Sending p u ds b) d t (l @ entries j p u cs))"
proof (induction cs arbitrary: l)
  case (Cons c cs)
  have "own_run E j (conf S j (Sending p u (c # cs @ ds) b) d t l)
      (conf S j (Sending p u (cs @ ds) b) d t (l @ [(j, p, u, Message c)]))"
    by (rule own_one) (rule conf_steps(9))
  from rtranclp_trans [OF this Cons.IH] show ?case by (simp add: entries_def)
qed simp

lemma attempt_run:
  fixes E j S p u b l
  defines "send \<equiv> send_post E (destination_channel_id (cfg E)) (publish_text p) (raw_media_refs p)"
  obtains cs xs where "wcalls (snd (send w)) = wcalls w @ xs" "messages_to (destination_channel_id (cfg E)) xs = cs"
    "wdb (snd (send w)) = wdb w" "wclock (snd (send w)) = wclock w"
    "own_run E j (conf S j (Sending p u (plan_of E (file_exists w) p) b) (wdb w) (wclock w) l)
       (conf S j (Sending p u (case fst (send w) of Inl e \<Rightarrow> drop (length cs) (plan_of E (file_exists w) p) | Inr r \<Rightarrow> []) b)
          (wdb w) (wclock w) (l @ entries j p u cs))"
    "isl (fst (send w)) \<Longrightarrow> drop (length cs) (plan_of E (file_exists w) p) \<noteq> []"
proof -
  let ?chat = "destination_channel_id (cfg E)" and ?plan = "plan_of E (file_exists w) p"
  have ok: "c \<in> set ?plan \<Longrightarrow> call_chat c = Some ?chat \<and> is_send c" for c
    unfolding plan_of_def by (rule send_plan_calls)
  have runs: "send w = (case run_calls E ?plan w of (Inl e, w1) \<Rightarrow> (Inl e, w1) | (Inr ns, w1) \<Rightarrow> (Inr (Some (hd ns)), w1))"
    by (simp add: send_def send_post_runs plan_of_def)
  obtain x w1 where r: "run_calls E ?plan w = (x, w1)" by fastforce
  show thesis
  proof (cases x)
    case (Inl e)
    then obtain as c bs ns out where i: "?plan = as @ c # bs" "length ns = length as" "\<not> is_delivered out"
       "w1 = w\<lparr>wcalls := wcalls w @ zip as (map Delivered ns) @ [(c, out)]\<rparr>"
      using run_calls_log [where E = E and cs = ?plan and w = w] r by auto
    have m: "messages_to ?chat (zip as (map Delivered ns) @ [(c, out)]) = as"
      using messages_delivered [OF i(2), of ?chat] ok i(1,3) by (simp add: messages_failed)
    have s: "send w = (Inl e, w1)" by (simp add: runs r Inl)
    show ?thesis
      by (rule that [of "zip as (map Delivered ns) @ [(c, out)]" as])
        (use m deliver_all [of E j S p u as "c # bs" b "wdb w" "wclock w" l] in \<open>simp_all add: s i(1,4)\<close>)
  next
    case (Inr ns)
    then have i: "length ns = length ?plan" "w1 = w\<lparr>wcalls := wcalls w @ zip ?plan (map Delivered ns)\<rparr>"
      using run_calls_log [where E = E and cs = ?plan and w = w] r by auto
    have m: "messages_to ?chat (zip ?plan (map Delivered ns)) = ?plan"
      by (rule messages_delivered [OF i(1)]) (rule ok)
    have s: "send w = (Inr (Some (hd ns)), w1)" by (simp add: runs r Inr)
    show ?thesis
      by (rule that [of "zip ?plan (map Delivered ns)" ?plan])
        (use m deliver_all [of E j S p u ?plan "[]" b "wdb w" "wclock w" l] in \<open>simp_all add: s i(2)\<close>)
  qed
qed

text \<open>The spaced send: a pause, an attempt, and after flood control a second one.\<close>

lemma spaced_run:
  fixes E p
  defines "send \<equiv> send_spaced E (destination_channel_id (cfg E)) (publish_text p) (raw_media_refs p)"
  assumes "patient E"
  obtains cs xs rest b where "wcalls (snd (send w)) = wcalls w @ xs" "messages_to (destination_channel_id (cfg E)) xs = cs"
    "own_run E j (conf S j (Holding p u) (wdb w) (wclock w) l)
       (conf S j (Sending p u rest b) (wdb (snd (send w))) (wclock (snd (send w))) (l @ entries j p u cs))"
    "isl (fst (send w)) \<or> rest = []"
proof -
  let ?chat = "destination_channel_id (cfg E)" and ?s = "publish_spacing_seconds (cfg E)"
  let ?post = "send_post E ?chat (publish_text p) (raw_media_refs p)"
  let ?w0 = "sleep ?s w"
  obtain r w1 where a: "?post ?w0 = (r, w1)" by fastforce
  have pause: "own_run E j (conf S j (Holding p u) (wdb w) (wclock w) l) (conf S j (Holding p u) (wdb w) (wclock w + ?s) l)"
    by (rule own_tick) (use assms(2) in \<open>simp add: patient_def\<close>)
  obtain cs xs where one: "wcalls w1 = wcalls w @ xs" "messages_to ?chat xs = cs" "wdb w1 = wdb w" "wclock w1 = wclock w + ?s"
    "own_run E j (conf S j (Sending p u (plan_of E (file_exists ?w0) p) True) (wdb w) (wclock w + ?s) l)
       (conf S j (Sending p u (case r of Inl e \<Rightarrow> drop (length cs) (plan_of E (file_exists ?w0) p) | Inr x \<Rightarrow> []) True)
          (wdb w) (wclock w + ?s) (l @ entries j p u cs))"
    "isl r \<Longrightarrow> drop (length cs) (plan_of E (file_exists ?w0) p) \<noteq> []"
    by (rule attempt_run [of E p ?w0 j S u True l]) (use a in simp_all)
  let ?rest = "case r of Inl e \<Rightarrow> drop (length cs) (plan_of E (file_exists ?w0) p) | Inr x \<Rightarrow> []"
  have first: "own_run E j (conf S j (Holding p u) (wdb w) (wclock w) l)
       (conf S j (Sending p u ?rest True) (wdb w) (wclock w1) (l @ entries j p u cs))"
    using rtranclp_trans [OF chain [OF pause conf_steps(8)] one(5)] by (simp add: one(4))
  show thesis
  proof (cases "\<exists>n. r = Inl (TelegramRetryAfter n)")
    case False
    then have "send w = (r, w1)" by (auto simp: send_def send_spaced_def a split: sum.split exn.split)
    then show ?thesis
      by (intro that [of xs cs ?rest True]) (use one(1-3) first in \<open>auto split: sum.split\<close>)
  next
    case True
    then obtain n where n: "r = Inl (TelegramRetryAfter n)" ..
    let ?w2 = "sleep (seconds (n + 1)) w1"
    have "0 \<le> n" using prompt_send_post [OF assms(2), of ?w0 ?chat "publish_text p" "raw_media_refs p"] by (simp add: a n prompt_def)
    then have wait: "0 \<le> seconds (n + 1)" by (simp add: seconds_def)
    obtain c ds where rest: "?rest = c # ds" using one(6) by (cases ?rest) (simp_all add: n)
    let ?l = "l @ entries j p u cs"
    have flood: "own_run E j (conf S j (Holding p u) (wdb w) (wclock w) l)
        (conf S j (Sending p u (plan_of E (file_exists ?w2) p) False) (wdb w) (wclock w1 + seconds (n + 1)) ?l)"
      by (rule rtranclp_trans [OF chain [OF first [unfolded rest] conf_steps(10)] own_tick [OF wait]])
    have send: "send w = ?post ?w2" by (simp add: send_def send_spaced_def a n)
    obtain cs' xs' where two: "wcalls (snd (send w)) = wcalls w1 @ xs'" "messages_to ?chat xs' = cs'" "wdb (snd (send w)) = wdb w"
      "wclock (snd (send w)) = wclock w1 + seconds (n + 1)"
      "own_run E j (conf S j (Sending p u (plan_of E (file_exists ?w2) p) False) (wdb w) (wclock w1 + seconds (n + 1)) ?l)
         (conf S j (Sending p u (case fst (send w) of Inl e \<Rightarrow> drop (length cs') (plan_of E (file_exists ?w2) p) | Inr x \<Rightarrow> []) False)
            (wdb w) (wclock w1 + seconds (n + 1)) (?l @ entries j p u cs'))"
      by (rule attempt_run [of E p ?w2 j S u False ?l]) (use one(3) in \<open>simp_all add: send\<close>)
    show ?thesis
      by (rule that [of "xs @ xs'" "cs @ cs'" "case fst (send w) of Inl e \<Rightarrow> drop (length cs') (plan_of E (file_exists ?w2) p) | Inr x \<Rightarrow> []" False])
        (use one(1,2) two(1-4) rtranclp_trans [OF flood two(5)] in \<open>auto split: sum.split\<close>)
  qed
qed

text \<open>
  What a run of the body leaves the job to do, and what it logged: the messages it put into the destination channel,
  under the reservation of the instant at which it began, and whether its send returned.
\<close>

definition rest_of :: "int \<Rightarrow> pystr result \<Rightarrow> phase" where
  "rest_of pid r = (case r of Inl e \<Rightarrow> Failing pid (exn_text e) | Inr v \<Rightarrow> Finished)"

definition logged :: "env \<Rightarrow> nat \<Rightarrow> int \<Rightarrow> world \<Rightarrow> world \<Rightarrow> bool \<Rightarrow> (nat \<times> post \<times> time \<times> sent) list \<Rightarrow> bool" where
  "logged E j pid w w' published xs \<longleftrightarrow>
     (\<exists>cs. wcalls w' = wcalls w @ cs \<and>
       (xs = [] \<and> messages_to (destination_channel_id (cfg E)) cs = [] \<and> \<not> published \<or>
        (\<exists>p. publish_guard (wdb w) pid = Inr p \<and>
          (xs = entries j p (wclock w) (messages_to (destination_channel_id (cfg E)) cs) \<and> \<not> published \<or>
           (\<exists>mid. xs = entries j p (wclock w) (messages_to (destination_channel_id (cfg E)) cs) @ [(j, p, wclock w, Complete mid)])))))"

definition mirrors :: "env \<Rightarrow> race \<Rightarrow> nat \<Rightarrow> int \<Rightarrow> world \<Rightarrow> (nat \<times> post \<times> time \<times> sent) list \<Rightarrow> pystr result \<times> world \<Rightarrow> bool" where
  "mirrors E S j pid w l rw \<longleftrightarrow>
     (\<exists>xs. own_run E j (conf S j (Queued pid) (wdb w) (wclock w) l)
        (conf S j (rest_of pid (fst rw)) (wdb (snd rw)) (wclock (snd rw)) (l @ xs)) \<and>
      logged E j pid w (snd rw) (fst rw = Inr (lit ''published'')) xs)"

lemma finish_run:
  assumes "post_id p = pid"
  shows "own_run E j (conf S j (Sent p mid) (wdb w) (wclock w) l)
    (conf S j (rest_of pid (fst (publish_finish E pid mid (dedupe_hash p) ch w)))
       (wdb (snd (publish_finish E pid mid (dedupe_hash p) ch w)))
       (wclock (snd (publish_finish E pid mid (dedupe_hash p) ch w))) l)"
proof -
  obtain r d where m: "mark_published E (wclock w) pid mid (dedupe_hash p) (wdb w) = (r, d)" by fastforce
  show ?thesis
  proof (cases r)
    case (Inl e)
    then show ?thesis
      using own_one [OF conf_steps(14) [where p = p and d = "wdb w" and t = "wclock w"]] m assms
      by (simp add: publish_finish_def rest_of_def)
  next
    case (Inr u)
    have done': "own_run E j (conf S j (Sent p mid) (wdb w) (wclock w) l) (conf S j Finished d (wclock w) l)"
      by (rule own_one [OF conf_steps(13)]) (use m Inr assms in simp)
    have card: "own_run E j (conf S j (Sent p mid) (wdb w) (wclock w) l) (conf S j (Failing pid err) d (wclock w) l)" for err
      using own_one [OF conf_steps(15) [where p = p and d = "wdb w" and t = "wclock w"]] m Inr assms by simp
    show ?thesis
    proof (cases "get_post d pid")
      case None
      then show ?thesis using done' m Inr by (simp add: publish_finish_def rest_of_def Let_def)
    next
      case (Some q)
      obtain r2 w2 where k: "edit_draft_card E q ch (w\<lparr>wdb := d\<rparr>) = (r2, w2)" by fastforce
      have "wdb w2 = d" "wclock w2 = wclock w"
        using edit_draft_card_db [of E q ch "w\<lparr>wdb := d\<rparr>"] edit_draft_card_clock [of E q ch "w\<lparr>wdb := d\<rparr>"] k by simp_all
      then show ?thesis using done' card m Inr Some k
        by (cases r2) (simp_all add: publish_finish_def rest_of_def Let_def)
    qed
  qed
qed

text \<open>From the queue to the claim, and to the reservation.\<close>

lemma claim_run:
  assumes "publish_guard d pid = Inr p"
  shows "own_run E j (conf S j (Queued pid) d t l) (conf S j (Claimed p) (claim_post t p d) t l)"
proof -
  have g: "get_post d (post_id p) = Some p" using assms tget_key by (fastforce simp: publish_guard_Inr)
  show ?thesis by (rule chain [OF own_one [OF conf_steps(2) [OF assms]] conf_steps(3) [OF g]])
qed

lemma hold_run:
  assumes "publish_guard (wdb w) pid = Inr p" and "\<not> (truthy (dedupe_hash p) \<and> dedupe_exists (wdb w) (the (dedupe_hash p)))"
  shows "own_run E j (conf S j (Queued pid) (wdb w) (wclock w) l)
    (conf S j (Holding p (wclock w)) (wdb (reserved_world w p)) (wclock w) l)"
proof -
  let ?d = "claim_post (wclock w) p (wdb w)"
  have ex: "dedupe_exists ?d = dedupe_exists (wdb w)" by (rule dedupe_exists_cong) simp
  have won: "reserve_dedupe (wclock w) (dedupe_hash p) ?d = (True, wdb (reserved_world w p))"
    using assms(2) ex by (auto simp: reserve_dedupe_def reserved_world_def)
  show ?thesis
    by (rule chain [OF chain [OF claim_run [OF assms(1)] conf_steps(5)] conf_steps(7) [OF won]]) (use assms(2) ex in simp)
qed

lemma mirrors_quiet:
  assumes "own_run E j (conf S j (Queued pid) (wdb w) (wclock w) l) (conf S j (rest_of pid r) (wdb w') (wclock w') l)"
    and "r \<noteq> Inr (lit ''published'')" and "wcalls w' = wcalls w"
  shows "mirrors E S j pid w l (r, w')"
  unfolding mirrors_def by (rule exI [of _ "[]"]) (use assms in \<open>simp add: logged_def\<close>)

lemma publish_core_run:
  assumes "patient E" and "editor_group_id (cfg E) \<noteq> destination_channel_id (cfg E)"
  shows "mirrors E S j pid w l (publish_core E pid w)"
proof (cases "publish_guard (wdb w) pid")
  case (Inl r)
  then have "r \<noteq> lit ''published''"
    by (auto simp: publish_guard_def lit_def split: option.splits if_splits)
  then show ?thesis
    unfolding publish_core_skip [OF Inl]
    by (intro mirrors_quiet) (simp_all add: rest_of_def own_one [OF conf_steps(1) [OF Inl]])
next
  case (Inr p)
  let ?d = "claim_post (wclock w) p (wdb w)"
  have pid: "post_id p = pid" using Inr tget_key by (fastforce simp: publish_guard_Inr)
  show ?thesis
  proof (cases "get_channel (wdb w) (source_channel_id p)")
    case None
    then have "get_channel ?d (source_channel_id p) = None" by simp
    from chain [OF claim_run [OF Inr] conf_steps(4) [OF this]]
    show ?thesis unfolding publish_core_no_channel [OF Inr None]
      by (intro mirrors_quiet) (simp_all add: rest_of_def lit_def)
  next
    case (Some ch)
    show ?thesis
    proof (cases "truthy (dedupe_hash p) \<and> dedupe_exists (wdb w) (the (dedupe_hash p))")
      case True
      then have t: "truthy (dedupe_hash p)" "dedupe_exists ?d (the (dedupe_hash p))"
        using dedupe_exists_cong [of ?d "wdb w"] by simp_all
      from chain [OF claim_run [OF Inr] conf_steps(6) [OF t]]
      show ?thesis unfolding publish_core_dup [OF Inr Some conjunct1 [OF True] conjunct2 [OF True]]
        by (intro mirrors_quiet) (simp_all add: rest_of_def lit_def pid)
    next
      case False
      let ?w2 = "reserved_world w p" and ?chat = "destination_channel_id (cfg E)"
      obtain r w3 where s: "send_of E p w = (r, w3)" by fastforce
      obtain cs xs rest b where sent: "wcalls w3 = wcalls w @ xs" "messages_to ?chat xs = cs"
        "own_run E j (conf S j (Holding p (wclock w)) (wdb ?w2) (wclock w) l)
           (conf S j (Sending p (wclock w) rest b) (wdb w3) (wclock w3) (l @ entries j p (wclock w) cs))"
        "isl r \<or> rest = []"
        by (rule spaced_run [OF assms(1), of p ?w2 j S "wclock w" l]) (use s in \<open>simp_all add: reserved_world_def\<close>)
      note run = rtranclp_trans [OF hold_run [OF Inr False] sent(3)]
      show ?thesis
      proof (cases "\<exists>mid. r = Inr mid \<and> truthy_int mid")
        case True
        then obtain mid where mid: "r = Inr mid" "truthy_int mid" by blast
        let ?f = "publish_finish E pid (the mid) (dedupe_hash p) ch w3"
        have core: "publish_core E pid w = ?f"
          using publish_core_send [OF Inr Some False, of E] mid by (simp add: s)
        have r: "rest = []" using sent(4) mid(1) by simp
        have "own_run E j (conf S j (Queued pid) (wdb w) (wclock w) l)
            (conf S j (Sent p (the mid)) (wdb w3) (wclock w3) (l @ entries j p (wclock w) cs @ [(j, p, wclock w, Complete (the mid))]))"
          using chain [OF run [unfolded r] conf_steps(11)] by simp
        from rtranclp_trans [OF this finish_run [OF pid]]
        have all: "own_run E j (conf S j (Queued pid) (wdb w) (wclock w) l)
            (conf S j (rest_of pid (fst ?f)) (wdb (snd ?f)) (wclock (snd ?f))
               (l @ entries j p (wclock w) cs @ [(j, p, wclock w, Complete (the mid))]))" .
        obtain ys where ys: "wcalls (snd ?f) = wcalls w3 @ ys" "messages_to ?chat ys = []"
          using messages_cards [OF publish_finish_calls assms(2)] by blast
        have "logged E j pid w (snd ?f) published (entries j p (wclock w) cs @ [(j, p, wclock w, Complete (the mid))])" for published
          unfolding logged_def by (rule exI [of _ "xs @ ys"]) (use sent(1,2) ys Inr in simp)
        then show ?thesis unfolding core mirrors_def using all by blast
      next
        case no: False
        have "\<exists>e. publish_core E pid w = (Inl e, w3\<lparr>wdb := release_dedupe (dedupe_hash p) (wdb w3)\<rparr>)"
          using publish_core_send [OF Inr Some False, of E] no by (cases r) (auto simp: s)
        then obtain e where e: "publish_core E pid w = (Inl e, w3\<lparr>wdb := release_dedupe (dedupe_hash p) (wdb w3)\<rparr>)" ..
        have "logged E j pid w w3 False (entries j p (wclock w) cs)"
          unfolding logged_def by (rule exI [of _ xs]) (use sent(1,2) Inr in simp)
        moreover have "own_run E j (conf S j (Queued pid) (wdb w) (wclock w) l)
            (conf S j (Failing pid err) (release_dedupe (dedupe_hash p) (wdb w3)) (wclock w3) (l @ entries j p (wclock w) cs))" for err
          using chain [OF run conf_steps(12)] by (simp add: pid)
        ultimately show ?thesis unfolding e mirrors_def by (auto simp: rest_of_def logged_def)
      qed
    qed
  qed
qed

section \<open>Refinement\<close>

text \<open>
  C14: the publish job implements the step relation. When pauses are not negative and the editors have a chat of their
  own, a run of \<open>publish\<close> in one go is a run of the queued job in the race, by steps of this job and the
  passing of time alone: it ends with the same store and clock, with the other jobs where they were, and the log has
  gained exactly the messages that the run put into the destination channel, in their order, each for the post
  that the guard let through and under a reservation of the instant at which the run began. They are the calls of the
  post's plan, in its order, started over once at most, for the relation has no other deliveries. After a run that returns
  published the log ends with the entry of a complete send.
\<close>

theorem publish_refines_race:
  assumes "patient E" and "editor_group_id (cfg E) \<noteq> destination_channel_id (cfg E)"
    and "rjobs S j = Queued pid" and "rdb S = wdb w" and "rclock S = wclock w"
  shows "\<exists>S' cs. (own_step E j)\<^sup>*\<^sup>* S S' \<and> rdb S' = wdb (snd (publish E pid w)) \<and>
      rclock S' = wclock (snd (publish E pid w)) \<and> rjobs S' = (rjobs S)(j := Finished) \<and>
      wcalls (snd (publish E pid w)) = wcalls w @ cs \<and>
      (rlog S' = rlog S \<and> messages_to (destination_channel_id (cfg E)) cs = [] \<and> fst (publish E pid w) \<noteq> Inr (lit ''published'') \<or>
       (\<exists>p tail. publish_guard (wdb w) pid = Inr p \<and>
          rlog S' = rlog S @ map (\<lambda>c. (j, p, wclock w, Message c)) (messages_to (destination_channel_id (cfg E)) cs) @ tail \<and>
          (tail = [] \<and> fst (publish E pid w) \<noteq> Inr (lit ''published'') \<or> (\<exists>mid. tail = [(j, p, wclock w, Complete mid)]))))"
proof -
  obtain r w1 where core: "publish_core E pid w = (r, w1)" by fastforce
  have start: "conf S j (Queued pid) (wdb w) (wclock w) (rlog S) = S" using conf_self [OF assms(3)] assms(4,5) by simp
  obtain xs where run: "own_run E j S (conf S j (rest_of pid r) (wdb w1) (wclock w1) (rlog S @ xs))"
    and xs: "logged E j pid w w1 (r = Inr (lit ''published'')) xs"
    using publish_core_run [OF assms(1,2), of S j pid w "rlog S"] unfolding core mirrors_def start by auto
  let ?w' = "snd (publish E pid w)"
  define S' where "S' = conf S j Finished (wdb ?w') (wclock ?w') (rlog S @ xs)"
  have "own_run E j S S'"
  proof (cases r)
    case (Inl e)
    obtain r2 w2 where f: "on_publish_failure E pid (exn_text e) w1 = (r2, w2)" by fastforce
    have "wclock w2 = wclock w1" using on_publish_failure_clock [of E pid "exn_text e" w1] f by simp
    then show ?thesis
      using chain [OF run [unfolded Inl rest_of_def sum.case] conf_steps(16) [OF refl refl]] f core Inl
      by (cases r2) (simp_all add: S'_def publish_def)
  next
    case (Inr v)
    then show ?thesis using run core by (simp add: S'_def publish_def rest_of_def)
  qed
  moreover have "rjobs S' = (rjobs S)(j := Finished)" by (auto simp: S'_def)
  moreover have same: "fst (publish E pid w) = Inr (lit ''published'') \<Longrightarrow> r = Inr (lit ''published'')"
    by (cases r) (auto simp: publish_def core split: prod.splits sum.splits)
  moreover obtain ys where ys: "wcalls ?w' = wcalls w1 @ ys" "messages_to (destination_channel_id (cfg E)) ys = []"
    using messages_cards [OF publish_after_core [of E pid w] assms(2)] by (auto simp: core)
  moreover obtain cs where cs: "wcalls w1 = wcalls w @ cs"
    "xs = [] \<and> messages_to (destination_channel_id (cfg E)) cs = [] \<and> r \<noteq> Inr (lit ''published'') \<or>
     (\<exists>p tail. publish_guard (wdb w) pid = Inr p \<and> xs = entries j p (wclock w) (messages_to (destination_channel_id (cfg E)) cs) @ tail \<and>
        (tail = [] \<and> r \<noteq> Inr (lit ''published'') \<or> (\<exists>mid. tail = [(j, p, wclock w, Complete mid)])))"
    using xs by (auto simp: logged_def)
  ultimately show ?thesis
    by (intro exI [of _ S'] exI [of _ "cs @ ys"]) (auto simp: S'_def entries_def)
qed

theorem publish_refines_race_witness:
  "\<exists>S'. (own_step sample_env 0)\<^sup>*\<^sup>* ((idle [sample_post])\<lparr>rclock := days 1000, rjobs := (\<lambda>j. Queued 9)\<rparr>) S' \<and>
     (\<exists>mid. rlog S' = [(0, sample_post, days 1000, Message (Send_message (-100) (lit ''hi'') None)), (0, sample_post, days 1000, Complete mid)])"
proof -
  let ?w = "sample_world [sample_post] []" and ?S = "(idle [sample_post])\<lparr>rclock := days 1000, rjobs := (\<lambda>j. Queued 9)\<rparr>"
  have p: "patient sample_env" by (simp add: patient_def sample_defs seconds_def)
  have ids: "editor_group_id (cfg sample_env) \<noteq> destination_channel_id (cfg sample_env)" "destination_channel_id (cfg sample_env) = -100"
    by code_simp+
  have r: "fst (publish sample_env 9 ?w) = Inr (lit ''published'')"
    "wcalls (snd (publish sample_env 9 ?w)) = [(Send_message (-100) (lit ''hi'') None, Delivered 7)]"
    "publish_guard (wdb ?w) 9 = Inr sample_post" by code_simp+
  have w: "wcalls ?w = []" "wclock ?w = days 1000" by (simp_all add: sample_world_def)
  have m: "messages_to (-100) [(Send_message (-100) (lit ''hi'') None, Delivered 7)] = [Send_message (-100) (lit ''hi'') None]"
    by (simp add: messages_to_def is_delivered_def)
  have S: "rjobs ?S 0 = Queued 9" "rdb ?S = wdb ?w" "rclock ?S = wclock ?w" "rlog ?S = []" by (simp_all add: idle_def sample_world_def)
  from publish_refines_race [OF p ids(1) S(1-3)] show ?thesis
    by (auto simp: ids(2) r w m S(4))
qed

end
