(* ===== verification/QueueApi.thy ===== *)
theory QueueApi
  imports Publisher
begin

text \<open>
  The draft-queue endpoints of \<open>api/routers/queue.py\<close>: list, get, edit tags, and the three
  decisions. A request that raises an HTTP error has not committed anything.
\<close>

record post_decision =
  pd_action :: pystr
  pd_tag_ids :: "int list option"
  pd_scheduled_for :: "py_datetime option"

definition ints :: "int list \<Rightarrow> json" where
  "ints xs = JList (map JInt xs)"

definition find_post :: "db \<Rightarrow> int \<Rightarrow> post result" where
  "find_post d pid = (case get_post d pid of
      None \<Rightarrow> Inl (HTTPException 404 (lit ''post not found''))
    | Some p \<Rightarrow> Inr p)"

definition get_queue_post :: "db \<Rightarrow> int \<Rightarrow> post result" where
  "get_queue_post d pid = find_post d pid"

text \<open>The row as \<open>session.refresh\<close> reads it back.\<close>

definition refreshed :: "int \<Rightarrow> post \<Rightarrow> world \<Rightarrow> post" where
  "refreshed pid p w = (case get_post (wdb w) pid of None \<Rightarrow> p | Some q \<Rightarrow> q)"

record page =
  pg_items :: "post list"
  pg_total :: int
  pg_limit :: int
  pg_offset :: int

text \<open>A negative limit or offset passes the query validation and is refused by Postgres.\<close>

definition paginate :: "int \<Rightarrow> int \<Rightarrow> int \<Rightarrow> 'a list \<Rightarrow> 'a list result" where
  "paginate max_limit limit offset rows =
     (if limit > max_limit then Inl (HTTPException 422 (lit ''limit''))
      else if limit < 0 \<or> offset < 0 then Inl (OtherError (lit ''LIMIT/OFFSET must not be negative''))
      else Inr (take (nat limit) (drop (nat offset) rows)))"

definition list_queue :: "post_state list option \<Rightarrow> int \<Rightarrow> int \<Rightarrow> db \<Rightarrow> page result" where
  "list_queue states limit offset d =
     (let sel = (case states of None \<Rightarrow> posts d | Some ss \<Rightarrow>
                   if ss = [] then posts d else filter (\<lambda>p. post_state p \<in> set ss) (posts d))
      in case paginate 200 limit offset (sort_key (\<lambda>p. - received_at p) sel) of
           Inl e \<Rightarrow> Inl e
         | Inr items \<Rightarrow> Inr \<lparr>pg_items = items, pg_total = int (length sel), pg_limit = limit, pg_offset = offset\<rparr>)"

definition edit_tags :: "int \<Rightarrow> int list \<Rightarrow> admin \<Rightarrow> post eff" where
  "edit_tags pid ids actor w =
     (case find_post (wdb w) pid of
        Inl e \<Rightarrow> (Inl e, w)
      | Inr p \<Rightarrow>
          let p1 = p\<lparr>tag_ids := ids\<rparr>;
              w1 = w\<lparr>wdb := add_event (wclock w) pid (Some (admin_id actor)) Ev_edited
                      [(''tag_ids'', ints ids)] (save_post (wclock w) p1 (wdb w))\<rparr>
          in (Inr (refreshed pid p1 w1), w1))"

text \<open>Committing a decision: the changed row and its audit event.\<close>

definition commit_decision :: "admin \<Rightarrow> post \<Rightarrow> event_action \<Rightarrow> payload \<Rightarrow> world \<Rightarrow> world" where
  "commit_decision actor p act pl w =
     w\<lparr>wdb := add_event (wclock w) (post_id p) (Some (admin_id actor)) act pl
                (save_post (wclock w) p (wdb w))\<rparr>"

text \<open>The tags a decision carries, if any, replace those of the post.\<close>

definition with_tags :: "int list option \<Rightarrow> post \<Rightarrow> post" where
  "with_tags ids p = (case ids of None \<Rightarrow> p | Some xs \<Rightarrow> p\<lparr>tag_ids := xs\<rparr>)"

definition decide_core :: "env \<Rightarrow> int \<Rightarrow> post_decision \<Rightarrow> admin \<Rightarrow> post eff" where
  "decide_core E pid dec actor w =
     (case find_post (wdb w) pid of
        Inl e \<Rightarrow> (Inl e, w)
      | Inr post \<Rightarrow>
          let p = with_tags (pd_tag_ids dec) post
          in if pd_action dec = lit ''approve'' then
               let p1 = p\<lparr>post_state := Approved, scheduled_for := None\<rparr>;
                   w1 = commit_decision actor p1 Ev_approved [(''tag_ids'', ints (tag_ids p1))] w
               in (case enqueue_publish E (post_id p1) None w1 of
                     (Inl e, w2) \<Rightarrow> (Inl e, w2)
                   | (Inr u, w2) \<Rightarrow> (Inr (refreshed pid p1 w2), w2))
             else if pd_action dec = lit ''schedule'' then
               (case pd_scheduled_for dec of
                  None \<Rightarrow> (Inl (HTTPException 400 (lit ''scheduled_for is required'')), w)
                | Some t \<Rightarrow>
                    (case le_now t (wclock w) of
                       Inl e \<Rightarrow> (Inl e, w)
                     | Inr past \<Rightarrow>
                         if past then (Inl (HTTPException 400 (lit ''scheduled_for must be in the future'')), w)
                         else
                           let at = the (dt_utc t);
                               p1 = p\<lparr>post_state := Scheduled, scheduled_for := Some at\<rparr>;
                               w1 = commit_decision actor p1 Ev_scheduled
                                      [(''tag_ids'', ints (tag_ids p1)), (''scheduled_for'', JStr (isoformat t))] w
                           in (case enqueue_publish E (post_id p1) (Some (at - wclock w)) w1 of
                                 (Inl e, w2) \<Rightarrow> (Inl e, w2)
                               | (Inr u, w2) \<Rightarrow> (Inr (refreshed pid p1 w2), w2))))
             else if pd_action dec = lit ''reject'' then
               let p1 = p\<lparr>post_state := Rejected\<rparr>;
                   w1 = commit_decision actor p1 Ev_rejected [(''tag_ids'', ints (tag_ids p1))] w
               in (Inr (refreshed pid p1 w1), w1)
             else (Inl (HTTPException 400 (lit ''action must be approve|schedule|reject'')), w))"

definition decide :: "env \<Rightarrow> int \<Rightarrow> post_decision \<Rightarrow> admin \<Rightarrow> post eff" where
  "decide E pid dec actor = decide_core E pid dec actor"

definition approve :: "env \<Rightarrow> int \<Rightarrow> int list option \<Rightarrow> admin \<Rightarrow> post eff" where
  "approve E pid ids actor =
     decide_core E pid \<lparr>pd_action = lit ''approve'', pd_tag_ids = ids, pd_scheduled_for = None\<rparr> actor"

definition schedule :: "env \<Rightarrow> int \<Rightarrow> py_datetime \<Rightarrow> admin \<Rightarrow> post eff" where
  "schedule E pid t actor =
     decide_core E pid \<lparr>pd_action = lit ''schedule'', pd_tag_ids = None, pd_scheduled_for = Some t\<rparr> actor"

definition reject :: "env \<Rightarrow> int \<Rightarrow> admin \<Rightarrow> post eff" where
  "reject E pid actor =
     decide_core E pid \<lparr>pd_action = lit ''reject'', pd_tag_ids = None, pd_scheduled_for = None\<rparr> actor"

section \<open>Facts\<close>

lemma find_post_Inr [simp]: "find_post d pid = Inr p \<longleftrightarrow> get_post d pid = Some p"
  by (simp add: find_post_def split: option.split)

lemma action_lits [simp]:
  "lit ''schedule'' \<noteq> lit ''approve''" "lit ''reject'' \<noteq> lit ''approve''" "lit ''reject'' \<noteq> lit ''schedule''"
  by (simp_all add: lit_def)

lemma commit_decision_fields [frame, simp]:
  "wjobs (commit_decision a p act pl w) = wjobs w" "wcalls (commit_decision a p act pl w) = wcalls w"
  "wclock (commit_decision a p act pl w) = wclock w" "wpool (commit_decision a p act pl w) = wpool w"
  by (simp_all add: commit_decision_def)

lemma commit_decision_post:
  assumes "get_post (wdb w) (post_id p) = Some p0"
  shows "\<exists>u. get_post (wdb (commit_decision a p act pl w)) (post_id p) = Some (p\<lparr>updated_at := u\<rparr>)"
  using get_post_save [OF assms refl, of "wclock w"] by (simp add: commit_decision_def)

lemma commit_decision_event:
  "post_events (wdb (commit_decision a p act pl w)) = post_events (wdb w) @
     [\<lparr>event_id = next_id (wdb w), event_post_id = post_id p, actor_admin_id = Some (admin_id a),
       event_action = act, event_payload = pl, event_created_at = wclock w\<rparr>]"
  by (simp add: commit_decision_def)

text \<open>Whatever an HTTP error is raised for, nothing was committed.\<close>

lemma enqueue_http: "redis_up E \<Longrightarrow> fst (enqueue_publish E pid dl w) = Inr ()"
  by (simp add: enqueue_publish_def enqueue_job_up)

lemma decide_core_error:
  assumes "redis_up E" and "fst (decide_core E pid dec actor w) = Inl e"
  shows "snd (decide_core E pid dec actor w) = w"
proof (cases "find_post (wdb w) pid")
  case Inl
  then show ?thesis by (simp add: decide_core_def)
next
  case (Inr p)
  note eqs = decide_core_def Let_def enqueue_publish_def enqueue_job_up [OF assms(1)] Inr
  consider "pd_action dec = lit ''approve''" | "pd_action dec = lit ''schedule''"
    | "pd_action dec = lit ''reject''"
    | "pd_action dec \<notin> {lit ''approve'', lit ''schedule'', lit ''reject''}" by blast
  then show ?thesis
  proof cases
    case 2
    then show ?thesis
      using assms(2) by (simp add: eqs split: option.splits sum.splits if_splits)
  qed (use assms(2) in \<open>simp_all add: eqs\<close>)
qed

lemma with_tags_fields [simp]:
  "post_id (with_tags ids p) = post_id p" "post_state (with_tags ids p) = post_state p"
  "published_message_id (with_tags ids p) = published_message_id p"
  "source_channel_id (with_tags ids p) = source_channel_id p"
  "tag_ids (with_tags ids p) = (case ids of None \<Rightarrow> tag_ids p | Some xs \<Rightarrow> xs)"
  by (simp_all add: with_tags_def split: option.split)

lemma with_tags_None [simp]: "with_tags None p = p"
  by (simp add: with_tags_def)

lemma approve_eq:
  assumes "get_post (wdb w) pid = Some p0"
    and "p = with_tags ids p0\<lparr>post_state := Approved, scheduled_for := None\<rparr>"
  shows "snd (approve E pid ids actor w) = snd (enqueue_publish E (post_id p) None
     (commit_decision actor p Ev_approved [(''tag_ids'', ints (tag_ids p))] w))"
proof -
  have f: "find_post (wdb w) pid = Inr p0" using assms(1) by simp
  obtain r w2 where e: "enqueue_publish E (post_id p) None
     (commit_decision actor p Ev_approved [(''tag_ids'', ints (tag_ids p))] w) = (r, w2)" by fastforce
  show ?thesis
    using e unfolding approve_def decide_core_def f Let_def assms(2) by (cases r) simp_all
qed

section \<open>Properties\<close>

text \<open>
  C25: approving stores the state and the tags, drops any schedule, records who decided, and queues
  exactly one immediate publish job.
\<close>

theorem approve_spec:
  assumes "get_post (wdb w) pid = Some p" and "redis_up E"
  shows "wjobs (snd (approve E pid ids actor w)) = wjobs w @ [publish_job pid None] \<and>
    (\<exists>q. get_post (wdb (snd (approve E pid ids actor w))) pid = Some q \<and> post_state q = Approved \<and>
       scheduled_for q = None \<and> tag_ids q = (case ids of None \<Rightarrow> tag_ids p | Some xs \<Rightarrow> xs) \<and>
       published_message_id q = published_message_id p) \<and>
    (\<exists>ev. post_events (wdb (snd (approve E pid ids actor w))) = post_events (wdb w) @ [ev] \<and>
       event_action ev = Ev_approved \<and> event_post_id ev = pid \<and> actor_admin_id ev = Some (admin_id actor))"
proof -
  define q where "q = with_tags ids p\<lparr>post_state := Approved, scheduled_for := None\<rparr>"
  define w1 where "w1 = commit_decision actor q Ev_approved [(''tag_ids'', ints (tag_ids q))] w"
  have pid: "post_id q = pid" using tget_key [OF assms(1)] by (simp add: q_def)
  then obtain u where u: "get_post (wdb w1) pid = Some (q\<lparr>updated_at := u\<rparr>)"
    using commit_decision_post [of w q p actor Ev_approved] assms(1) unfolding w1_def by metis
  have eq: "snd (approve E pid ids actor w) = w1\<lparr>wpool := True, wjobs := wjobs w @ [publish_job pid None]\<rparr>"
    using approve_eq [OF assms(1) q_def, of E actor] pid
    by (simp add: enqueue_publish_def enqueue_job_up [OF assms(2)] w1_def)
  have "post_events (wdb w1) = post_events (wdb w) @ [\<lparr>event_id = next_id (wdb w), event_post_id = pid,
      actor_admin_id = Some (admin_id actor), event_action = Ev_approved,
      event_payload = [(''tag_ids'', ints (tag_ids q))], event_created_at = wclock w\<rparr>]"
    using commit_decision_event [of actor q] pid by (simp add: w1_def)
  then show ?thesis
    unfolding eq using u by (simp add: q_def)
qed

definition editor :: admin where
  "editor = \<lparr>admin_id = 2, username = lit ''ed'', password_hash = [], admin_role = R_editor,
     tg_user_id = Some 77, admin_created_at = 0, disabled_at = None\<rparr>"

lemma sample_up: "redis_up sample_env"
  by (simp add: redis_up_def sample_redis_up)

lemma sample_get: "get_post (wdb (sample_world [sample_post] [])) 9 = Some sample_post"
  by (simp add: sample_defs tget_def)

theorem approve_spec_witness:
  "wjobs (snd (approve sample_env 9 None editor (sample_world [sample_post] []))) = [publish_job 9 None]"
  using approve_spec [OF sample_get sample_up, of None editor] by (simp add: sample_world_def)

text \<open>What an accepted schedule does.\<close>

lemma schedule_accepted:
  assumes "get_post (wdb w) pid = Some p" and "redis_up E" and "dt_utc t = Some at" and "wclock w < at"
  obtains u where "get_post (wdb (snd (schedule E pid t actor w))) pid
      = Some (p\<lparr>post_state := Scheduled, scheduled_for := Some at, updated_at := u\<rparr>)"
    "wjobs (snd (schedule E pid t actor w)) = wjobs w @ [publish_job pid (Some (at - wclock w))]"
    "wclock (snd (schedule E pid t actor w)) = wclock w" "wcalls (snd (schedule E pid t actor w)) = wcalls w"
    "source_channels (wdb (snd (schedule E pid t actor w))) = source_channels (wdb w)"
    "dedupe_rows (wdb (snd (schedule E pid t actor w))) = dedupe_rows (wdb w)"
proof -
  define q where "q = p\<lparr>post_state := Scheduled, scheduled_for := Some at\<rparr>"
  define w1 where "w1 = commit_decision actor q Ev_scheduled
     [(''tag_ids'', ints (tag_ids q)), (''scheduled_for'', JStr (isoformat t))] w"
  have f: "find_post (wdb w) pid = Inr p" using assms(1) by simp
  have pid: "post_id q = pid" using tget_key [OF assms(1)] by (simp add: q_def)
  then obtain u where u: "get_post (wdb w1) pid = Some (q\<lparr>updated_at := u\<rparr>)"
    using commit_decision_post [of w q p actor Ev_scheduled] assms(1) unfolding w1_def by metis
  have le: "le_now t (wclock w) = Inr False" using assms(3,4) by (simp add: le_now_def)
  have run: "snd (schedule E pid t actor w) = w1\<lparr>wpool := True, wjobs := wjobs w @ [publish_job pid (Some (at - wclock w))]\<rparr>"
    using pid assms(3) unfolding schedule_def decide_core_def f Let_def
    by (simp add: le enqueue_publish_def enqueue_job_up [OF assms(2)] w1_def q_def)
  have "get_post (wdb (snd (schedule E pid t actor w))) pid
      = Some (p\<lparr>post_state := Scheduled, scheduled_for := Some at, updated_at := u\<rparr>)"
    using u by (simp add: run q_def)
  from that [OF this] show thesis by (simp add: run w1_def commit_decision_def)
qed

text \<open>
  C26: a schedule is accepted exactly for an aware instant after now; then the post is scheduled for
  that instant and the job is deferred by exactly the remaining time. Otherwise nothing changes.
\<close>

theorem schedule_spec:
  assumes "get_post (wdb w) pid = Some p" and "redis_up E"
  shows "(case dt_utc t of
       None \<Rightarrow> (\<exists>e. schedule E pid t actor w = (Inl e, w))
     | Some at \<Rightarrow>
         if at \<le> wclock w then schedule E pid t actor w
            = (Inl (HTTPException 400 (lit ''scheduled_for must be in the future'')), w)
         else wjobs (snd (schedule E pid t actor w)) = wjobs w @ [publish_job pid (Some (at - wclock w))] \<and>
           (\<exists>q. get_post (wdb (snd (schedule E pid t actor w))) pid = Some q \<and> post_state q = Scheduled \<and>
              scheduled_for q = Some at))"
proof (cases "dt_utc t")
  case None
  with assms show ?thesis
    by (simp add: schedule_def decide_core_def find_post_def le_now_def Let_def)
next
  case (Some at)
  show ?thesis
  proof (cases "at \<le> wclock w")
    case True
    then show ?thesis using Some assms by (simp add: schedule_def decide_core_def find_post_def le_now_def Let_def)
  next
    case False
    then have "wclock w < at" by simp
    from schedule_accepted [OF assms Some this, of actor] Some False show ?thesis by fastforce
  qed
qed

definition noon :: py_datetime where
  "noon = \<lparr>dt_local = days 1001 + minutes 60, dt_offset = Some (minutes 60)\<rparr>"

theorem schedule_spec_witness:
  "wjobs (snd (schedule sample_env 9 noon editor (sample_world [sample_post] [])))
     = [publish_job 9 (Some (days 1))]"
proof -
  have "dt_utc noon = Some (days 1001)" by code_simp
  moreover have "wclock (sample_world [sample_post] []) = days 1000" "wjobs (sample_world [sample_post] []) = []"
    by (simp_all add: sample_world_def)
  ultimately show ?thesis
    using schedule_spec [OF sample_get sample_up, of noon editor] by (simp add: days_def)
qed

text \<open>with Redis up, a decision that raises has changed nothing at all.\<close>

theorem decision_error_is_atomic:
  assumes "redis_up E" and "fst (decide_core E pid dec actor w) = Inl e"
  shows "snd (decide_core E pid dec actor w) = w"
  by (rule decide_core_error [OF assms])

theorem decision_error_is_atomic_witness:
  "snd (decide_core sample_env 8 \<lparr>pd_action = lit ''approve'', pd_tag_ids = None, pd_scheduled_for = None\<rparr>
     editor (sample_world [sample_post] [])) = sample_world [sample_post] []"
  by (rule decision_error_is_atomic [OF sample_up, where e = "HTTPException 404 (lit ''post not found'')"]) code_simp

text \<open>
  there is no guard on the current state: approving a post that is already published moves it
  back to approved, and the job that is queued then skips it, so it stays approved for good.
\<close>

theorem approve_unpublishes_record:
  assumes "get_post (wdb w) pid = Some p" and "post_state p = Published"
    and "published_message_id p = Some m" and "redis_up E"
  shows "\<exists>q. get_post (wdb (snd (publish E pid (snd (approve E pid ids actor w))))) pid = Some q \<and>
     post_state q = Approved \<and> published_message_id q = Some m \<and>
     fst (publish E pid (snd (approve E pid ids actor w))) = Inr (lit ''already_published'')"
proof -
  let ?w1 = "snd (approve E pid ids actor w)"
  obtain q where q: "get_post (wdb ?w1) pid = Some q" "post_state q = Approved" "published_message_id q = Some m"
    using approve_spec [OF assms(1,4), of ids actor] assms(3) by auto
  then have "publish E pid ?w1 = (Inr (lit ''already_published''), ?w1)"
    by (simp add: publish_def publish_core_def publish_guard_def)
  with q show ?thesis by simp
qed

definition done_post :: post where
  "done_post = sample_post\<lparr>post_state := Published, published_message_id := Some 7\<rparr>"

theorem approve_unpublishes_record_witness:
  "\<exists>q. get_post (wdb (snd (publish sample_env 9 (snd (approve sample_env 9 None editor (sample_world [done_post] [])))))) 9
       = Some q \<and> post_state q = Approved"
proof -
  have "get_post (wdb (sample_world [done_post] [])) 9 = Some done_post"
    by (simp add: done_post_def sample_defs tget_def)
  moreover have "post_state done_post = Published" "published_message_id done_post = Some 7"
    by (simp_all add: done_post_def)
  ultimately show ?thesis using approve_unpublishes_record [OF _ _ _ sample_up] by blast
qed

text \<open>consecutive pages cut the ordered queue into pieces: a page and the rest after it are the
  whole, no post is listed twice or lost, and the total counts them all.\<close>

theorem list_queue_pages:
  assumes "0 \<le> limit" "limit \<le> 200" "0 \<le> offset"
    and "list_queue states limit offset d = Inr pg" and "list_queue states limit (offset + limit) d = Inr pg'"
  shows "\<exists>rows. mset rows = mset (filter (\<lambda>p. states = None \<or> states = Some [] \<or> post_state p \<in> set (the states)) (posts d)) \<and>
     sorted (map (\<lambda>p. - received_at p) rows) \<and> pg_total pg = int (length rows) \<and>
     pg_items pg = take (nat limit) (drop (nat offset) rows) \<and>
     pg_items pg @ pg_items pg' = take (nat (limit + limit)) (drop (nat offset) rows)"
proof -
  define sel where "sel = filter (\<lambda>p. states = None \<or> states = Some [] \<or> post_state p \<in> set (the states)) (posts d)"
  define rows where "rows = sort_key (\<lambda>p. - received_at p) sel"
  have sel: "(case states of None \<Rightarrow> posts d | Some ss \<Rightarrow>
      if ss = [] then posts d else filter (\<lambda>p. post_state p \<in> set ss) (posts d)) = sel"
    by (cases states) (auto simp: sel_def)
  have pg: "pg_items pg = take (nat limit) (drop (nat offset) rows)" "pg_total pg = int (length sel)"
    "pg_items pg' = take (nat limit) (drop (nat (offset + limit)) rows)"
    using assms by (auto simp: list_queue_def sel rows_def [symmetric] paginate_def Let_def)
  have "drop (nat (offset + limit)) rows = drop (nat limit) (drop (nat offset) rows)"
    using assms(1,3) by (simp add: nat_add_distrib add.commute)
  moreover have "nat (limit + limit) = nat limit + nat limit" using assms(1) by simp
  ultimately have "pg_items pg @ pg_items pg' = take (nat (limit + limit)) (drop (nat offset) rows)"
    using pg by (simp only: take_add)
  moreover have "mset rows = mset sel" "length rows = length sel" "sorted (map (\<lambda>p. - received_at p) rows)"
    by (simp_all add: rows_def)
  ultimately show ?thesis using pg unfolding sel_def by (intro exI [of _ rows]) simp
qed

theorem list_queue_pages_witness:
  "\<exists>rows. mset rows = {#sample_post#} \<and> take 1 rows = [sample_post]"
proof -
  have l: "list_queue None 1 0 (sample_db [sample_post] [])
      = Inr \<lparr>pg_items = [sample_post], pg_total = 1, pg_limit = 1, pg_offset = 0\<rparr>"
    by (simp add: list_queue_def paginate_def sample_db_def)
  have l': "list_queue None 1 (0 + 1) (sample_db [sample_post] [])
      = Inr \<lparr>pg_items = [], pg_total = 1, pg_limit = 1, pg_offset = 1\<rparr>"
    by (simp add: list_queue_def paginate_def sample_db_def)
  have b: "(0 :: int) \<le> 1" "(1 :: int) \<le> 200" "(0 :: int) \<le> 0" by simp_all
  from list_queue_pages [OF b l l'] show ?thesis by (auto simp: sample_db_def)
qed

end
