(* ===== verification/Security.thy ===== *)
theory Security
  imports World
begin

text \<open>
  Passwords and tokens (\<open>shared/security.py\<close>) and the dependencies that guard the endpoints
  (\<open>api/deps.py\<close>). The argon2 and JWT libraries are parameters.
\<close>

text \<open>
  The outcome of \<open>PasswordHasher.verify\<close>: a match, one of the two errors that the code catches,
  or any other error.
\<close>

datatype verify_outcome = Match | VerifyMismatchError | InvalidHashError | OtherVerifyError pystr

text \<open>
  \<open>ph_hash t\<close> is \<open>PasswordHasher.hash\<close> with the salt drawn at instant \<open>t\<close>;
  \<open>jwt_decode token secret algorithms now\<close> is \<open>None\<close> when a \<open>PyJWTError\<close> is raised.
\<close>

record crypto =
  ph_hash :: "time \<Rightarrow> pystr \<Rightarrow> pystr"
  ph_verify :: "pystr \<Rightarrow> pystr \<Rightarrow> verify_outcome"
  ph_check_needs_rehash :: "pystr \<Rightarrow> bool"
  jwt_encode :: "payload \<Rightarrow> pystr \<Rightarrow> pystr \<Rightarrow> pystr"
  jwt_decode :: "pystr \<Rightarrow> pystr \<Rightarrow> pystr list \<Rightarrow> time \<Rightarrow> payload option"

section \<open>Passwords\<close>

definition hash_password :: "crypto \<Rightarrow> time \<Rightarrow> pystr \<Rightarrow> pystr" where
  "hash_password C salt password = ph_hash C salt password"

definition verify_password :: "crypto \<Rightarrow> pystr \<Rightarrow> pystr \<Rightarrow> bool result" where
  "verify_password C password hash =
     (case ph_verify C hash password of
        Match \<Rightarrow> Inr True
      | VerifyMismatchError \<Rightarrow> Inr False
      | InvalidHashError \<Rightarrow> Inr False
      | OtherVerifyError m \<Rightarrow> Inl (OtherError m))"

definition needs_rehash :: "crypto \<Rightarrow> pystr \<Rightarrow> bool" where
  "needs_rehash C hash = ph_check_needs_rehash C hash"

section \<open>Tokens\<close>

record token_claims =
  tc_sub :: json
  tc_admin_id :: int
  tc_role :: role
  tc_type :: json
  tc_exp :: time

text \<open>The library stores a \<open>datetime\<close> claim as whole seconds since the epoch.\<close>

definition numeric_date :: "time \<Rightarrow> json" where
  "numeric_date t = JInt (t div 1000000)"

definition encode_token :: "crypto \<Rightarrow> settings \<Rightarrow> payload \<Rightarrow> pystr" where
  "encode_token C s pl = jwt_encode C pl (jwt_secret s) (jwt_algo s)"

definition access_claims :: "settings \<Rightarrow> time \<Rightarrow> int \<Rightarrow> pystr \<Rightarrow> role \<Rightarrow> payload" where
  "access_claims s now aid uname r =
     [(''sub'', JStr uname), (''admin_id'', JInt aid), (''role'', JStr (role_value r)),
      (''token_type'', JStr (lit ''access'')), (''iat'', numeric_date now),
      (''exp'', numeric_date (now + minutes (access_token_ttl_minutes s)))]"

definition create_access_token :: "crypto \<Rightarrow> settings \<Rightarrow> time \<Rightarrow> int \<Rightarrow> pystr \<Rightarrow> role \<Rightarrow> pystr" where
  "create_access_token C s now aid uname r = encode_token C s (access_claims s now aid uname r)"

definition refresh_claims :: "settings \<Rightarrow> time \<Rightarrow> int \<Rightarrow> pystr \<Rightarrow> role \<Rightarrow> payload" where
  "refresh_claims s now aid uname r =
     [(''sub'', JStr uname), (''admin_id'', JInt aid), (''role'', JStr (role_value r)),
      (''token_type'', JStr (lit ''refresh'')), (''iat'', numeric_date now),
      (''exp'', numeric_date (now + days (refresh_token_ttl_days s)))]"

definition create_refresh_token :: "crypto \<Rightarrow> settings \<Rightarrow> time \<Rightarrow> int \<Rightarrow> pystr \<Rightarrow> role \<Rightarrow> pystr" where
  "create_refresh_token C s now aid uname r = encode_token C s (refresh_claims s now aid uname r)"

definition decode_raw :: "crypto \<Rightarrow> settings \<Rightarrow> time \<Rightarrow> pystr \<Rightarrow> payload option" where
  "decode_raw C s now tok = jwt_decode C tok (jwt_secret s) [jwt_algo s] now"

text \<open>\<open>data[key]\<close>, \<open>int(v)\<close> and \<open>Role(v)\<close> on decoded claims.\<close>

definition claim :: "payload \<Rightarrow> string \<Rightarrow> json result" where
  "claim pl k = (case map_of pl k of None \<Rightarrow> Inl (OtherError (lit ''KeyError'')) | Some v \<Rightarrow> Inr v)"

fun json_int :: "unicode \<Rightarrow> json \<Rightarrow> int result" where
  "json_int U (JInt n) = Inr n"
| "json_int U (JBool b) = Inr (if b then 1 else 0)"
| "json_int U (JStr t) = (case py_int U t of None \<Rightarrow> Inl (OtherError (lit ''ValueError'')) | Some n \<Rightarrow> Inr n)"
| "json_int U v = Inl (OtherError (lit ''TypeError''))"

fun json_role :: "json \<Rightarrow> role result" where
  "json_role (JStr t) = (case role_of_value t of None \<Rightarrow> Inl (OtherError (lit ''ValueError'')) | Some r \<Rightarrow> Inr r)"
| "json_role v = Inl (OtherError (lit ''ValueError''))"

fun json_timestamp :: "json \<Rightarrow> time result" where
  "json_timestamp (JInt n) = Inr (seconds n)"
| "json_timestamp (JBool b) = Inr (if b then seconds 1 else 0)"
| "json_timestamp v = Inl (OtherError (lit ''TypeError''))"

definition decode_token :: "crypto \<Rightarrow> unicode \<Rightarrow> settings \<Rightarrow> time \<Rightarrow> pystr \<Rightarrow> token_claims option result" where
  "decode_token C U s now tok =
     (case decode_raw C s now tok of
        None \<Rightarrow> Inr None
      | Some pl \<Rightarrow>
          (case claim pl ''sub'' of Inl e \<Rightarrow> Inl e | Inr sub \<Rightarrow>
          (case claim pl ''admin_id'' of Inl e \<Rightarrow> Inl e | Inr ja \<Rightarrow>
          (case json_int U ja of Inl e \<Rightarrow> Inl e | Inr aid \<Rightarrow>
          (case claim pl ''role'' of Inl e \<Rightarrow> Inl e | Inr jr \<Rightarrow>
          (case json_role jr of Inl e \<Rightarrow> Inl e | Inr r \<Rightarrow>
          (case claim pl ''token_type'' of Inl e \<Rightarrow> Inl e | Inr ty \<Rightarrow>
          (case claim pl ''exp'' of Inl e \<Rightarrow> Inl e | Inr je \<Rightarrow>
          (case json_timestamp je of Inl e \<Rightarrow> Inl e | Inr exp' \<Rightarrow>
             Inr (Some \<lparr>tc_sub = sub, tc_admin_id = aid, tc_role = r, tc_type = ty, tc_exp = exp'\<rparr>))))))))))"

section \<open>Dependencies\<close>

definition CREDENTIALS :: exn where
  "CREDENTIALS = HTTPException 401 (lit ''Could not validate credentials'')"

definition get_claims :: "crypto \<Rightarrow> unicode \<Rightarrow> settings \<Rightarrow> time \<Rightarrow> pystr option \<Rightarrow> token_claims result" where
  "get_claims C U s now tok =
     (if \<not> truthy tok then Inl CREDENTIALS
      else (case decode_token C U s now (the tok) of
              Inl e \<Rightarrow> Inl e
            | Inr None \<Rightarrow> Inl CREDENTIALS
            | Inr (Some c) \<Rightarrow> if tc_type c \<noteq> JStr (lit ''access'') then Inl CREDENTIALS else Inr c))"

text \<open>The row of an admin who is not disabled.\<close>

definition active_admin :: "db \<Rightarrow> int \<Rightarrow> admin option" where
  "active_admin d aid = List.find (\<lambda>a. admin_id a = aid \<and> disabled_at a = None) (admins d)"

definition get_current_admin :: "db \<Rightarrow> token_claims result \<Rightarrow> admin result" where
  "get_current_admin d claims =
     (case claims of
        Inl e \<Rightarrow> Inl e
      | Inr c \<Rightarrow> (case active_admin d (tc_admin_id c) of None \<Rightarrow> Inl CREDENTIALS | Some a \<Rightarrow> Inr a))"

definition require_role :: "role \<Rightarrow> admin result \<Rightarrow> admin result" where
  "require_role required current =
     (case current of
        Inl e \<Rightarrow> Inl e
      | Inr a \<Rightarrow> if \<not> role_at_least (admin_role a) required
                 then Inl (HTTPException 403 (lit ''insufficient role'')) else Inr a)"

text \<open>The dependency chain of an endpoint that requires a role.\<close>

definition guarded :: "crypto \<Rightarrow> unicode \<Rightarrow> settings \<Rightarrow> time \<Rightarrow> db \<Rightarrow> pystr option \<Rightarrow> role \<Rightarrow> admin result" where
  "guarded C U s now d tok required = require_role required (get_current_admin d (get_claims C U s now tok))"

section \<open>Facts\<close>

text \<open>
  What the code relies on from the JWT library: from the second in which it was issued on, a token that was encoded with
  the secret decodes to its claims until its expiry second is reached, and to nothing after. Before it was issued
  the library refuses it or not, according to its version.
\<close>

definition jwt_roundtrip :: "crypto \<Rightarrow> settings \<Rightarrow> payload \<Rightarrow> bool" where
  "jwt_roundtrip C s pl \<longleftrightarrow>
     (\<forall>now. (case map_of pl ''iat'' of Some (JInt i) \<Rightarrow> i \<le> now div 1000000 | _ \<Rightarrow> True) \<longrightarrow>
        jwt_decode C (jwt_encode C pl (jwt_secret s) (jwt_algo s)) (jwt_secret s) [jwt_algo s] now =
        (case map_of pl ''exp'' of
           Some (JInt n) \<Rightarrow> if now div 1000000 < n then Some pl else None
         | _ \<Rightarrow> Some pl))"

lemma decode_access:
  assumes "jwt_roundtrip C s (access_claims s t0 aid uname r)" and "t0 \<le> now"
  shows "decode_token C U s now (create_access_token C s t0 aid uname r) =
    (if now div 1000000 < (t0 + minutes (access_token_ttl_minutes s)) div 1000000
     then Inr (Some \<lparr>tc_sub = JStr uname, tc_admin_id = aid, tc_role = r, tc_type = JStr (lit ''access''),
            tc_exp = seconds ((t0 + minutes (access_token_ttl_minutes s)) div 1000000)\<rparr>)
     else Inr None)"
  using assms zdiv_mono1 [OF assms(2), of 1000000]
  by (simp add: jwt_roundtrip_def decode_token_def decode_raw_def create_access_token_def encode_token_def
      access_claims_def numeric_date_def claim_def)

lemma decode_refresh:
  assumes "jwt_roundtrip C s (refresh_claims s t0 aid uname r)" and "t0 \<le> now"
  shows "decode_token C U s now (create_refresh_token C s t0 aid uname r) =
    (if now div 1000000 < (t0 + days (refresh_token_ttl_days s)) div 1000000
     then Inr (Some \<lparr>tc_sub = JStr uname, tc_admin_id = aid, tc_role = r, tc_type = JStr (lit ''refresh''),
            tc_exp = seconds ((t0 + days (refresh_token_ttl_days s)) div 1000000)\<rparr>)
     else Inr None)"
  using assms zdiv_mono1 [OF assms(2), of 1000000]
  by (simp add: jwt_roundtrip_def decode_token_def decode_raw_def create_refresh_token_def encode_token_def
      refresh_claims_def numeric_date_def claim_def)

lemma active_adminD:
  "active_admin d aid = Some a \<Longrightarrow> a \<in> set (admins d) \<and> admin_id a = aid \<and> disabled_at a = None"
  by (auto simp: active_admin_def dest: find_SomeD)

lemma active_admin_unique:
  assumes "unique_keys admin_id (admins d)" and "a \<in> set (admins d)" and "disabled_at a = None"
  shows "active_admin d (admin_id a) = Some a"
proof (cases "active_admin d (admin_id a)")
  case None
  with assms(2,3) show ?thesis by (auto simp: active_admin_def find_None_filter filter_empty_conv)
next
  case (Some b)
  then have "b \<in> set (admins d)" "admin_id b = admin_id a" using active_adminD by auto
  then have "b = a" using tbl.get_ok [OF assms(1)] assms(2) by (metis option.inject)
  with Some show ?thesis by simp
qed

section \<open>Properties\<close>

text \<open>
  whatever token is presented, an endpoint runs only for an admin row that exists, is not
  disabled, and holds at least the required role now: the role in the token grants nothing.
\<close>

theorem guarded_checks_the_row:
  assumes "guarded C U s now d tok required = Inr a"
  shows "a \<in> set (admins d) \<and> disabled_at a = None \<and> required \<le> admin_role a \<and>
    (\<exists>c. decode_token C U s now (the tok) = Inr (Some c) \<and> tc_admin_id c = admin_id a
       \<and> tc_type c = JStr (lit ''access''))"
proof -
  obtain c where c: "get_claims C U s now tok = Inr c" "active_admin d (tc_admin_id c) = Some a"
    "role_at_least (admin_role a) required"
    using assms by (auto simp: guarded_def require_role_def get_current_admin_def
        split: sum.splits option.splits if_splits)
  then have "decode_token C U s now (the tok) = Inr (Some c)" "tc_type c = JStr (lit ''access'')"
    by (auto simp: get_claims_def split: sum.splits option.splits if_splits)
  with c active_adminD [OF c(2)] show ?thesis by (auto simp: role_at_least_iff)
qed

definition owner :: admin where
  "owner = \<lparr>admin_id = 1, username = lit ''root'', password_hash = lit ''h:secret'', admin_role = R_super_admin,
     tg_user_id = None, admin_created_at = 0, disabled_at = None\<rparr>"

definition owner_db :: db where
  "owner_db = (sample_db [] [])\<lparr>admins := [owner]\<rparr>"

definition fixed_crypto :: "payload \<Rightarrow> crypto" where
  "fixed_crypto pl = \<lparr>ph_hash = (\<lambda>t p. lit ''h:'' @ p),
     ph_verify = (\<lambda>h p. if h = lit ''h:'' @ p then Match else VerifyMismatchError),
     ph_check_needs_rehash = (\<lambda>h. False), jwt_encode = (\<lambda>p k a. lit ''tok''),
     jwt_decode = (\<lambda>t k a now. if t = lit ''tok'' then Some pl else None)\<rparr>"

theorem guarded_checks_the_row_witness:
  "owner \<in> set (admins owner_db) \<and> R_admin \<le> admin_role owner"
proof -
  have "guarded (fixed_crypto (access_claims default_settings 0 1 (lit ''root'') R_editor)) (uni sample_env)
     default_settings 0 owner_db (Some (lit ''tok'')) R_admin = Inr owner"
    by code_simp
  from guarded_checks_the_row [OF this] show ?thesis by blast
qed

end
