(* ===== verification/Admins.thy ===== *)
theory Admins
  imports Security
begin

text \<open>
  The accounts of the back office (\<open>api/routers/admins.py\<close>) with the request schemas of
  \<open>api/schemas.py\<close>. An update is computed on the rows that its transaction reads and written by
  its commit, so two overlapping requests can be put together from the same parts.
\<close>

record admin_create =
  ac_username :: pystr
  ac_password :: pystr
  ac_role :: role
  ac_tg_user_id :: "int option"

text \<open>The outer option of \<open>au_tg_user_id\<close> says whether the field is set in the request.\<close>

record admin_update =
  au_password :: "pystr option"
  au_role :: "role option"
  au_disabled :: "bool option"
  au_tg_user_id :: "int option option"

definition length_in :: "nat \<Rightarrow> nat \<Rightarrow> pystr \<Rightarrow> bool" where
  "length_in lo hi s \<longleftrightarrow> lo \<le> length s \<and> length s \<le> hi"

definition UNPROCESSABLE :: exn where
  "UNPROCESSABLE = HTTPException 422 (lit ''validation error'')"

definition valid_admin_create :: "admin_create \<Rightarrow> bool" where
  "valid_admin_create c \<longleftrightarrow> length_in 3 64 (ac_username c) \<and> length_in 8 128 (ac_password c)"

definition valid_admin_update :: "admin_update \<Rightarrow> bool" where
  "valid_admin_update u \<longleftrightarrow> (case au_password u of None \<Rightarrow> True | Some p \<Rightarrow> length_in 8 128 p)"

definition list_admins :: "db \<Rightarrow> admin list" where
  "list_admins d = sort_key username (admins d)"

text \<open>A bounded column refuses a longer text or a number out of its range when the row is flushed.\<close>

definition fits :: "nat \<Rightarrow> pystr option \<Rightarrow> bool" where
  "fits n v \<longleftrightarrow> (case v of None \<Rightarrow> True | Some s \<Rightarrow> length s \<le> n)"

definition bigint :: "int option \<Rightarrow> bool" where
  "bigint v \<longleftrightarrow> (case v of None \<Rightarrow> True | Some n \<Rightarrow> - (2 ^ 63) \<le> n \<and> n < 2 ^ 63)"

definition DataError :: exn where
  "DataError = OtherError (lit ''DataError'')"

text \<open>The unique columns of the table: the name, and the linked account where there is one.\<close>

definition admin_conflict :: "admin \<Rightarrow> db \<Rightarrow> bool" where
  "admin_conflict a d \<longleftrightarrow> list_ex (\<lambda>b. admin_id b \<noteq> admin_id a \<and>
     (username b = username a \<or> tg_user_id a \<noteq> None \<and> tg_user_id b = tg_user_id a)) (admins d)"

definition create_admin :: "crypto \<Rightarrow> admin_create \<Rightarrow> admin eff" where
  "create_admin C c w =
     (if \<not> valid_admin_create c then (Inl UNPROCESSABLE, w)
      else
        let d = wdb w;
            a = \<lparr>admin_id = next_id d, username = ac_username c,
                 password_hash = hash_password C (wclock w) (ac_password c), admin_role = ac_role c,
                 tg_user_id = ac_tg_user_id c, admin_created_at = wclock w, disabled_at = None\<rparr>
        in if \<not> bigint (tg_user_id a) then (Inl DataError, w)
           else if admin_conflict a d then (Inl (HTTPException 409 (lit ''username already exists'')), w)
           else (Inr a, w\<lparr>wdb := d\<lparr>admins := tadd a (admins d), next_id := next_id d + 1\<rparr>\<rparr>))"

definition active_supers :: "admin list \<Rightarrow> admin list" where
  "active_supers as = filter (\<lambda>a. admin_role a = R_super_admin \<and> disabled_at a = None) as"

text \<open>The queries of an update see the changes made so far, which the session flushes first.\<close>

definition change_role :: "admin list \<Rightarrow> role option \<Rightarrow> admin \<Rightarrow> admin result" where
  "change_role as r a =
     (case r of
        None \<Rightarrow> Inr a
      | Some r' \<Rightarrow>
          if r' = admin_role a then Inr a
          else if admin_role a = R_super_admin \<and> r' \<noteq> R_super_admin
                  \<and> length (active_supers (tput admin_id a as)) \<le> 1
          then Inl (HTTPException 400 (lit ''cannot demote the last super-admin''))
          else Inr (a\<lparr>admin_role := r'\<rparr>))"

definition change_disabled :: "admin list \<Rightarrow> time \<Rightarrow> bool option \<Rightarrow> admin \<Rightarrow> admin result" where
  "change_disabled as now dis a =
     (case dis of
        None \<Rightarrow> Inr a
      | Some b \<Rightarrow>
          if b \<and> admin_role a = R_super_admin \<and> disabled_at a = None
             \<and> length (active_supers (tput admin_id a as)) \<le> 1
          then Inl (HTTPException 400 (lit ''cannot disable the last active super-admin''))
          else Inr (a\<lparr>disabled_at := if b then Some now else None\<rparr>))"

text \<open>The row that an update writes, computed on the rows that its transaction has read.\<close>

definition updated_admin :: "crypto \<Rightarrow> time \<Rightarrow> admin list \<Rightarrow> int \<Rightarrow> admin_update \<Rightarrow> admin result" where
  "updated_admin C now as aid u =
     (case tget admin_id as aid of
        None \<Rightarrow> Inl (HTTPException 404 (lit ''admin not found''))
      | Some a \<Rightarrow>
          let a1 = (case au_password u of None \<Rightarrow> a | Some p \<Rightarrow> a\<lparr>password_hash := hash_password C now p\<rparr>)
          in (case change_role as (au_role u) a1 of
                Inl e \<Rightarrow> Inl e
              | Inr a2 \<Rightarrow>
                  (case change_disabled as now (au_disabled u) a2 of
                     Inl e \<Rightarrow> Inl e
                   | Inr a3 \<Rightarrow> Inr (case au_tg_user_id u of None \<Rightarrow> a3 | Some t \<Rightarrow> a3\<lparr>tg_user_id := t\<rparr>))))"

definition commit_admin :: "admin \<Rightarrow> admin eff" where
  "commit_admin a w =
     (if \<not> bigint (tg_user_id a) then (Inl DataError, w)
      else if admin_conflict a (wdb w) then (Inl IntegrityError, w)
      else (Inr a, w\<lparr>wdb := (wdb w)\<lparr>admins := tput admin_id a (admins (wdb w))\<rparr>\<rparr>))"

definition update_admin :: "crypto \<Rightarrow> int \<Rightarrow> admin_update \<Rightarrow> admin eff" where
  "update_admin C aid u w =
     (if \<not> valid_admin_update u then (Inl UNPROCESSABLE, w)
      else (case updated_admin C (wclock w) (admins (wdb w)) aid u of
              Inl e \<Rightarrow> (Inl e, w)
            | Inr a \<Rightarrow> commit_admin a w))"

section \<open>Facts\<close>

definition has_super :: "admin list \<Rightarrow> bool" where
  "has_super as \<longleftrightarrow> active_supers as \<noteq> []"

text \<open>Another active super-admin than the one with a given id.\<close>

definition other_super :: "admin list \<Rightarrow> int \<Rightarrow> bool" where
  "other_super as k \<longleftrightarrow> list_ex (\<lambda>a. admin_id a \<noteq> k \<and> admin_role a = R_super_admin \<and> disabled_at a = None) as"

lemma other_super_tput [simp]: "admin_id a = k \<Longrightarrow> other_super (tput admin_id a as) k = other_super as k"
  by (induction as) (auto simp: other_super_def tput_def)

lemma other_has_super: "other_super as k \<Longrightarrow> has_super as"
  by (induction as) (auto simp: other_super_def has_super_def active_supers_def)

text \<open>With unique ids, a second active super-admin is someone else.\<close>

lemma two_supers_other:
  assumes "unique_keys admin_id as" and "length (active_supers as) > 1"
  shows "other_super as k"
proof (rule ccontr)
  assume "\<not> other_super as k"
  then have "\<forall>a \<in> set (active_supers as). admin_id a = k"
    by (auto simp: other_super_def active_supers_def list_ex_iff)
  moreover obtain x y rest where "active_supers as = x # y # rest"
    using assms(2) by (cases "active_supers as" rule: remdups_adj.cases) auto
  moreover have "distinct (map admin_id (active_supers as))"
    using assms(1) by (auto simp: unique_keys_def keys_def active_supers_def distinct_map intro: inj_on_subset)
  ultimately show False by simp
qed

lemma has_super_cases:
  assumes "unique_keys admin_id as" and "has_super as" and "tget admin_id as k = Some a"
  shows "other_super as k \<or> admin_role a = R_super_admin \<and> disabled_at a = None"
proof -
  obtain b where b: "b \<in> set as" "admin_role b = R_super_admin" "disabled_at b = None"
    using assms(2) by (auto simp: has_super_def active_supers_def filter_empty_conv)
  show ?thesis
  proof (cases "admin_id b = k")
    case True
    then have "b = a" using tbl.get_ok [OF assms(1) b(1)] assms(3) by simp
    with b show ?thesis by simp
  next
    case False
    with b show ?thesis by (auto simp: other_super_def list_ex_iff)
  qed
qed

lemma tput_has_super:
  assumes "tget admin_id as (admin_id a) = Some a0"
    and "other_super as (admin_id a) \<or> admin_role a = R_super_admin \<and> disabled_at a = None"
  shows "has_super (tput admin_id a as)"
proof (cases "other_super as (admin_id a)")
  case True
  then show ?thesis using other_super_tput [of a "admin_id a" as] other_has_super by blast
next
  case False
  have "tget admin_id (tput admin_id a as) (admin_id a) = Some a" using assms(1) by (simp add: table_simps)
  then have "a \<in> set (tput admin_id a as)" by (rule tbl.get_in)
  with False assms(2) show ?thesis by (auto simp: has_super_def active_supers_def filter_empty_conv)
qed

text \<open>Each check keeps the fact that somebody is left.\<close>

abbreviation someone :: "admin list \<Rightarrow> admin \<Rightarrow> bool" where
  "someone as a \<equiv> other_super as (admin_id a) \<or> admin_role a = R_super_admin \<and> disabled_at a = None"

lemma change_role_keeps:
  assumes "change_role as r a = Inr a'" and "unique_keys admin_id as" and "someone as a"
  shows "someone as a' \<and> admin_id a' = admin_id a"
proof -
  have "other_super (tput admin_id a as) (admin_id a)" if "length (active_supers (tput admin_id a as)) > 1"
    by (rule two_supers_other [OF unique_keys_tput [OF assms(2)] that])
  with assms show ?thesis
    by (auto simp: change_role_def not_le split: option.splits if_splits)
qed

lemma change_disabled_keeps:
  assumes "change_disabled as now dis a = Inr a'" and "unique_keys admin_id as" and "someone as a"
  shows "someone as a' \<and> admin_id a' = admin_id a"
proof -
  have "other_super (tput admin_id a as) (admin_id a)" if "length (active_supers (tput admin_id a as)) > 1"
    by (rule two_supers_other [OF unique_keys_tput [OF assms(2)] that])
  with assms show ?thesis
    by (auto simp: change_disabled_def not_le split: option.splits if_splits)
qed

lemma updated_admin_keeps:
  assumes "updated_admin C now as aid u = Inr a" and "unique_keys admin_id as" and "has_super as"
  shows "someone as a \<and> admin_id a = aid"
proof -
  obtain a0 where a0: "tget admin_id as aid = Some a0"
    using assms(1) by (auto simp: updated_admin_def split: option.splits)
  define a1 where "a1 = (case au_password u of None \<Rightarrow> a0 | Some p \<Rightarrow> a0\<lparr>password_hash := hash_password C now p\<rparr>)"
  have f1: "admin_id a1 = aid" "admin_role a1 = admin_role a0" "disabled_at a1 = disabled_at a0"
    using tget_key [OF a0] by (simp_all add: a1_def split: option.split)
  obtain a2 where a2: "change_role as (au_role u) a1 = Inr a2"
    using assms(1) a0 by (auto simp: updated_admin_def a1_def Let_def split: sum.splits)
  obtain a3 where a3: "change_disabled as now (au_disabled u) a2 = Inr a3"
    using assms(1) a0 a2 by (auto simp: updated_admin_def a1_def Let_def split: sum.splits)
  have a: "a = (case au_tg_user_id u of None \<Rightarrow> a3 | Some t \<Rightarrow> a3\<lparr>tg_user_id := t\<rparr>)"
    using assms(1) a0 a2 a3 by (simp add: updated_admin_def a1_def [symmetric])
  have s1: "someone as a1" using has_super_cases [OF assms(2,3) a0] f1 by simp
  note s2 = change_role_keeps [OF a2 assms(2) s1]
  note s3 = change_disabled_keeps [OF a3 assms(2) conjunct1 [OF s2]]
  have "admin_id a3 = aid" using s2 s3 f1(1) by simp
  then show ?thesis using conjunct1 [OF s3] by (simp add: a split: option.split)
qed

lemma update_admin_has_super:
  assumes "unique_keys admin_id (admins (wdb w))" and "has_super (admins (wdb w))"
  shows "has_super (admins (wdb (snd (update_admin C aid u w))))"
proof (cases "updated_admin C (wclock w) (admins (wdb w)) aid u")
  case (Inl e)
  with assms(2) show ?thesis by (simp add: update_admin_def)
next
  case (Inr a)
  have k: "someone (admins (wdb w)) a" "admin_id a = aid" using updated_admin_keeps [OF Inr assms] by auto
  obtain a0 where a0: "tget admin_id (admins (wdb w)) aid = Some a0"
    using Inr by (auto simp: updated_admin_def split: option.splits)
  have "has_super (tput admin_id a (admins (wdb w)))" using tput_has_super [of _ a a0] a0 k by simp
  with Inr assms(2) show ?thesis by (simp add: update_admin_def commit_admin_def)
qed

section \<open>Properties\<close>

text \<open>
  no update of an account, successful or refused, leaves the back office without an active
  super-admin, whatever it changes together.
\<close>

theorem update_admin_keeps_super:
  assumes "unique_keys admin_id (admins (wdb w))" and "has_super (admins (wdb w))"
  shows "has_super (admins (wdb (snd (update_admin C aid u w))))"
  by (rule update_admin_has_super [OF assms])

definition second_owner :: admin where
  "second_owner = owner\<lparr>admin_id := 2, username := lit ''two''\<rparr>"

definition owners_world :: "admin list \<Rightarrow> world" where
  "owners_world as = (sample_world [] [])\<lparr>wdb := (sample_db [] [])\<lparr>admins := as\<rparr>\<rparr>"

definition demote :: admin_update where
  "demote = \<lparr>au_password = None, au_role = Some R_editor, au_disabled = None, au_tg_user_id = None\<rparr>"

theorem update_admin_keeps_super_witness:
  "has_super (admins (wdb (snd (update_admin (fixed_crypto []) 1 demote (owners_world [owner, second_owner])))))"
proof (rule update_admin_keeps_super)
  show "unique_keys admin_id (admins (wdb (owners_world [owner, second_owner])))" by code_simp
  show "has_super (admins (wdb (owners_world [owner, second_owner])))" by code_simp
qed

text \<open>
  the check and the write of an update are not one atomic step. When two requests, each about the
  other of two super-admins, both read before either commits, both are accepted and nobody is left.
\<close>

theorem overlapping_demotions_lose_both:
  "\<exists>a b. updated_admin C now [owner, second_owner] 1 demote = Inr a \<and>
     updated_admin C now [owner, second_owner] 2 demote = Inr b \<and>
     fst (commit_admin a (owners_world [owner, second_owner])) = Inr a \<and>
     fst (commit_admin b (snd (commit_admin a (owners_world [owner, second_owner])))) = Inr b \<and>
     \<not> has_super (admins (wdb (snd (commit_admin b (snd (commit_admin a (owners_world [owner, second_owner])))))))"
proof (intro exI conjI)
  let ?a = "owner\<lparr>admin_role := R_editor\<rparr>" and ?b = "second_owner\<lparr>admin_role := R_editor\<rparr>"
  show "updated_admin C now [owner, second_owner] 1 demote = Inr ?a"
    "updated_admin C now [owner, second_owner] 2 demote = Inr ?b"
    by (simp_all add: updated_admin_def change_role_def change_disabled_def demote_def second_owner_def
        owner_def tget_def tput_def active_supers_def)
  show "fst (commit_admin ?a (owners_world [owner, second_owner])) = Inr ?a" by code_simp
  show "fst (commit_admin ?b (snd (commit_admin ?a (owners_world [owner, second_owner])))) = Inr ?b" by code_simp
  show "\<not> has_super (admins (wdb (snd (commit_admin ?b (snd (commit_admin ?a (owners_world [owner, second_owner])))))))"
    by code_simp
qed

text \<open>
  a new account is stored with the requested role and a hash of the password, under a fresh id,
  unless its name or its linked account is taken, and the uniqueness of ids and names is kept.
\<close>

theorem create_admin_spec:
  assumes "create_admin C c w = (Inr a, w1)" and "\<forall>b \<in> set (admins (wdb w)). admin_id b < next_id (wdb w)"
    and "unique_keys admin_id (admins (wdb w))" and "unique_keys username (admins (wdb w))"
  shows "admins (wdb w1) = admins (wdb w) @ [a] \<and> unique_keys admin_id (admins (wdb w1)) \<and>
    unique_keys username (admins (wdb w1)) \<and> admin_role a = ac_role c \<and> disabled_at a = None \<and>
    password_hash a = ph_hash C (wclock w) (ac_password c)"
proof -
  have a: "\<not> admin_conflict a (wdb w)" "admins (wdb w1) = tadd a (admins (wdb w))"
    "admin_id a = next_id (wdb w)" "admin_role a = ac_role c" "disabled_at a = None"
    "password_hash a = ph_hash C (wclock w) (ac_password c)"
    using assms(1) by (auto simp: create_admin_def Let_def hash_password_def split: if_splits)
  have "\<And>b. b \<in> set (admins (wdb w)) \<Longrightarrow> admin_id b \<noteq> admin_id a \<and> username b \<noteq> username a"
    using a(1,3) assms(2) by (fastforce simp: admin_conflict_def list_ex_iff)
  then have "username a \<notin> username ` set (admins (wdb w))" "admin_id a \<notin> admin_id ` set (admins (wdb w))"
    by (metis imageE)+
  then have "unique_keys admin_id (admins (wdb w1))" "unique_keys username (admins (wdb w1))"
    unfolding a(2) using unique_keys_tadd [OF assms(3)] unique_keys_tadd [OF assms(4)] by blast+
  moreover have "admins (wdb w1) = admins (wdb w) @ [a]" unfolding a(2) by (simp add: tadd_def)
  ultimately show ?thesis using a(4-6) by blast
qed

definition newcomer :: admin_create where
  "newcomer = \<lparr>ac_username = lit ''third'', ac_password = lit ''password'', ac_role = R_admin, ac_tg_user_id = None\<rparr>"

theorem create_admin_spec_witness:
  "unique_keys username (admins (wdb (snd (create_admin (fixed_crypto []) newcomer (owners_world [owner])))))"
proof -
  obtain r w1 where rw: "create_admin (fixed_crypto []) newcomer (owners_world [owner]) = (r, w1)" by fastforce
  have "isl (fst (create_admin (fixed_crypto []) newcomer (owners_world [owner]))) = False" by code_simp
  then obtain a where "r = Inr a" using rw by (cases r) auto
  moreover have "\<forall>b \<in> set (admins (wdb (owners_world [owner]))). admin_id b < next_id (wdb (owners_world [owner]))"
    "unique_keys admin_id (admins (wdb (owners_world [owner])))"
    "unique_keys username (admins (wdb (owners_world [owner])))" by code_simp+
  ultimately have "unique_keys username (admins (wdb w1))"
    using create_admin_spec [of "fixed_crypto []" newcomer "owners_world [owner]" a w1] rw by blast
  then show ?thesis by (simp add: rw)
qed

end
