(* ===== verification/Vocabulary.thy ===== *)
theory Vocabulary
  imports Admins WorkerNormalize
begin

text \<open>
  The controlled vocabulary of tags (\<open>api/routers/tags.py\<close>) and the normalization templates
  (\<open>api/routers/templates.py\<close>). Rows are listed in the code-point order of the sorted column.
\<close>

section \<open>Slugs\<close>

definition slug_char :: "int \<Rightarrow> bool" where
  "slug_char c \<longleftrightarrow> is_lower c \<or> is_digit c"

text \<open>\<open>re.sub(r"[^a-z0-9]+", "-", s)\<close>: the flag says whether a run is being replaced.\<close>

fun dash_runs :: "bool \<Rightarrow> pystr \<Rightarrow> pystr" where
  "dash_runs b [] = []"
| "dash_runs b (c # s) =
     (if slug_char c then c # dash_runs False s
      else if b then dash_runs True s else 45 # dash_runs True s)"

definition slugify :: "unicode \<Rightarrow> pystr \<Rightarrow> pystr result" where
  "slugify U value =
     (let s = strip_chars [45] (dash_runs False (py_lower U value))
      in if s = [] then Inl (HTTPException 400 (lit ''invalid slug'')) else Inr (take 64 s))"

section \<open>Tags\<close>

record tag_create =
  tcr_slug :: pystr
  tcr_label :: pystr
  tcr_color :: "pystr option"

record tag_update =
  tup_label :: "pystr option"
  tup_color :: "pystr option"

definition valid_tag_create :: "tag_create \<Rightarrow> bool" where
  "valid_tag_create c \<longleftrightarrow> length_in 1 64 (tcr_slug c) \<and> length_in 1 64 (tcr_label c) \<and> fits 16 (tcr_color c)"

definition list_tags :: "db \<Rightarrow> tag list" where
  "list_tags d = sort_key label (tags d)"

definition create_tag :: "unicode \<Rightarrow> tag_create \<Rightarrow> tag eff" where
  "create_tag U c w =
     (if \<not> valid_tag_create c then (Inl UNPROCESSABLE, w)
      else (case slugify U (tcr_slug c) of
              Inl e \<Rightarrow> (Inl e, w)
            | Inr sl \<Rightarrow>
                let d = wdb w;
                    t = \<lparr>tag_id = next_id d, slug = sl, label = tcr_label c, color = tcr_color c,
                         tag_created_at = wclock w\<rparr>
                in if sl \<in> slug ` set (tags d) then (Inl (HTTPException 409 (lit ''slug already exists'')), w)
                   else (Inr t, w\<lparr>wdb := d\<lparr>tags := tadd t (tags d), next_id := next_id d + 1\<rparr>\<rparr>)))"

definition update_tag :: "int \<Rightarrow> tag_update \<Rightarrow> tag eff" where
  "update_tag tid u w =
     (case tget tag_id (tags (wdb w)) tid of
        None \<Rightarrow> (Inl (HTTPException 404 (lit ''tag not found'')), w)
      | Some t \<Rightarrow>
          let t1 = (case tup_label u of None \<Rightarrow> t | Some l \<Rightarrow> t\<lparr>label := l\<rparr>);
              t2 = (case tup_color u of None \<Rightarrow> t1 | Some c \<Rightarrow> t1\<lparr>color := Some c\<rparr>)
          in if \<not> fits 64 (Some (label t2)) \<or> \<not> fits 16 (color t2) then (Inl DataError, w)
             else (Inr t2, w\<lparr>wdb := (wdb w)\<lparr>tags := tput tag_id t2 (tags (wdb w))\<rparr>\<rparr>))"

text \<open>\<open>array_remove\<close> on the posts that hold the tag; the statement also stamps those rows.\<close>

definition drop_tag :: "time \<Rightarrow> int \<Rightarrow> post \<Rightarrow> post" where
  "drop_tag now tid p =
     (if tid \<in> set (tag_ids p) then p\<lparr>tag_ids := removeAll tid (tag_ids p), updated_at := now\<rparr> else p)"

definition delete_tag :: "int \<Rightarrow> unit eff" where
  "delete_tag tid w =
     (case tget tag_id (tags (wdb w)) tid of
        None \<Rightarrow> (Inl (HTTPException 404 (lit ''tag not found'')), w)
      | Some t \<Rightarrow>
          (Inr (), w\<lparr>wdb := (wdb w)\<lparr>posts := map (drop_tag (wclock w) tid) (posts (wdb w)),
               tags := tdel tag_id tid (tags (wdb w)),
               source_channel_tags := filter (\<lambda>l. sct_tag_id l \<noteq> tid) (source_channel_tags (wdb w))\<rparr>\<rparr>))"

definition count_tags :: "db \<Rightarrow> nat" where
  "count_tags d = length (tags d)"

section \<open>Templates\<close>

record template_create =
  tpc_name :: pystr
  tpc_body :: pystr

record template_update =
  tpu_name :: "pystr option"
  tpu_body :: "pystr option"

definition list_templates :: "db \<Rightarrow> template list" where
  "list_templates d = sort_key template_name (templates d)"

definition create_template :: "template_create \<Rightarrow> template eff" where
  "create_template c w =
     (if \<not> length_in 1 128 (tpc_name c) then (Inl UNPROCESSABLE, w)
      else let d = wdb w;
               t = \<lparr>template_id = next_id d, template_name = tpc_name c, template_body = tpc_body c,
                    template_created_at = wclock w\<rparr>
           in (Inr t, w\<lparr>wdb := d\<lparr>templates := tadd t (templates d), next_id := next_id d + 1\<rparr>\<rparr>))"

definition update_template :: "int \<Rightarrow> template_update \<Rightarrow> template eff" where
  "update_template tid u w =
     (case get_template (wdb w) tid of
        None \<Rightarrow> (Inl (HTTPException 404 (lit ''template not found'')), w)
      | Some t \<Rightarrow>
          let t1 = (case tpu_name u of None \<Rightarrow> t | Some n \<Rightarrow> t\<lparr>template_name := n\<rparr>);
              t2 = (case tpu_body u of None \<Rightarrow> t1 | Some b \<Rightarrow> t1\<lparr>template_body := b\<rparr>)
          in if \<not> fits 128 (Some (template_name t2)) then (Inl DataError, w)
             else (Inr t2, w\<lparr>wdb := (wdb w)\<lparr>templates := tput template_id t2 (templates (wdb w))\<rparr>\<rparr>))"

text \<open>The foreign key of the channels is \<open>ON DELETE SET NULL\<close>.\<close>

definition unset_template :: "int \<Rightarrow> source_channel \<Rightarrow> source_channel" where
  "unset_template tid ch =
     (if normalization_template_id ch = Some tid then ch\<lparr>normalization_template_id := None\<rparr> else ch)"

definition delete_template :: "int \<Rightarrow> unit eff" where
  "delete_template tid w =
     (case get_template (wdb w) tid of
        None \<Rightarrow> (Inl (HTTPException 404 (lit ''template not found'')), w)
      | Some t \<Rightarrow>
          (Inr (), w\<lparr>wdb := (wdb w)\<lparr>templates := tdel template_id tid (templates (wdb w)),
               source_channels := map (unset_template tid) (source_channels (wdb w))\<rparr>\<rparr>))"

section \<open>Facts about slugs\<close>

definition slug_text :: "pystr \<Rightarrow> bool" where
  "slug_text s \<longleftrightarrow> (\<forall>c \<in> set s. slug_char c \<or> c = 45)"

fun no_double_dash :: "pystr \<Rightarrow> bool" where
  "no_double_dash (c # d # s) = (\<not> (c = 45 \<and> d = 45) \<and> no_double_dash (d # s))"
| "no_double_dash s = True"

lemma dash_runs_text: "slug_text (dash_runs b s)"
  by (induction s arbitrary: b) (auto simp: slug_text_def)

lemma dash_not_slug [simp]: "\<not> slug_char 45"
  by (simp add: slug_char_def is_lower_def is_digit_def)

lemma dash_runs_True_hd: "dash_runs True s = [] \<or> slug_char (hd (dash_runs True s))"
  by (induction s) auto

lemma dash_runs_no_double: "no_double_dash (dash_runs b s)"
proof (induction s arbitrary: b)
  case (Cons c s)
  show ?case
  proof (cases "slug_char c")
    case True
    with Cons [of False] show ?thesis by (cases "dash_runs False s") auto
  next
    case False
    with Cons [of True] dash_runs_True_hd [of s] show ?thesis by (cases "dash_runs True s") auto
  qed
qed simp

lemma no_double_dash_tl: "no_double_dash (a @ s) \<Longrightarrow> no_double_dash s"
proof (induction a)
  case (Cons c a)
  then show ?case by (cases "a @ s") auto
qed simp

lemma no_double_dash_butlast: "no_double_dash (s @ b) \<Longrightarrow> no_double_dash s"
  by (induction s rule: no_double_dash.induct) auto

lemma dash_runs_id: "slug_text s \<Longrightarrow> no_double_dash s \<Longrightarrow> b \<longrightarrow> s = [] \<or> hd s \<noteq> 45 \<Longrightarrow> dash_runs b s = s"
proof (induction s arbitrary: b)
  case (Cons c s)
  have t: "slug_text s" "no_double_dash s" using Cons.prems no_double_dash_tl [of "[c]" s] by (auto simp: slug_text_def)
  show ?case
  proof (cases "slug_char c")
    case True
    with Cons.IH [OF t, of False] show ?thesis by simp
  next
    case False
    then have "c = 45" using Cons.prems(1) by (simp add: slug_text_def)
    then have "s = [] \<or> hd s \<noteq> 45" "\<not> b" using Cons.prems by (cases s; auto)+
    with Cons.IH [OF t, of True] \<open>c = 45\<close> show ?thesis by simp
  qed
qed simp

lemma strip_chars_decomp: "\<exists>l r. s = l @ strip_chars cs s @ r"
proof -
  define m where "m = dropWhile (\<lambda>c. c \<in> set cs) s"
  have "s = takeWhile (\<lambda>c. c \<in> set cs) s @ m" by (simp add: m_def)
  moreover have "m = strip_chars cs s @ rev (takeWhile (\<lambda>c. c \<in> set cs) (rev m))"
    by (simp add: strip_chars_def m_def [symmetric])
      (metis rev_append rev_rev_ident takeWhile_dropWhile_id)
  ultimately show ?thesis by metis
qed

lemma strip_chars_hd: "strip_chars cs s \<noteq> [] \<Longrightarrow> hd (strip_chars cs s) \<notin> set cs"
proof -
  assume ne: "strip_chars cs s \<noteq> []"
  define m where "m = dropWhile (\<lambda>c. c \<in> set cs) s"
  have m: "m = strip_chars cs s @ rev (takeWhile (\<lambda>c. c \<in> set cs) (rev m))"
    by (simp add: strip_chars_def m_def [symmetric])
      (metis rev_append rev_rev_ident takeWhile_dropWhile_id)
  then have "hd m = hd (strip_chars cs s)" "m \<noteq> []" using ne by (metis hd_append2, metis append_is_Nil_conv)
  then show ?thesis using hd_dropWhile [of "\<lambda>c. c \<in> set cs" s] by (metis m_def)
qed

lemma strip_chars_id: "s = [] \<or> hd s \<notin> set cs \<and> last s \<notin> set cs \<Longrightarrow> strip_chars cs s = s"
proof (cases "s = []")
  case False
  moreover assume "s = [] \<or> hd s \<notin> set cs \<and> last s \<notin> set cs"
  ultimately have h: "hd s \<notin> set cs" "hd (rev s) \<notin> set cs" "rev s \<noteq> []" by (simp_all add: hd_rev)
  have d: "hd t \<notin> set cs \<Longrightarrow> t \<noteq> [] \<Longrightarrow> dropWhile (\<lambda>c. c \<in> set cs) t = t" for t :: pystr
    by (cases t) auto
  show ?thesis using d [of s] d [of "rev s"] h False by (simp add: strip_chars_def)
qed (simp add: strip_chars_def)

lemma slugify_Inr:
  assumes "slugify U v = Inr s"
  shows "s \<noteq> [] \<and> length s \<le> 64 \<and> slug_text s \<and> hd s \<noteq> 45 \<and> no_double_dash s"
proof -
  define r where "r = dash_runs False (py_lower U v)"
  define t where "t = strip_chars [45] r"
  have t: "t \<noteq> []" "s = take 64 t" using assms by (auto simp: slugify_def Let_def t_def r_def split: if_splits)
  obtain l e where le: "r = l @ t @ e" using strip_chars_decomp [of r "[45]"] unfolding t_def by blast
  then have "slug_text t" using dash_runs_text [of False "py_lower U v"] by (auto simp: slug_text_def r_def)
  moreover have "no_double_dash t"
    using dash_runs_no_double [of False "py_lower U v"] le no_double_dash_tl [of l "t @ e"] no_double_dash_butlast [of t e]
    by (simp add: r_def)
  moreover have "no_double_dash (take 64 t @ drop 64 t) \<Longrightarrow> no_double_dash s"
    using no_double_dash_butlast [of "take 64 t"] t(2) by blast
  moreover have "hd s = hd t" "s \<noteq> []" using t by (cases t; simp)+
  moreover have "hd t \<noteq> 45" using strip_chars_hd [of "[45]" r] t(1) by (simp add: t_def)
  ultimately show ?thesis using t(2) by (auto simp: slug_text_def dest: in_set_takeD)
qed

lemma py_lower_slug: "slug_text s \<Longrightarrow> py_lower U s = s"
proof -
  assume s: "slug_text s"
  then have "\<forall>c \<in> set s. c < 128 \<and> ascii_lower c = c"
    by (auto simp: slug_text_def slug_char_def is_lower_def is_digit_def ascii_lower_def is_upper_def)
  then show ?thesis by (simp add: py_lower_def map_idI)
qed

section \<open>Properties\<close>

text \<open>
  a slug is made of lower-case letters, digits and single dashes, does not start with a dash, has
  at most 64 characters, and is its own slug unless the cut left a dash at its end.
\<close>

theorem slugify_canonical:
  assumes "slugify U v = Inr s"
  shows "s \<noteq> [] \<and> length s \<le> 64 \<and> slug_text s \<and> hd s \<noteq> 45 \<and> no_double_dash s \<and>
    (last s = 45 \<or> slugify U s = Inr s)"
proof -
  note s = slugify_Inr [OF assms]
  have "slugify U s = Inr s" if "last s \<noteq> 45"
  proof -
    have "dash_runs False (py_lower U s) = s" using s by (simp add: py_lower_slug dash_runs_id)
    moreover have "strip_chars [45] s = s" using s that by (simp add: strip_chars_id)
    ultimately show ?thesis using s by (simp add: slugify_def)
  qed
  with s show ?thesis by blast
qed

theorem slugify_canonical_witness:
  "slug_text (lit ''ai-ml-2024'') \<and> slugify (uni sample_env) (lit ''  AI & ML: 2024!'') = Inr (lit ''ai-ml-2024'')"
proof -
  have e: "slugify (uni sample_env) (lit ''  AI & ML: 2024!'') = Inr (lit ''ai-ml-2024'')" by code_simp
  show ?thesis using slugify_canonical [OF e] e by blast
qed

text \<open>
  deleting a tag takes it out of every post and keeps the other tags of the post in order, but
  leaves it among the default tags of the channels, from where later posts get it again.
\<close>

theorem delete_tag_spec:
  assumes "delete_tag tid w = (Inr (), w1)"
  shows "tget tag_id (tags (wdb w1)) tid = None \<and>
    map tag_ids (posts (wdb w1)) = map (\<lambda>p. removeAll tid (tag_ids p)) (posts (wdb w)) \<and>
    tid \<notin> sct_tag_id ` set (source_channel_tags (wdb w1)) \<and>
    source_channels (wdb w1) = source_channels (wdb w)"
  using assms
  by (auto simp: delete_tag_def table_simps drop_tag_def removeAll_id split: option.splits)

definition tagged_world :: world where
  "tagged_world = (sample_world [sample_post\<lparr>tag_ids := [5, 6]\<rparr>] [])\<lparr>wdb :=
     (sample_db [sample_post\<lparr>tag_ids := [5, 6]\<rparr>] [])\<lparr>tags :=
        [\<lparr>tag_id = 5, slug = lit ''a'', label = lit ''A'', color = None, tag_created_at = 0\<rparr>]\<rparr>\<rparr>"

theorem delete_tag_spec_witness:
  "map tag_ids (posts (wdb (snd (delete_tag 5 tagged_world)))) = [[6]] \<and>
   map default_tag_ids (source_channels (wdb (snd (delete_tag 5 tagged_world)))) = [[5]]"
proof -
  have "fst (delete_tag 5 tagged_world) = Inr ()" by code_simp
  then have "delete_tag 5 tagged_world = (Inr (), snd (delete_tag 5 tagged_world))" by (simp add: prod_eq_iff)
  note spec = delete_tag_spec [OF this]
  have "map (\<lambda>p. removeAll 5 (tag_ids p)) (posts (wdb tagged_world)) = [[6]]"
    "map default_tag_ids (source_channels (wdb tagged_world)) = [[5]]" by code_simp+
  with spec show ?thesis by metis
qed

text \<open>
  deleting a template moves exactly the channels that used it to the default template; what the
  other channels render with is unchanged.
\<close>

theorem delete_template_spec:
  assumes "delete_template tid w = (Inr (), w1)" and "ch \<in> set (source_channels (wdb w))" and "tid \<noteq> 0"
  shows "unset_template tid ch \<in> set (source_channels (wdb w1)) \<and>
    channel_template (wdb w1) (unset_template tid ch) =
      (if normalization_template_id ch = Some tid then DEFAULT_TEMPLATE_BODY else channel_template (wdb w) ch)"
  using assms
  by (auto simp: delete_template_def unset_template_def channel_template_def truthy_int_def table_simps
      split: option.splits)

definition templated_world :: world where
  "templated_world = (sample_world [] [])\<lparr>wdb := (sample_db [] [])\<lparr>
     templates := [\<lparr>template_id = 4, template_name = lit ''T'', template_body = lit ''x'', template_created_at = 0\<rparr>],
     source_channels := [sample_channel\<lparr>normalization_template_id := Some 4\<rparr>]\<rparr>\<rparr>"

theorem delete_template_spec_witness:
  "channel_template (wdb (snd (delete_template 4 templated_world)))
     (unset_template 4 (sample_channel\<lparr>normalization_template_id := Some 4\<rparr>)) = DEFAULT_TEMPLATE_BODY"
proof -
  have "fst (delete_template 4 templated_world) = Inr ()" by code_simp
  then have d: "delete_template 4 templated_world = (Inr (), snd (delete_template 4 templated_world))"
    by (simp add: prod_eq_iff)
  have "sample_channel\<lparr>normalization_template_id := Some 4\<rparr> \<in> set (source_channels (wdb templated_world))"
    by (simp add: templated_world_def)
  from delete_template_spec [OF d this] show ?thesis by simp
qed

end
