(* ===== verification/Channels.thy ===== *)
theory Channels
  imports Vocabulary
begin

text \<open>
  The source channels (\<open>api/routers/source_channels.py\<close>) and their AI settings
  (\<open>api/routers/ai_settings.py\<close>): creation, partial updates, the default-tag links, guarded
  deletion, and the dry run of a transformation.
\<close>

section \<open>Partial updates\<close>

text \<open>
  A field of an update is absent (\<open>None\<close>), or set, to \<open>null\<close> or to a value. A column that
  is not nullable refuses \<open>null\<close> when the row is flushed.
\<close>

definition set_field :: "'a option \<Rightarrow> (('a \<Rightarrow> 'a) \<Rightarrow> 'r \<Rightarrow> 'r) \<Rightarrow> 'r \<Rightarrow> 'r" where
  "set_field v upd r = (case v of None \<Rightarrow> r | Some x \<Rightarrow> upd (\<lambda>_. x) r)"

definition set_required :: "'a option option \<Rightarrow> (('a \<Rightarrow> 'a) \<Rightarrow> 'r \<Rightarrow> 'r) \<Rightarrow> 'r \<Rightarrow> 'r" where
  "set_required v upd r = (case v of Some (Some x) \<Rightarrow> upd (\<lambda>_. x) r | _ \<Rightarrow> r)"

definition nulled :: "'a option option \<Rightarrow> bool" where
  "nulled v \<longleftrightarrow> (case v of Some None \<Rightarrow> True | _ \<Rightarrow> False)"

record ai_update =
  up_ai_enabled :: "bool option option"
  up_ai_mode :: "ai_mode option option"
  up_ai_target_language :: "pystr option option"
  up_ai_tone_prompt :: "pystr option option"
  up_ai_custom_system_prompt :: "pystr option option"
  up_watermark_enabled :: "bool option option"
  up_watermark_text :: "pystr option option"
  up_strip_source_tags :: "bool option option"

definition apply_ai_update :: "ai_update \<Rightarrow> source_channel \<Rightarrow> source_channel" where
  "apply_ai_update u ch =
     set_required (up_strip_source_tags u) strip_source_tags_update
     (set_field (up_watermark_text u) watermark_text_update
     (set_required (up_watermark_enabled u) watermark_enabled_update
     (set_field (up_ai_custom_system_prompt u) ai_custom_system_prompt_update
     (set_field (up_ai_tone_prompt u) ai_tone_prompt_update
     (set_field (up_ai_target_language u) ai_target_language_update
     (set_required (up_ai_mode u) channel_ai_mode_update
     (set_required (up_ai_enabled u) ai_enabled_update ch)))))))"

definition ai_nulls :: "ai_update \<Rightarrow> bool" where
  "ai_nulls u \<longleftrightarrow> nulled (up_ai_enabled u) \<or> nulled (up_ai_mode u) \<or> nulled (up_watermark_enabled u)
     \<or> nulled (up_strip_source_tags u)"

record channel_update =
  up_title :: "pystr option option"
  up_username :: "pystr option option"
  up_ingestion_enabled :: "bool option option"
  up_policy :: "policy option option"
  up_template :: "int option option"
  up_max_media :: "int option option"
  up_source_label :: "pystr option option"
  up_ai :: ai_update
  up_default_tag_ids :: "int list option option"

definition apply_channel_update :: "channel_update \<Rightarrow> source_channel \<Rightarrow> source_channel" where
  "apply_channel_update u ch =
     apply_ai_update (up_ai u)
     (set_field (up_source_label u) source_label_update
     (set_required (up_max_media u) max_media_size_bytes_update
     (set_field (up_template u) normalization_template_id_update
     (set_required (up_policy u) channel_policy_update
     (set_required (up_ingestion_enabled u) ingestion_enabled_update
     (set_field (up_username u) channel_username_update
     (set_required (up_title u) title_update ch)))))))"

definition channel_nulls :: "channel_update \<Rightarrow> bool" where
  "channel_nulls u \<longleftrightarrow> nulled (up_title u) \<or> nulled (up_ingestion_enabled u) \<or> nulled (up_policy u)
     \<or> nulled (up_max_media u) \<or> ai_nulls (up_ai u)"

section \<open>Constraints of the table\<close>

definition channel_fits :: "source_channel \<Rightarrow> bool" where
  "channel_fits ch \<longleftrightarrow> fits 256 (Some (title ch)) \<and> fits 128 (channel_username ch) \<and> fits 64 (source_label ch)
     \<and> fits 16 (ai_target_language ch) \<and> bigint (Some (telegram_channel_id ch))
     \<and> bigint (Some (max_media_size_bytes ch)) \<and> bigint (normalization_template_id ch)"

definition template_exists :: "db \<Rightarrow> source_channel \<Rightarrow> bool" where
  "template_exists d ch \<longleftrightarrow> (case normalization_template_id ch of None \<Rightarrow> True | Some t \<Rightarrow> get_template d t \<noteq> None)"

definition flush_channel :: "db \<Rightarrow> source_channel \<Rightarrow> unit result" where
  "flush_channel d ch =
     (if \<not> channel_fits ch then Inl DataError
      else if list_ex (\<lambda>c. channel_id c \<noteq> channel_id ch \<and> telegram_channel_id c = telegram_channel_id ch)
                (source_channels d) \<or> \<not> template_exists d ch
      then Inl IntegrityError else Inr ())"

section \<open>Default-tag links\<close>

definition unknown_tags :: "db \<Rightarrow> int list \<Rightarrow> int list" where
  "unknown_tags d ids = sort (remdups (filter (\<lambda>i. i \<notin> tag_id ` set (tags d)) ids))"

definition int_list_repr :: "int list \<Rightarrow> pystr" where
  "int_list_repr xs = lit ''['' @ join (lit '', '') (map str_int xs) @ lit '']''"

text \<open>
  The links are replaced; an unknown tag is a 400, and a repeated one violates the primary key of the
  join table when the links are flushed.
\<close>

definition set_default_tag_links :: "db \<Rightarrow> int \<Rightarrow> int list \<Rightarrow> source_channel_tag list result" where
  "set_default_tag_links d cid ids =
     (let rest = filter (\<lambda>l. sct_channel_id l \<noteq> cid) (source_channel_tags d)
      in if ids = [] then Inr rest
         else if unknown_tags d ids \<noteq> []
         then Inl (HTTPException 400 (lit ''unknown tag ids: '' @ int_list_repr (unknown_tags d ids)))
         else if \<not> distinct ids then Inl IntegrityError
         else Inr (rest @ map (\<lambda>i. \<lparr>sct_channel_id = cid, sct_tag_id = i\<rparr>) ids))"

section \<open>Endpoints\<close>

record channel_create =
  cc_telegram_channel_id :: int
  cc_title :: pystr
  cc_username :: "pystr option"
  cc_ingestion_enabled :: bool
  cc_policy :: policy
  cc_default_tag_ids :: "int list"
  cc_template :: "int option"
  cc_max_media :: "int option"
  cc_source_label :: "pystr option"
  cc_ai_enabled :: bool
  cc_ai_mode :: ai_mode
  cc_ai_target_language :: "pystr option"
  cc_ai_tone_prompt :: "pystr option"
  cc_ai_custom_system_prompt :: "pystr option"
  cc_watermark_enabled :: bool
  cc_watermark_text :: "pystr option"
  cc_strip_source_tags :: bool

definition list_channels :: "db \<Rightarrow> source_channel list" where
  "list_channels d = sort_key title (source_channels d)"

definition created_channel :: "settings \<Rightarrow> int \<Rightarrow> time \<Rightarrow> channel_create \<Rightarrow> source_channel" where
  "created_channel s cid now c = \<lparr>
     channel_id = cid, telegram_channel_id = cc_telegram_channel_id c, title = cc_title c,
     channel_username = cc_username c, ingestion_enabled = cc_ingestion_enabled c,
     channel_policy = cc_policy c, default_tag_ids = cc_default_tag_ids c,
     normalization_template_id = cc_template c,
     max_media_size_bytes = (if truthy_int (cc_max_media c) then the (cc_max_media c) else media_max_size_default s),
     source_label = cc_source_label c, ai_enabled = cc_ai_enabled c, channel_ai_mode = cc_ai_mode c,
     ai_target_language = cc_ai_target_language c, ai_tone_prompt = cc_ai_tone_prompt c,
     ai_custom_system_prompt = cc_ai_custom_system_prompt c, watermark_enabled = cc_watermark_enabled c,
     watermark_text = cc_watermark_text c, strip_source_tags = cc_strip_source_tags c,
     channel_created_at = now\<rparr>"

definition create_channel :: "settings \<Rightarrow> channel_create \<Rightarrow> source_channel eff" where
  "create_channel s c w =
     (if length (cc_title c) > 256 then (Inl UNPROCESSABLE, w)
      else
        let d = wdb w; ch = created_channel s (next_id d) (wclock w) c
        in (case flush_channel d ch of
              Inl IntegrityError \<Rightarrow> (Inl (HTTPException 409 (lit ''channel already exists'')), w)
            | Inl e \<Rightarrow> (Inl e, w)
            | Inr u \<Rightarrow>
                (case set_default_tag_links d (channel_id ch) (cc_default_tag_ids c) of
                   Inl e \<Rightarrow> (Inl e, w)
                 | Inr links \<Rightarrow>
                     (Inr ch, w\<lparr>wdb := d\<lparr>source_channels := tadd ch (source_channels d),
                          source_channel_tags := links, next_id := next_id d + 1\<rparr>\<rparr>))))"

definition update_channel :: "int \<Rightarrow> channel_update \<Rightarrow> source_channel eff" where
  "update_channel cid u w =
     (let d = wdb w in
      case get_channel d cid of
        None \<Rightarrow> (Inl (HTTPException 404 (lit ''source channel not found'')), w)
      | Some ch0 \<Rightarrow>
          let ch1 = apply_channel_update u ch0;
              ids = (case up_default_tag_ids u of Some (Some ids) \<Rightarrow> Some ids | _ \<Rightarrow> None);
              ch = (case ids of None \<Rightarrow> ch1 | Some xs \<Rightarrow> ch1\<lparr>default_tag_ids := xs\<rparr>)
          in if \<not> channel_fits ch then (Inl DataError, w)
             else if channel_nulls u then (Inl IntegrityError, w)
             else (case flush_channel d ch of
                     Inl e \<Rightarrow> (Inl e, w)
                   | Inr v \<Rightarrow>
                       (case (case ids of None \<Rightarrow> Inr (source_channel_tags d)
                                | Some xs \<Rightarrow> set_default_tag_links d cid xs) of
                          Inl e \<Rightarrow> (Inl e, w)
                        | Inr links \<Rightarrow>
                            (Inr ch, w\<lparr>wdb := d\<lparr>source_channels := tput channel_id ch (source_channels d),
                                 source_channel_tags := links\<rparr>\<rparr>))))"

definition TERMINAL_STATES :: "post_state set" where
  "TERMINAL_STATES = {Published, Rejected}"

definition active_count :: "db \<Rightarrow> int \<Rightarrow> nat" where
  "active_count d cid = length (filter (\<lambda>p. source_channel_id p = cid \<and> post_state p \<notin> TERMINAL_STATES) (posts d))"

text \<open>The row goes, and with it by \<open>ON DELETE CASCADE\<close> its posts, their events and its links.\<close>

definition cascade_channel :: "int \<Rightarrow> db \<Rightarrow> db" where
  "cascade_channel cid d =
     (let gone = map post_id (filter (\<lambda>p. source_channel_id p = cid) (posts d))
      in d\<lparr>source_channels := tdel channel_id cid (source_channels d),
           posts := filter (\<lambda>p. source_channel_id p \<noteq> cid) (posts d),
           post_events := filter (\<lambda>e. event_post_id e \<notin> set gone) (post_events d),
           source_channel_tags := filter (\<lambda>l. sct_channel_id l \<noteq> cid) (source_channel_tags d)\<rparr>)"

definition delete_channel :: "int \<Rightarrow> unit eff" where
  "delete_channel cid w =
     (case get_channel (wdb w) cid of
        None \<Rightarrow> (Inl (HTTPException 404 (lit ''source channel not found'')), w)
      | Some ch \<Rightarrow>
          if active_count (wdb w) cid \<noteq> 0
          then (Inl (HTTPException 409 (lit ''channel has '' @ str_int (int (active_count (wdb w) cid))
                  @ lit '' active post(s) (not yet published or rejected). Reject or wait for them to complete before deleting the channel.'')), w)
          else (Inr (), w\<lparr>wdb := cascade_channel cid (wdb w)\<rparr>))"

section \<open>AI settings\<close>

definition get_ai_settings :: "db \<Rightarrow> int \<Rightarrow> source_channel result" where
  "get_ai_settings d cid = (case get_channel d cid of
     None \<Rightarrow> Inl (HTTPException 404 (lit ''source channel not found'')) | Some ch \<Rightarrow> Inr ch)"

definition update_ai_settings :: "int \<Rightarrow> ai_update \<Rightarrow> source_channel eff" where
  "update_ai_settings cid u w =
     (case get_ai_settings (wdb w) cid of
        Inl e \<Rightarrow> (Inl e, w)
      | Inr ch0 \<Rightarrow>
          let ch = apply_ai_update u ch0
          in if \<not> channel_fits ch then (Inl DataError, w)
             else if ai_nulls u then (Inl IntegrityError, w)
             else (Inr ch, w\<lparr>wdb := (wdb w)\<lparr>source_channels := tput channel_id ch (source_channels (wdb w))\<rparr>\<rparr>))"

record ai_test =
  at_text :: pystr
  at_mode :: ai_mode
  at_target_language :: "pystr option"
  at_tone_prompt :: "pystr option"
  at_custom_system_prompt :: "pystr option"

definition override :: "pystr option \<Rightarrow> pystr option \<Rightarrow> pystr option" where
  "override x dflt = (if truthy x then x else dflt)"

definition test_ai_transform :: "env \<Rightarrow> db \<Rightarrow> int \<Rightarrow> ai_test \<Rightarrow> transform_result result" where
  "test_ai_transform E d cid r =
     (if \<not> length_in 1 4000 (at_text r) then Inl UNPROCESSABLE
      else if \<not> global_ai_enabled (cfg E)
      then Inl (HTTPException 400 (lit ''AI transformation is globally disabled''))
      else if ai_api_key (cfg E) = [] then Inl (HTTPException 400 (lit ''AI_API_KEY is not configured''))
      else (case get_ai_settings d cid of
              Inl e \<Rightarrow> Inl e
            | Inr ch \<Rightarrow>
                (case transform_text (cfg E) (openai E) (at_text r) (at_mode r)
                        (override (at_target_language r) (ai_target_language ch))
                        (override (at_tone_prompt r) (ai_tone_prompt ch))
                        (override (at_custom_system_prompt r) (ai_custom_system_prompt ch)) None None None of
                   Inl (AITransformError m) \<Rightarrow> Inl (HTTPException 502 m)
                 | Inl e \<Rightarrow> Inl e
                 | Inr t \<Rightarrow> Inr t)))"

section \<open>Facts\<close>

definition links_of :: "db \<Rightarrow> int \<Rightarrow> int list" where
  "links_of d cid = map sct_tag_id (filter (\<lambda>l. sct_channel_id l = cid) (source_channel_tags d))"

text \<open>The join table mirrors the arrays of default tags.\<close>

definition links_mirror :: "db \<Rightarrow> bool" where
  "links_mirror d \<longleftrightarrow> (\<forall>ch \<in> set (source_channels d). links_of d (channel_id ch) = default_tag_ids ch)"

lemma unknown_tags_Nil: "unknown_tags d ids = [] \<longleftrightarrow> set ids \<subseteq> tag_id ` set (tags d)"
proof -
  have "set (unknown_tags d ids) = set ids - tag_id ` set (tags d)" by (auto simp: unknown_tags_def)
  then show ?thesis by (metis Diff_eq_empty_iff set_empty)
qed

lemma set_links_own:
  assumes "set_default_tag_links d cid ids = Inr links"
  shows "map sct_tag_id (filter (\<lambda>l. sct_channel_id l = cid) links) = ids"
    and "k \<noteq> cid \<Longrightarrow> filter (\<lambda>l. sct_channel_id l = k) links = filter (\<lambda>l. sct_channel_id l = k) (source_channel_tags d)"
    and "set ids \<subseteq> tag_id ` set (tags d)"
proof -
  have f: "filter (\<lambda>l. sct_channel_id l = k) (filter (\<lambda>l. sct_channel_id l \<noteq> cid) xs)
      = (if k = cid then [] else filter (\<lambda>l. sct_channel_id l = k) xs)" for k xs
    by (induction xs) auto
  have g: "filter (\<lambda>l. sct_channel_id l = k) (map (\<lambda>i. \<lparr>sct_channel_id = cid, sct_tag_id = i\<rparr>) xs)
      = (if k = cid then map (\<lambda>i. \<lparr>sct_channel_id = cid, sct_tag_id = i\<rparr>) xs else [])" for k xs
    by (induction xs) auto
  have m: "map sct_tag_id (map (\<lambda>i. \<lparr>sct_channel_id = cid, sct_tag_id = i\<rparr>) xs) = xs" for xs
    by (simp add: o_def)
  note defs = set_default_tag_links_def Let_def
  show "map sct_tag_id (filter (\<lambda>l. sct_channel_id l = cid) links) = ids"
    using assms m by (auto simp: defs f g simp del: map_map filter_filter split: if_splits)
  show "k \<noteq> cid \<Longrightarrow> filter (\<lambda>l. sct_channel_id l = k) links = filter (\<lambda>l. sct_channel_id l = k) (source_channel_tags d)"
    using assms by (auto simp: defs f g simp del: filter_filter split: if_splits)
  show "set ids \<subseteq> tag_id ` set (tags d)"
    using assms by (simp add: defs unknown_tags_Nil split: if_splits)
qed

text \<open>A column that no updater touches keeps its value.\<close>

lemma set_field_keep: "(\<And>f r. g (upd f r) = g r) \<Longrightarrow> g (set_field v upd r) = g r"
  by (simp add: set_field_def split: option.split)

lemma set_required_keep: "(\<And>f r. g (upd f r) = g r) \<Longrightarrow> g (set_required v upd r) = g r"
  by (simp add: set_required_def split: option.split)

lemmas keep_columns =
  set_field_keep [where g = channel_id] set_required_keep [where g = channel_id]
  set_field_keep [where g = default_tag_ids] set_required_keep [where g = default_tag_ids]
  set_field_keep [where g = telegram_channel_id] set_required_keep [where g = telegram_channel_id]
  set_field_keep [where g = normalization_template_id] set_required_keep [where g = normalization_template_id]

lemma apply_ai_update_frame [simp]:
  "channel_id (apply_ai_update u ch) = channel_id ch"
  "default_tag_ids (apply_ai_update u ch) = default_tag_ids ch"
  "telegram_channel_id (apply_ai_update u ch) = telegram_channel_id ch"
  "normalization_template_id (apply_ai_update u ch) = normalization_template_id ch"
  by (simp_all add: apply_ai_update_def keep_columns)

lemma apply_channel_update_frame [simp]:
  "channel_id (apply_channel_update u ch) = channel_id ch"
  "default_tag_ids (apply_channel_update u ch) = default_tag_ids ch"
  "telegram_channel_id (apply_channel_update u ch) = telegram_channel_id ch"
  by (simp_all add: apply_channel_update_def keep_columns)

text \<open>What a successful update has written.\<close>

lemma update_channel_Inr:
  assumes "update_channel cid u w = (Inr ch, w1)"
  shows "\<exists>ch0 links. get_channel (wdb w) cid = Some ch0 \<and> channel_id ch = cid \<and>
    wdb w1 = (wdb w)\<lparr>source_channels := tput channel_id ch (source_channels (wdb w)), source_channel_tags := links\<rparr> \<and>
    (case up_default_tag_ids u of
       Some (Some ids) \<Rightarrow> set_default_tag_links (wdb w) cid ids = Inr links \<and> default_tag_ids ch = ids
     | _ \<Rightarrow> links = source_channel_tags (wdb w) \<and> default_tag_ids ch = default_tag_ids ch0)"
proof -
  obtain ch0 where g: "get_channel (wdb w) cid = Some ch0"
    using assms by (auto simp: update_channel_def Let_def split: option.splits)
  have k: "channel_id ch0 = cid" using tget_key [OF g] .
  show ?thesis
    using assms g k by (auto simp: update_channel_def Let_def split: option.splits if_splits sum.splits)
qed

section \<open>Properties\<close>

text \<open>
  C27: a channel is deleted only when none of its posts is still on its way. The delete removes its
  posts, all published or rejected, with their events and links, and nothing of other channels.
\<close>

theorem delete_channel_spec:
  assumes "delete_channel cid w = (Inr (), w1)"
  shows "posts (wdb w1) = filter (\<lambda>p. source_channel_id p \<noteq> cid) (posts (wdb w)) \<and>
    set (map post_state (filter (\<lambda>p. source_channel_id p = cid) (posts (wdb w)))) \<subseteq> {Published, Rejected} \<and>
    event_post_id ` set (post_events (wdb w1)) \<inter> post_id ` {p \<in> set (posts (wdb w)). source_channel_id p = cid} = {} \<and>
    links_of (wdb w1) cid = [] \<and> get_channel (wdb w1) cid = None \<and> dedupe_rows (wdb w1) = dedupe_rows (wdb w)"
proof -
  have w1: "w1 = w\<lparr>wdb := cascade_channel cid (wdb w)\<rparr>" "active_count (wdb w) cid = 0"
    using assms by (auto simp: delete_channel_def split: option.splits if_splits)
  have "set (map post_state (filter (\<lambda>p. source_channel_id p = cid) (posts (wdb w)))) \<subseteq> {Published, Rejected}"
    using w1(2) by (auto simp: active_count_def TERMINAL_STATES_def filter_empty_conv)
  then show ?thesis
    by (auto simp: w1(1) cascade_channel_def Let_def links_of_def table_simps)
qed

definition finished_world :: world where
  "finished_world = sample_world [sample_post\<lparr>post_state := Published\<rparr>] []"

theorem delete_channel_spec_witness:
  "posts (wdb (snd (delete_channel 3 finished_world))) = [] \<and>
   get_channel (wdb (snd (delete_channel 3 finished_world))) 3 = None"
proof -
  have "fst (delete_channel 3 finished_world) = Inr ()" by code_simp
  then have d: "delete_channel 3 finished_world = (Inr (), snd (delete_channel 3 finished_world))"
    by (simp add: prod_eq_iff)
  have "filter (\<lambda>p. source_channel_id p \<noteq> 3) (posts (wdb finished_world)) = []"
    by (simp add: finished_world_def sample_defs)
  with delete_channel_spec [OF d] show ?thesis by metis
qed

text \<open>
  a successful update keeps the join table equal to the arrays of default tags, for the channel it
  changes and for all others, and every tag it stores exists.
\<close>

theorem update_channel_mirrors_tags:
  assumes "update_channel cid u w = (Inr ch, w1)" and "links_mirror (wdb w)"
  shows "links_mirror (wdb w1) \<and>
    (up_default_tag_ids u = Some (Some ids) \<longrightarrow>
       default_tag_ids ch = ids \<and> distinct ids \<and> set ids \<subseteq> tag_id ` set (tags (wdb w1)))"
proof -
  obtain ch0 links where g: "get_channel (wdb w) cid = Some ch0" "channel_id ch = cid"
    "wdb w1 = (wdb w)\<lparr>source_channels := tput channel_id ch (source_channels (wdb w)), source_channel_tags := links\<rparr>"
    and c: "case up_default_tag_ids u of
       Some (Some ids) \<Rightarrow> set_default_tag_links (wdb w) cid ids = Inr links \<and> default_tag_ids ch = ids
     | _ \<Rightarrow> links = source_channel_tags (wdb w) \<and> default_tag_ids ch = default_tag_ids ch0"
    using update_channel_Inr [OF assms(1)] by blast
  have ch0: "ch0 \<in> set (source_channels (wdb w))" "channel_id ch0 = cid"
    using g(1) tbl.get_in tget_key by fastforce+
  have own: "links_of (wdb w1) cid = default_tag_ids ch"
    and rest: "\<And>k. k \<noteq> cid \<Longrightarrow> links_of (wdb w1) k = links_of (wdb w) k"
    using c ch0 assms(2) set_links_own(1) [of "wdb w" cid _ links] set_links_own(2) [of "wdb w" cid _ links]
    by (auto simp: links_of_def g(3) links_mirror_def split: option.splits)
  have "links_mirror (wdb w1)"
  proof (unfold links_mirror_def, rule ballI)
    fix x assume "x \<in> set (source_channels (wdb w1))"
    then have "x = ch \<or> x \<in> set (source_channels (wdb w)) \<and> channel_id x \<noteq> cid"
      using tput_in_other [of x channel_id ch] g(2,3) by simp
    then show "links_of (wdb w1) (channel_id x) = default_tag_ids x"
      using own rest g(2) assms(2) by (auto simp: links_mirror_def)
  qed
  moreover have "up_default_tag_ids u = Some (Some ids) \<longrightarrow>
      default_tag_ids ch = ids \<and> distinct ids \<and> set ids \<subseteq> tag_id ` set (tags (wdb w1))"
    using c set_links_own(3) [of "wdb w" cid ids links] g(3)
    by (auto simp: set_default_tag_links_def Let_def split: if_splits)
  ultimately show ?thesis by blast
qed

definition no_ai_update :: ai_update where
  "no_ai_update = \<lparr>up_ai_enabled = None, up_ai_mode = None, up_ai_target_language = None, up_ai_tone_prompt = None,
     up_ai_custom_system_prompt = None, up_watermark_enabled = None, up_watermark_text = None,
     up_strip_source_tags = None\<rparr>"

definition ai_only :: "ai_update \<Rightarrow> channel_update" where
  "ai_only u = \<lparr>up_title = None, up_username = None, up_ingestion_enabled = None, up_policy = None,
     up_template = None, up_max_media = None, up_source_label = None, up_ai = u, up_default_tag_ids = None\<rparr>"

definition retag :: "int list \<Rightarrow> channel_update" where
  "retag ids = (ai_only no_ai_update)\<lparr>up_default_tag_ids := Some (Some ids)\<rparr>"

definition linked_world :: world where
  "linked_world = tagged_world\<lparr>wdb := (wdb tagged_world)\<lparr>source_channel_tags :=
     [\<lparr>sct_channel_id = 3, sct_tag_id = 5\<rparr>]\<rparr>\<rparr>"

theorem update_channel_mirrors_tags_witness:
  "links_mirror (wdb (snd (update_channel 3 (retag []) linked_world)))"
proof -
  have "isl (fst (update_channel 3 (retag []) linked_world)) = False" by code_simp
  then obtain ch where "fst (update_channel 3 (retag []) linked_world) = Inr ch"
    by (cases "fst (update_channel 3 (retag []) linked_world)") auto
  then have u: "update_channel 3 (retag []) linked_world = (Inr ch, snd (update_channel 3 (retag []) linked_world))"
    by (simp add: prod_eq_iff)
  have m: "links_mirror (wdb linked_world)" by code_simp
  show ?thesis using update_channel_mirrors_tags [OF u m] by blast
qed

text \<open>
  deleting a tag is the operation that breaks the mirror: the link goes, the default stays, and
  the next update that sends the channel's own defaults back is refused for an unknown tag.
\<close>

theorem delete_tag_breaks_mirror:
  "links_mirror (wdb linked_world) \<and> \<not> links_mirror (wdb (snd (delete_tag 5 linked_world))) \<and>
   (\<exists>ch. get_channel (wdb (snd (delete_tag 5 linked_world))) 3 = Some ch \<and>
      fst (update_channel 3 (retag (default_tag_ids ch)) (snd (delete_tag 5 linked_world)))
        = Inl (HTTPException 400 (lit ''unknown tag ids: [5]'')))"
proof (intro conjI exI)
  show "links_mirror (wdb linked_world)" by code_simp
  show "\<not> links_mirror (wdb (snd (delete_tag 5 linked_world)))" by code_simp
  show "get_channel (wdb (snd (delete_tag 5 linked_world))) 3 = Some sample_channel" by code_simp
  show "fst (update_channel 3 (retag (default_tag_ids sample_channel)) (snd (delete_tag 5 linked_world)))
      = Inl (HTTPException 400 (lit ''unknown tag ids: [5]''))" by code_simp
qed

text \<open>
  the AI endpoint is the channel endpoint restricted to the AI fields, on a channel whose other
  constraints hold.
\<close>

theorem ai_endpoint_is_channel_update:
  assumes "get_channel (wdb w) cid = Some ch" and "template_exists (wdb w) ch"
    and "\<forall>c \<in> set (source_channels (wdb w)). telegram_channel_id c = telegram_channel_id ch \<longrightarrow> channel_id c = cid"
  shows "update_ai_settings cid u w = update_channel cid (ai_only u) w"
proof -
  have ap: "apply_channel_update (ai_only u) ch = apply_ai_update u ch" for ch
    by (simp add: apply_channel_update_def ai_only_def set_field_def set_required_def)
  have nl: "channel_nulls (ai_only u) = ai_nulls u" by (simp add: channel_nulls_def ai_only_def nulled_def)
  have k: "channel_id ch = cid" using tget_key [OF assms(1)] .
  have fl: "flush_channel (wdb w) (apply_ai_update u ch) = (if channel_fits (apply_ai_update u ch) then Inr () else Inl DataError)"
    using assms(2,3) k by (auto simp: flush_channel_def template_exists_def list_ex_iff)
  have tg: "up_default_tag_ids (ai_only u) = None" by (simp add: ai_only_def)
  have rec: "d\<lparr>source_channels := x, source_channel_tags := source_channel_tags d\<rparr> = d\<lparr>source_channels := x\<rparr>" for d :: db and x
    by (cases d) simp
  show ?thesis
    using assms(1)
    by (simp add: update_ai_settings_def update_channel_def get_ai_settings_def Let_def ap nl fl tg rec)
qed

definition brand :: ai_update where
  "brand = no_ai_update\<lparr>up_watermark_enabled := Some (Some True), up_watermark_text := Some (Some (lit ''via us''))\<rparr>"

theorem ai_endpoint_is_channel_update_witness:
  "update_ai_settings 3 brand linked_world = update_channel 3 (ai_only brand) linked_world"
proof (rule ai_endpoint_is_channel_update)
  show "get_channel (wdb linked_world) 3 = Some sample_channel" by code_simp
  show "template_exists (wdb linked_world) sample_channel" by code_simp
  show "\<forall>c \<in> set (source_channels (wdb linked_world)).
      telegram_channel_id c = telegram_channel_id sample_channel \<longrightarrow> channel_id c = 3" by code_simp
qed

end
