(* ===== verification/Auth.thy ===== *)
theory Auth
  imports Security
begin

text \<open>
  The sign-in endpoints of \<open>api/auth.py\<close>. The request limit of the login endpoints is in \<open>Limits\<close>.
\<close>

record token_out =
  to_access :: pystr
  to_refresh :: pystr

record cookie =
  ck_key :: pystr
  ck_value :: pystr
  ck_httponly :: bool
  ck_secure :: bool
  ck_samesite :: pystr
  ck_max_age :: int
  ck_path :: pystr

definition REFRESH_COOKIE :: pystr where
  "REFRESH_COOKIE = lit ''refresh_token''"

definition authenticate :: "crypto \<Rightarrow> pystr \<Rightarrow> pystr \<Rightarrow> admin eff" where
  "authenticate C uname password w =
     (let refused = Inl (HTTPException 401 (lit ''Incorrect username or password''))
      in case List.find (\<lambda>a. username a = uname \<and> disabled_at a = None) (admins (wdb w)) of
           None \<Rightarrow> (refused, w)
         | Some a \<Rightarrow>
             (case verify_password C password (password_hash a) of
                Inl e \<Rightarrow> (Inl e, w)
              | Inr False \<Rightarrow> (refused, w)
              | Inr True \<Rightarrow>
                  if needs_rehash C (password_hash a)
                  then let a' = a\<lparr>password_hash := hash_password C (wclock w) password\<rparr>
                       in (Inr a', w\<lparr>wdb := (wdb w)\<lparr>admins := tput admin_id a' (admins (wdb w))\<rparr>\<rparr>)
                  else (Inr a, w)))"

definition tokens_of :: "crypto \<Rightarrow> settings \<Rightarrow> time \<Rightarrow> admin \<Rightarrow> token_out" where
  "tokens_of C s now a =
     \<lparr>to_access = create_access_token C s now (admin_id a) (username a) (admin_role a),
      to_refresh = create_refresh_token C s now (admin_id a) (username a) (admin_role a)\<rparr>"

definition refresh_cookie :: "settings \<Rightarrow> pystr \<Rightarrow> cookie" where
  "refresh_cookie s tok =
     \<lparr>ck_key = REFRESH_COOKIE, ck_value = tok, ck_httponly = True,
      ck_secure = (app_domain s \<notin> {lit ''localhost'', []}), ck_samesite = lit ''lax'',
      ck_max_age = refresh_token_ttl_days s * 86400, ck_path = lit ''/api/auth''\<rparr>"

text \<open>\<open>delete_cookie\<close> sets the cookie empty with an age of zero, on the same path.\<close>

definition cleared_cookie :: cookie where
  "cleared_cookie = \<lparr>ck_key = REFRESH_COOKIE, ck_value = [], ck_httponly = True, ck_secure = False,
     ck_samesite = lit ''lax'', ck_max_age = 0, ck_path = lit ''/api/auth''\<rparr>"

definition login :: "crypto \<Rightarrow> settings \<Rightarrow> pystr \<Rightarrow> pystr \<Rightarrow> (token_out \<times> cookie) eff" where
  "login C s uname password w =
     (case authenticate C uname password w of
        (Inl e, w1) \<Rightarrow> (Inl e, w1)
      | (Inr a, w1) \<Rightarrow>
          let t = tokens_of C s (wclock w1) a in (Inr (t, refresh_cookie s (to_refresh t)), w1))"

definition refresh ::
  "crypto \<Rightarrow> unicode \<Rightarrow> settings \<Rightarrow> pystr option \<Rightarrow> pystr option \<Rightarrow> (token_out \<times> cookie) eff" where
  "refresh C U s from_cookie from_body w =
     (let tok = (if truthy from_cookie then from_cookie else from_body)
      in if \<not> truthy tok then (Inl (HTTPException 401 (lit ''missing refresh token'')), w)
         else (case decode_token C U s (wclock w) (the tok) of
                 Inl e \<Rightarrow> (Inl e, w)
               | Inr None \<Rightarrow> (Inl (HTTPException 401 (lit ''invalid refresh token'')), w)
               | Inr (Some c) \<Rightarrow>
                   if tc_type c \<noteq> JStr (lit ''refresh'')
                   then (Inl (HTTPException 401 (lit ''invalid refresh token'')), w)
                   else (case active_admin (wdb w) (tc_admin_id c) of
                           None \<Rightarrow> (Inl (HTTPException 401 (lit ''admin not found'')), w)
                         | Some a \<Rightarrow>
                             let t = tokens_of C s (wclock w) a
                             in (Inr (t, refresh_cookie s (to_refresh t)), w))))"

definition logout :: "cookie eff" where
  "logout w = (Inr cleared_cookie, w)"

definition me :: "admin result \<Rightarrow> admin result" where
  "me current = current"

section \<open>Facts\<close>

lemma authenticate_Inr:
  assumes "authenticate C uname password w = (Inr a, w1)"
  shows "\<exists>a0. a0 \<in> set (admins (wdb w)) \<and> username a0 = uname \<and> disabled_at a0 = None \<and>
     ph_verify C (password_hash a0) password = Match \<and> a = a0\<lparr>password_hash := password_hash a\<rparr> \<and>
     (wdb w1 = wdb w \<and> a = a0 \<or> wdb w1 = (wdb w)\<lparr>admins := tput admin_id a (admins (wdb w))\<rparr>) \<and>
     wclock w1 = wclock w"
proof -
  obtain a0 where f: "List.find (\<lambda>a. username a = uname \<and> disabled_at a = None) (admins (wdb w)) = Some a0"
    using assms by (auto simp: authenticate_def Let_def split: option.splits)
  then have a0: "a0 \<in> set (admins (wdb w))" "username a0 = uname" "disabled_at a0 = None"
    by (auto dest: find_SomeD)
  have v: "ph_verify C (password_hash a0) password = Match"
    using assms f by (auto simp: authenticate_def Let_def verify_password_def split: verify_outcome.splits)
  show ?thesis
    using assms f a0 v
    by (intro exI [of _ a0]) (auto simp: authenticate_def Let_def verify_password_def split: if_splits)
qed

lemma authenticate_error_frame:
  "authenticate C uname password w = (Inl e, w1) \<Longrightarrow> w1 = w"
  by (auto simp: authenticate_def Let_def split: option.splits sum.splits bool.splits if_splits)

lemma tput_row_in:
  "r0 \<in> set t \<Longrightarrow> key r0 = key r \<Longrightarrow> r \<in> set (tput key r t)"
  by (induction t) (auto simp: tput_def)

section \<open>Properties\<close>

text \<open>
  C30: the access token of a sign-in opens every endpoint up to the admin's role from the sign-in until it expires, and
  none after; the endpoint then runs for exactly that admin. This is over the store that the sign-in leaves, with account
  ids unique in it, and for a library that reads back what it signed and never signs to an empty token.
\<close>

theorem login_opens_endpoints:
  assumes "login C s uname password w = (Inr (t, ck), w1)"
    and "unique_keys admin_id (admins (wdb w))"
    and "authenticate C uname password w = (Inr a, w1)"
    and "jwt_roundtrip C s (access_claims s (wclock w) (admin_id a) (username a) (admin_role a))"
    and "to_access t \<noteq> []" and "wclock w \<le> now"
  shows "guarded C U s now (wdb w1) (Some (to_access t)) required =
    (if now div 1000000 < (wclock w + minutes (access_token_ttl_minutes s)) div 1000000
     then require_role required (Inr a) else Inl CREDENTIALS)"
proof -
  obtain a0 where a0: "a0 \<in> set (admins (wdb w))" "username a0 = uname" "disabled_at a0 = None"
    "a = a0\<lparr>password_hash := password_hash a\<rparr>"
    "wdb w1 = wdb w \<and> a = a0 \<or> wdb w1 = (wdb w)\<lparr>admins := tput admin_id a (admins (wdb w))\<rparr>"
    "wclock w1 = wclock w"
    using authenticate_Inr [OF assms(3)] by blast
  have key: "admin_id a = admin_id a0" "disabled_at a = None"
    using a0(3,4) by (metis admin.select_convs(1) admin.update_convs(3) admin.surjective,
      metis admin.select_convs(7) admin.update_convs(3) admin.surjective)
  have in1: "a \<in> set (admins (wdb w1))"
    using a0(1,5) key tput_row_in [of a0 "admins (wdb w)" admin_id a] by auto
  have uk: "unique_keys admin_id (admins (wdb w1))"
    using a0(5) assms(2) unique_keys_tput [OF assms(2)] by auto
  have act: "active_admin (wdb w1) (admin_id a) = Some a"
    by (rule active_admin_unique [OF uk in1 key(2)])
  have t: "to_access t = create_access_token C s (wclock w) (admin_id a) (username a) (admin_role a)"
    using assms(1,3) a0(6) by (simp add: login_def tokens_of_def Let_def) (metis token_out.select_convs(1))
  show ?thesis
    using assms(5) act
    by (simp add: guarded_def get_claims_def t decode_access [OF assms(4,6)] get_current_admin_def require_role_def)
qed

definition root_crypto :: crypto where
  "root_crypto = (fixed_crypto (access_claims default_settings (days 1000) 1 (lit ''root'') R_super_admin))
     \<lparr>jwt_decode := (\<lambda>t k a now. if t = lit ''tok'' \<and> days 1000 div 1000000 \<le> now div 1000000 \<and> now div 1000000 < (days 1000 + minutes 30) div 1000000
        then Some (access_claims default_settings (days 1000) 1 (lit ''root'') R_super_admin) else None)\<rparr>"

definition owner_world :: world where
  "owner_world = (sample_world [] [])\<lparr>wdb := owner_db\<rparr>"

theorem login_opens_endpoints_witness:
  "guarded root_crypto (uni sample_env) default_settings (days 1000) owner_db (Some (lit ''tok'')) R_super_admin = Inr owner"
proof -
  let ?t = "\<lparr>to_access = lit ''tok'', to_refresh = lit ''tok''\<rparr>"
  have l: "login root_crypto default_settings (lit ''root'') (lit ''secret'') owner_world
      = (Inr (?t, refresh_cookie default_settings (lit ''tok'')), owner_world)" by code_simp
  have a: "authenticate root_crypto (lit ''root'') (lit ''secret'') owner_world = (Inr owner, owner_world)"
    by code_simp
  have u: "unique_keys admin_id (admins (wdb owner_world))" by code_simp
  have c: "wclock owner_world = days 1000" "wdb owner_world = owner_db"
    by (simp_all add: owner_world_def sample_world_def)
  have j: "jwt_roundtrip root_crypto default_settings
      (access_claims default_settings (wclock owner_world) (admin_id owner) (username owner) (admin_role owner))"
    by (simp add: jwt_roundtrip_def c root_crypto_def fixed_crypto_def access_claims_def numeric_date_def
        owner_def default_settings_def)
  have "guarded root_crypto (uni sample_env) default_settings (days 1000) owner_db (Some (lit ''tok'')) R_super_admin
      = (if days 1000 div 1000000 < (days 1000 + minutes (access_token_ttl_minutes default_settings)) div 1000000
         then require_role R_super_admin (Inr owner) else Inl CREDENTIALS)"
    using login_opens_endpoints [OF l u a j, of "days 1000"] c by (simp add: lit_def)
  then show ?thesis
    by (simp add: days_def minutes_def default_settings_def require_role_def owner_def role_at_least_def)
qed

text \<open>
  the two kinds of token are not interchangeable: a refresh token opens no endpoint, and an
  access token refreshes nothing.
\<close>

theorem token_kinds_separate:
  assumes "jwt_roundtrip C s (access_claims s t0 aid uname r)"
    and "jwt_roundtrip C s (refresh_claims s t0 aid uname r)" and "t0 \<le> now" and "t0 \<le> wclock w"
  shows "guarded C U s now d (Some (create_refresh_token C s t0 aid uname r)) required = Inl CREDENTIALS \<and>
    (\<exists>m. refresh C U s (Some (create_access_token C s t0 aid uname r)) None w = (Inl (HTTPException 401 m), w))"
proof -
  have ne: "lit ''access'' \<noteq> lit ''refresh''" by (simp add: lit_def)
  have g: "get_claims C U s now (Some (create_refresh_token C s t0 aid uname r)) = Inl CREDENTIALS"
    using ne by (simp add: get_claims_def decode_refresh [OF assms(2,3)])
  have "\<exists>m. refresh C U s (Some (create_access_token C s t0 aid uname r)) None w = (Inl (HTTPException 401 m), w)"
    using ne by (simp add: refresh_def Let_def decode_access [OF assms(1,4)])
  with g show ?thesis by (simp add: guarded_def get_current_admin_def require_role_def)
qed

definition two_kinds :: crypto where
  "two_kinds = root_crypto\<lparr>
     jwt_encode := (\<lambda>p k a. if p = refresh_claims default_settings 0 1 (lit ''root'') R_admin then lit ''r'' else lit ''a''),
     jwt_decode := (\<lambda>t k a now.
        if t = lit ''r'' \<and> 0 \<le> now div 1000000 \<and> now div 1000000 < days 14 div 1000000
        then Some (refresh_claims default_settings 0 1 (lit ''root'') R_admin)
        else if t = lit ''a'' \<and> 0 \<le> now div 1000000 \<and> now div 1000000 < minutes 30 div 1000000
        then Some (access_claims default_settings 0 1 (lit ''root'') R_admin) else None)\<rparr>"

theorem token_kinds_separate_witness:
  "guarded two_kinds (uni sample_env) default_settings 0 owner_db (Some (lit ''r'')) R_editor = Inl CREDENTIALS"
proof -
  have ne: "access_claims default_settings 0 1 (lit ''root'') R_admin \<noteq> refresh_claims default_settings 0 1 (lit ''root'') R_admin"
    by (simp add: access_claims_def refresh_claims_def lit_def)
  have a: "jwt_roundtrip two_kinds default_settings (access_claims default_settings 0 1 (lit ''root'') R_admin)"
    using ne by (simp add: jwt_roundtrip_def two_kinds_def) (simp add: lit_def access_claims_def numeric_date_def default_settings_def)
  have r: "jwt_roundtrip two_kinds default_settings (refresh_claims default_settings 0 1 (lit ''root'') R_admin)"
    by (simp add: jwt_roundtrip_def two_kinds_def) (simp add: lit_def refresh_claims_def numeric_date_def default_settings_def)
  have "create_refresh_token two_kinds default_settings 0 1 (lit ''root'') R_admin = lit ''r''"
    by (simp add: create_refresh_token_def encode_token_def two_kinds_def)
  with token_kinds_separate [OF a r order.refl, of "sample_world [] []" "uni sample_env" owner_db R_editor] show ?thesis
    by (simp add: sample_world_def days_def)
qed

text \<open>
  signing in succeeds only with the password of an enabled account, and an unknown name, a
  disabled account and a wrong password give the same answer and change nothing.
\<close>

theorem authenticate_sound:
  "(case authenticate C uname password w of
      (Inr a, w1) \<Rightarrow> (\<exists>a0 \<in> set (admins (wdb w)). username a0 = uname \<and> disabled_at a0 = None \<and>
          ph_verify C (password_hash a0) password = Match \<and> admin_id a = admin_id a0 \<and> admin_role a = admin_role a0)
    | (Inl e, w1) \<Rightarrow> w1 = w \<and> (e = HTTPException 401 (lit ''Incorrect username or password'')
          \<or> (\<exists>a0 \<in> set (admins (wdb w)). \<exists>m. ph_verify C (password_hash a0) password = OtherVerifyError m \<and> e = OtherError m)))"
proof -
  obtain r w1 where rw: "authenticate C uname password w = (r, w1)" by fastforce
  show ?thesis
  proof (cases r)
    case (Inl e)
    with rw authenticate_error_frame [of C uname password w e w1] show ?thesis
      by (auto simp: authenticate_def Let_def verify_password_def
          split: option.splits verify_outcome.splits if_splits dest!: find_SomeD)
  next
    case (Inr a)
    with authenticate_Inr [of C uname password w a w1] rw obtain a0 where
      "a0 \<in> set (admins (wdb w))" "username a0 = uname" "disabled_at a0 = None"
      "ph_verify C (password_hash a0) password = Match" "a = a0\<lparr>password_hash := password_hash a\<rparr>" by blast
    moreover from this(5) have "admin_id a = admin_id a0" "admin_role a = admin_role a0"
      by (cases a, cases a0, simp)+
    ultimately show ?thesis using rw Inr by auto
  qed
qed

end
