(* ===== verification/Api.thy ===== *)
theory Api
  imports QueueApi Channels Auth
begin

text \<open>
  The back office as a whole: the audit endpoints (\<open>api/routers/audit.py\<close>) and the table of
  every endpoint with the role its dependencies require (the routers of \<open>api/main.py\<close>). A
  request runs its handler only behind the dependency chain of \<open>api/deps.py\<close>.
\<close>

section \<open>Audit log\<close>

definition audit_selection :: "int option \<Rightarrow> event_action list option \<Rightarrow> db \<Rightarrow> post_event list" where
  "audit_selection pid acts d =
     filter (\<lambda>e. (case pid of None \<Rightarrow> True | Some k \<Rightarrow> event_post_id e = k) \<and>
                 (case acts of None \<Rightarrow> True | Some as \<Rightarrow> as = [] \<or> event_action e \<in> set as)) (post_events d)"

definition list_events ::
  "int option \<Rightarrow> event_action list option \<Rightarrow> int \<Rightarrow> int \<Rightarrow> db \<Rightarrow> (post_event list \<times> int) result" where
  "list_events pid acts limit offset d =
     (let sel = audit_selection pid acts d
      in case paginate 500 limit offset (sort_key (\<lambda>e. - event_created_at e) sel) of
           Inl e \<Rightarrow> Inl e
         | Inr items \<Rightarrow> Inr (items, int (length sel)))"

definition list_post_events :: "int \<Rightarrow> db \<Rightarrow> post_event list" where
  "list_post_events pid d = sort_key event_created_at (filter (\<lambda>e. event_post_id e = pid) (post_events d))"

section \<open>Endpoints\<close>

datatype request =
    List_tags | Create_tag tag_create | Update_tag int tag_update | Delete_tag int | Count_tags
  | List_templates | Create_template template_create | Update_template int template_update | Delete_template int
  | List_channels | Create_channel channel_create | Update_channel int channel_update | Delete_channel int
  | Get_ai_settings int | Update_ai_settings int ai_update | Test_ai_transform int ai_test
  | List_admins | Create_admin admin_create | Update_admin int admin_update
  | List_queue "post_state list option" int int | Get_post int | Edit_tags int "int list"
  | Decide int post_decision | Approve int "int list option" | Schedule int py_datetime | Reject int
  | List_events "int option" "event_action list option" int int | List_post_events int | Me

text \<open>
  The role of \<open>require_role\<close>; \<open>None\<close> where \<open>get_current_admin\<close> alone guards.
\<close>

fun required_role :: "request \<Rightarrow> role option" where
  "required_role List_tags = Some R_editor"
| "required_role (Create_tag c) = Some R_admin"
| "required_role (Update_tag k u) = Some R_admin"
| "required_role (Delete_tag k) = Some R_admin"
| "required_role Count_tags = None"
| "required_role List_templates = Some R_editor"
| "required_role (Create_template c) = Some R_admin"
| "required_role (Update_template k u) = Some R_admin"
| "required_role (Delete_template k) = Some R_admin"
| "required_role List_channels = Some R_editor"
| "required_role (Create_channel c) = Some R_admin"
| "required_role (Update_channel k u) = Some R_admin"
| "required_role (Delete_channel k) = Some R_admin"
| "required_role (Get_ai_settings k) = Some R_editor"
| "required_role (Update_ai_settings k u) = Some R_admin"
| "required_role (Test_ai_transform k t) = Some R_editor"
| "required_role List_admins = Some R_admin"
| "required_role (Create_admin c) = Some R_super_admin"
| "required_role (Update_admin k u) = Some R_super_admin"
| "required_role (List_queue ss l f) = None"
| "required_role (Get_post k) = None"
| "required_role (Edit_tags k ids) = None"
| "required_role (Decide k dec) = None"
| "required_role (Approve k ids) = None"
| "required_role (Schedule k t) = None"
| "required_role (Reject k) = None"
| "required_role (List_events pid acts l f) = None"
| "required_role (List_post_events k) = None"
| "required_role Me = None"

text \<open>The response body is left out: what matters here is the error, if any, and the world after.\<close>

definition void :: "'a result \<times> world \<Rightarrow> unit result \<times> world" where
  "void rw = (map_sum id (\<lambda>_. ()) (fst rw), snd rw)"

definition read_only :: "'a result \<Rightarrow> unit eff" where
  "read_only r w = (map_sum id (\<lambda>_. ()) r, w)"

fun handle :: "env \<Rightarrow> crypto \<Rightarrow> request \<Rightarrow> admin \<Rightarrow> unit eff" where
  "handle E C List_tags a w = read_only (Inr (list_tags (wdb w))) w"
| "handle E C (Create_tag c) a w = void (create_tag (uni E) c w)"
| "handle E C (Update_tag k u) a w = void (update_tag k u w)"
| "handle E C (Delete_tag k) a w = delete_tag k w"
| "handle E C Count_tags a w = read_only (Inr (count_tags (wdb w))) w"
| "handle E C List_templates a w = read_only (Inr (list_templates (wdb w))) w"
| "handle E C (Create_template c) a w = void (create_template c w)"
| "handle E C (Update_template k u) a w = void (update_template k u w)"
| "handle E C (Delete_template k) a w = delete_template k w"
| "handle E C List_channels a w = read_only (Inr (list_channels (wdb w))) w"
| "handle E C (Create_channel c) a w = void (create_channel (cfg E) c w)"
| "handle E C (Update_channel k u) a w = void (update_channel k u w)"
| "handle E C (Delete_channel k) a w = delete_channel k w"
| "handle E C (Get_ai_settings k) a w = read_only (get_ai_settings (wdb w) k) w"
| "handle E C (Update_ai_settings k u) a w = void (update_ai_settings k u w)"
| "handle E C (Test_ai_transform k t) a w = read_only (test_ai_transform E (wdb w) k t) w"
| "handle E C List_admins a w = read_only (Inr (list_admins (wdb w))) w"
| "handle E C (Create_admin c) a w = void (create_admin C c w)"
| "handle E C (Update_admin k u) a w = void (update_admin C k u w)"
| "handle E C (List_queue ss l f) a w = read_only (list_queue ss l f (wdb w)) w"
| "handle E C (Get_post k) a w = read_only (get_queue_post (wdb w) k) w"
| "handle E C (Edit_tags k ids) a w = void (edit_tags k ids a w)"
| "handle E C (Decide k dec) a w = void (decide E k dec a w)"
| "handle E C (Approve k ids) a w = void (approve E k ids a w)"
| "handle E C (Schedule k t) a w = void (schedule E k t a w)"
| "handle E C (Reject k) a w = void (reject E k a w)"
| "handle E C (List_events pid acts l f) a w = read_only (list_events pid acts l f (wdb w)) w"
| "handle E C (List_post_events k) a w = read_only (Inr (list_post_events k (wdb w))) w"
| "handle E C Me a w = read_only (me (Inr a)) w"

definition serve :: "env \<Rightarrow> crypto \<Rightarrow> pystr option \<Rightarrow> request \<Rightarrow> unit eff" where
  "serve E C tok rq w =
     (let current = get_current_admin (wdb w) (get_claims C (uni E) (cfg E) (wclock w) tok);
          who = (case required_role rq of None \<Rightarrow> current | Some r \<Rightarrow> require_role r current)
      in case who of Inl e \<Rightarrow> (Inl e, w) | Inr a \<Rightarrow> handle E C rq a w)"

section \<open>Facts\<close>

lemma void_snd [simp]: "snd (void rw) = snd rw"
  by (simp add: void_def)

lemma read_only_snd [simp]: "snd (read_only r w) = w"
  by (simp add: read_only_def)

text \<open>What each role can change: the parts of the world an endpoint of its level leaves alone.\<close>

definition same_config :: "db \<Rightarrow> db \<Rightarrow> bool" where
  "same_config d d' \<longleftrightarrow> admins d' = admins d \<and> tags d' = tags d \<and> templates d' = templates d \<and>
     source_channels d' = source_channels d \<and> source_channel_tags d' = source_channel_tags d \<and>
     dedupe_rows d' = dedupe_rows d"

lemma same_config_refl [simp]: "same_config d d"
  by (simp add: same_config_def)

lemma commit_decision_config [simp]: "same_config (wdb w) (wdb (commit_decision a p act pl w))"
  by (simp add: same_config_def commit_decision_def)

lemma enqueue_publish_wdb [simp]: "wdb (snd (enqueue_publish E pid dl w)) = wdb w"
  by (simp add: enqueue_publish_def)

lemma decide_core_config: "same_config (wdb w) (wdb (snd (decide_core E pid dec a w)))"
proof -
  have e: "wdb (snd (case enqueue_publish E k dl w1 of (Inl e, w2) \<Rightarrow> (Inl e, w2) | (Inr u, w2) \<Rightarrow> (Inr (f w2), w2)))
      = wdb w1" for k dl w1 and f :: "world \<Rightarrow> post"
    using enqueue_publish_wdb [of E k dl w1]
    by (cases "enqueue_publish E k dl w1") (simp split: sum.split)
  show ?thesis
    by (simp add: decide_core_def Let_def e split: sum.split option.split)
qed

lemma edit_tags_config: "same_config (wdb w) (wdb (snd (edit_tags pid ids a w)))"
  by (simp add: edit_tags_def Let_def same_config_def split: sum.split)

lemma handle_editor_config:
  assumes "required_role rq \<in> {None, Some R_editor}"
  shows "same_config (wdb w) (wdb (snd (handle E C rq a w)))"
  using assms decide_core_config edit_tags_config
  by (cases rq) (simp_all add: decide_def approve_def schedule_def reject_def)

lemma handle_below_super:
  assumes "required_role rq \<noteq> Some R_super_admin"
  shows "admins (wdb (snd (handle E C rq a w))) = admins (wdb w)"
proof (cases "required_role rq \<in> {None, Some R_editor}")
  case True
  then show ?thesis using handle_editor_config [of rq w E C a] by (simp add: same_config_def)
next
  case False
  with assms show ?thesis
    by (cases rq) (auto simp: create_tag_def update_tag_def delete_tag_def create_template_def update_template_def
        delete_template_def create_channel_def update_channel_def delete_channel_def update_ai_settings_def
        cascade_channel_def Let_def split: option.split sum.split exn.split if_split)
qed

text \<open>A request either stops at its guards with the world as it was, or runs its handler.\<close>

lemma serve_cases:
  "(\<exists>e. serve E C tok rq w = (Inl e, w)) \<or>
   (\<exists>a. get_current_admin (wdb w) (get_claims C (uni E) (cfg E) (wclock w) tok) = Inr a \<and>
      (case required_role rq of None \<Rightarrow> True | Some r \<Rightarrow> role_at_least (admin_role a) r) \<and>
      serve E C tok rq w = handle E C rq a w)"
  by (auto simp: serve_def Let_def require_role_def split: sum.split option.split)

section \<open>Properties\<close>

text \<open>
  without a valid access token of an enabled account, no endpoint of the back office does
  anything: the request fails and the world is as it was.
\<close>

theorem serve_needs_account:
  assumes "get_current_admin (wdb w) (get_claims C (uni E) (cfg E) (wclock w) tok) = Inl e"
  shows "serve E C tok rq w = (Inl e, w)"
  using assms by (simp add: serve_def Let_def require_role_def split: option.split)

theorem serve_needs_account_witness:
  "serve sample_env (fixed_crypto []) (Some (lit ''forged'')) (Delete_tag 5) linked_world = (Inl CREDENTIALS, linked_world)"
  by (rule serve_needs_account) code_simp

text \<open>
  C24: privileges are separated. An editor's requests leave accounts, tags, templates, channels, links
  and the dedupe index alone; an admin's requests leave the accounts alone.
\<close>

theorem serve_separates_roles:
  assumes "get_current_admin (wdb w) (get_claims C (uni E) (cfg E) (wclock w) tok) = Inr a"
  shows "(admin_role a = R_editor \<longrightarrow> same_config (wdb w) (wdb (snd (serve E C tok rq w)))) \<and>
    (admin_role a \<le> R_admin \<longrightarrow> admins (wdb (snd (serve E C tok rq w))) = admins (wdb w))"
  using serve_cases [of E C tok rq w]
proof (elim disjE exE conjE)
  fix b
  assume b: "get_current_admin (wdb w) (get_claims C (uni E) (cfg E) (wclock w) tok) = Inr b"
    "case required_role rq of None \<Rightarrow> True | Some r \<Rightarrow> role_at_least (admin_role b) r"
    and s: "serve E C tok rq w = handle E C rq b w"
  have ab: "b = a" using b(1) assms by simp
  show ?thesis
  proof (intro conjI impI)
    assume "admin_role a = R_editor"
    then have "required_role rq \<in> {None, Some R_editor}"
      using b(2) ab by (cases "required_role rq") (auto simp: role_at_least_def, metis ROLE_RANK_inj ROLE_RANK.simps(1))
    then show "same_config (wdb w) (wdb (snd (serve E C tok rq w)))" unfolding s by (rule handle_editor_config)
  next
    assume "admin_role a \<le> R_admin"
    then have "required_role rq \<noteq> Some R_super_admin"
      using b(2) ab by (auto simp: role_at_least_def less_eq_role_def)
    then show "admins (wdb (snd (serve E C tok rq w))) = admins (wdb w)" unfolding s by (rule handle_below_super)
  qed
qed simp_all

definition editor_world :: world where
  "editor_world = linked_world\<lparr>wdb := (wdb linked_world)\<lparr>admins := [editor]\<rparr>\<rparr>"

definition editor_crypto :: crypto where
  "editor_crypto = fixed_crypto (access_claims default_settings 0 2 (lit ''ed'') R_super_admin)"

theorem serve_separates_roles_witness:
  "same_config (wdb editor_world) (wdb (snd (serve sample_env editor_crypto (Some (lit ''tok'')) (Approve 9 None) editor_world)))"
proof -
  have a: "get_current_admin (wdb editor_world)
      (get_claims editor_crypto (uni sample_env) (cfg sample_env) (wclock editor_world) (Some (lit ''tok''))) = Inr editor"
    by code_simp
  have "admin_role editor = R_editor" by (simp add: editor_def)
  with serve_separates_roles [OF a] show ?thesis by blast
qed

text \<open>no request, of whatever account, leaves the back office without an active super-admin.\<close>

theorem serve_keeps_super:
  assumes "unique_keys admin_id (admins (wdb w))" and "has_super (admins (wdb w))"
  shows "has_super (admins (wdb (snd (serve E C tok rq w))))"
  using serve_cases [of E C tok rq w]
proof (elim disjE exE conjE)
  fix a
  assume s: "serve E C tok rq w = handle E C rq a w"
  show ?thesis
  proof (cases "required_role rq = Some R_super_admin")
    case False
    then show ?thesis unfolding s using handle_below_super [of rq] assms(2) by simp
  next
    case True
    have c: "has_super (admins (wdb (snd (create_admin C x w))))" for x
      using assms(2) by (auto simp: create_admin_def Let_def tadd_def has_super_def active_supers_def)
    have u: "has_super (admins (wdb (snd (update_admin C k x w))))" for k x
      by (rule update_admin_has_super [OF assms])
    show ?thesis unfolding s using True c u by (cases rq) simp_all
  qed
qed (use assms in simp)

theorem serve_keeps_super_witness:
  "has_super (admins (wdb (snd (serve sample_env editor_crypto None (Update_admin 1 demote) (owners_world [owner])))))"
proof (rule serve_keeps_super)
  show "unique_keys admin_id (admins (wdb (owners_world [owner])))" by code_simp
  show "has_super (admins (wdb (owners_world [owner])))" by code_simp
qed

end
