(* ===== verification/Callbacks.thy ===== *)
theory Callbacks
  imports QueueApi
begin

text \<open>
  The inline buttons of \<open>bot/handlers/callbacks.py\<close>: who may press them, and what approving and
  rejecting do. The handlers commit first, answer the callback second, and act on Redis and on the
  draft card last, so each failure leaves a different trace.
\<close>

record callback =
  cb_chat :: "int option"
  cb_from :: int
  cb_data :: pystr

definition bot_authorized :: "settings \<Rightarrow> db \<Rightarrow> callback \<Rightarrow> bool" where
  "bot_authorized s d cb \<longleftrightarrow>
     (if cb_chat cb \<noteq> Some (editor_group_id s) then False
      else (case List.find (\<lambda>a. tg_user_id a = Some (cb_from cb) \<and> disabled_at a = None) (admins d) of
              None \<Rightarrow> False
            | Some a \<Rightarrow> role_at_least (admin_role a) R_editor))"

text \<open>\<open>callback.answer(text, show_alert)\<close>; a refusal of Telegram is raised to the dispatcher.\<close>

definition answer :: "env \<Rightarrow> pystr \<Rightarrow> bool \<Rightarrow> unit eff" where
  "answer E t alert w = (case tg_do E (Answer_callback t alert) w of
     (Inl e, w1) \<Rightarrow> (Inl e, w1) | (Inr n, w1) \<Rightarrow> (Inr (), w1))"

text \<open>\<open>callback.data.split(":", 1)[1]\<close>: what follows the first colon.\<close>

definition after_colon :: "pystr \<Rightarrow> pystr" where
  "after_colon s = tl (dropWhile (\<lambda>c. c \<noteq> 58) s)"

definition cb_noop :: "env \<Rightarrow> unit eff" where
  "cb_noop E = answer E [] False"

text \<open>The part both handlers share up to the change: what stops them, or the row to change.\<close>

definition cb_target :: "env \<Rightarrow> callback \<Rightarrow> world \<Rightarrow> (unit result \<times> world) + (post \<times> source_channel)" where
  "cb_target E cb w =
     (if \<not> bot_authorized (cfg E) (wdb w) cb then Inl (answer E (lit ''Not authorized'') True w)
      else (case py_int (uni E) (after_colon (cb_data cb)) of
              None \<Rightarrow> Inl (Inl (OtherError (lit ''ValueError'')), w)
            | Some pid \<Rightarrow>
                (case get_post (wdb w) pid of
                   None \<Rightarrow> Inl (answer E (lit ''post not found'') True w)
                 | Some p \<Rightarrow>
                     (case get_channel (wdb w) (source_channel_id p) of
                        None \<Rightarrow> Inl (answer E (lit ''source channel missing'') True w)
                      | Some ch \<Rightarrow> Inr (p, ch)))))"

definition inline_payload :: "callback \<Rightarrow> payload" where
  "inline_payload cb = [(''via'', JStr (lit ''inline'')), (''tg_user_id'', JInt (cb_from cb))]"

text \<open>The change and its event, which names no admin as actor.\<close>

definition cb_commit :: "callback \<Rightarrow> post \<Rightarrow> event_action \<Rightarrow> world \<Rightarrow> world" where
  "cb_commit cb p act w =
     w\<lparr>wdb := add_event (wclock w) (post_id p) None act (inline_payload cb) (save_post (wclock w) p (wdb w))\<rparr>"

definition cb_edit_card :: "env \<Rightarrow> callback \<Rightarrow> post \<Rightarrow> pystr \<times> keyboard \<Rightarrow> unit eff" where
  "cb_edit_card E cb p crd w =
     (if \<not> truthy_int (draft_message_id p) then (Inr (), w)
      else (case tg_do E (Edit_message_text (the (cb_chat cb)) (the (draft_message_id p)) (fst crd) (snd crd)) w of
              (Inl e, w1) \<Rightarrow> (if is_telegram_error e then Inr () else Inl e, w1)
            | (Inr m, w1) \<Rightarrow> (Inr (), w1)))"

definition cb_approve :: "env \<Rightarrow> callback \<Rightarrow> unit eff" where
  "cb_approve E cb w =
     (case cb_target E cb w of
        Inl r \<Rightarrow> r
      | Inr (post, ch) \<Rightarrow>
          let p = post\<lparr>post_state := Approved\<rparr>;
              w1 = cb_commit cb p Ev_approved w;
              crd = build_draft_payload E (wdb w1) p ch
          in (case answer E (lit ''Approved '' @ [8212] @ lit '' publishing'' @ [8230]) False w1 of
                (Inl e, w2) \<Rightarrow> (Inl e, w2)
              | (Inr u, w2) \<Rightarrow>
                  (case enqueue_publish E (post_id p) None w2 of
                     (Inl e, w3) \<Rightarrow> (Inl e, w3)
                   | (Inr u, w3) \<Rightarrow> cb_edit_card E cb p crd w3)))"

definition cb_reject :: "env \<Rightarrow> callback \<Rightarrow> unit eff" where
  "cb_reject E cb w =
     (case cb_target E cb w of
        Inl r \<Rightarrow> r
      | Inr (post, ch) \<Rightarrow>
          let p = post\<lparr>post_state := Rejected\<rparr>;
              w1 = cb_commit cb p Ev_rejected w;
              crd = build_draft_payload E (wdb w1) p ch
          in (case answer E (lit ''Rejected'') False w1 of
                (Inl e, w2) \<Rightarrow> (Inl e, w2)
              | (Inr u, w2) \<Rightarrow> cb_edit_card E cb p crd w2))"

text \<open>The filters of the router, in the order in which they are registered.\<close>

definition handle_callback :: "env \<Rightarrow> callback \<Rightarrow> unit eff" where
  "handle_callback E cb w =
     (if cb_data cb = lit ''noop'' then cb_noop E w
      else if startswith (cb_data cb) (lit ''ap:'') then cb_approve E cb w
      else if startswith (cb_data cb) (lit ''rj:'') then cb_reject E cb w
      else (Inr (), w))"

section \<open>Facts\<close>

lemma answer_world:
  "snd (answer E t b w) = w\<lparr>wcalls := wcalls w @ [(Answer_callback t b, telegram E (wcalls w) (Answer_callback t b))]\<rparr>"
  by (simp add: answer_def tg_do_def Let_def split: tg_outcome.split)

lemma answer_frame [frame, simp]:
  "wdb (snd (answer E t b w)) = wdb w" "wjobs (snd (answer E t b w)) = wjobs w"
  "wclock (snd (answer E t b w)) = wclock w" "wpool (snd (answer E t b w)) = wpool w"
  by (simp_all add: answer_world)

lemma answer_ok: "fst (answer E t b w) = Inr u \<longleftrightarrow> is_delivered (telegram E (wcalls w) (Answer_callback t b))"
  by (simp add: answer_def tg_do_def Let_def is_delivered_def split: tg_outcome.split)

lemma cb_edit_card_frame [frame, simp]:
  "wdb (snd (cb_edit_card E cb p crd w)) = wdb w" "wjobs (snd (cb_edit_card E cb p crd w)) = wjobs w"
  by (auto simp: cb_edit_card_def tg_do_def Let_def split: tg_outcome.split)

lemma cb_commit_fields [frame, simp]:
  "wjobs (cb_commit cb p act w) = wjobs w" "wcalls (cb_commit cb p act w) = wcalls w"
  "wclock (cb_commit cb p act w) = wclock w" "wpool (cb_commit cb p act w) = wpool w"
  by (simp_all add: cb_commit_def)

lemma cb_commit_post:
  assumes "get_post (wdb w) (post_id p) = Some p0"
  shows "\<exists>u. get_post (wdb (cb_commit cb p act w)) (post_id p) = Some (p\<lparr>updated_at := u\<rparr>)"
  using get_post_save [OF assms refl, of "wclock w"] by (simp add: cb_commit_def)

lemma cb_target_stop:
  assumes "cb_target E cb w = Inl (r, w')"
  shows "wdb w' = wdb w \<and> wjobs w' = wjobs w"
proof -
  have a: "answer E t b w = (r, w') \<Longrightarrow> wdb w' = wdb w \<and> wjobs w' = wjobs w" for t b
    using answer_frame [of E t b w] by simp
  show ?thesis
    using assms a by (auto simp: cb_target_def split: if_splits option.splits)
qed

lemma cb_target_Inr:
  assumes "cb_target E cb w = Inr (p, ch)"
  shows "bot_authorized (cfg E) (wdb w) cb" "get_post (wdb w) (post_id p) = Some p"
    "py_int (uni E) (after_colon (cb_data cb)) = Some (post_id p)"
    "get_channel (wdb w) (source_channel_id p) = Some ch"
  using assms by (auto simp: cb_target_def split: if_splits option.splits dest: tget_key)

lemma after_colon_ap [simp]: "after_colon (97 # 112 # 58 # s) = s" "after_colon (114 # 106 # 58 # s) = s"
  by (simp_all add: after_colon_def)

text \<open>A handler that passes its checks, with Telegram and Redis answering.\<close>

lemma cb_approve_delivered:
  assumes "cb_target E cb w = Inr (p, ch)" and "redis_up E"
    and "\<And>h t b. telegram E h (Answer_callback t b) = Delivered 1"
  shows "wdb (snd (cb_approve E cb w)) = wdb (cb_commit cb (p\<lparr>post_state := Approved\<rparr>) Ev_approved w)"
    and "wjobs (snd (cb_approve E cb w)) = wjobs w @ [publish_job (post_id p) None]"
proof -
  let ?p = "p\<lparr>post_state := Approved\<rparr>"
  let ?w1 = "cb_commit cb ?p Ev_approved w"
  obtain r w2 where a: "answer E (lit ''Approved '' @ [8212] @ lit '' publishing'' @ [8230]) False ?w1 = (r, w2)"
    by fastforce
  then obtain u where r: "r = Inr u"
    using answer_ok [of E _ False ?w1] assms(3) by (metis fst_conv is_delivered_def tg_outcome.simps(17))
  have w2: "wdb w2 = wdb ?w1" "wjobs w2 = wjobs w"
    using answer_frame [of E _ False ?w1] a by (metis snd_conv cb_commit_fields(1))+
  show "wdb (snd (cb_approve E cb w)) = wdb ?w1"
    "wjobs (snd (cb_approve E cb w)) = wjobs w @ [publish_job (post_id p) None]"
    using assms(1) a r w2
    by (simp_all add: cb_approve_def Let_def enqueue_publish_def enqueue_job_up [OF assms(2)])
qed

section \<open>Properties\<close>

text \<open>
  a button press changes the database or the queues only when it comes from the editor group
  and from the linked account of an admin who is not disabled; a forwarded card is inert.
\<close>

theorem callback_change_needs_editor:
  assumes "wdb (snd (handle_callback E cb w)) \<noteq> wdb w \<or> wjobs (snd (handle_callback E cb w)) \<noteq> wjobs w"
  shows "cb_chat cb = Some (editor_group_id (cfg E)) \<and>
    (\<exists>a \<in> set (admins (wdb w)). tg_user_id a = Some (cb_from cb) \<and> disabled_at a = None)"
proof -
  have "\<exists>p ch. cb_target E cb w = Inr (p, ch)"
  proof (cases "cb_target E cb w")
    case (Inl r)
    with cb_target_stop [of E cb w "fst r" "snd r"] assms show ?thesis
      by (auto simp: handle_callback_def cb_approve_def cb_reject_def cb_noop_def split: if_splits)
  qed auto
  then obtain p ch where "cb_target E cb w = Inr (p, ch)" by blast
  then have "bot_authorized (cfg E) (wdb w) cb" by (rule cb_target_Inr)
  then show ?thesis
    by (auto simp: bot_authorized_def split: if_splits option.splits dest!: find_SomeD)
qed

definition linked_editor :: "post list \<Rightarrow> world" where
  "linked_editor ps = sample_world ps []\<lparr>wdb := (sample_db ps [])\<lparr>admins := [editor]\<rparr>\<rparr>"

definition press :: callback where
  "press = \<lparr>cb_chat = Some (-200), cb_from = 77, cb_data = lit ''ap:9''\<rparr>"

theorem callback_change_needs_editor_witness:
  "\<exists>a \<in> set (admins (wdb (linked_editor [sample_post]))). tg_user_id a = Some 77 \<and> disabled_at a = None"
proof -
  have "wjobs (snd (handle_callback sample_env press (linked_editor [sample_post]))) \<noteq> wjobs (linked_editor [sample_post])"
    by code_simp
  moreover have "cb_from press = 77" by (simp add: press_def)
  ultimately show ?thesis
    using callback_change_needs_editor [of sample_env press "linked_editor [sample_post]"] by metis
qed

text \<open>
  approving by button has the effect of approving through the back office on the state and the
  queue: the post is approved with its tags, and one immediate publish job is queued.
\<close>

theorem callback_approve_spec:
  assumes "cb_target E cb w = Inr (p, ch)" and "redis_up E"
    and "\<And>h t b. telegram E h (Answer_callback t b) = Delivered 1"
  shows "wjobs (snd (cb_approve E cb w)) = wjobs (snd (approve E (post_id p) None a w)) \<and>
    (\<exists>q. get_post (wdb (snd (cb_approve E cb w))) (post_id p) = Some q \<and> post_state q = Approved \<and>
       tag_ids q = tag_ids p \<and> scheduled_for q = scheduled_for p)"
proof -
  have g: "get_post (wdb w) (post_id (p\<lparr>post_state := Approved\<rparr>)) = Some p"
    using cb_target_Inr(2) [OF assms(1)] by simp
  obtain u where "get_post (wdb (cb_commit cb (p\<lparr>post_state := Approved\<rparr>) Ev_approved w)) (post_id p)
      = Some (p\<lparr>post_state := Approved, updated_at := u\<rparr>)"
    using cb_commit_post [OF g, of cb Ev_approved] by auto
  moreover have "wjobs (snd (approve E (post_id p) None a w)) = wjobs w @ [publish_job (post_id p) None]"
    using g approve_eq [OF _ refl, of w "post_id p" p E None a]
    by (simp add: enqueue_publish_def enqueue_job_up [OF assms(2)])
  ultimately show ?thesis using cb_approve_delivered [OF assms] by simp
qed

definition answering_env :: env where
  "answering_env = sample_env\<lparr>telegram := (\<lambda>h c. Delivered 1)\<rparr>"

theorem callback_approve_spec_witness:
  "wjobs (snd (cb_approve answering_env press (linked_editor [sample_post]))) = [publish_job 9 None]"
proof -
  have t: "cb_target answering_env press (linked_editor [sample_post]) = Inr (sample_post, sample_channel)"
    by code_simp
  have r: "redis_up answering_env" by (simp add: redis_up_def answering_env_def sample_redis_up)
  have "wjobs (snd (cb_approve answering_env press (linked_editor [sample_post])))
      = wjobs (snd (approve answering_env (post_id sample_post) None editor (linked_editor [sample_post])))"
    using callback_approve_spec [OF t r, of editor] by (simp add: answering_env_def)
  also have "\<dots> = [publish_job 9 None]" by code_simp
  finally show ?thesis .
qed

text \<open>
  the answer to Telegram comes between the commit and the enqueue. When it is refused (a callback
  older than Telegram keeps it), the post is already approved but no publish job is ever queued.
\<close>

theorem callback_approve_unanswered:
  assumes "cb_target E cb w = Inr (p, ch)"
    and "\<And>h t b. telegram E h (Answer_callback t b) = Refused m"
  shows "fst (cb_approve E cb w) = Inl (TelegramAPIError m) \<and> wjobs (snd (cb_approve E cb w)) = wjobs w \<and>
    (\<exists>q. get_post (wdb (snd (cb_approve E cb w))) (post_id p) = Some q \<and> post_state q = Approved)"
proof -
  have g: "get_post (wdb w) (post_id (p\<lparr>post_state := Approved\<rparr>)) = Some p"
    using cb_target_Inr(2) [OF assms(1)] by simp
  obtain u where "get_post (wdb (cb_commit cb (p\<lparr>post_state := Approved\<rparr>) Ev_approved w)) (post_id p)
      = Some (p\<lparr>post_state := Approved, updated_at := u\<rparr>)"
    using cb_commit_post [OF g, of cb Ev_approved] by auto
  then show ?thesis
    using assms by (simp add: cb_approve_def Let_def answer_def tg_do_def)
qed

definition stale_env :: env where
  "stale_env = sample_env\<lparr>telegram := (\<lambda>h c. Refused (lit ''query is too old''))\<rparr>"

theorem callback_approve_unanswered_witness:
  "wjobs (snd (cb_approve stale_env press (linked_editor [sample_post]))) = [] \<and>
   (\<exists>q. get_post (wdb (snd (cb_approve stale_env press (linked_editor [sample_post])))) 9 = Some q \<and>
      post_state q = Approved)"
proof -
  have t: "cb_target stale_env press (linked_editor [sample_post]) = Inr (sample_post, sample_channel)"
    by code_simp
  have "wjobs (linked_editor [sample_post]) = []" "post_id sample_post = 9"
    by (simp_all add: linked_editor_def sample_defs)
  then show ?thesis
    using callback_approve_unanswered [OF t, of "lit ''query is too old''"] by (simp add: stale_env_def)
qed

text \<open>
  the buttons of a draft card come back to the handlers they name, for the post of the card.
\<close>

theorem draft_buttons_roundtrip:
  "\<exists>a r. callback_datas (draft_keyboard s p) = [a, r] \<and>
    handle_callback E (cb\<lparr>cb_data := a\<rparr>) = cb_approve E (cb\<lparr>cb_data := a\<rparr>) \<and>
    handle_callback E (cb\<lparr>cb_data := r\<rparr>) = cb_reject E (cb\<lparr>cb_data := r\<rparr>) \<and>
    py_int (uni E) (after_colon a) = Some (post_id p) \<and> py_int (uni E) (after_colon r) = Some (post_id p)"
  by (intro exI conjI) (auto simp: draft_keyboard_def Let_def handle_callback_def lit_def)

end
