(* ===== verification/BotJobs.thy ===== *)
theory BotJobs
  imports Callbacks
begin

text \<open>
  The remaining jobs and commands of the bot: the draft card (\<open>bot/draft.py\<close>), operator alerts
  (\<open>bot/alerts.py\<close>) and the commands of the editor group (\<open>bot/handlers/admin.py\<close>).
\<close>

section \<open>Draft cards\<close>

text \<open>Storing the message id of a new card, in a session of its own.\<close>

definition record_draft :: "env \<Rightarrow> int \<Rightarrow> int \<Rightarrow> world \<Rightarrow> world" where
  "record_draft E pid mid w =
     (case get_post (wdb w) pid of
        None \<Rightarrow> w
      | Some p \<Rightarrow> w\<lparr>wdb := add_event (wclock w) pid None Ev_draft_posted
            [(''chat_id'', JInt (editor_group_id (cfg E))), (''message_id'', JInt mid)]
            (save_post (wclock w) (p\<lparr>draft_message_id := Some mid\<rparr>) (wdb w))\<rparr>)"

definition post_draft :: "env \<Rightarrow> int \<Rightarrow> pystr eff" where
  "post_draft E pid w =
     (case get_post (wdb w) pid of
        None \<Rightarrow> (Inr (lit ''not_found''), w)
      | Some p \<Rightarrow>
          (case get_channel (wdb w) (source_channel_id p) of
             None \<Rightarrow> (Inr (lit ''no_channel''), w)
           | Some ch \<Rightarrow>
               let (text, kb) = build_draft_payload E (wdb w) p ch; chat = editor_group_id (cfg E)
               in if chat = 0 then (Inr (lit ''no_editor_group''), w)
                  else if normalized_text p = None then (Inr (lit ''not_normalized''), w)
                  else (case (if truthy_int (draft_message_id p)
                              then (case tg_do E (Edit_message_text chat (the (draft_message_id p)) text kb) w of
                                      (Inl e, w1) \<Rightarrow> (Inl e, w1)
                                    | (Inr m, w1) \<Rightarrow> (Inr (lit ''refreshed''), w1))
                              else (case tg_do E (Send_message chat text (Some kb)) w of
                                      (Inl e, w1) \<Rightarrow> (Inl e, w1)
                                    | (Inr m, w1) \<Rightarrow> (Inr (lit ''posted''), record_draft E pid m w1))) of
                          (Inl e, w1) \<Rightarrow> (if is_telegram_error e then Inr (lit ''error:'' @ exn_text e) else Inl e, w1)
                        | (Inr a, w1) \<Rightarrow> (Inr a, w1))))"

section \<open>Alerts\<close>

definition alert :: "env \<Rightarrow> pystr \<Rightarrow> pystr eff" where
  "alert E msg w =
     (if editor_group_id (cfg E) = 0 then (Inr (lit ''no_editor_group''), w)
      else (case tg_do E (Send_message (editor_group_id (cfg E)) msg None) w of
              (Inl e, w1) \<Rightarrow> (if is_telegram_error e then Inr (lit ''error:'' @ exn_text e) else Inl e, w1)
            | (Inr m, w1) \<Rightarrow> (Inr (lit ''sent''), w1)))"

section \<open>Commands\<close>

definition cmd_authorized :: "settings \<Rightarrow> int \<Rightarrow> bool" where
  "cmd_authorized s chat \<longleftrightarrow> chat = editor_group_id s"

definition say :: "env \<Rightarrow> int \<Rightarrow> pystr \<Rightarrow> unit eff" where
  "say E chat msg w = (case tg_do E (Send_message chat msg None) w of
     (Inl e, w1) \<Rightarrow> (Inl e, w1) | (Inr m, w1) \<Rightarrow> (Inr (), w1))"

definition queue_preview :: "post \<Rightarrow> pystr" where
  "queue_preview p = replace_char 10 32
     (take 80 (or_else (normalized_text p) (or_else (raw_text p) (lit ''(empty)''))))"

definition pending_posts :: "db \<Rightarrow> post list" where
  "pending_posts d = filter (\<lambda>p. post_state p = Pending) (posts d)"

definition queue_report :: "db \<Rightarrow> pystr" where
  "queue_report d =
     (let recent = take 5 (sort_key (\<lambda>p. - received_at p) (pending_posts d))
      in join [10] ((lit ''<b>Pending queue</b> ('' @ str_int (int (length (pending_posts d))) @ lit '' total)'')
           # map (\<lambda>p. [8226] @ lit '' #'' @ str_int (post_id p) @ lit '': '' @ queue_preview p) recent))"

definition cmd_queue :: "env \<Rightarrow> int \<Rightarrow> unit eff" where
  "cmd_queue E chat w =
     (if \<not> cmd_authorized (cfg E) chat then (Inr (), w) else say E chat (queue_report (wdb w)) w)"

definition state_count :: "db \<Rightarrow> post_state \<Rightarrow> nat" where
  "state_count d s = length (filter (\<lambda>p. post_state p = s) (posts d))"

definition stats_lines :: "db \<Rightarrow> pystr list" where
  "stats_lines d = lit ''<b>Stats</b>''
     # map (\<lambda>s. state_value s @ lit '': '' @ str_int (int (state_count d s))) all_post_states"

definition cmd_stats :: "env \<Rightarrow> int \<Rightarrow> unit eff" where
  "cmd_stats E chat w =
     (if \<not> cmd_authorized (cfg E) chat then (Inr (), w) else say E chat (join [10] (stats_lines (wdb w))) w)"

definition cmd_health :: "env \<Rightarrow> int \<Rightarrow> unit eff" where
  "cmd_health E chat w =
     (if \<not> cmd_authorized (cfg E) chat then (Inr (), w) else say E chat ([9989] @ lit '' bot up'') w)"

section \<open>Facts\<close>

lemma say_frame [frame, simp]:
  "wdb (snd (say E chat msg w)) = wdb w" "wjobs (snd (say E chat msg w)) = wjobs w"
  by (simp_all add: say_def tg_do_def Let_def split: tg_outcome.split)

lemma state_counts_sum: "distinct ss \<Longrightarrow> set (map post_state ps) \<subseteq> set ss \<Longrightarrow>
    sum_list (map (\<lambda>s. length (filter (\<lambda>p. post_state p = s) ps)) ss) = length ps"
proof (induction ps)
  case Nil
  then show ?case by (simp add: sum_list_triv)
next
  case (Cons p ps)
  have "sum_list (map (\<lambda>s. (if post_state p = s then 1 else 0) + length (filter (\<lambda>p. post_state p = s) ps)) ss)
      = sum_list (map (\<lambda>s. if post_state p = s then 1 else 0 :: nat) ss) + length ps"
    using Cons by (simp add: sum_list_addf)
  moreover have "sum_list (map (\<lambda>s. if post_state p = s then 1 else 0 :: nat) ss) = 1"
    using Cons.prems by (simp add: sum_list_distinct_conv_sum_set)
  moreover have "length (filter (\<lambda>q. post_state q = s) (p # ps))
      = (if post_state p = s then 1 else 0) + length (filter (\<lambda>p. post_state p = s) ps)" for s
    by simp
  ultimately show ?case by simp
qed

lemma all_post_states_distinct: "distinct all_post_states"
  by (simp add: all_post_states_def)

lemma record_draft_get:
  assumes "get_post (wdb w) pid = Some p"
  shows "\<exists>u. get_post (wdb (record_draft E pid m w)) pid = Some (p\<lparr>draft_message_id := Some m, updated_at := u\<rparr>)"
proof -
  have "post_id (p\<lparr>draft_message_id := Some m\<rparr>) = pid" using tget_key [OF assms] by simp
  from get_post_save [OF assms this, of "wclock w"] show ?thesis by (simp add: record_draft_def assms)
qed

lemma record_draft_frame [simp]:
  "wcalls (record_draft E pid m w) = wcalls w" "wjobs (record_draft E pid m w) = wjobs w"
  "source_channels (wdb (record_draft E pid m w)) = source_channels (wdb w)"
  "tags (wdb (record_draft E pid m w)) = tags (wdb w)"
  by (simp_all add: record_draft_def split: option.split)

section \<open>Properties\<close>

text \<open>
  a post has at most one card: when a run has posted a card, its message id is stored, and every
  later run edits that message instead of sending another.
\<close>

theorem post_draft_edits_own_card:
  assumes "post_draft E pid w = (Inr (lit ''posted''), w1)"
    and "telegram E (wcalls w) = (\<lambda>c. Delivered m)" and "m \<noteq> 0"
  shows "(\<exists>q. get_post (wdb w1) pid = Some q \<and> draft_message_id q = Some m) \<and>
    (\<exists>text kb. map fst (wcalls (snd (post_draft E pid w1)))
        = map fst (wcalls w1) @ [Edit_message_text (editor_group_id (cfg E)) m text kb]) \<and>
    wdb (snd (post_draft E pid w1)) = wdb w1"
proof -
  have ne: "lit ''posted'' \<noteq> lit ''refreshed''" "lit ''posted'' \<noteq> lit ''not_found''"
    "lit ''posted'' \<noteq> lit ''no_channel''" "lit ''posted'' \<noteq> lit ''no_editor_group''"
    "lit ''posted'' \<noteq> lit ''not_normalized''" by (simp_all add: lit_def)
  obtain p ch where p: "get_post (wdb w) pid = Some p"
    and ch: "get_channel (wdb w) (source_channel_id p) = Some ch"
    using assms(1) ne by (auto simp: post_draft_def split: option.splits)
  have ok: "editor_group_id (cfg E) \<noteq> 0" "normalized_text p \<noteq> None" "\<not> truthy_int (draft_message_id p)"
    using assms(1,2) p ch ne
    by (auto simp: post_draft_def case_prod_beta Let_def tg_do_def split: if_splits)
  obtain c where w1: "w1 = record_draft E pid m (w\<lparr>wcalls := wcalls w @ [(c, Delivered m)]\<rparr>)"
    using assms(1,2) p ch ok ne
    by (auto simp: post_draft_def case_prod_beta Let_def tg_do_def)
  define w0 where "w0 = w\<lparr>wcalls := wcalls w @ [(c, Delivered m)]\<rparr>"
  have "get_post (wdb w0) pid = Some p" using p by (simp add: w0_def)
  from record_draft_get [OF this, of E m] obtain u where
    q: "get_post (wdb w1) pid = Some (p\<lparr>draft_message_id := Some m, updated_at := u\<rparr>)"
    by (auto simp: w1 w0_def)
  have ch1: "get_channel (wdb w1) (source_channel_id p) = Some ch" using ch by (simp add: w1)
  have "\<exists>text kb. map fst (wcalls (snd (post_draft E pid w1)))
        = map fst (wcalls w1) @ [Edit_message_text (editor_group_id (cfg E)) m text kb]"
    "wdb (snd (post_draft E pid w1)) = wdb w1"
    using q ch1 ok assms(3)
    by (auto simp: post_draft_def case_prod_beta Let_def tg_do_def split: tg_outcome.split)
  with q show ?thesis by auto
qed

definition normalized_post :: post where
  "normalized_post = sample_post\<lparr>normalized_text := Some (lit ''hi'')\<rparr>"

theorem post_draft_edits_own_card_witness:
  "wdb (snd (post_draft sample_env 9 (snd (post_draft sample_env 9 (sample_world [normalized_post] [])))))
     = wdb (snd (post_draft sample_env 9 (sample_world [normalized_post] [])))"
proof -
  have r: "fst (post_draft sample_env 9 (sample_world [normalized_post] [])) = Inr (lit ''posted'')"
    by code_simp
  show ?thesis
    using post_draft_edits_own_card [of sample_env 9 "sample_world [normalized_post] []" _ 7] r
    by (auto simp: sample_env_def prod_eq_iff)
qed

text \<open>the commands answer in the editor group only, and never touch the store or the queues.\<close>

theorem commands_stay_in_group:
  "cmd \<in> {cmd_queue, cmd_stats, cmd_health} \<Longrightarrow>
   wdb (snd (cmd E chat w)) = wdb w \<and> wjobs (snd (cmd E chat w)) = wjobs w \<and>
   (\<exists>new. map fst (wcalls (snd (cmd E chat w))) = map fst (wcalls w) @ new \<and>
      set (map call_chat new) \<subseteq> {Some (editor_group_id (cfg E))})"
  by (auto simp: cmd_queue_def cmd_stats_def cmd_health_def cmd_authorized_def say_def tg_do_def Let_def
      split: tg_outcome.split)

theorem commands_stay_in_group_witness:
  "wdb (snd (cmd_stats sample_env 5 (sample_world [] []))) = wdb (sample_world [] [])"
  using commands_stay_in_group [of cmd_stats sample_env 5 "sample_world [] []"] by simp

text \<open>the statistics account for every post exactly once.\<close>

theorem stats_count_every_post:
  "sum_list (map (state_count d) all_post_states) = length (posts d) \<and>
   length (stats_lines d) = length all_post_states + 1"
  using state_counts_sum [OF all_post_states_distinct, of "posts d"] all_post_states_complete
  by (auto simp: state_count_def [abs_def] stats_lines_def)

end
