(* ===== verification/Ingest.thy ===== *)
theory Ingest
  imports Reconcile
begin

text \<open>
  Ingestion of channel messages (\<open>userbot/ingest.py\<close>): the two-phase insert, the media download
  between the phases, and the recovery of posts that a crash or an error left between them.
\<close>

section \<open>Messages\<close>

record document =
  doc_size :: "int option"
  doc_mime :: "pystr option"

record message =
  m_id :: int
  m_raw_text :: "pystr option"
  m_message :: "pystr option"
  m_photo :: bool
  m_video :: bool
  m_video_note :: bool
  m_voice :: bool
  m_gif :: bool
  m_audio :: bool
  m_document :: "document option"

text \<open>
  The client of the user account: the outcome of \<open>download_media(message, file)\<close>, given the world
  in which it is called, and the messages that \<open>iter_messages\<close> of a channel yields from a minimum
  id on, up to a limit, before it ends or raises.
\<close>

datatype dl_outcome = Saved | Nothing_saved | Dl_flood_wait int | Dl_error exn

record telethon =
  tl_download :: "world \<Rightarrow> message \<Rightarrow> pystr \<Rightarrow> dl_outcome"
  tl_iter_messages :: "int \<Rightarrow> int \<Rightarrow> nat \<Rightarrow> message list"
  tl_resolve :: "int \<Rightarrow> bool"

definition media_kind :: "message \<Rightarrow> media_type option" where
  "media_kind m =
     (if m_photo m then Some MT_photo
      else if m_video m then (if m_video_note m then Some MT_video_note else Some MT_video)
      else if m_voice m then Some MT_voice
      else if m_gif m then Some MT_animation
      else if m_audio m then Some MT_audio
      else if m_document m \<noteq> None then Some MT_document
      else None)"

section \<open>Download\<close>

definition media_target :: "settings \<Rightarrow> int \<Rightarrow> media_type \<Rightarrow> pystr \<Rightarrow> int \<Rightarrow> pystr" where
  "media_target s pid kind ext idx =
     path_join (media_dir s)
       (str_int pid @ [95] @ str_int idx @ [95] @ media_value kind @ [46] @ or_else (Some ext) (lit ''bin''))"

lemma media_target_inj: "media_target s pid kind ext i = media_target s pid kind ext j \<Longrightarrow> i = j"
  by (auto simp: media_target_def path_join_def Let_def split: if_splits intro: str_int_inj)

text \<open>The search for a free name: every name that is taken is one file less to try.\<close>

function free_target :: "settings \<Rightarrow> int \<Rightarrow> media_type \<Rightarrow> pystr \<Rightarrow> pystr list \<Rightarrow> int \<Rightarrow> pystr" where
  "free_target s pid kind ext files idx =
     (if media_target s pid kind ext idx \<in> set files then free_target s pid kind ext files (idx + 1)
      else media_target s pid kind ext idx)"
  by pat_completeness auto
termination
proof (relation "measure (\<lambda>(s, pid, kind, ext, files, idx).
    card {f \<in> set files. \<exists>j \<ge> idx. f = media_target s pid kind ext j})", simp)
  fix s pid kind ext files idx
  let ?rest = "\<lambda>i. {f \<in> set files. \<exists>j \<ge> i. f = media_target s pid kind ext j}"
  assume "media_target s pid kind ext idx \<in> set files"
  then have "media_target s pid kind ext idx \<in> ?rest idx" by blast
  moreover have "media_target s pid kind ext idx \<notin> ?rest (idx + 1)"
    by (auto dest!: media_target_inj)
  moreover have "?rest (idx + 1) \<subseteq> ?rest idx"
  proof
    fix f assume "f \<in> ?rest (idx + 1)"
    then obtain j where "j \<ge> idx + 1" "f = media_target s pid kind ext j" "f \<in> set files" by blast
    then show "f \<in> ?rest idx" by (intro CollectI conjI exI [of _ j]) simp_all
  qed
  ultimately have "?rest (idx + 1) \<subset> ?rest idx" by blast
  then show "((s, pid, kind, ext, files, idx + 1), s, pid, kind, ext, files, idx)
      \<in> measure (\<lambda>(s, pid, kind, ext, files, idx). card {f \<in> set files. \<exists>j \<ge> idx. f = media_target s pid kind ext j})"
    by (simp add: psubset_card_mono)
qed

declare free_target.simps [simp del]

definition document_size :: "message \<Rightarrow> int" where
  "document_size m = (case m_document m of None \<Rightarrow> 0 | Some dc \<Rightarrow> (case doc_size dc of None \<Rightarrow> 0 | Some n \<Rightarrow> n))"

definition document_mime :: "message \<Rightarrow> pystr option" where
  "document_mime m = (case m_document m of None \<Rightarrow> None | Some dc \<Rightarrow> doc_mime dc)"

text \<open>\<open>mime_type.split("/")[-1]\<close> of a document with a type.\<close>

definition media_ext :: "message \<Rightarrow> pystr" where
  "media_ext m = (if truthy (document_mime m) then last (split_on 47 (the (document_mime m))) else [])"

definition save_file :: "pystr \<Rightarrow> world \<Rightarrow> world" where
  "save_file f w = w\<lparr>wfiles := wfiles w @ [(f, wclock w)]\<rparr>"

definition download_media :: "env \<Rightarrow> telethon \<Rightarrow> message \<Rightarrow> int \<Rightarrow> source_channel \<Rightarrow> media_ref option eff" where
  "download_media E T m pid ch w =
     (case media_kind m of
        None \<Rightarrow> (Inr None, w)
      | Some kind \<Rightarrow>
          let size = document_size m
          in if size \<noteq> 0 \<and> size > max_media_size_bytes ch
             then (Inr (Some \<lparr>mr_type = Some (media_value kind), mr_file = Some [], mr_size = Some size,
                              mr_mime = None, mr_omitted = True\<rparr>), w)
             else
               let target = free_target (cfg E) pid kind (media_ext m) (map fst (wfiles w)) 0;
                   ref = \<lparr>mr_type = Some (media_value kind), mr_file = Some target, mr_size = Some size,
                          mr_mime = document_mime m, mr_omitted = False\<rparr>
               in (case tl_download T w m target of
                     Saved \<Rightarrow> (Inr (Some ref), save_file target w)
                   | Nothing_saved \<Rightarrow> (Inr None, w)
                   | Dl_error e \<Rightarrow> (Inl e, w)
                   | Dl_flood_wait n \<Rightarrow>
                       let w1 = sleep (seconds (n + 1)) w
                       in (case tl_download T w1 m target of
                             Saved \<Rightarrow> (Inr (Some ref), save_file target w1)
                           | Nothing_saved \<Rightarrow> (Inr None, w1)
                           | Dl_error e \<Rightarrow> (Inl e, w1)
                           | Dl_flood_wait k \<Rightarrow> (Inl (FloodWaitError k), w1))))"

section \<open>Ingestion\<close>

text \<open>\<open>message.raw_text or message.message or None\<close>.\<close>

definition message_text :: "message \<Rightarrow> pystr option" where
  "message_text m = (if truthy (m_raw_text m) then m_raw_text m
     else if truthy (m_message m) then m_message m else None)"

definition already_ingested :: "db \<Rightarrow> int \<Rightarrow> int \<Rightarrow> bool" where
  "already_ingested d cid mid \<longleftrightarrow> list_ex (\<lambda>p. source_channel_id p = cid \<and> source_message_id p = mid) (posts d)"

text \<open>
  The first transaction: \<open>None\<close> when a constraint refuses the row, the unique pair of channel and
  message or the reference to a channel that is gone.
\<close>

definition insert_post :: "time \<Rightarrow> source_channel \<Rightarrow> message \<Rightarrow> db \<Rightarrow> (int \<times> db) option" where
  "insert_post now ch m d =
     (if already_ingested d (channel_id ch) (m_id m) \<or> get_channel d (channel_id ch) = None then None
      else let pid = next_id d;
               d1 = d\<lparr>posts := tadd (new_post pid (channel_id ch) (m_id m) (message_text m) now) (posts d),
                      next_id := next_id d + 1\<rparr>
           in Some (pid, add_event now pid None Ev_ingested [(''has_media'', JBool False)] d1))"

text \<open>The second transaction: the media references and their event.\<close>

definition attach_media :: "time \<Rightarrow> int \<Rightarrow> media_ref list \<Rightarrow> db \<Rightarrow> db" where
  "attach_media now pid refs d =
     (case get_post d pid of
        None \<Rightarrow> d
      | Some p \<Rightarrow>
          let omitted = list_ex mr_omitted refs
          in add_event now pid None (if omitted then Ev_media_omitted else Ev_edited)
               [(''has_media'', JBool (refs \<noteq> [])), (''omitted'', JBool omitted)]
               (save_post now (p\<lparr>raw_media_refs := refs\<rparr>) d))"

definition ingest_message :: "env \<Rightarrow> telethon \<Rightarrow> message \<Rightarrow> source_channel \<Rightarrow> int option eff" where
  "ingest_message E T m ch w =
     (case insert_post (wclock w) ch m (wdb w) of
        None \<Rightarrow> (Inr None, w)
      | Some (pid, d1) \<Rightarrow>
          (case download_media E T m pid ch (w\<lparr>wdb := d1\<rparr>) of
             (Inl e, w1) \<Rightarrow> (Inl e, w1)
           | (Inr ref, w1) \<Rightarrow>
               if get_post (wdb w1) pid = None then (Inr None, w1)
               else
                 let refs = (case ref of None \<Rightarrow> [] | Some r \<Rightarrow> [r]);
                     w2 = w1\<lparr>wdb := attach_media (wclock w1) pid refs (wdb w1)\<rparr>
                 in (case enqueue_normalize E pid w2 of
                       (Inl e, w3) \<Rightarrow> (Inl e, w3)
                     | (Inr u, w3) \<Rightarrow> (Inr (Some pid), w3))))"

section \<open>Recovery\<close>

definition ORPHAN_AGE_MINUTES :: int where
  "ORPHAN_AGE_MINUTES = 5"

definition ORPHAN_BATCH :: nat where
  "ORPHAN_BATCH = 200"

definition orphan :: "time \<Rightarrow> post \<Rightarrow> bool" where
  "orphan now p \<longleftrightarrow> post_state p = Pending \<and> raw_media_refs p = [] \<and>
     received_at p \<le> now - minutes ORPHAN_AGE_MINUTES"

definition orphans :: "time \<Rightarrow> db \<Rightarrow> post list" where
  "orphans now d = take ORPHAN_BATCH (sort_key received_at (filter (orphan now) (posts d)))"

definition reconcile_pending :: "env \<Rightarrow> int eff" where
  "reconcile_pending E w = enqueue_each E normalize_job (orphans (wclock w) (wdb w)) 0 w"

definition last_ingested_message_id :: "db \<Rightarrow> source_channel \<Rightarrow> int" where
  "last_ingested_message_id d ch =
     (case rev (sort (map source_message_id (filter (\<lambda>p. source_channel_id p = channel_id ch) (posts d)))) of
        [] \<Rightarrow> 0 | k # ks \<Rightarrow> k)"

section \<open>Facts\<close>

lemma free_target_fresh: "free_target s pid kind ext files idx \<notin> set files"
proof (induction s pid kind ext files idx rule: free_target.induct)
  case (1 s pid kind ext files idx)
  then show ?case by (subst free_target.simps) simp
qed

lemma save_file_fields [frame, simp]:
  "wdb (save_file f w) = wdb w" "wjobs (save_file f w) = wjobs w" "wclock (save_file f w) = wclock w"
  "wcalls (save_file f w) = wcalls w"
  by (simp_all add: save_file_def)

lemma download_media_frame [frame, simp]:
  "wdb (snd (download_media E T m pid ch w)) = wdb w"
  "wjobs (snd (download_media E T m pid ch w)) = wjobs w"
  "wcalls (snd (download_media E T m pid ch w)) = wcalls w"
  by (simp_all add: download_media_def Let_def split: option.split dl_outcome.split)

lemma insert_post_Some:
  assumes "insert_post now ch m d = Some (pid, d1)"
  shows "pid = next_id d" "\<not> already_ingested d (channel_id ch) (m_id m)"
    "posts d1 = posts d @ [new_post pid (channel_id ch) (m_id m) (message_text m) now]"
    "next_id d1 = next_id d + 2" "source_channels d1 = source_channels d" "dedupe_rows d1 = dedupe_rows d"
  using assms by (auto simp: insert_post_def Let_def tadd_def add_event_def split: if_splits)

lemma attach_media_keys [simp]:
  "keys post_id (posts (attach_media now pid refs d)) = keys post_id (posts d)"
  "source_channels (attach_media now pid refs d) = source_channels d"
  "dedupe_rows (attach_media now pid refs d) = dedupe_rows d"
  by (simp_all add: attach_media_def Let_def split: option.split)

end
