(* ===== verification/NormalizeSpec.thy ===== *)
theory NormalizeSpec
  imports WorkerNormalize Publisher
begin

text \<open>
  What the normalize job guarantees: routing, duplicates, what is stored, and how the stored row
  meets the publisher.
\<close>

text \<open>A post that the job will work on: stored, not terminal, its channel known, its template
  rendering to \<open>n\<close>.\<close>

definition ready :: "env \<Rightarrow> world \<Rightarrow> post \<Rightarrow> source_channel \<Rightarrow> pystr \<Rightarrow> bool" where
  "ready E w p ch n \<longleftrightarrow>
     get_post (wdb w) (post_id p) = Some p \<and> post_state p \<notin> {Published, Rejected} \<and>
     get_channel (wdb w) (source_channel_id p) = Some ch \<and>
     normalize_text E (wdb w) (channel_template (wdb w) ch) (or_else (raw_text p) [])
       (channel_label ch) (normalize_tags ch) = Inr n"

lemma ready_normalize:
  "ready E w p ch n \<Longrightarrow> normalize E (post_id p) w = normalize_write E ch p n (normalize_tags ch) w"
  by (auto simp: ready_def intro: normalize_ready)

lemma ready_post:
  "ready E w p ch n \<Longrightarrow>
   \<exists>u. get_post (wdb (snd (normalize E (post_id p) w))) (post_id p)
     = Some ((if is_duplicate (cfg E) (wclock w) (wdb w) (content_hash E p)
          then (final_row E ch p n (normalize_tags ch))\<lparr>post_state := Rejected\<rparr>
          else final_row E ch p n (normalize_tags ch))\<lparr>updated_at := u\<rparr>)"
  by (simp only: ready_normalize) (rule normalize_write_post, simp add: ready_def)


lemma sample_ready: "ready sample_env (sample_world [sample_post] []) sample_post sample_channel (lit ''hi'')"
  by code_simp

lemma sample_hash: "content_hash sample_env sample_post = lit ''hi:''"
  by code_simp


text \<open>
  content published within the lookback window is rejected, with the hash on record and no job.
\<close>

theorem normalize_rejects_duplicate:
  assumes "ready E w p ch n" and "is_duplicate (cfg E) (wclock w) (wdb w) (content_hash E p)"
  shows "fst (normalize E (post_id p) w) = Inr (lit ''duplicate'') \<and>
    wjobs (snd (normalize E (post_id p) w)) = wjobs w \<and>
    (\<exists>q. get_post (wdb (snd (normalize E (post_id p) w))) (post_id p) = Some q \<and>
       post_state q = Rejected \<and> dedupe_hash q = Some (content_hash E p))"
proof -
  obtain u where "get_post (wdb (snd (normalize E (post_id p) w))) (post_id p)
      = Some ((final_row E ch p n (normalize_tags ch))\<lparr>post_state := Rejected, updated_at := u\<rparr>)"
    using ready_post [OF assms(1)] assms(2) by auto
  with assms show ?thesis by (simp add: ready_normalize normalize_write_dup)
qed

definition published_row :: "time \<Rightarrow> published_dedupe" where
  "published_row t = \<lparr>pd_id = 1, pd_hash = lit ''hi:'', pd_published_at = t\<rparr>"

lemma sample_ready_dup:
  "ready sample_env (sample_world [sample_post] [published_row (days 995)]) sample_post sample_channel (lit ''hi'')"
  by code_simp

theorem normalize_rejects_duplicate_witness:
  "fst (normalize sample_env 9 (sample_world [sample_post] [published_row (days 995)])) = Inr (lit ''duplicate'')"
proof -
  have d: "is_duplicate (cfg sample_env) (wclock (sample_world [sample_post] [published_row (days 995)]))
      (wdb (sample_world [sample_post] [published_row (days 995)])) (content_hash sample_env sample_post)"
    by code_simp
  have "post_id sample_post = 9" by (simp add: sample_defs)
  with normalize_rejects_duplicate [OF sample_ready_dup d] show ?thesis by simp
qed

text \<open>a job for a post that is gone, terminal, without its channel, or whose template raises
  leaves the world as it was.\<close>

theorem normalize_leaves_world:
  assumes "get_post (wdb w) pid = None \<or>
    (\<exists>p. get_post (wdb w) pid = Some p \<and>
      (post_state p \<in> {Published, Rejected} \<or>
       get_channel (wdb w) (source_channel_id p) = None \<or>
       (\<exists>ch e. get_channel (wdb w) (source_channel_id p) = Some ch \<and>
          normalize_text E (wdb w) (channel_template (wdb w) ch) (or_else (raw_text p) [])
            (channel_label ch) (normalize_tags ch) = Inl e)))"
  shows "snd (normalize E pid w) = w"
  using assms unfolding normalize_def normalize_tags_def [symmetric] Let_def
  by (elim disjE exE conjE) (simp_all split: option.split)

theorem normalize_leaves_world_witness:
  "snd (normalize sample_env 4 (sample_world [sample_post] [])) = sample_world [sample_post] []"
proof -
  have "get_post (wdb (sample_world [sample_post] [])) 4 = None" by (simp add: sample_defs tget_def)
  then show ?thesis by (intro normalize_leaves_world) simp
qed

definition llm_outcome :: "env \<Rightarrow> source_channel \<Rightarrow> pystr \<Rightarrow> transform_result result" where
  "llm_outcome E ch n = transform_text (cfg E) (openai E) n (channel_ai_mode ch)
     (ai_target_language ch) (ai_tone_prompt ch) (ai_custom_system_prompt ch)
     (Some (ai_model (cfg E))) (Some (ai_max_tokens (cfg E))) (Some (ai_timeout_seconds (cfg E)))"

definition branded :: "env \<Rightarrow> source_channel \<Rightarrow> pystr \<Rightarrow> pystr" where
  "branded E ch t = apply_watermark (uni E) t
     (if watermark_enabled ch then watermark_text ch else None) (strip_source_tags ch)"

text \<open>
  C29: an AI failure does not stop a post: the stored text is the rendered text with the watermark
  step applied, and an \<open>ai_failed\<close> event with at most 500 characters of the error is recorded.
\<close>

theorem normalize_ai_failure_falls_back:
  assumes "ready E w p ch n" and "should_ai_transform (cfg E) ch" and "llm_outcome E ch n = Inl e"
  shows "\<exists>q ev. get_post (wdb (snd (normalize E (post_id p) w))) (post_id p) = Some q \<and>
     normalized_text q = Some (branded E ch n) \<and> ai_transformed_text q = ai_transformed_text p \<and>
     ev \<in> set (post_events (wdb (snd (normalize E (post_id p) w)))) \<and>
     event_action ev = Ev_ai_failed \<and> event_post_id ev = post_id p \<and>
     (\<exists>m. event_payload ev = [(''error'', JStr m)] \<and> length m \<le> 500)"
proof -
  let ?d = "is_duplicate (cfg E) (wclock w) (wdb w) (content_hash E p)"
  have ai: "ai_step E ch p n = (n, p, Some (Ev_ai_failed, [(''error'', JStr (take 500 (exn_text e)))]))"
    using assms(2,3) by (simp add: ai_step_def llm_outcome_def)
  obtain u where q: "get_post (wdb (snd (normalize E (post_id p) w))) (post_id p)
      = Some ((if ?d then (final_row E ch p n (normalize_tags ch))\<lparr>post_state := Rejected\<rparr>
          else final_row E ch p n (normalize_tags ch))\<lparr>updated_at := u\<rparr>)"
    using ready_post [OF assms(1)] by blast
  let ?ev = "\<lparr>event_id = next_id (wdb w), event_post_id = post_id p, actor_admin_id = None,
      event_action = Ev_ai_failed, event_payload = [(''error'', JStr (take 500 (exn_text e)))],
      event_created_at = wclock w\<rparr>"
  have ev: "?ev \<in> set (post_events (wdb (snd (normalize E (post_id p) w))))"
    using assms(1)
    by (simp add: ready_normalize normalize_write_wdb committed_db_def ai add_opt_event_def)
  have "normalized_text (final_row E ch p n (normalize_tags ch)) = Some (branded E ch n)"
    "ai_transformed_text (final_row E ch p n (normalize_tags ch)) = ai_transformed_text p"
    by (simp_all add: final_row_def ai normalized_row_def branded_def)
  with q ev show ?thesis
    by (intro exI [of _ "(if ?d then (final_row E ch p n (normalize_tags ch))\<lparr>post_state := Rejected\<rparr>
          else final_row E ch p n (normalize_tags ch))\<lparr>updated_at := u\<rparr>"] exI [of _ ?ev]) auto
qed

definition ai_channel :: source_channel where
  "ai_channel = sample_channel\<lparr>ai_enabled := True, channel_ai_mode := AI_summarize,
     watermark_enabled := True, watermark_text := Some (lit ''brand'')\<rparr>"

definition ai_world :: world where
  "ai_world = (sample_world [sample_post] [])
     \<lparr>wdb := (sample_db [sample_post] [])\<lparr>source_channels := [ai_channel]\<rparr>\<rparr>"

text \<open>AI switched on without a key, and with a model that answers \<open>AI\<close>.\<close>

definition keyless_env :: env where
  "keyless_env = sample_env\<lparr>cfg := (cfg sample_env)\<lparr>global_ai_enabled := True\<rparr>\<rparr>"

definition ai_env :: env where
  "ai_env = sample_env\<lparr>
     cfg := (cfg sample_env)\<lparr>global_ai_enabled := True, ai_api_key := lit ''k''\<rparr>,
     openai := Some (\<lambda>r. Inr \<lparr>rs_choices = [Some (lit ''AI'')], rs_model = None, rs_usage = None,
                            rs_latency_ms = 5\<rparr>)\<rparr>"

theorem normalize_ai_failure_falls_back_witness:
  "\<exists>q. get_post (wdb (snd (normalize keyless_env 9 ai_world))) 9 = Some q \<and>
     normalized_text q = Some (branded keyless_env ai_channel (lit ''hi''))"
proof -
  have r: "ready keyless_env ai_world sample_post ai_channel (lit ''hi'')"
    by code_simp
  have s: "should_ai_transform (cfg keyless_env) ai_channel" by code_simp
  have l: "llm_outcome keyless_env ai_channel (lit ''hi'')
      = Inl (AITransformError (lit ''AI_API_KEY is not configured''))"
    by code_simp
  have "post_id sample_post = 9" by (simp add: sample_defs)
  with normalize_ai_failure_falls_back [OF r s l] show ?thesis by auto
qed

text \<open>
  a successful AI transformation bypasses the brand: the stored \<open>normalized_text\<close> carries the
  watermark and the tag stripping, but what the publisher sends is the bare output of the model.
\<close>

theorem ai_text_is_published_unbranded:
  assumes "ready E w p ch n" and "should_ai_transform (cfg E) ch" and "llm_outcome E ch n = Inr r"
    and "tr_text r \<noteq> []"
  shows "\<exists>q. get_post (wdb (snd (normalize E (post_id p) w))) (post_id p) = Some q \<and>
     normalized_text q = Some (branded E ch (tr_text r)) \<and> publish_text q = tr_text r"
proof -
  have ai: "fst (ai_step E ch p n) = tr_text r"
    "fst (snd (ai_step E ch p n)) = p\<lparr>ai_transformed_text := Some (tr_text r)\<rparr>"
    using assms(2,3) by (simp_all add: ai_step_def llm_outcome_def)
  have "normalized_text (final_row E ch p n (normalize_tags ch)) = Some (branded E ch (tr_text r))"
    "ai_transformed_text (final_row E ch p n (normalize_tags ch)) = Some (tr_text r)"
    by (simp_all add: final_row_def ai normalized_row_def branded_def)
  with ready_post [OF assms(1)] assms(4) show ?thesis
    by (auto simp: publish_text_def or_else_def)
qed

theorem ai_text_is_published_unbranded_witness:
  "\<exists>q. get_post (wdb (snd (normalize ai_env 9 ai_world))) 9 = Some q \<and>
     normalized_text q = Some (lit ''AI'' @ [10, 10] @ lit ''brand'') \<and> publish_text q = lit ''AI''"
proof -
  have r: "ready ai_env ai_world sample_post ai_channel (lit ''hi'')"
    by code_simp
  have s: "should_ai_transform (cfg ai_env) ai_channel" by code_simp
  have l: "llm_outcome ai_env ai_channel (lit ''hi'')
      = Inr \<lparr>tr_text = lit ''AI'', tr_model = lit ''gpt-4o-mini'', tr_prompt_tokens = 0,
             tr_completion_tokens = 0, tr_latency_ms = 5\<rparr>"
    by code_simp
  have b: "branded ai_env ai_channel (lit ''AI'') = lit ''AI'' @ [10, 10] @ lit ''brand''" by code_simp
  have "post_id sample_post = 9" by (simp add: sample_defs)
  with ai_text_is_published_unbranded [OF r s l] b show ?thesis by (simp add: lit_def)
qed

end
