(* ===== verification/IngestSpec.thy ===== *)
theory IngestSpec
  imports Ingest NormalizeSpec QueueApi
begin

text \<open>
  What ingestion promises: one row per message, one job per completed row, recovery of interrupted
  rows, and where recovery stops.
\<close>

section \<open>The shape of one run\<close>

text \<open>The primary keys handed out so far lie below the sequence.\<close>

definition ids_fresh :: "db \<Rightarrow> bool" where
  "ids_fresh d \<longleftrightarrow> (\<forall>p \<in> set (posts d). post_id p < next_id d)"

definition source_key :: "post \<Rightarrow> int \<times> int" where
  "source_key p = (source_channel_id p, source_message_id p)"

definition unique_sources :: "db \<Rightarrow> bool" where
  "unique_sources d \<longleftrightarrow> distinct (map source_key (posts d))"

lemma already_ingested_iff: "already_ingested d c m \<longleftrightarrow> (c, m) \<in> source_key ` set (posts d)"
  by (auto simp: already_ingested_def source_key_def list_ex_iff)

text \<open>The new row is the last one, and attaching media rewrites only it.\<close>

lemma attach_media_new:
  assumes "posts d = ps @ [p]" and "post_id p \<notin> post_id ` set ps"
  shows "\<exists>u. posts (attach_media now (post_id p) refs d) = ps @ [p\<lparr>raw_media_refs := refs, updated_at := u\<rparr>]"
proof -
  have g: "get_post d (post_id p) = Some p"
    using assms tget_None [of post_id ps "post_id p"] by (simp add: tget_def find_append)
  have t: "tput post_id (p\<lparr>raw_media_refs := refs, updated_at := now\<rparr>) (ps @ [p])
      = ps @ [p\<lparr>raw_media_refs := refs, updated_at := now\<rparr>]"
    using tput_absent [of post_id "p\<lparr>raw_media_refs := refs, updated_at := now\<rparr>" ps] assms(2)
    by (simp add: tput_def)
  show ?thesis
  proof (cases "raw_media_refs p = refs")
    case True
    then have "p\<lparr>raw_media_refs := refs\<rparr> = p" by (cases p) auto
    with g assms(1) True have "posts (attach_media now (post_id p) refs d) = ps @ [p\<lparr>raw_media_refs := refs, updated_at := updated_at p\<rparr>]"
      by (simp add: attach_media_def Let_def save_post_def)
    then show ?thesis by blast
  next
    case False
    then have "Some p \<noteq> Some (p\<lparr>raw_media_refs := refs\<rparr>)" by (metis option.inject post.select_convs(5) post.update_convs(5) post.surjective)
    with g assms(1) t show ?thesis by (auto simp: attach_media_def Let_def save_post_def)
  qed
qed

lemma fresh_next: "ids_fresh d \<Longrightarrow> next_id d \<notin> post_id ` set (posts d)"
  by (auto simp: ids_fresh_def)

lemma new_post_fields [simp]:
  "post_id (new_post k c m t now) = k" "source_key (new_post k c m t now) = (c, m)"
  "post_state (new_post k c m t now) = Pending" "raw_text (new_post k c m t now) = t"
  "raw_media_refs (new_post k c m t now) = []" "received_at (new_post k c m t now) = now"
  "source_channel_id (new_post k c m t now) = c" "source_message_id (new_post k c m t now) = m"
  by (simp_all add: new_post_def source_key_def)

text \<open>The three ways a run can end.\<close>

lemma ingest_cases:
  assumes "ids_fresh (wdb w)"
  obtains (refused) "insert_post (wclock w) ch m (wdb w) = None" "ingest_message E T m ch w = (Inr None, w)"
  | (stored) pid refs u where "ingest_message E T m ch w = (Inr (Some pid), snd (ingest_message E T m ch w))"
      "\<not> already_ingested (wdb w) (channel_id ch) (m_id m)" "pid = next_id (wdb w)"
      "posts (wdb (snd (ingest_message E T m ch w))) = posts (wdb w) @
         [(new_post pid (channel_id ch) (m_id m) (message_text m) (wclock w))\<lparr>raw_media_refs := refs, updated_at := u\<rparr>]"
      "wjobs (snd (ingest_message E T m ch w)) = wjobs w @ [normalize_job pid]" "length refs \<le> 1"
  | (failed) e pid refs u where "ingest_message E T m ch w = (Inl e, snd (ingest_message E T m ch w))"
      "\<not> already_ingested (wdb w) (channel_id ch) (m_id m)" "pid = next_id (wdb w)"
      "posts (wdb (snd (ingest_message E T m ch w))) = posts (wdb w) @
         [(new_post pid (channel_id ch) (m_id m) (message_text m) (wclock w))\<lparr>raw_media_refs := refs, updated_at := u\<rparr>]"
      "wjobs (snd (ingest_message E T m ch w)) = wjobs w" "length refs \<le> 1"
proof (cases "insert_post (wclock w) ch m (wdb w)")
  case None
  then show ?thesis using refused by (simp add: ingest_message_def)
next
  case (Some pd)
  then obtain pid d1 where ins: "insert_post (wclock w) ch m (wdb w) = Some (pid, d1)" by (cases pd) auto
  note i = insert_post_Some [OF ins]
  define p where "p = new_post pid (channel_id ch) (m_id m) (message_text m) (wclock w)"
  have ps: "posts d1 = posts (wdb w) @ [p]" using i(3) by (simp add: p_def)
  have nin: "post_id p \<notin> post_id ` set (posts (wdb w))" using fresh_next [OF assms] i(1) by (simp add: p_def)
  have pp: "p = p\<lparr>raw_media_refs := [], updated_at := wclock w\<rparr>" by (simp add: p_def new_post_def)
  obtain r w1 where dl: "download_media E T m pid ch (w\<lparr>wdb := d1\<rparr>) = (r, w1)" by fastforce
  have w1: "wdb w1 = d1" "wjobs w1 = wjobs w"
    using download_media_frame [of E T m pid ch "w\<lparr>wdb := d1\<rparr>"] dl by simp_all
  show ?thesis
  proof (cases r)
    case (Inl e)
    with ins dl have q: "ingest_message E T m ch w = (Inl e, w1)" by (simp add: ingest_message_def)
    have ps1: "posts (wdb w1) = posts (wdb w) @ [p\<lparr>raw_media_refs := [], updated_at := wclock w\<rparr>]"
      using ps pp w1(1) by metis
    show ?thesis
      by (rule failed [where e = e and pid = pid and refs = "[]" and u = "wclock w"])
        (use q i(1,2) w1(2) ps1 in \<open>simp_all add: p_def\<close>)
  next
    case (Inr ref)
    define refs where "refs = (case ref of None \<Rightarrow> [] | Some r \<Rightarrow> [r])"
    define w2 where "w2 = w1\<lparr>wdb := attach_media (wclock w1) pid refs (wdb w1)\<rparr>"
    have g: "get_post (wdb w1) pid \<noteq> None"
      using ps w1(1) tget_None [of post_id "posts d1" pid] by (auto simp: p_def)
    obtain u where u: "posts (wdb w2) = posts (wdb w) @ [p\<lparr>raw_media_refs := refs, updated_at := u\<rparr>]"
      using attach_media_new [OF ps nin, of "wclock w1" refs] by (auto simp: w2_def w1(1) p_def)
    have len: "length refs \<le> 1" by (simp add: refs_def split: option.split)
    obtain r3 w3 where en: "enqueue_normalize E pid w2 = (r3, w3)" by fastforce
    have w3: "wdb w3 = wdb w2" using en by (metis enqueue_job_frame(1) enqueue_normalize_def snd_conv)
    show ?thesis
    proof (cases r3)
      case (Inl e)
      then have "ingest_message E T m ch w = (Inl e, w3)"
        using ins dl Inr g en by (simp add: ingest_message_def refs_def w2_def Let_def)
      moreover have "wjobs w3 = wjobs w"
        using enqueue_job_err [of E "normalize_job pid" w2 e] en Inl w1(2) by (simp add: enqueue_normalize_def w2_def)
      ultimately show ?thesis
        by (intro failed [where e = e and pid = pid and refs = refs and u = u])
          (use i(1,2) u w3 len in \<open>simp_all add: p_def\<close>)
    next
      case (Inr v)
      then have "ingest_message E T m ch w = (Inr (Some pid), w3)"
        using ins dl \<open>r = Inr ref\<close> g en by (simp add: ingest_message_def refs_def w2_def Let_def)
      moreover have "wjobs w3 = wjobs w @ [normalize_job pid]"
        using enqueue_job_ok [of E "normalize_job pid" w2 v] en Inr w1(2) by (simp add: enqueue_normalize_def w2_def)
      ultimately show ?thesis
        by (intro stored [where pid = pid and refs = refs and u = u])
          (use i(1,2) u w3 len in \<open>simp_all add: p_def\<close>)
    qed
  qed
qed

lemma ingest_refuses_again:
  assumes "ids_fresh (wdb w)"
  shows "insert_post now ch m' (wdb (snd (ingest_message E T m ch w))) = None \<or> m_id m' \<noteq> m_id m"
  using assms
proof (cases rule: ingest_cases [where ch = ch and m = m and E = E and T = T])
  case refused
  then show ?thesis by (auto simp: insert_post_def Let_def split: if_splits)
next
  case (stored pid refs u)
  then show ?thesis by (auto simp: insert_post_def already_ingested_def)
next
  case (failed e pid refs u)
  then show ?thesis by (auto simp: insert_post_def already_ingested_def)
qed

lemma orphans_sound: "p \<in> set (orphans now d) \<Longrightarrow> p \<in> set (posts d) \<and> orphan now p"
  by (auto simp: orphans_def dest: in_set_takeD)

lemma orphans_all:
  "length (filter (orphan now) (posts d)) \<le> ORPHAN_BATCH \<Longrightarrow> set (orphans now d) = {p \<in> set (posts d). orphan now p}"
  by (simp add: orphans_def)

lemma ingest_refused: "insert_post (wclock w) ch m (wdb w) = None \<Longrightarrow> ingest_message E T m ch w = (Inr None, w)"
  by (simp add: ingest_message_def)

lemma ingest_adds_row_keeps:
  assumes "ids_fresh (wdb w)" and "unique_sources (wdb w)" and "unique_keys post_id (posts (wdb w))"
  shows "(\<exists>new. posts (wdb (snd (ingest_message E T m ch w))) = posts (wdb w) @ new \<and> length new \<le> 1 \<and>
      (case fst (ingest_message E T m ch w) of
         Inr None \<Rightarrow> new = [] \<and> wjobs (snd (ingest_message E T m ch w)) = wjobs w
       | Inr (Some pid) \<Rightarrow> map post_id new = [pid] \<and> map post_state new = [Pending] \<and> map raw_text new = [message_text m] \<and>
           wjobs (snd (ingest_message E T m ch w)) = wjobs w @ [normalize_job pid]
       | Inl e \<Rightarrow> map post_state new = [Pending] \<and> wjobs (snd (ingest_message E T m ch w)) = wjobs w)) \<and>
    unique_sources (wdb (snd (ingest_message E T m ch w))) \<and>
    unique_keys post_id (posts (wdb (snd (ingest_message E T m ch w))))"
proof -
  have fresh: "next_id (wdb w) \<notin> post_id ` set (posts (wdb w))" by (rule fresh_next [OF assms(1)])
  obtain r w1 where R: "ingest_message E T m ch w = (r, w1)" by fastforce
  show ?thesis
    using assms(1)
  proof (cases rule: ingest_cases [where ch = ch and m = m and E = E and T = T])
    case refused
    then have "r = Inr None" "w1 = w" using R by auto
    with assms R show ?thesis by simp
  next
    case (stored pid refs u)
    then have "(channel_id ch, m_id m) \<notin> source_key ` set (posts (wdb w))" by (simp add: already_ingested_iff)
    moreover have "r = Inr (Some pid)" using stored(1) R by simp
    moreover have "posts (wdb w1) = posts (wdb w) @ [(new_post pid (channel_id ch) (m_id m) (message_text m) (wclock w))
        \<lparr>raw_media_refs := refs, updated_at := u\<rparr>]" using stored(4) R by simp
    ultimately show ?thesis
      using fresh assms(2,3) stored(3,5) R by (simp add: unique_sources_def unique_keys_def keys_def source_key_def)
  next
    case (failed e pid refs u)
    then have "(channel_id ch, m_id m) \<notin> source_key ` set (posts (wdb w))" by (simp add: already_ingested_iff)
    moreover have "r = Inl e" using failed(1) R by simp
    moreover have "posts (wdb w1) = posts (wdb w) @ [(new_post pid (channel_id ch) (m_id m) (message_text m) (wclock w))
        \<lparr>raw_media_refs := refs, updated_at := u\<rparr>]" using failed(4) R by simp
    ultimately show ?thesis
      using fresh assms(2,3) failed(3,5) R by (simp add: unique_sources_def unique_keys_def keys_def source_key_def)
  qed
qed

section \<open>Properties\<close>

text \<open>
  C22: ingestion is idempotent. However the first run ended, with a job, with a failed download or
  with a failed enqueue, running it again on the same message changes nothing and queues nothing: the
  second attempt that the live handler makes after a flood wait cannot complete the first.
\<close>

theorem ingest_idempotent:
  assumes "ids_fresh (wdb w)" and "m_id m' = m_id m"
  shows "ingest_message E' T' m' ch (snd (ingest_message E T m ch w)) = (Inr None, snd (ingest_message E T m ch w))"
  by (rule ingest_refused) (use ingest_refuses_again [OF assms(1)] assms(2) in blast)

definition text_message :: message where
  "text_message = \<lparr>m_id = 42, m_raw_text = Some (lit ''hello''), m_message = None, m_photo = False, m_video = False,
     m_video_note = False, m_voice = False, m_gif = False, m_audio = False, m_document = None\<rparr>"

definition offline :: telethon where
  "offline = \<lparr>tl_download = (\<lambda>w m f. Dl_flood_wait 5), tl_iter_messages = (\<lambda>c k n. []), tl_resolve = (\<lambda>c. True)\<rparr>"

definition photo_message :: message where
  "photo_message = text_message\<lparr>m_photo := True\<rparr>"

theorem ingest_idempotent_witness:
  "ingest_message sample_env offline photo_message sample_channel
      (snd (ingest_message sample_env offline photo_message sample_channel (sample_world [sample_post] [])))
    = (Inr None, snd (ingest_message sample_env offline photo_message sample_channel (sample_world [sample_post] [])))"
proof (rule ingest_idempotent)
  show "ids_fresh (wdb (sample_world [sample_post] []))" by code_simp
qed simp

text \<open>
  a run adds at most one row, for a message that had none, and at most one job, for that row; the
  rows before it are untouched, and message pairs and ids stay unique.
\<close>

theorem ingest_adds_one_row:
  assumes "ids_fresh (wdb w)" and "unique_sources (wdb w)" and "unique_keys post_id (posts (wdb w))"
  shows "(\<exists>new. posts (wdb (snd (ingest_message E T m ch w))) = posts (wdb w) @ new \<and> length new \<le> 1 \<and>
      (case fst (ingest_message E T m ch w) of
         Inr None \<Rightarrow> new = [] \<and> wjobs (snd (ingest_message E T m ch w)) = wjobs w
       | Inr (Some pid) \<Rightarrow> map post_id new = [pid] \<and> map post_state new = [Pending] \<and> map raw_text new = [message_text m] \<and>
           wjobs (snd (ingest_message E T m ch w)) = wjobs w @ [normalize_job pid]
       | Inl e \<Rightarrow> map post_state new = [Pending] \<and> wjobs (snd (ingest_message E T m ch w)) = wjobs w)) \<and>
    unique_sources (wdb (snd (ingest_message E T m ch w))) \<and>
    unique_keys post_id (posts (wdb (snd (ingest_message E T m ch w))))"
  by (rule ingest_adds_row_keeps [OF assms])

theorem ingest_adds_one_row_witness:
  "unique_sources (wdb (snd (ingest_message sample_env offline text_message sample_channel (sample_world [sample_post] []))))"
proof -
  have "ids_fresh (wdb (sample_world [sample_post] []))" "unique_sources (wdb (sample_world [sample_post] []))"
    "unique_keys post_id (posts (wdb (sample_world [sample_post] [])))" by code_simp+
  from ingest_adds_one_row [OF this] show ?thesis by blast
qed

text \<open>
  C36: with Redis up, the recovery at start-up queues normalization for pending posts without media that were received
  five minutes ago or earlier, one job each, as ids are unique, and for no other post; for all of them, unless
  there are more than two hundred, and then for the two hundred that came in first.
\<close>

theorem reconcile_pending_spec:
  assumes "redis_up E" and "distinct (map post_id (posts (wdb w)))"
  shows "\<exists>ps. wjobs (snd (reconcile_pending E w)) = wjobs w @ map (\<lambda>p. normalize_job (post_id p)) ps \<and>
    wdb (snd (reconcile_pending E w)) = wdb w \<and> fst (reconcile_pending E w) = Inr (int (length ps)) \<and>
    length ps \<le> 200 \<and> distinct (map post_id ps) \<and>
    (\<forall>p \<in> set ps. p \<in> set (posts (wdb w)) \<and> post_state p = Pending \<and> raw_media_refs p = [] \<and>
       received_at p \<le> wclock w - minutes 5) \<and>
    (\<forall>q \<in> set (posts (wdb w)) - set ps. post_state q = Pending \<and> raw_media_refs q = [] \<and>
         received_at q \<le> wclock w - minutes 5 \<longrightarrow>
       length ps = 200 \<and> (\<forall>p \<in> set ps. received_at p \<le> received_at q))"
proof (intro exI conjI)
  let ?ps = "orphans (wclock w) (wdb w)" and ?all = "sort_key received_at (filter (orphan (wclock w)) (posts (wdb w)))"
  show "wjobs (snd (reconcile_pending E w)) = wjobs w @ map (\<lambda>p. normalize_job (post_id p)) ?ps"
    "fst (reconcile_pending E w) = Inr (int (length ?ps))"
    using enqueue_each_up [OF assms(1)] by (simp_all add: reconcile_pending_def)
  show "wdb (snd (reconcile_pending E w)) = wdb w" using enqueue_each_frame by (simp add: reconcile_pending_def)
  show "length ?ps \<le> 200" by (simp add: orphans_def ORPHAN_BATCH_def)
  show "distinct (map post_id ?ps)" unfolding orphans_def by (rule distinct_selection [OF assms(2)])
  show "\<forall>p \<in> set ?ps. p \<in> set (posts (wdb w)) \<and> post_state p = Pending \<and> raw_media_refs p = [] \<and>
      received_at p \<le> wclock w - minutes 5"
    using orphans_sound by (auto simp: orphan_def ORPHAN_AGE_MINUTES_def)
  show "\<forall>q \<in> set (posts (wdb w)) - set ?ps. post_state q = Pending \<and> raw_media_refs q = [] \<and>
      received_at q \<le> wclock w - minutes 5 \<longrightarrow> length ?ps = 200 \<and> (\<forall>p \<in> set ?ps. received_at p \<le> received_at q)"
  proof (intro ballI impI)
    fix q
    assume q: "q \<in> set (posts (wdb w)) - set ?ps" and "post_state q = Pending \<and> raw_media_refs q = [] \<and>
      received_at q \<le> wclock w - minutes 5"
    then have "q \<in> set ?all" by (simp add: orphan_def ORPHAN_AGE_MINUTES_def)
    then have d: "q \<in> set (drop 200 ?all)"
      using q by (metis Diff_iff ORPHAN_BATCH_def Un_iff append_take_drop_id orphans_def set_append)
    then have "200 < length ?all" by (metis drop_all empty_iff leI list.set(1))
    moreover have "received_at p \<le> received_at q" if "p \<in> set ?ps" for p
    proof -
      have "sorted (map received_at (take 200 ?all @ drop 200 ?all))" by simp
      then show ?thesis using that d by (simp only: map_append sorted_append orphans_def ORPHAN_BATCH_def set_map) blast
    qed
    ultimately show "length ?ps = 200 \<and> (\<forall>p \<in> set ?ps. received_at p \<le> received_at q)"
      by (simp add: orphans_def ORPHAN_BATCH_def)
  qed
qed

theorem reconcile_pending_spec_witness:
  "normalize_job 9 \<in> set (wjobs (snd (reconcile_pending sample_env (sample_world [sample_post] []))))"
proof -
  let ?w = "sample_world [sample_post] []"
  have u: "distinct (map post_id (posts (wdb ?w)))" by code_simp
  have p: "sample_post \<in> set (posts (wdb ?w))" "post_id sample_post = 9"
    "post_state sample_post = Pending \<and> raw_media_refs sample_post = [] \<and> received_at sample_post \<le> wclock ?w - minutes 5"
    by code_simp+
  obtain ps where ps: "wjobs (snd (reconcile_pending sample_env ?w)) = wjobs ?w @ map (\<lambda>p. normalize_job (post_id p)) ps"
    "fst (reconcile_pending sample_env ?w) = Inr (int (length ps))"
    "\<forall>q \<in> set (posts (wdb ?w)) - set ps. post_state q = Pending \<and> raw_media_refs q = [] \<and>
         received_at q \<le> wclock ?w - minutes 5 \<longrightarrow> length ps = 200"
    using reconcile_pending_spec [OF sample_up u] by metis
  have "fst (reconcile_pending sample_env ?w) = Inr 1" by code_simp
  then have "sample_post \<in> set ps" using ps(2,3) p(1,3) by force
  then show ?thesis using ps(1) p(2) by force
qed

text \<open>
  recovery has a hole. When Redis is down at the end of an ingestion that did download media, the
  error surfaces, the row is already pending with its media and will be refused as ingested from then
  on, and it is not an orphan at any later time: nothing ever queues it.
\<close>

theorem ingest_with_media_not_recovered:
  assumes "ids_fresh (wdb w)" and "unique_keys post_id (posts (wdb w))"
    and "insert_post (wclock w) ch m (wdb w) = Some (pid, d1)"
    and "download_media E T m pid ch (w\<lparr>wdb := d1\<rparr>) = (Inr (Some ref), w1)"
    and "redis_push E = (\<lambda>js j. Some (ConnectionError msg))" and "redis_create E = (\<lambda>js. None)"
  shows "fst (ingest_message E T m ch w) = Inl (ConnectionError msg) \<and>
    wjobs (snd (ingest_message E T m ch w)) = wjobs w \<and>
    (\<exists>p. p \<in> set (posts (wdb (snd (ingest_message E T m ch w)))) \<and> post_id p = pid \<and> post_state p = Pending \<and>
       raw_media_refs p = [ref] \<and> (\<forall>now. \<not> orphan now p))"
proof -
  note i = insert_post_Some [OF assms(3)]
  define p where "p = new_post pid (channel_id ch) (m_id m) (message_text m) (wclock w)"
  have ps: "posts d1 = posts (wdb w) @ [p]" using i(3) by (simp add: p_def)
  have nin: "post_id p \<notin> post_id ` set (posts (wdb w))" using fresh_next [OF assms(1)] i(1) by (simp add: p_def)
  have w1: "wdb w1 = d1" "wjobs w1 = wjobs w"
    using download_media_frame [of E T m pid ch "w\<lparr>wdb := d1\<rparr>"] assms(4) by simp_all
  have g: "get_post d1 pid \<noteq> None" using ps tget_None [of post_id "posts d1" pid] by (auto simp: p_def)
  obtain u where u: "posts (attach_media (wclock w1) pid [ref] d1)
      = posts (wdb w) @ [p\<lparr>raw_media_refs := [ref], updated_at := u\<rparr>]"
    using attach_media_new [OF ps nin, of "wclock w1" "[ref]"] by (auto simp: p_def)
  have "ingest_message E T m ch w = (Inl (ConnectionError msg),
      w1\<lparr>wdb := attach_media (wclock w1) pid [ref] d1, wpool := False\<rparr>)"
    using assms(3-6) g w1
    by (cases w1) (simp add: ingest_message_def Let_def enqueue_normalize_def enqueue_job_def get_pool_def)
  with u w1(2) show ?thesis by (auto simp: orphan_def p_def)
qed

definition online :: telethon where
  "online = offline\<lparr>tl_download := (\<lambda>w m f. Saved)\<rparr>"

definition no_redis :: env where
  "no_redis = sample_env\<lparr>redis_push := (\<lambda>js j. Some (ConnectionError (lit ''down'')))\<rparr>"

theorem ingest_with_media_not_recovered_witness:
  "\<exists>p. p \<in> set (posts (wdb (snd (ingest_message no_redis online photo_message sample_channel (sample_world [] []))))) \<and>
     post_id p = 100 \<and> (\<forall>now. \<not> orphan now p)"
proof -
  let ?w = "sample_world [] []"
  have f: "ids_fresh (wdb ?w)" "unique_keys post_id (posts (wdb ?w))" by code_simp+
  have "\<exists>d1. insert_post (wclock ?w) sample_channel photo_message (wdb ?w) = Some (100, d1)"
    by (simp add: insert_post_def Let_def already_ingested_def sample_defs tget_def)
  then obtain d1 where i: "insert_post (wclock ?w) sample_channel photo_message (wdb ?w) = Some (100, d1)" by blast
  obtain ref w1 where d: "download_media no_redis online photo_message 100 sample_channel (?w\<lparr>wdb := d1\<rparr>) = (Inr (Some ref), w1)"
    by (simp add: download_media_def media_kind_def photo_message_def text_message_def document_size_def Let_def
        online_def offline_def)
  have r: "redis_push no_redis = (\<lambda>js j. Some (ConnectionError (lit ''down'')))" "redis_create no_redis = (\<lambda>js. None)"
    by (simp_all add: no_redis_def sample_redis_up)
  show ?thesis using ingest_with_media_not_recovered [OF f i d r] by blast
qed

text \<open>
  the reconcile takes a text post that waits for approval for an orphan, because such a post stays
  pending. The job it queues normalizes the post again, which throws away the tags an editor has set.
\<close>

theorem reconcile_drops_edited_tags:
  assumes "ready E w p ch n" and "channel_policy ch = P_queue" and "redis_up E"
    and "orphan (wclock w) p" and "length (filter (orphan (wclock w)) (posts (wdb w))) \<le> 200"
  shows "normalize_job (post_id p) \<in> set (wjobs (snd (reconcile_pending E w))) \<and>
    (\<exists>q. get_post (wdb (snd (normalize E (post_id p) (snd (reconcile_pending E w))))) (post_id p) = Some q \<and> tag_ids q = [])"
proof -
  define w1 where "w1 = snd (reconcile_pending E w)"
  have w1: "wdb w1 = wdb w" using enqueue_each_frame by (simp add: w1_def reconcile_pending_def)
  have "get_post (wdb w) (post_id p) = Some p" using assms(1) by (simp add: ready_def)
  then have "p \<in> set (posts (wdb w))" by (rule tbl.get_in)
  then have "p \<in> set (orphans (wclock w) (wdb w))" using orphans_all assms(4,5) by (simp add: ORPHAN_BATCH_def)
  then have job: "normalize_job (post_id p) \<in> set (wjobs w1)"
    using enqueue_each_up [OF assms(3), of normalize_job "orphans (wclock w) (wdb w)" 0 w]
    by (simp add: w1_def reconcile_pending_def)
  have "ready E w1 p ch n" using assms(1) w1 by (simp add: ready_def)
  from ready_post [OF this] assms(2) job show ?thesis by (auto simp: w1_def normalize_tags_def)
qed

definition waiting_post :: post where
  "waiting_post = normalized_text_update (\<lambda>_. Some (lit ''hi'')) (sample_post\<lparr>tag_ids := [5]\<rparr>)"

definition queue_world :: world where
  "queue_world = (sample_world [waiting_post] [])\<lparr>wdb := (sample_db [waiting_post] [])\<lparr>
     source_channels := [sample_channel\<lparr>channel_policy := P_queue\<rparr>]\<rparr>\<rparr>"

theorem reconcile_drops_edited_tags_witness:
  "\<exists>q. get_post (wdb (snd (normalize sample_env 9 (snd (reconcile_pending sample_env queue_world))))) 9 = Some q \<and>
     tag_ids q = []"
proof -
  have r: "ready sample_env queue_world waiting_post (sample_channel\<lparr>channel_policy := P_queue\<rparr>) (lit ''hi'')"
    by code_simp
  have o: "orphan (wclock queue_world) waiting_post" "length (filter (orphan (wclock queue_world)) (posts (wdb queue_world))) \<le> 200"
    by code_simp+
  have "post_id waiting_post = 9" by (simp add: waiting_post_def sample_defs)
  with reconcile_drops_edited_tags [OF r _ sample_up o] show ?thesis by simp
qed

end
