(* ===== verification/Userbot.thy ===== *)
theory Userbot
  imports IngestSpec "HOL-Library.AList"
begin

text \<open>
  The entry points of the user account in \<open>userbot/main.py\<close>: which channels are followed, the
  backfill after a restart, the live handler, and the periodic reload of the channel map.
\<close>

section \<open>Channels followed\<close>

definition load_channels :: "db \<Rightarrow> source_channel list" where
  "load_channels d = filter ingestion_enabled (source_channels d)"

text \<open>The map from chat id to the row as it was when the channel was added.\<close>

type_synonym channel_map = "(int \<times> source_channel) list"

definition map_put :: "source_channel \<Rightarrow> channel_map \<Rightarrow> channel_map" where
  "map_put ch m = AList.update (telegram_channel_id ch) ch m"

section \<open>Backfill\<close>

definition BACKFILL_LIMIT :: nat where
  "BACKFILL_LIMIT = 200"

text \<open>The loop over the messages that the iteration yields; no exception leaves it.\<close>

fun backfill_each :: "env \<Rightarrow> telethon \<Rightarrow> source_channel \<Rightarrow> message list \<Rightarrow> nat \<Rightarrow> world \<Rightarrow> nat \<times> world" where
  "backfill_each E T ch [] n w = (n, w)"
| "backfill_each E T ch (m # ms) n w =
     (case ingest_message E T m ch w of
        (Inr r, w1) \<Rightarrow> backfill_each E T ch ms (n + 1) w1
      | (Inl (FloodWaitError k), w1) \<Rightarrow> backfill_each E T ch ms n (sleep (seconds (k + 1)) w1)
      | (Inl e, w1) \<Rightarrow> backfill_each E T ch ms n w1)"

definition backfill :: "env \<Rightarrow> telethon \<Rightarrow> source_channel \<Rightarrow> world \<Rightarrow> nat \<times> world" where
  "backfill E T ch w =
     backfill_each E T ch
       (tl_iter_messages T (telegram_channel_id ch) (last_ingested_message_id (wdb w) ch) BACKFILL_LIMIT) 0 w"

section \<open>Live messages\<close>

definition on_new_message :: "env \<Rightarrow> telethon \<Rightarrow> channel_map \<Rightarrow> int \<Rightarrow> message \<Rightarrow> world \<Rightarrow> world" where
  "on_new_message E T cm chat m w =
     (case map_of cm chat of
        None \<Rightarrow> w
      | Some ch \<Rightarrow>
          (case ingest_message E T m ch w of
             (Inr r, w1) \<Rightarrow> w1
           | (Inl (FloodWaitError k), w1) \<Rightarrow> snd (ingest_message E T m ch (sleep (seconds (k + 1)) w1))
           | (Inl e, w1) \<Rightarrow> w1))"

section \<open>Reload and start\<close>

text \<open>The entity of a channel, standing for itself by its id; whatever the look-up raises is logged.\<close>

definition resolve_entity :: "telethon \<Rightarrow> source_channel \<Rightarrow> int option" where
  "resolve_entity T ch = (if tl_resolve T (telegram_channel_id ch) then Some (telegram_channel_id ch) else None)"

lemma resolve_entity_None [simp]: "resolve_entity T ch = None \<longleftrightarrow> \<not> tl_resolve T (telegram_channel_id ch)"
  by (simp add: resolve_entity_def)

text \<open>
  One round of the reloader: rows that are not in the map are added when their entity resolves, and
  ids that are not enabled any more are popped. Rows that stay are not refreshed.
\<close>

definition add_channels :: "telethon \<Rightarrow> int set \<Rightarrow> source_channel list \<Rightarrow> channel_map \<Rightarrow> channel_map" where
  "add_channels T current chs cm =
     fold (\<lambda>ch cm. if telegram_channel_id ch \<notin> current \<and> resolve_entity T ch \<noteq> None
                   then map_put ch cm else cm) chs cm"

definition reload_channels :: "telethon \<Rightarrow> db \<Rightarrow> channel_map \<Rightarrow> channel_map" where
  "reload_channels T d cm =
     (let channels = load_channels d; current = fst ` set cm; db_ids = telegram_channel_id ` set channels
      in filter (\<lambda>kv. \<not> (fst kv \<in> current \<and> fst kv \<notin> db_ids)) (add_channels T current channels cm))"

text \<open>The start: recovery, then each enabled channel that resolves is mapped and backfilled.\<close>

fun start_channels :: "env \<Rightarrow> telethon \<Rightarrow> source_channel list \<Rightarrow> channel_map \<times> world \<Rightarrow> channel_map \<times> world" where
  "start_channels E T [] s = s"
| "start_channels E T (ch # chs) s =
     (if resolve_entity T ch \<noteq> None
      then start_channels E T chs (map_put ch (fst s), snd (backfill E T ch (snd s)))
      else start_channels E T chs s)"

definition start :: "env \<Rightarrow> telethon \<Rightarrow> world \<Rightarrow> channel_map \<times> world" where
  "start E T w =
     (let w1 = snd (reconcile_pending E w) in start_channels E T (load_channels (wdb w1)) ([], w1))"

section \<open>Facts\<close>

text \<open>What every step of ingestion keeps: rows are only added, at the end, with fresh ids.\<close>

definition grows :: "db \<Rightarrow> db \<Rightarrow> bool" where
  "grows d d' \<longleftrightarrow> (\<exists>new. posts d' = posts d @ new) \<and> source_channels d' = source_channels d \<and>
     dedupe_rows d' = dedupe_rows d \<and> next_id d \<le> next_id d'"

lemma grows_refl [simp]: "grows d d"
  by (auto simp: grows_def)

lemma grows_trans: "grows d d' \<Longrightarrow> grows d' d'' \<Longrightarrow> grows d d''"
  by (auto simp: grows_def)

definition store_ok :: "db \<Rightarrow> bool" where
  "store_ok d \<longleftrightarrow> ids_fresh d \<and> unique_sources d \<and> unique_keys post_id (posts d)"

lemma ingest_wdb:
  "(insert_post (wclock w) ch m (wdb w) = None \<and> wdb (snd (ingest_message E T m ch w)) = wdb w) \<or>
   (\<exists>pid d1. insert_post (wclock w) ch m (wdb w) = Some (pid, d1) \<and>
      (wdb (snd (ingest_message E T m ch w)) = d1 \<or>
       (\<exists>now refs. wdb (snd (ingest_message E T m ch w)) = attach_media now pid refs d1)))"
proof (cases "insert_post (wclock w) ch m (wdb w)")
  case None
  then show ?thesis by (simp add: ingest_message_def)
next
  case (Some pd)
  obtain pid d1 where pd: "pd = (pid, d1)" by (cases pd)
  obtain r w1 where dl: "download_media E T m pid ch (w\<lparr>wdb := d1\<rparr>) = (r, w1)" by fastforce
  have w1: "wdb w1 = d1" using download_media_frame(1) [of E T m pid ch "w\<lparr>wdb := d1\<rparr>"] dl by simp
  show ?thesis
  proof (cases r)
    case (Inl e)
    with Some pd dl w1 show ?thesis by (simp add: ingest_message_def)
  next
    case (Inr ref)
    define w2 where "w2 = w1\<lparr>wdb := attach_media (wclock w1) pid (case ref of None \<Rightarrow> [] | Some r \<Rightarrow> [r]) (wdb w1)\<rparr>"
    obtain r3 w3 where en: "enqueue_normalize E pid w2 = (r3, w3)" by fastforce
    have "wdb w3 = wdb w2" using en by (metis enqueue_job_frame(1) enqueue_normalize_def snd_conv)
    then have w3: "wdb w3 = attach_media (wclock w1) pid (case ref of None \<Rightarrow> [] | Some r \<Rightarrow> [r]) d1"
      by (simp add: w2_def w1)
    have "snd (ingest_message E T m ch w) \<in> {w1, w3}"
      using Some pd dl Inr en by (cases r3) (auto simp: ingest_message_def Let_def w2_def)
    with Some pd w1 w3 show ?thesis by auto
  qed
qed

lemma attach_media_next: "next_id d \<le> next_id (attach_media now pid refs d)"
  by (simp add: attach_media_def Let_def add_event_def split: option.split)

lemma ingest_grows:
  assumes "ids_fresh (wdb w)"
  shows "grows (wdb w) (wdb (snd (ingest_message E T m ch w)))"
    and "ids_fresh (wdb (snd (ingest_message E T m ch w)))"
    and "get_channel (wdb w) (channel_id ch) \<noteq> None \<Longrightarrow>
      already_ingested (wdb (snd (ingest_message E T m ch w))) (channel_id ch) (m_id m)"
proof -
  define d' where "d' = wdb (snd (ingest_message E T m ch w))"
  have k: "source_channels d' = source_channels (wdb w) \<and> dedupe_rows d' = dedupe_rows (wdb w) \<and>
      (insert_post (wclock w) ch m (wdb w) = None \<and> d' = wdb w \<or>
       insert_post (wclock w) ch m (wdb w) \<noteq> None \<and> next_id (wdb w) < next_id d')"
  proof (cases "insert_post (wclock w) ch m (wdb w)")
    case None
    then show ?thesis using ingest_wdb [of w ch m E T] by (simp add: d'_def)
  next
    case (Some pd)
    then obtain pid d1 where i: "insert_post (wclock w) ch m (wdb w) = Some (pid, d1)" by (cases pd) auto
    then have "d' = d1 \<or> (\<exists>now refs. d' = attach_media now pid refs d1)"
      using ingest_wdb [of w ch m E T] by (auto simp: d'_def)
    then have "source_channels d' = source_channels d1 \<and> dedupe_rows d' = dedupe_rows d1 \<and> next_id d1 \<le> next_id d'"
      using attach_media_next by auto
    with insert_post_Some [OF i] i show ?thesis by simp
  qed
  have p: "insert_post (wclock w) ch m (wdb w) \<noteq> None \<Longrightarrow> \<exists>refs u. posts d' = posts (wdb w) @
      [(new_post (next_id (wdb w)) (channel_id ch) (m_id m) (message_text m) (wclock w))\<lparr>raw_media_refs := refs, updated_at := u\<rparr>]"
    using assms
    by (cases rule: ingest_cases [where ch = ch and m = m and E = E and T = T]) (auto simp: d'_def)
  show "grows (wdb w) (wdb (snd (ingest_message E T m ch w)))"
    unfolding d'_def [symmetric] grows_def using k p by auto
  show "ids_fresh (wdb (snd (ingest_message E T m ch w)))"
    unfolding d'_def [symmetric] using k p assms by (fastforce simp: ids_fresh_def)
  show "already_ingested (wdb (snd (ingest_message E T m ch w))) (channel_id ch) (m_id m)"
    if "get_channel (wdb w) (channel_id ch) \<noteq> None"
  proof (cases "insert_post (wclock w) ch m (wdb w) = None")
    case True
    with that have "already_ingested (wdb w) (channel_id ch) (m_id m)"
      by (simp add: insert_post_def Let_def split: if_splits)
    with True k show ?thesis by (simp add: d'_def)
  next
    case False
    with p show ?thesis unfolding d'_def [symmetric] by (auto simp: already_ingested_def)
  qed
qed

lemma ingest_store_ok: "store_ok (wdb w) \<Longrightarrow> store_ok (wdb (snd (ingest_message E T m ch w)))"
  using ingest_adds_row_keeps [of w E T m ch] ingest_grows(2) [of w E T m ch] by (simp add: store_ok_def)

text \<open>The loop, by what it does to the database: a chain of ingestions.\<close>

lemma backfill_each_Cons:
  "\<exists>n' w'. backfill_each E T ch (m # ms) n w = backfill_each E T ch ms n' w' \<and>
     wdb w' = wdb (snd (ingest_message E T m ch w))"
proof (cases "ingest_message E T m ch w")
  case (Pair r w1)
  show ?thesis
  proof (cases r)
    case (Inl e)
    with Pair show ?thesis
      by (intro exI [of _ n] exI [of _ "case e of FloodWaitError k \<Rightarrow> sleep (seconds (k + 1)) w1 | _ \<Rightarrow> w1"])
        (cases e; simp)
  next
    case (Inr v)
    with Pair show ?thesis by auto
  qed
qed

lemma backfill_each_all:
  assumes "ids_fresh (wdb w)" and "get_channel (wdb w) (channel_id ch) \<noteq> None"
  shows "grows (wdb w) (wdb (snd (backfill_each E T ch ms n w))) \<and> ids_fresh (wdb (snd (backfill_each E T ch ms n w))) \<and>
    (store_ok (wdb w) \<longrightarrow> store_ok (wdb (snd (backfill_each E T ch ms n w)))) \<and>
    (\<forall>m \<in> set ms. already_ingested (wdb (snd (backfill_each E T ch ms n w))) (channel_id ch) (m_id m))"
  using assms
proof (induction ms arbitrary: n w)
  case Nil
  then show ?case by simp
next
  case (Cons m ms)
  obtain n' w' where s: "backfill_each E T ch (m # ms) n w = backfill_each E T ch ms n' w'"
    "wdb w' = wdb (snd (ingest_message E T m ch w))"
    using backfill_each_Cons [of E T ch m ms n w] by blast
  note g = ingest_grows [OF Cons.prems(1), where E = E and T = T and m = m and ch = ch, folded s(2)]
  have ch: "get_channel (wdb w') (channel_id ch) \<noteq> None" using g(1) Cons.prems(2) by (simp add: grows_def)
  note ih = Cons.IH [OF g(2) ch, of n']
  have "already_ingested (wdb (snd (backfill_each E T ch ms n' w'))) (channel_id ch) (m_id m)"
    using g(3) Cons.prems(2) ih by (auto simp: grows_def already_ingested_def)
  moreover have "store_ok (wdb w) \<longrightarrow> store_ok (wdb w')" using ingest_store_ok [of w E T m ch] s(2) by simp
  ultimately show ?case unfolding s(1) using ih g(1) grows_trans by (metis set_ConsD)
qed

lemma map_put_keys: "fst ` set (map_put ch cm) = insert (telegram_channel_id ch) (fst ` set cm)"
  by (simp add: map_put_def dom_map_of_conv_image_fst [symmetric] update_conv')

lemma map_put_get: "map_of (map_put ch cm) k = (if k = telegram_channel_id ch then Some ch else map_of cm k)"
  by (simp add: map_put_def update_conv')

lemma add_channels_get:
  "map_of (add_channels T cur chs cm) k =
     (case List.find (\<lambda>ch. telegram_channel_id ch = k) (rev chs) of
        None \<Rightarrow> map_of cm k
      | Some ch \<Rightarrow> if k \<notin> cur \<and> tl_resolve T k then Some ch else map_of cm k)"
proof (induction chs rule: rev_induct)
  case Nil
  then show ?case by (simp add: add_channels_def)
next
  case (snoc ch chs)
  then show ?case by (auto simp: add_channels_def map_put_get split: option.split)
qed

lemma map_of_filter_keys: "map_of (filter (\<lambda>kv. P (fst kv)) xs) k = (if P k then map_of xs k else None)"
  by (induction xs) auto

lemma reload_channels_get:
  "map_of (reload_channels T d cm) k =
     (let chs = load_channels d in
      if k \<in> telegram_channel_id ` set chs
      then (if k \<in> fst ` set cm then map_of cm k
            else if tl_resolve T k then List.find (\<lambda>ch. telegram_channel_id ch = k) (rev chs) else None)
      else None)"
proof -
  have n: "map_of cm k = None \<longleftrightarrow> k \<notin> fst ` set cm" by (rule map_of_eq_None_iff)
  have f: "List.find (\<lambda>ch. telegram_channel_id ch = k) (rev (load_channels d)) = None
      \<longleftrightarrow> k \<notin> telegram_channel_id ` set (load_channels d)"
    by (auto simp: find_None_iff)
  define F where "F = List.find (\<lambda>ch. telegram_channel_id ch = k) (rev (load_channels d))"
  have r: "map_of (reload_channels T d cm) k =
      (if \<not> (k \<in> fst ` set cm \<and> k \<notin> telegram_channel_id ` set (load_channels d))
       then (case F of None \<Rightarrow> map_of cm k | Some ch \<Rightarrow> if k \<notin> fst ` set cm \<and> tl_resolve T k then Some ch else map_of cm k)
       else None)"
    unfolding reload_channels_def Let_def F_def add_channels_get [symmetric]
    by (rule map_of_filter_keys [of "\<lambda>k. \<not> (k \<in> fst ` set cm \<and> k \<notin> telegram_channel_id ` set (load_channels d))"])
  show ?thesis
    unfolding r Let_def F_def [symmetric] using n f [folded F_def] by (cases F) simp_all
qed

section \<open>Properties\<close>

text \<open>
  after a reload the user account follows exactly the enabled channels of the store that it
  followed already or can resolve; a channel that was disabled or deleted is followed no more.
\<close>

theorem reload_follows_enabled:
  "{k. \<exists>ch. map_of (reload_channels T d cm) k = Some ch} =
     {k \<in> telegram_channel_id ` {ch \<in> set (source_channels d). ingestion_enabled ch}. k \<in> fst ` set cm \<or> tl_resolve T k}"
proof -
  have s: "set (load_channels d) = {ch \<in> set (source_channels d). ingestion_enabled ch}"
    by (auto simp: load_channels_def)
  have f: "List.find (\<lambda>ch. telegram_channel_id ch = k) (rev (load_channels d)) = None
      \<longleftrightarrow> k \<notin> telegram_channel_id ` set (load_channels d)" for k
    by (auto simp: find_None_iff)
  have n: "map_of cm k = None \<longleftrightarrow> k \<notin> fst ` set cm" for k by (rule map_of_eq_None_iff)
  have "map_of (reload_channels T d cm) k \<noteq> None \<longleftrightarrow>
      k \<in> telegram_channel_id ` set (load_channels d) \<and> (k \<in> fst ` set cm \<or> tl_resolve T k)" for k
    unfolding reload_channels_get Let_def using f [of k] n [of k] by (simp split: if_split) blast
  then show ?thesis unfolding not_None_eq [symmetric] s by blast
qed

text \<open>
  C37: a backfill leaves no gap in what Telegram gives it: every message that the iteration yields is
  stored afterwards, whatever downloads or enqueues fail on the way, and the store stays consistent.
\<close>

theorem backfill_stores_all:
  assumes "store_ok (wdb w)" and "get_channel (wdb w) (channel_id ch) \<noteq> None"
  shows "store_ok (wdb (snd (backfill E T ch w))) \<and>
    (\<exists>new. posts (wdb (snd (backfill E T ch w))) = posts (wdb w) @ new) \<and>
    (\<forall>m \<in> set (tl_iter_messages T (telegram_channel_id ch) (last_ingested_message_id (wdb w) ch) 200).
       \<exists>p \<in> set (posts (wdb (snd (backfill E T ch w)))).
         source_channel_id p = channel_id ch \<and> source_message_id p = m_id m)"
  using backfill_each_all [OF _ assms(2)] assms(1)
  by (simp add: backfill_def BACKFILL_LIMIT_def store_ok_def grows_def already_ingested_def list_ex_iff)

definition two_messages :: telethon where
  "two_messages = offline\<lparr>tl_iter_messages := (\<lambda>c k n. [photo_message, text_message\<lparr>m_id := 43\<rparr>])\<rparr>"

theorem backfill_stores_all_witness:
  "\<exists>p \<in> set (posts (wdb (snd (backfill sample_env two_messages sample_channel (sample_world [sample_post] []))))).
     source_message_id p = 43"
proof -
  have s: "store_ok (wdb (sample_world [sample_post] []))" by code_simp
  have c: "get_channel (wdb (sample_world [sample_post] [])) (channel_id sample_channel) \<noteq> None" by code_simp
  have "text_message\<lparr>m_id := 43\<rparr> \<in> set (tl_iter_messages two_messages (telegram_channel_id sample_channel)
      (last_ingested_message_id (wdb (sample_world [sample_post] [])) sample_channel) 200)"
    by (simp add: two_messages_def)
  with backfill_stores_all [OF s c, of sample_env two_messages] show ?thesis by fastforce
qed

end
