(* ===== verification/Seeding.thy ===== *)
theory Seeding
  imports Vocabulary
begin

text \<open>
  The seeding commands of \<open>api/cli.py\<close>: the first super-admin from the settings, the default tags and the
  default template, each added only when it is missing.
\<close>

section \<open>Commands\<close>

definition DEFAULT_TAGS :: "(pystr \<times> pystr \<times> pystr) list" where
  "DEFAULT_TAGS =
     [(lit ''news'', lit ''News'', lit ''#1f77b4''), (lit ''tech'', lit ''Tech'', lit ''#17becf''),
      (lit ''crypto'', lit ''Crypto'', lit ''#f7931a''), (lit ''business'', lit ''Business'', lit ''#2ca02c''),
      (lit ''breaking'', lit ''Breaking'', lit ''#d62728''), (lit ''culture'', lit ''Culture'', lit ''#9467bd''),
      (lit ''sports'', lit ''Sports'', lit ''#e377c2'')]"

definition seed_admin :: "crypto \<Rightarrow> settings \<Rightarrow> world \<Rightarrow> world" where
  "seed_admin C s w =
     (if seed_admin_username s = [] \<or> seed_admin_password s = [] then w
      else if List.find (\<lambda>a. username a = seed_admin_username s) (admins (wdb w)) \<noteq> None then w
      else let d = wdb w;
               a = \<lparr>admin_id = next_id d, username = seed_admin_username s,
                    password_hash = hash_password C (wclock w) (seed_admin_password s), admin_role = R_super_admin,
                    tg_user_id = None, admin_created_at = wclock w, disabled_at = None\<rparr>
           in w\<lparr>wdb := d\<lparr>admins := tadd a (admins d), next_id := next_id d + 1\<rparr>\<rparr>)"

fun seed_tags :: "time \<Rightarrow> pystr set \<Rightarrow> (pystr \<times> pystr \<times> pystr) list \<Rightarrow> db \<Rightarrow> db" where
  "seed_tags now existing [] d = d"
| "seed_tags now existing ((sl, lb, cl) # ts) d =
     seed_tags now existing ts
       (if sl \<in> existing then d
        else d\<lparr>tags := tadd \<lparr>tag_id = next_id d, slug = sl, label = lb, color = Some cl, tag_created_at = now\<rparr> (tags d),
               next_id := next_id d + 1\<rparr>)"

definition seed_template :: "time \<Rightarrow> db \<Rightarrow> db" where
  "seed_template now d =
     (if List.find (\<lambda>t. template_name t = lit ''Default'') (templates d) \<noteq> None then d
      else d\<lparr>templates := tadd \<lparr>template_id = next_id d, template_name = lit ''Default'',
               template_body = DEFAULT_TEMPLATE_BODY, template_created_at = now\<rparr> (templates d),
             next_id := next_id d + 1\<rparr>)"

definition seed_defaults :: "world \<Rightarrow> world" where
  "seed_defaults w =
     (let d1 = seed_template (wclock w) (wdb w)
      in w\<lparr>wdb := seed_tags (wclock w) (slug ` set (tags d1)) DEFAULT_TAGS d1\<rparr>)"

definition seed_all :: "crypto \<Rightarrow> settings \<Rightarrow> world \<Rightarrow> world" where
  "seed_all C s w = seed_defaults (seed_admin C s w)"

definition amain :: "crypto \<Rightarrow> settings \<Rightarrow> pystr \<Rightarrow> world \<Rightarrow> int \<times> world" where
  "amain C s cmd w =
     (if cmd = lit ''seed-admin'' then (0, seed_admin C s w)
      else if cmd = lit ''seed-defaults'' then (0, seed_defaults w)
      else (2, w))"

section \<open>Facts\<close>

lemma seed_tags_skip: "fst ` set ts \<subseteq> existing \<Longrightarrow> seed_tags now existing ts d = d"
  by (induction ts) auto

lemma seed_tags_slugs:
  "slug ` set (tags (seed_tags now existing ts d)) = slug ` set (tags d) \<union> (fst ` set ts - existing)"
  by (induction now existing ts d rule: seed_tags.induct) (auto simp: tadd_def)

lemma seed_tags_frame [simp]:
  "templates (seed_tags now existing ts d) = templates d" "admins (seed_tags now existing ts d) = admins d"
  "posts (seed_tags now existing ts d) = posts d" "source_channels (seed_tags now existing ts d) = source_channels d"
  by (induction now existing ts d rule: seed_tags.induct) auto

lemma seed_template_frame [simp]:
  "tags (seed_template now d) = tags d" "admins (seed_template now d) = admins d"
  "posts (seed_template now d) = posts d"
  by (simp_all add: seed_template_def)

lemma seed_template_done: "List.find (\<lambda>t. template_name t = lit ''Default'') (templates (seed_template now d)) \<noteq> None"
  by (auto simp: seed_template_def tadd_def find_append split: option.split)

lemma seed_template_skip:
  "List.find (\<lambda>t. template_name t = lit ''Default'') (templates d) \<noteq> None \<Longrightarrow> seed_template now d = d"
  by (simp add: seed_template_def)

lemma seed_defaults_frame [simp]:
  "admins (wdb (seed_defaults w)) = admins (wdb w)" "wclock (seed_defaults w) = wclock w"
  by (simp_all add: seed_defaults_def Let_def)

lemma seed_defaults_again: "seed_defaults (seed_defaults w) = seed_defaults w"
proof -
  define d1 where "d1 = seed_template (wclock w) (wdb w)"
  define d2 where "d2 = seed_tags (wclock w) (slug ` set (tags d1)) DEFAULT_TAGS d1"
  have "templates d2 = templates d1" by (simp add: d2_def)
  then have t: "seed_template (wclock w) d2 = d2"
    using seed_template_done [of "wclock w" "wdb w"] by (intro seed_template_skip) (simp add: d1_def)
  have "fst ` set DEFAULT_TAGS \<subseteq> slug ` set (tags d2)"
    unfolding d2_def seed_tags_slugs by blast
  then have "seed_tags (wclock w) (slug ` set (tags d2)) DEFAULT_TAGS d2 = d2" by (rule seed_tags_skip)
  moreover have "seed_defaults w = w\<lparr>wdb := d2\<rparr>" by (simp add: seed_defaults_def Let_def d1_def d2_def)
  ultimately show ?thesis by (simp add: seed_defaults_def Let_def t)
qed

lemma seed_admin_skip:
  "seed_admin_username s = [] \<or> seed_admin_password s = [] \<or>
   seed_admin_username s \<in> username ` set (admins (wdb w)) \<Longrightarrow> seed_admin C s w = w"
  by (auto simp: seed_admin_def find_None_iff)

lemma seed_admin_done:
  "seed_admin C s w = w \<or> seed_admin_username s \<in> username ` set (admins (wdb (seed_admin C s w)))"
  by (simp add: seed_admin_def Let_def tadd_def)

lemma seed_tags_fields:
  "posts (seed_tags now existing ts d) = posts d" "dedupe_rows (seed_tags now existing ts d) = dedupe_rows d"
  "post_events (seed_tags now existing ts d) = post_events d"
  "source_channel_tags (seed_tags now existing ts d) = source_channel_tags d"
  "next_id d \<le> next_id (seed_tags now existing ts d)"
  "tag_id ` set (tags d) \<subseteq> tag_id ` set (tags (seed_tags now existing ts d))"
  by (induction now existing ts d rule: seed_tags.induct) (fastforce simp: tadd_def)+

lemma seed_template_fields:
  "dedupe_rows (seed_template now d) = dedupe_rows d" "post_events (seed_template now d) = post_events d"
  "source_channel_tags (seed_template now d) = source_channel_tags d" "source_channels (seed_template now d) = source_channels d"
  "next_id d \<le> next_id (seed_template now d)"
  by (simp_all add: seed_template_def)

lemma seed_defaults_fields:
  "posts (wdb (seed_defaults w)) = posts (wdb w)" "dedupe_rows (wdb (seed_defaults w)) = dedupe_rows (wdb w)"
  "post_events (wdb (seed_defaults w)) = post_events (wdb w)"
  "source_channel_tags (wdb (seed_defaults w)) = source_channel_tags (wdb w)"
  "source_channels (wdb (seed_defaults w)) = source_channels (wdb w)"
  "next_id (wdb w) \<le> next_id (wdb (seed_defaults w))"
  using order_trans [OF seed_template_fields(5) seed_tags_fields(5)]
  by (simp_all add: seed_defaults_def Let_def seed_tags_fields seed_template_fields)

section \<open>Seeding twice\<close>

lemma seed_all_again: "seed_all C s (seed_all C s w) = seed_all C s w"
proof -
  have "seed_admin C s (seed_all C s w) = seed_all C s w"
  proof (cases "seed_admin C s w = w")
    case True
    show ?thesis
    proof (rule seed_admin_skip, rule ccontr)
      assume n: "\<not> (seed_admin_username s = [] \<or> seed_admin_password s = [] \<or>
          seed_admin_username s \<in> username ` set (admins (wdb (seed_all C s w))))"
      then have "seed_admin_username s \<notin> username ` set (admins (wdb w))"
        using True by (simp add: seed_all_def)
      then have "List.find (\<lambda>a. username a = seed_admin_username s) (admins (wdb w)) = None"
        unfolding find_None_iff by (metis imageI)
      with n have "length (admins (wdb (seed_admin C s w))) = Suc (length (admins (wdb w)))"
        by (simp add: seed_admin_def Let_def tadd_def)
      with True show False by simp
    qed
  next
    case False
    with seed_admin_done [of C s w] show ?thesis by (intro seed_admin_skip) (simp add: seed_all_def)
  qed
  then show ?thesis by (simp add: seed_all_def seed_defaults_again)
qed

lemma default_slugs:
  "fst ` set DEFAULT_TAGS = {lit ''news'', lit ''tech'', lit ''crypto'', lit ''business'', lit ''breaking'',
                             lit ''culture'', lit ''sports''}"
  by (simp add: DEFAULT_TAGS_def)

lemma seed_defaults_tags: "fst ` set DEFAULT_TAGS \<subseteq> slug ` set (tags (wdb (seed_defaults w)))"
proof -
  have "tags (wdb (seed_defaults w)) = tags (seed_tags (wclock w) (slug ` set (tags (seed_template (wclock w) (wdb w))))
          DEFAULT_TAGS (seed_template (wclock w) (wdb w)))"
    by (simp add: seed_defaults_def Let_def)
  then have "slug ` set (tags (wdb (seed_defaults w))) = slug ` set (tags (seed_template (wclock w) (wdb w))) \<union>
      (fst ` set DEFAULT_TAGS - slug ` set (tags (seed_template (wclock w) (wdb w))))"
    by (simp only: seed_tags_slugs)
  then show ?thesis by blast
qed

lemma seed_defaults_template:
  "List.find (\<lambda>t. template_name t = lit ''Default'') (templates (wdb (seed_defaults w))) \<noteq> None"
  using seed_template_done [of "wclock w" "wdb w"] by (simp add: seed_defaults_def Let_def)

text \<open>
  seeding is idempotent: the migration container may run it at every start. A second run changes
  nothing, and afterwards every default tag and the default template exist.
\<close>

theorem seed_all_idempotent:
  "seed_all C s (seed_all C s w) = seed_all C s w \<and>
   {lit ''news'', lit ''tech'', lit ''crypto'', lit ''business'', lit ''breaking'', lit ''culture'', lit ''sports''}
     \<subseteq> slug ` set (tags (wdb (seed_all C s w))) \<and>
   List.find (\<lambda>t. template_name t = lit ''Default'') (templates (wdb (seed_all C s w))) \<noteq> None"
  using seed_all_again [of C s w] seed_defaults_tags [of "seed_admin C s w", unfolded default_slugs]
    seed_defaults_template [of "seed_admin C s w"]
  unfolding seed_all_def by blast

end
