(* ===== verification/Watchdog.thy ===== *)
theory Watchdog
  imports Tasks
begin

text \<open>
  The liveness watchdog of the user account (\<open>userbot/main.py\<close>): the module-level state, the health
  verdict that the health endpoint reads, one cycle of the probe loop, and runs of many cycles.
\<close>

section \<open>State and verdict\<close>

record liveness =
  mt_connected :: bool
  mt_authorized :: bool
  mt_last_ok :: "time option"
  mt_failure_count :: nat
  mt_failure_reason :: pystr

definition WATCHDOG_INTERVAL_SECONDS :: int where
  "WATCHDOG_INTERVAL_SECONDS = 30"

definition WATCHDOG_STALE_SECONDS :: int where
  "WATCHDOG_STALE_SECONDS = WATCHDOG_INTERVAL_SECONDS * 3"

text \<open>\<open>f"{age:.0f}"\<close> of a span given in microseconds: to the nearest second, halves to even.\<close>

definition whole_seconds :: "time \<Rightarrow> int" where
  "whole_seconds age =
     (let q = age div 1000000; r = age mod 1000000
      in if r < 500000 \<or> (r = 500000 \<and> even q) then q else q + 1)"

definition is_mtproto_healthy :: "time \<Rightarrow> liveness \<Rightarrow> bool \<times> pystr" where
  "is_mtproto_healthy now st =
     (if \<not> mt_connected st then (False, lit ''disconnected'')
      else if \<not> mt_authorized st then (False, lit ''unauthorized'')
      else (case mt_last_ok st of
              None \<Rightarrow> (False, lit ''never_checked'')
            | Some t \<Rightarrow>
                if now - t > seconds WATCHDOG_STALE_SECONDS
                then (False, lit ''stale:'' @ str_int (whole_seconds (now - t)) @ lit ''s (''
                        @ or_else (Some (mt_failure_reason st)) (lit ''stale'') @ lit '')'')
                else (True, lit ''ok'')))"

section \<open>One cycle\<close>

text \<open>
  What the three calls of a probe give: a value, or an exception sorted by the handler it meets, with
  the class name or the seconds to wait. \<open>pr_elapsed\<close> is the time the calls take.
\<close>

datatype probe_exn = Fatal pystr | Flood_wait int | Cancelled | Unexpected pystr

record probe =
  pr_connected :: "probe_exn + bool"
  pr_authorized :: "probe_exn + bool"
  pr_get_me :: "probe_exn + unit"
  pr_elapsed :: time

definition backoff :: "nat \<Rightarrow> time" where
  "backoff failures =
     (if failures > 0 then seconds (min (WATCHDOG_INTERVAL_SECONDS * 2 ^ (min (failures - 1) 4)) 300)
      else seconds WATCHDOG_INTERVAL_SECONDS)"

definition failed :: "pystr \<Rightarrow> liveness \<Rightarrow> liveness" where
  "failed reason st = st\<lparr>mt_failure_count := mt_failure_count st + 1, mt_failure_reason := reason\<rparr>"

text \<open>The body of the \<open>try\<close>: the state after it, and the exception that ended it, if any.\<close>

definition run_probe :: "time \<Rightarrow> probe \<Rightarrow> liveness \<Rightarrow> probe_exn option \<times> liveness" where
  "run_probe now pr st =
     (case pr_connected pr of
        Inl e \<Rightarrow> (Some e, st)
      | Inr c \<Rightarrow>
          let st1 = st\<lparr>mt_connected := c\<rparr>
          in if \<not> c then (None, failed (lit ''disconnected'') st1)
             else (case pr_authorized pr of
                     Inl e \<Rightarrow> (Some e, st1)
                   | Inr a \<Rightarrow>
                       let st2 = st1\<lparr>mt_authorized := a\<rparr>
                       in if \<not> a then (None, failed (lit ''unauthorized'') st2)
                          else (case pr_get_me pr of
                                  Inl e \<Rightarrow> (Some e, st2)
                                | Inr u \<Rightarrow> (None, st2\<lparr>mt_last_ok := Some now, mt_failure_count := 0,
                                                   mt_failure_reason := []\<rparr>))))"

datatype verdict = Running | Terminated | Was_cancelled

text \<open>An alert that cannot be queued is logged and forgotten.\<close>

definition try_alert :: "env \<Rightarrow> pystr \<Rightarrow> world \<Rightarrow> world" where
  "try_alert E msg w = snd (enqueue_alert E msg w)"

definition unhealthy_text :: "pystr \<Rightarrow> pystr" where
  "unhealthy_text detail = [9888, 65039] @ lit '' Userbot MTProto session unhealthy: '' @ detail"

definition recovered_text :: pystr where
  "recovered_text = [9989] @ lit '' Userbot MTProto session recovered and is healthy again.''"

definition fatal_text :: "pystr \<Rightarrow> pystr" where
  "fatal_text reason = [128680] @ lit '' Userbot session TERMINATED: '' @ reason @ lit '' '' @ [8212]
     @ lit '' manual re-login required (docker compose run --rm -it userbot python -m userbot.login)''"

text \<open>The edge-triggered part at the end of a cycle.\<close>

definition edge :: "env \<Rightarrow> bool option \<Rightarrow> bool \<times> pystr \<Rightarrow> world \<Rightarrow> world" where
  "edge E was now_h w =
     (case was of
        None \<Rightarrow> w
      | Some h \<Rightarrow>
          if h \<and> \<not> fst now_h then try_alert E (unhealthy_text (snd now_h)) w
          else if \<not> h \<and> fst now_h then try_alert E recovered_text w
          else w)"

definition watchdog_cycle ::
  "env \<Rightarrow> probe \<Rightarrow> liveness \<times> bool option \<times> world \<Rightarrow> verdict \<times> liveness \<times> bool option \<times> world" where
  "watchdog_cycle E pr s =
     (case s of (st, was, w) \<Rightarrow>
        let w1 = sleep (backoff (mt_failure_count st) + pr_elapsed pr) w;
            (exc, st1) = run_probe (wclock w1) pr st;
            finish = (\<lambda>st2. let now_h = is_mtproto_healthy (wclock w1) st2
                            in (Running, st2, Some (fst now_h), edge E was now_h w1))
        in case exc of
             None \<Rightarrow> finish st1
           | Some (Fatal name) \<Rightarrow> (Terminated, failed name st1, was, try_alert E (fatal_text name) w1)
           | Some Cancelled \<Rightarrow> (Was_cancelled, st1, was, w1)
           | Some (Flood_wait n) \<Rightarrow> finish (failed (lit ''floodwait:'' @ str_int n @ lit ''s'') st1)
           | Some (Unexpected name) \<Rightarrow> finish (failed name st1))"

text \<open>The loop over a given sequence of probes, with the health verdicts it passes through.\<close>

fun watchdog :: "env \<Rightarrow> probe list \<Rightarrow> liveness \<times> bool option \<times> world
    \<Rightarrow> bool list \<times> liveness \<times> bool option \<times> world" where
  "watchdog E [] s = ([], s)"
| "watchdog E (pr # prs) s =
     (case watchdog_cycle E pr s of
        (Running, st, was, w) \<Rightarrow>
          (let (hs, s') = watchdog E prs (st, was, w) in (the was # hs, s'))
      | (v, s') \<Rightarrow> ([], s'))"

section \<open>Facts\<close>

text \<open>The alerts due for a sequence of verdicts: one per change.\<close>

fun changes :: "bool \<Rightarrow> bool list \<Rightarrow> bool list" where
  "changes h [] = []"
| "changes h (x # xs) = (if x = h then changes h xs else x # changes x xs)"

fun alternating :: "bool \<Rightarrow> bool list \<Rightarrow> bool" where
  "alternating h [] = True"
| "alternating h (x # xs) = (x \<noteq> h \<and> alternating x xs)"

lemma changes_alternate: "alternating h (changes h xs)"
  by (induction xs arbitrary: h) auto

definition alert_of :: "bool \<Rightarrow> pystr \<Rightarrow> job" where
  "alert_of h detail = alert_job (if h then recovered_text else unhealthy_text detail)"

lemma edge_up:
  assumes "redis_up E"
  shows "wjobs (edge E (Some h) nh w) = wjobs w @ (if fst nh = h then [] else [alert_of (fst nh) (snd nh)])"
  by (simp add: edge_def try_alert_def enqueue_alert_def enqueue_job_up [OF assms] alert_of_def)

lemma edge_None [simp]: "edge E None nh w = w"
  by (simp add: edge_def)

lemma edge_clock [simp]: "wclock (edge E was nh w) = wclock w"
  by (simp add: edge_def try_alert_def enqueue_alert_def split: option.split)

lemma watchdog_cycle_running:
  assumes "watchdog_cycle E pr (st, was, w) = (Running, st', was', w')"
  shows "\<exists>nh. nh = is_mtproto_healthy (wclock w') st' \<and> was' = Some (fst nh) \<and>
    w' = edge E was nh (sleep (backoff (mt_failure_count st) + pr_elapsed pr) w)"
proof -
  define w1 where "w1 = sleep (backoff (mt_failure_count st) + pr_elapsed pr) w"
  obtain exc st1 where rp: "run_probe (wclock w1) pr st = (exc, st1)" by fastforce
  have "\<exists>st2. st' = st2 \<and> was' = Some (fst (is_mtproto_healthy (wclock w1) st2)) \<and>
      w' = edge E was (is_mtproto_healthy (wclock w1) st2) w1"
    using assms unfolding watchdog_cycle_def prod.case Let_def w1_def [symmetric] rp
    by (cases exc) (auto split: probe_exn.splits)
  then show ?thesis by (auto simp: w1_def [symmetric])
qed

lemma run_probe_failed:
  assumes "run_probe now pr st = (exc, st1)" and "exc \<noteq> None"
  shows "mt_last_ok st1 = mt_last_ok st \<and> mt_failure_count st1 = mt_failure_count st"
  using assms by (auto simp: run_probe_def Let_def split: sum.splits if_splits)

section \<open>Properties\<close>

text \<open>
  the pause between probes is at least 30 seconds and at most 300, does not shrink as failures
  add up, and follows 30, 60, 120, 240, 300.
\<close>

theorem backoff_bounds:
  "seconds 30 \<le> backoff n \<and> backoff n \<le> seconds 300 \<and> backoff n \<le> backoff (Suc n) \<and>
   map backoff [1, 2, 3, 4, 5] = map seconds [30, 60, 120, 240, 300]"
proof (intro conjI)
  have p: "(1 :: int) \<le> 2 ^ k" for k by simp
  show "seconds 30 \<le> backoff n" "backoff n \<le> seconds 300"
    using p [of "min (n - 1) 4"] by (auto simp: backoff_def seconds_def WATCHDOG_INTERVAL_SECONDS_def)
  have "(2 :: int) ^ min (n - 1) 4 \<le> 2 ^ min n 4" by (intro power_increasing) auto
  then have "min (30 * 2 ^ min (n - 1) 4) 300 \<le> min (30 * (2 :: int) ^ min n 4) 300" by (intro min.mono) auto
  with p [of "min n 4"] show "backoff n \<le> backoff (Suc n)"
    by (auto simp: backoff_def seconds_def WATCHDOG_INTERVAL_SECONDS_def)
  show "map backoff [1, 2, 3, 4, 5] = map seconds [30, 60, 120, 240, 300]"
    by (simp add: backoff_def WATCHDOG_INTERVAL_SECONDS_def)
qed

lemma watchdog_alerts:
  assumes "redis_up E"
  shows "watchdog E prs (st, Some h, w) = (hs, st', was', w') \<Longrightarrow> length hs = length prs \<Longrightarrow>
    \<exists>details. length details = length (changes h hs) \<and>
      wjobs w' = wjobs w @ map2 alert_of (changes h hs) details"
proof (induction prs arbitrary: st h w hs)
  case Nil
  then show ?case by simp
next
  case (Cons pr prs)
  obtain v st1 was1 w1 where c: "watchdog_cycle E pr (st, Some h, w) = (v, st1, was1, w1)"
    by (metis prod_cases3)
  have v: "v = Running"
    using Cons.prems unfolding watchdog.simps c prod.case by (cases v) auto
  obtain hs1 s1 where r: "watchdog E prs (st1, was1, w1) = (hs1, s1)"
    by (metis surj_pair)
  have hs: "hs = the was1 # hs1" "s1 = (st', was', w')"
    using Cons.prems(1) unfolding watchdog.simps c v prod.case verdict.case r Let_def by simp_all
  obtain nh where nh: "was1 = Some (fst nh)"
    "w1 = edge E (Some h) nh (sleep (backoff (mt_failure_count st) + pr_elapsed pr) w)"
    using watchdog_cycle_running [OF c [unfolded v]] by blast
  have w1: "wjobs w1 = wjobs w @ (if fst nh = h then [] else [alert_of (fst nh) (snd nh)])"
    using edge_up [OF assms] nh(2) by simp
  have "length hs1 = length prs" using Cons.prems(2) hs(1) by simp
  then obtain details where d: "length details = length (changes (fst nh) hs1)"
    "wjobs w' = wjobs w1 @ map2 alert_of (changes (fst nh) hs1) details"
    using Cons.IH [of st1 "fst nh" w1 hs1] r hs(2) nh(1) by auto
  show ?case
  proof (cases "fst nh = h")
    case True
    with d w1 hs(1) nh(1) show ?thesis by (intro exI [of _ details]) simp
  next
    case False
    with d w1 hs(1) nh(1) show ?thesis by (intro exI [of _ "snd nh # details"]) simp
  qed
qed

text \<open>
  alerts are edge-triggered. Over any sequence of probes that ends in no fatal error, the jobs
  queued are one alert per change of the verdict, so recovery and failure alerts alternate.
\<close>

theorem watchdog_alerts_alternate:
  assumes "redis_up E" and "watchdog E prs (st, Some h, w) = (hs, st', was', w')" and "length hs = length prs"
  shows "\<exists>kinds details. wjobs w' = wjobs w @ map2 alert_of kinds details \<and> length details = length kinds \<and>
    kinds = changes h hs \<and> alternating h kinds"
  using watchdog_alerts [OF assms] changes_alternate by blast

definition good_probe :: probe where
  "good_probe = \<lparr>pr_connected = Inr True, pr_authorized = Inr True, pr_get_me = Inr (), pr_elapsed = 0\<rparr>"

definition lost_probe :: probe where
  "lost_probe = good_probe\<lparr>pr_connected := Inr False\<rparr>"

definition fresh_liveness :: "time \<Rightarrow> liveness" where
  "fresh_liveness now = \<lparr>mt_connected = True, mt_authorized = True, mt_last_ok = Some now, mt_failure_count = 0,
     mt_failure_reason = []\<rparr>"

definition outage :: "bool list \<times> liveness \<times> bool option \<times> world" where
  "outage = watchdog sample_env [good_probe, lost_probe, lost_probe, good_probe]
     (fresh_liveness (days 1000), Some True, sample_world [] [])"

theorem watchdog_alerts_alternate_witness:
  "length (wjobs (snd (snd (snd outage)))) = 2"
proof -
  have h: "fst outage = [True, False, False, True]" by code_simp
  have r: "redis_up sample_env" by (simp add: redis_up_def sample_redis_up)
  obtain hs st' was' w' where o: "outage = (hs, st', was', w')" by (metis prod_cases4)
  have hs: "hs = [True, False, False, True]" using h unfolding o by simp
  then have "length hs = length [good_probe, lost_probe, lost_probe, good_probe]" by simp
  from watchdog_alerts_alternate [OF r o [unfolded outage_def] this] obtain kinds details where
    "wjobs w' = map2 alert_of kinds details" "length details = length kinds" "kinds = changes True hs"
    by (auto simp: sample_world_def)
  then show ?thesis by (simp add: o hs)
qed

definition broken_probe :: "probe \<Rightarrow> bool" where
  "broken_probe pr \<longleftrightarrow> pr_elapsed pr \<ge> 0 \<and>
     (\<exists>name. pr_connected pr = Inl (Unexpected name)
       \<or> pr_connected pr = Inr True \<and> (pr_authorized pr = Inl (Unexpected name)
          \<or> pr_authorized pr = Inr True \<and> pr_get_me pr = Inl (Unexpected name)))"

definition verdict_after :: "probe \<Rightarrow> liveness \<Rightarrow> world \<Rightarrow> liveness \<Rightarrow> bool \<times> pystr" where
  "verdict_after pr st w st' = is_mtproto_healthy (wclock w + (backoff (mt_failure_count st) + pr_elapsed pr)) st'"

lemma broken_cycle:
  assumes "broken_probe pr"
  shows "\<exists>st'. watchdog_cycle E pr (st, was, w) = (Running, st', Some (fst (verdict_after pr st w st')),
      edge E was (verdict_after pr st w st') (sleep (backoff (mt_failure_count st) + pr_elapsed pr) w)) \<and>
    mt_last_ok st' = mt_last_ok st \<and> mt_failure_count st' = Suc (mt_failure_count st)"
  using assms
  by (auto simp: broken_probe_def watchdog_cycle_def run_probe_def Let_def failed_def verdict_after_def)

lemma stale_unhealthy: "mt_last_ok st = Some t \<Longrightarrow> now - t > seconds 90 \<Longrightarrow> \<not> fst (is_mtproto_healthy now st)"
  by (simp add: is_mtproto_healthy_def WATCHDOG_STALE_SECONDS_def WATCHDOG_INTERVAL_SECONDS_def)

lemma broken_probes_unhealthy:
  assumes "list_all broken_probe [p1, p2, p3]" and "mt_failure_count st = 0" and "mt_last_ok st = Some t" and "t \<le> wclock w"
  shows "\<exists>h1 h2 st' w'. watchdog E [p1, p2, p3] (st, was, w) = ([h1, h2, False], st', Some False, w')"
proof -
  have e: "pr_elapsed p1 \<ge> 0" "pr_elapsed p2 \<ge> 0" "pr_elapsed p3 \<ge> 0"
    and b: "broken_probe p1" "broken_probe p2" "broken_probe p3"
    using assms(1) by (auto simp: broken_probe_def)
  obtain s1 where c1: "watchdog_cycle E p1 (st, was, w) = (Running, s1, Some (fst (verdict_after p1 st w s1)),
      edge E was (verdict_after p1 st w s1) (sleep (backoff 0 + pr_elapsed p1) w))"
    "mt_last_ok s1 = Some t" "mt_failure_count s1 = 1"
    using broken_cycle [OF b(1), of E st was w] assms(2,3) by auto
  define n1 where "n1 = verdict_after p1 st w s1"
  define w1 where "w1 = edge E was n1 (sleep (backoff 0 + pr_elapsed p1) w)"
  obtain s2 where c2: "watchdog_cycle E p2 (s1, Some (fst n1), w1) = (Running, s2, Some (fst (verdict_after p2 s1 w1 s2)),
      edge E (Some (fst n1)) (verdict_after p2 s1 w1 s2) (sleep (backoff 1 + pr_elapsed p2) w1))"
    "mt_last_ok s2 = Some t" "mt_failure_count s2 = 2"
    using broken_cycle [OF b(2), of E s1 "Some (fst n1)" w1] c1(2,3) by auto
  define n2 where "n2 = verdict_after p2 s1 w1 s2"
  define w2 where "w2 = edge E (Some (fst n1)) n2 (sleep (backoff 1 + pr_elapsed p2) w1)"
  obtain s3 where c3: "watchdog_cycle E p3 (s2, Some (fst n2), w2) = (Running, s3, Some (fst (verdict_after p3 s2 w2 s3)),
      edge E (Some (fst n2)) (verdict_after p3 s2 w2 s3) (sleep (backoff 2 + pr_elapsed p3) w2))"
    "mt_last_ok s3 = Some t"
    using broken_cycle [OF b(3), of E s2 "Some (fst n2)" w2] c2(2,3) by auto
  have "wclock w2 = wclock w + backoff 0 + pr_elapsed p1 + backoff 1 + pr_elapsed p2" by (simp add: w2_def w1_def)
  then have "wclock w2 + (backoff (mt_failure_count s2) + pr_elapsed p3) - t > seconds 90"
    using e assms(4) c2(3) by (simp add: backoff_def seconds_def WATCHDOG_INTERVAL_SECONDS_def)
  then have n3: "fst (verdict_after p3 s2 w2 s3) = False"
    using stale_unhealthy [OF c3(2)] by (simp add: verdict_after_def)
  show ?thesis
    using c1(1) c2(1) c3(1) unfolding n1_def [symmetric] w1_def [symmetric] n2_def [symmetric] w2_def [symmetric] n3
    by simp
qed

lemma changes_to_unhealthy: "False \<in> set (changes True [h1, h2, False])"
  by (cases h1; cases h2) auto

lemma alert_in_zip:
  "h \<in> set ks \<Longrightarrow> length ds = length ks \<Longrightarrow> \<exists>d. alert_of h d \<in> set (map2 alert_of ks ds)"
  by (induction ks ds rule: list_induct2') auto

text \<open>
  C40: a session that starts to fail with errors is noticed at the third failing probe at the latest:
  by then the last success is more than ninety seconds old, so the verdict is unhealthy and, when
  the session was healthy before, an alert is queued.
\<close>

theorem watchdog_detects_failure:
  assumes "list_all broken_probe [p1, p2, p3]" and "mt_failure_count st = 0" and "mt_last_ok st = Some t" and "t \<le> wclock w"
  shows "\<exists>h1 h2 st' w'. watchdog E [p1, p2, p3] (st, was, w) = ([h1, h2, False], st', Some False, w') \<and>
    (was = Some True \<and> redis_up E \<longrightarrow> (\<exists>detail. alert_job (unhealthy_text detail) \<in> set (wjobs w')))"
proof -
  obtain h1 h2 st' w' where r: "watchdog E [p1, p2, p3] (st, was, w) = ([h1, h2, False], st', Some False, w')"
    using broken_probes_unhealthy [OF assms] by blast
  have "\<exists>detail. alert_job (unhealthy_text detail) \<in> set (wjobs w')" if "was = Some True" "redis_up E"
  proof -
    define ks where "ks = changes True [h1, h2, False]"
    from that r obtain ds where ds: "length ds = length ks" "wjobs w' = wjobs w @ map2 alert_of ks ds"
      using watchdog_alerts [of E "[p1, p2, p3]" st True w "[h1, h2, False]" st' "Some False" w'] by (auto simp: ks_def)
    moreover have "False \<in> set ks" unfolding ks_def by (rule changes_to_unhealthy)
    ultimately obtain d where "alert_of False d \<in> set (map2 alert_of ks ds)" using alert_in_zip by blast
    with ds(2) have "alert_of False d \<in> set (wjobs w')" by simp
    moreover have "alert_of False d = alert_job (unhealthy_text d)" by (simp add: alert_of_def)
    ultimately show ?thesis by metis
  qed
  with r show ?thesis by blast
qed

definition error_probe :: probe where
  "error_probe = good_probe\<lparr>pr_get_me := Inl (Unexpected (lit ''TimeoutError''))\<rparr>"

lemma error_probes_broken: "list_all broken_probe [error_probe, error_probe, error_probe]"
  by (simp add: broken_probe_def error_probe_def good_probe_def)

theorem watchdog_detects_failure_witness:
  "\<exists>h1 h2 st' w' detail. watchdog sample_env [error_probe, error_probe, error_probe]
      (fresh_liveness (days 1000), Some True, sample_world [] []) = ([h1, h2, False], st', Some False, w') \<and>
      alert_job (unhealthy_text detail) \<in> set (wjobs w')"
proof -
  have a: "mt_failure_count (fresh_liveness (days 1000)) = 0"
    "mt_last_ok (fresh_liveness (days 1000)) = Some (days 1000)" by (simp_all add: fresh_liveness_def)
  have b: "days 1000 \<le> wclock (sample_world [] [])" by (simp add: sample_world_def)
  have c: "redis_up sample_env" by (simp add: redis_up_def sample_redis_up)
  from watchdog_detects_failure [OF error_probes_broken a b, of sample_env "Some True"] c show ?thesis by blast
qed

end
