(* ===== verification/System.thy ===== *)
theory System
  imports Api BotJobs Userbot PublisherFacts Seeding Watchdog
begin

text \<open>
  The services together. Every request, button, job, ingestion and housekeeping run of the four
  processes is one step on the shared world; what the steps have in common is proved once for the
  ways in which they change the store, and holds in every state the system reaches.
\<close>

section \<open>Steps\<close>

inductive sys_step :: "env \<Rightarrow> crypto \<Rightarrow> telethon \<Rightarrow> world \<Rightarrow> world \<Rightarrow> bool" for E C T where
  Request: "sys_step E C T w (snd (serve E C tok rq w))"
| Login: "sys_step E C T w (snd (login C (cfg E) uname password w))"
| Button: "sys_step E C T w (snd (handle_callback E cb w))"
| Normalize_job: "sys_step E C T w (snd (normalize E pid w))"
| Publish_job: "sys_step E C T w (snd (publish E pid w))"
| Draft_job: "sys_step E C T w (snd (post_draft E pid w))"
| Alert_job: "sys_step E C T w (snd (alert E msg w))"
| Reconcile_job: "sys_step E C T w (snd (reconcile_scheduled E w))"
| Housekeeping: "sys_step E C T w (snd (prune_dedupe (cfg E) rm_ok w))"
| Ingest: "sys_step E C T w (snd (ingest_message E T m ch w))"
| Recover: "sys_step E C T w (snd (reconcile_pending E w))"
| Live: "sys_step E C T w (on_new_message E T cm chat m w)"
| Catch_up: "sys_step E C T w (snd (backfill E T ch w))"
| Notice: "sys_step E C T w (try_alert E msg w)"
| Command: "cmd \<in> {cmd_queue, cmd_stats, cmd_health} \<Longrightarrow> sys_step E C T w (snd (cmd E chat w))"
| Seed: "sys_step E C T w (snd (amain C (cfg E) command w))"
| Tick: "0 \<le> dt \<Longrightarrow> sys_step E C T w (sleep dt w)"

inductive_cases sys_stepE: "sys_step E C T w w'"

inductive reach :: "env \<Rightarrow> crypto \<Rightarrow> telethon \<Rightarrow> world \<Rightarrow> world \<Rightarrow> bool" for E C T w where
  Start: "reach E C T w w"
| Step: "reach E C T w w1 \<Longrightarrow> sys_step E C T w1 w2 \<Longrightarrow> reach E C T w w2"

section \<open>The invariant\<close>

text \<open>A published row names its message.\<close>

definition pub_row :: "post \<Rightarrow> bool" where
  "pub_row p \<longleftrightarrow> (post_state p = Published \<longrightarrow> published_message_id p \<noteq> None)"

definition admins_ok :: "db \<Rightarrow> bool" where
  "admins_ok d \<longleftrightarrow> unique_keys admin_id (admins d) \<and> (\<forall>a \<in> set (admins d). admin_id a < next_id d) \<and> has_super (admins d)"

definition sound :: "db \<Rightarrow> bool" where
  "sound d \<longleftrightarrow> store_ok d \<and> (\<forall>p \<in> set (posts d). pub_row p) \<and> distinct (map pd_hash (dedupe_rows d))"

definition good :: "db \<Rightarrow> bool" where
  "good d \<longleftrightarrow> sound d \<and> admins_ok d"

text \<open>What a row keeps for good: its identity, its source, its received text and, once it has one,
  the id of its published message.\<close>

definition same_post :: "post \<Rightarrow> post \<Rightarrow> bool" where
  "same_post p q \<longleftrightarrow> post_id q = post_id p \<and> source_key q = source_key p \<and> raw_text q = raw_text p \<and>
     (published_message_id p \<noteq> None \<longrightarrow> published_message_id q = published_message_id p)"

text \<open>A rewriting of a row that leaves the id of its published message alone.\<close>

definition same_row :: "post \<Rightarrow> post \<Rightarrow> bool" where
  "same_row p q \<longleftrightarrow> same_post p q \<and> published_message_id q = published_message_id p"

definition keeps :: "db \<Rightarrow> db \<Rightarrow> bool" where
  "keeps d d' \<longleftrightarrow> next_id d \<le> next_id d' \<and>
     (\<forall>q \<in> set (posts d'). (\<exists>p \<in> set (posts d). same_post p q) \<or> next_id d \<le> post_id q)"

definition step_ok :: "db \<Rightarrow> db \<Rightarrow> bool" where
  "step_ok d d' \<longleftrightarrow> (sound d \<longrightarrow> sound d' \<and> keeps d d') \<and> (admins_ok d \<longrightarrow> admins_ok d')"

lemma step_good: "step_ok d d' \<Longrightarrow> good d \<Longrightarrow> good d' \<and> keeps d d'"
  by (simp add: step_ok_def good_def)

lemma same_post_refl [simp]: "same_post p p"
  by (simp add: same_post_def)

lemma same_post_trans: "same_post p q \<Longrightarrow> same_post q r \<Longrightarrow> same_post p r"
  by (auto simp: same_post_def)

lemma same_row_trans: "same_row p q \<Longrightarrow> same_row q r \<Longrightarrow> same_row p r"
  by (auto simp: same_row_def intro: same_post_trans)

lemma keeps_sub:
  assumes "set (posts d') \<subseteq> set (posts d) \<union> {q. next_id d \<le> post_id q}" and "next_id d \<le> next_id d'"
  shows "keeps d d'"
  unfolding keeps_def
proof (intro conjI ballI)
  fix q assume "q \<in> set (posts d')"
  with assms(1) have "q \<in> set (posts d) \<or> next_id d \<le> post_id q" by blast
  then show "(\<exists>p \<in> set (posts d). same_post p q) \<or> next_id d \<le> post_id q"
    by (metis same_post_refl)
qed (rule assms(2))

lemma keeps_same: "posts d' = posts d \<Longrightarrow> next_id d \<le> next_id d' \<Longrightarrow> keeps d d'"
  by (rule keeps_sub) auto

lemma keeps_refl [simp]: "keeps d d"
  by (simp add: keeps_same)

lemma keeps_trans: "keeps d d' \<Longrightarrow> keeps d' d'' \<Longrightarrow> keeps d d''"
  unfolding keeps_def
proof (intro conjI ballI)
  fix q
  assume a: "next_id d \<le> next_id d' \<and> (\<forall>q \<in> set (posts d'). (\<exists>p \<in> set (posts d). same_post p q) \<or> next_id d \<le> post_id q)"
    and b: "next_id d' \<le> next_id d'' \<and> (\<forall>q \<in> set (posts d''). (\<exists>p \<in> set (posts d'). same_post p q) \<or> next_id d' \<le> post_id q)"
    and q: "q \<in> set (posts d'')"
  show "(\<exists>p \<in> set (posts d). same_post p q) \<or> next_id d \<le> post_id q"
  proof (cases "next_id d' \<le> post_id q")
    case True
    with a show ?thesis by auto
  next
    case False
    with b q obtain p where p: "p \<in> set (posts d')" "same_post p q" by blast
    with a have "(\<exists>r \<in> set (posts d). same_post r p) \<or> next_id d \<le> post_id p" by blast
    then show ?thesis using p(2) same_post_trans by (metis same_post_def)
  qed
qed auto

lemma step_refl [simp]: "step_ok d d"
  by (simp add: step_ok_def)

lemma step_trans: "step_ok d d' \<Longrightarrow> step_ok d' d'' \<Longrightarrow> step_ok d d''"
  by (auto simp: step_ok_def intro: keeps_trans)

section \<open>The ways to change the store\<close>

lemma admins_ok_next: "admins_ok d \<Longrightarrow> admins d' = admins d \<Longrightarrow> next_id d \<le> next_id d' \<Longrightarrow> admins_ok d'"
  by (fastforce simp: admins_ok_def)

lemma step_same_posts:
  assumes "posts d' = posts d" and "admins d' = admins d" and "dedupe_rows d' = dedupe_rows d" and "next_id d \<le> next_id d'"
  shows "step_ok d d'"
proof -
  have "ids_fresh d \<Longrightarrow> ids_fresh d'" using assms(1,4) by (fastforce simp: ids_fresh_def)
  with assms admins_ok_next [of d d'] keeps_same [of d' d] show ?thesis
    by (auto simp: step_ok_def sound_def store_ok_def unique_sources_def)
qed

lemma step_event: "step_ok d (add_event now pid a act pl d)"
  by (rule step_same_posts) (simp_all add: add_event_def)

text \<open>Rewriting rows in place.\<close>

lemma step_map:
  assumes "posts d' = map f (posts d)" and "admins d' = admins d" and "dedupe_rows d' = dedupe_rows d"
    and "next_id d' = next_id d" and "\<And>p. p \<in> set (posts d) \<Longrightarrow> same_post p (f p) \<and> (pub_row p \<longrightarrow> pub_row (f p))"
  shows "step_ok d d'"
proof -
  have f: "map post_id (posts d') = map post_id (posts d)" "map source_key (posts d') = map source_key (posts d)"
    using assms(1,5) by (auto simp: same_post_def)
  have "ids_fresh d \<Longrightarrow> ids_fresh d'"
    using assms(1,4,5) by (auto simp: ids_fresh_def same_post_def)
  moreover have "admins_ok d \<Longrightarrow> admins_ok d'" using admins_ok_next assms(2,4) by simp
  moreover have "keeps d d'" using assms(1,4,5) by (auto simp: keeps_def)
  moreover have "unique_sources d \<Longrightarrow> unique_sources d'" "unique_keys post_id (posts d) \<Longrightarrow> unique_keys post_id (posts d')"
    unfolding unique_sources_def unique_keys_def keys_def f by blast+
  moreover have "\<forall>p \<in> set (posts d). pub_row p \<Longrightarrow> \<forall>p \<in> set (posts d'). pub_row p" using assms(1,5) by auto
  ultimately show ?thesis using assms(3) by (simp add: step_ok_def sound_def store_ok_def)
qed

lemma step_save:
  assumes "get_post d k = Some p0" and "same_post p0 p" and "pub_row p0 \<Longrightarrow> pub_row p"
  shows "step_ok d (save_post now p d)"
proof (cases "get_post d (post_id p) = Some p")
  case True
  then show ?thesis by (simp add: save_post_def)
next
  case False
  have k: "post_id p = k" "post_id p0 = k" using assms(1,2) tget_key [OF assms(1)] by (auto simp: same_post_def)
  let ?q = "p\<lparr>updated_at := now\<rparr>"
  have same: "same_post p0 ?q" "pub_row p0 \<Longrightarrow> pub_row ?q"
    using assms(2,3) by (auto simp: same_post_def source_key_def pub_row_def)
  show ?thesis
  proof (cases "sound d")
    case good: True
    have uniq: "r = p0" if "r \<in> set (posts d)" "post_id r = k" for r
      using that tbl.get_ok [of post_id "posts d" r] good assms(1) by (auto simp: sound_def store_ok_def)
    show ?thesis
    proof (rule step_map [where f = "\<lambda>r. if post_id r = post_id ?q then ?q else r"])
      show "posts (save_post now p d) = map (\<lambda>r. if post_id r = post_id ?q then ?q else r) (posts d)"
        using False by (simp add: save_post_def tput_def)
      fix r assume "r \<in> set (posts d)"
      then show "same_post r (if post_id r = post_id ?q then ?q else r) \<and>
          (pub_row r \<longrightarrow> pub_row (if post_id r = post_id ?q then ?q else r))"
        using uniq [of r] same k by auto
    qed simp_all
  qed (simp add: step_ok_def admins_ok_def)
qed

text \<open>Dropping rows, and changing the dedupe index.\<close>

lemma step_filter:
  assumes "posts d' = filter P (posts d)" and "admins d' = admins d" and "dedupe_rows d' = dedupe_rows d"
    and "next_id d' = next_id d"
  shows "step_ok d d'"
proof -
  have "unique_sources d \<Longrightarrow> unique_sources d'" "unique_keys post_id (posts d) \<Longrightarrow> unique_keys post_id (posts d')"
    using assms(1) by (simp_all add: unique_sources_def unique_keys_def keys_def distinct_map_filter)
  moreover have "keeps d d'" by (rule keeps_sub) (use assms(1,4) in auto)
  moreover have "admins_ok d \<Longrightarrow> admins_ok d'" using admins_ok_next assms(2,4) by simp
  ultimately show ?thesis
    using assms by (auto simp: step_ok_def sound_def store_ok_def ids_fresh_def)
qed

lemma step_rows:
  assumes "posts d' = posts d" and "admins d' = admins d" and "next_id d \<le> next_id d'"
    and "distinct (map pd_hash (dedupe_rows d)) \<Longrightarrow> distinct (map pd_hash (dedupe_rows d'))"
  shows "step_ok d d'"
proof -
  have "ids_fresh d \<Longrightarrow> ids_fresh d'" using assms(1,3) by (fastforce simp: ids_fresh_def)
  moreover have "admins_ok d \<Longrightarrow> admins_ok d'" using admins_ok_next assms(2,3) by simp
  ultimately show ?thesis
    using assms keeps_same [of d' d] by (auto simp: step_ok_def sound_def store_ok_def unique_sources_def)
qed

lemma step_reserve: "step_ok d (snd (reserve_dedupe now h d))"
proof (rule step_rows)
  show "distinct (map pd_hash (dedupe_rows d)) \<Longrightarrow> distinct (map pd_hash (dedupe_rows (snd (reserve_dedupe now h d))))"
    by (auto simp: reserve_dedupe_def tadd_def dedupe_exists_def list_ex_iff)
qed (simp_all add: reserve_dedupe_def)

lemma step_release: "step_ok d (release_dedupe h d)"
proof (rule step_rows)
  show "distinct (map pd_hash (dedupe_rows d)) \<Longrightarrow> distinct (map pd_hash (dedupe_rows (release_dedupe h d)))"
    by (auto simp: release_dedupe_def tdel_def distinct_map_filter)
qed (simp_all add: release_dedupe_def)

text \<open>Adding a post.\<close>

lemma step_add:
  assumes "posts d' = posts d @ [p]" and "post_id p = next_id d" and "next_id d < next_id d'"
    and "source_key p \<notin> source_key ` set (posts d)" and "pub_row p"
    and "admins d' = admins d" and "dedupe_rows d' = dedupe_rows d"
  shows "step_ok d d'"
proof -
  have "ids_fresh d \<Longrightarrow> ids_fresh d'" using assms(1-3) by (fastforce simp: ids_fresh_def)
  moreover have "ids_fresh d \<Longrightarrow> next_id d \<notin> post_id ` set (posts d)" by (rule fresh_next)
  moreover have "admins_ok d \<Longrightarrow> admins_ok d'" using admins_ok_next assms(3,6) by simp
  moreover have "keeps d d'" by (rule keeps_sub) (use assms(1-3) in auto)
  ultimately show ?thesis
    using assms by (auto simp: step_ok_def sound_def store_ok_def unique_sources_def unique_keys_def keys_def)
qed

section \<open>The operations\<close>

text \<open>A row read and saved under another state, with an event: most handlers do no more.\<close>

lemma same_row_edit [simp]:
  "same_row p (p\<lparr>post_state := s\<rparr>)" "same_row p (p\<lparr>tag_ids := ids\<rparr>)" "same_row p (p\<lparr>draft_message_id := m\<rparr>)"
  "same_row p (p\<lparr>raw_media_refs := refs\<rparr>)" "same_row p (p\<lparr>post_state := s, scheduled_for := t\<rparr>)"
  by (simp_all add: same_row_def same_post_def source_key_def)

lemma pub_row_edit [simp]:
  "s \<noteq> Published \<Longrightarrow> pub_row (p\<lparr>post_state := s\<rparr>)"
  "s \<noteq> Published \<Longrightarrow> pub_row (p\<lparr>post_state := s, scheduled_for := t\<rparr>)"
  "pub_row (p\<lparr>tag_ids := ids\<rparr>) = pub_row p" "pub_row (p\<lparr>draft_message_id := m\<rparr>) = pub_row p"
  "pub_row (p\<lparr>raw_media_refs := refs\<rparr>) = pub_row p"
  by (simp_all add: pub_row_def)

lemma same_with_tags [simp]:
  "same_row p (with_tags ids p)" "pub_row (with_tags ids p) = pub_row p"
  by (simp_all add: with_tags_def same_row_def same_post_def pub_row_def source_key_def split: option.split)

lemma edit_draft_card_wdb [simp]: "wdb (snd (edit_draft_card E p ch w)) = wdb w"
  by (auto simp: edit_draft_card_def tg_do_def Let_def split: prod.split tg_outcome.split)

lemma publish_finish_wdb:
  "wdb (snd (publish_finish E pid mid h ch w)) = snd (mark_published E (wclock w) pid mid h (wdb w))"
proof -
  obtain r d where m: "mark_published E (wclock w) pid mid h (wdb w) = (r, d)" by fastforce
  show ?thesis
  proof (cases "get_post d pid")
    case None
    with m show ?thesis by (simp add: publish_finish_def Let_def split: sum.split)
  next
    case (Some p)
    obtain r2 w2 where e: "edit_draft_card E p ch (w\<lparr>wdb := d\<rparr>) = (r2, w2)" by fastforce
    then have "wdb w2 = d" using edit_draft_card_wdb [of E p ch "w\<lparr>wdb := d\<rparr>"] by (metis snd_conv world.select_convs(1) world.surjective world.update_convs(1))
    with m Some e show ?thesis by (cases r; cases r2) (simp_all add: publish_finish_def Let_def)
  qed
qed

lemma answer_bind_wdb:
  assumes "\<And>w'. wdb (snd (k w')) = wdb w'"
  shows "wdb (snd (case answer E t b w of (Inl e, w2) \<Rightarrow> (Inl e, w2) | (Inr u, w2) \<Rightarrow> k w2)) = wdb w"
proof -
  obtain r w2 where a: "answer E t b w = (r, w2)" by fastforce
  then have "wdb w2 = wdb w" using answer_frame(1) [of E t b w] by (metis snd_conv)
  with a assms show ?thesis by (cases r) simp_all
qed

lemma enqueue_bind_wdb:
  assumes "\<And>w'. wdb (snd (k w')) = wdb w'"
  shows "wdb (snd (case enqueue_publish E pid dl w of (Inl e, w2) \<Rightarrow> (Inl e, w2) | (Inr u, w2) \<Rightarrow> k w2)) = wdb w"
proof -
  obtain r w2 where a: "enqueue_publish E pid dl w = (r, w2)" by fastforce
  then have "wdb w2 = wdb w" using enqueue_publish_wdb [of E pid dl w] by (metis snd_conv)
  with a assms show ?thesis by (cases r) simp_all
qed

lemma alert_wdb [simp]: "wdb (snd (alert E msg w)) = wdb w"
  by (simp add: alert_def tg_do_def Let_def split: tg_outcome.split)

text \<open>
  The actor of an event is an account or nobody. What the services do to the store is made of a few moves: an
  event about a post that is there, a row saved under the same source, a reservation, a row of a new message,
  and the endpoints that write other tables. Whatever relation holds of these moves and composes holds of
  every step of every service.
\<close>

definition actor_ok :: "db \<Rightarrow> int option \<Rightarrow> bool" where
  "actor_ok d a \<longleftrightarrow> (case a of None \<Rightarrow> True | Some k \<Rightarrow> k \<in> admin_id ` set (admins d))"

lemma actor_ok_None [simp]: "actor_ok d None"
  by (simp add: actor_ok_def)

lemma actor_ok_admin: "a \<in> set (admins d) \<Longrightarrow> actor_ok d (Some (admin_id a))"
  by (simp add: actor_ok_def)

lemma actor_ok_save [simp]: "actor_ok (save_post now p d) a = actor_ok d a"
  by (simp add: actor_ok_def split: option.split)

lemma get_post_saved: "get_post d k = Some p0 \<Longrightarrow> post_id p = k \<Longrightarrow> get_post (save_post now p d) k \<noteq> None"
  using get_post_save [of d k p0 p now] by auto

definition published_row :: "time \<Rightarrow> int \<Rightarrow> post \<Rightarrow> post" where
  "published_row now mid p = p\<lparr>post_state := Published, published_message_id := Some mid, published_at := Some now\<rparr>"

lemma published_row_same:
  "published_message_id p = None \<Longrightarrow> same_post p (published_row now mid p)" "pub_row (published_row now mid p)"
  by (simp_all add: published_row_def same_post_def source_key_def pub_row_def)

locale row_moves =
  fixes moves :: "db \<Rightarrow> db \<Rightarrow> bool"
  assumes stay [simp]: "moves d d"
    and go_on: "moves d d' \<Longrightarrow> moves d' d'' \<Longrightarrow> moves d d''"
    and event: "get_post d pid \<noteq> None \<Longrightarrow> actor_ok d a \<Longrightarrow> moves d (add_event now pid a act pl d)"
    and save: "get_post d k = Some p0 \<Longrightarrow> same_row p0 p \<Longrightarrow> (pub_row p0 \<Longrightarrow> pub_row p) \<Longrightarrow> moves d (save_post now p d)"
    and reserve: "moves d (snd (reserve_dedupe now h d))"
    and release: "moves d (release_dedupe h d)"
    and insert: "insert_post now ch m d = Some (pid, d1) \<Longrightarrow> moves d d1"
    and tag_made: "moves (wdb w) (wdb (snd (create_tag U tc w)))"
    and tag_changed: "moves (wdb w) (wdb (snd (update_tag k tu w)))"
    and tag_gone: "moves (wdb w) (wdb (snd (delete_tag k w)))"
    and template_made: "moves (wdb w) (wdb (snd (create_template pc w)))"
    and template_changed: "moves (wdb w) (wdb (snd (update_template k pu w)))"
    and template_gone: "moves (wdb w) (wdb (snd (delete_template k w)))"
    and channel_made: "moves (wdb w) (wdb (snd (create_channel s cc w)))"
    and channel_changed: "moves (wdb w) (wdb (snd (update_channel k cu w)))"
    and channel_gone: "moves (wdb w) (wdb (snd (delete_channel k w)))"
    and ai_changed: "moves (wdb w) (wdb (snd (update_ai_settings k au w)))"
    and account_made: "moves (wdb w) (wdb (snd (create_admin C ac w)))"
    and account_changed: "moves (wdb w) (wdb (snd (update_admin C aid u w)))"
    and signed_in: "moves (wdb w) (wdb (snd (login C s uname password w)))"
    and pruned: "moves (wdb w) (wdb (snd (prune_dedupe s rm_ok w)))"
    and seeded: "moves (wdb w) (wdb (snd (amain C s command w)))"
begin

lemma save_event:
  assumes "get_post d k = Some p0" and "same_row p0 p" and "pub_row p0 \<Longrightarrow> pub_row p" and "actor_ok d a"
  shows "moves d (add_event now k a act pl (save_post now' p d))"
proof (rule go_on [OF save [OF assms(1-3)] event])
  have "post_id p = k" using assms(1,2) tget_key [OF assms(1)] by (simp add: same_row_def same_post_def)
  then show "get_post (save_post now' p d) k \<noteq> None" by (rule get_post_saved [OF assms(1)])
qed (use assms(4) in simp_all)

lemma save_event':
  "get_post d k = Some p0 \<Longrightarrow> same_row p0 p \<Longrightarrow> (pub_row p0 \<Longrightarrow> pub_row p) \<Longrightarrow> actor_ok d a \<Longrightarrow>
   moves d (add_event now (post_id p) a act pl (save_post now' p d))"
  using save_event [of d k p0 p a] tget_key [of post_id "posts d" k p0] by (simp add: same_row_def same_post_def)

lemma step_mark_duplicate: "moves d (mark_duplicate now pid h d)"
  by (auto simp: mark_duplicate_def intro!: save_event split: option.split)

lemma step_claim: "get_post d k = Some p \<Longrightarrow> moves d (claim_post now p d)"
  unfolding claim_post_def by (rule save [of d k p]) (simp_all add: same_row_edit(1) pub_row_edit(1))

lemma step_mark_published:
  assumes "\<And>q. get_post d pid = Some q \<Longrightarrow> moves d (save_post now (published_row now mid q) d)"
  shows "moves d (snd (mark_published E now pid mid h d))"
proof (cases "get_post d pid")
  case None
  then show ?thesis by (simp add: mark_published_def)
next
  case (Some q)
  have "get_post (save_post now (published_row now mid q) d) pid \<noteq> None"
    by (rule get_post_saved [OF Some]) (simp add: tget_key [OF Some] published_row_def)
  then have "moves d (add_event now pid None Ev_published
      [(''published_message_id'', JInt mid), (''chat_id'', JInt (destination_channel_id (cfg E)))]
      (save_post now (published_row now mid q) d))"
    by (intro go_on [OF assms [OF Some] event]) simp_all
  then show ?thesis
    using go_on [OF _ reserve] Some by (auto simp: mark_published_def published_row_def Let_def split: option.split)
qed

text \<open>What the job does to the store besides recording a sent message; that change is the argument.\<close>

lemma publish_core_rows:
  assumes "\<And>p mid ch w3 q. send_of E p w = (Inr (Some mid), w3) \<Longrightarrow>
      publish_core E pid w = publish_finish E pid mid (dedupe_hash p) ch w3 \<Longrightarrow>
      get_post (wdb w3) pid = Some q \<Longrightarrow> published_message_id q = None \<Longrightarrow>
      moves (wdb w3) (save_post (wclock w3) (published_row (wclock w3) mid q) (wdb w3))"
  shows "moves (wdb w) (wdb (snd (publish_core E pid w)))"
proof (cases "publish_guard (wdb w) pid")
  case (Inl r)
  then show ?thesis by (simp add: publish_core_skip)
next
  case (Inr p)
  then have g: "get_post (wdb w) pid = Some p" "published_message_id p = None" by (simp_all add: publish_guard_Inr)
  have cl: "moves (wdb w) (claim_post (wclock w) p (wdb w))" by (rule step_claim [OF g(1)])
  have rs: "moves (wdb w) (wdb (reserved_world w p))"
    unfolding reserved_world_def using go_on [OF cl reserve] by simp
  have none: "published_message_id q = None" if "get_post (wdb (reserved_world w p)) pid = Some q" for q
    using reserved_post [OF Inr] that g(2) by auto
  show ?thesis
  proof (cases "get_channel (wdb w) (source_channel_id p)")
    case None
    with Inr cl show ?thesis by (simp add: publish_core_no_channel)
  next
    case (Some ch)
    show ?thesis
    proof (cases "truthy (dedupe_hash p) \<and> dedupe_exists (wdb w) (the (dedupe_hash p))")
      case True
      with publish_core_dup [OF Inr Some] go_on [OF cl step_mark_duplicate] show ?thesis by simp
    next
      case False
      obtain r w3 where s: "send_of E p w = (r, w3)" by fastforce
      have w3: "wdb w3 = wdb (reserved_world w p)" using send_of_db [of E p w] s by simp
      have freed: "moves (wdb w) (release_dedupe (dedupe_hash p) (wdb w3))" using go_on [OF rs release] w3 by simp
      have marked: "moves (wdb w) (snd (mark_published E (wclock w3) pid mid (dedupe_hash p) (wdb w3)))"
        if "r = Inr (Some mid)" "mid \<noteq> 0" for mid
      proof (rule go_on)
        show "moves (wdb w) (wdb w3)" using rs w3 by simp
        show "moves (wdb w3) (snd (mark_published E (wclock w3) pid mid (dedupe_hash p) (wdb w3)))"
        proof (rule step_mark_published)
          fix q assume "get_post (wdb w3) pid = Some q"
          moreover have "publish_core E pid w = publish_finish E pid mid (dedupe_hash p) ch w3"
            using publish_core_send [OF Inr Some False, of E] that by (simp add: s)
          ultimately show "moves (wdb w3) (save_post (wclock w3) (published_row (wclock w3) mid q) (wdb w3))"
            using assms [OF s [unfolded that(1)]] none w3 by simp
        qed
      qed
      show ?thesis
        unfolding publish_core_send [OF Inr Some False] s
        using freed marked by (auto simp: publish_finish_wdb Let_def truthy_int_def split: sum.split option.splits)
    qed
  qed
qed

lemma on_publish_failure_ok: "moves (wdb w) (wdb (snd (on_publish_failure E pid err w)))"
  by (auto simp: on_publish_failure_def Let_def intro!: save_event split: option.split)

lemma publish_rows:
  assumes "\<And>p mid ch w3 q. send_of E p w = (Inr (Some mid), w3) \<Longrightarrow>
      publish_core E pid w = publish_finish E pid mid (dedupe_hash p) ch w3 \<Longrightarrow>
      get_post (wdb w3) pid = Some q \<Longrightarrow> published_message_id q = None \<Longrightarrow>
      moves (wdb w3) (save_post (wclock w3) (published_row (wclock w3) mid q) (wdb w3))"
  shows "moves (wdb w) (wdb (snd (publish E pid w)))"
proof -
  obtain r w1 where c: "publish_core E pid w = (r, w1)" by fastforce
  have "moves (wdb w) (wdb (snd (publish_core E pid w)))" by (rule publish_core_rows) (rule assms)
  then have w1: "moves (wdb w) (wdb w1)" using c by simp
  show ?thesis
  proof (cases r)
    case (Inl e)
    have "snd (publish E pid w) = snd (on_publish_failure E pid (exn_text e) w1)"
      using c Inl by (simp add: publish_def case_prod_beta split: sum.split)
    then show ?thesis using go_on [OF w1 on_publish_failure_ok] by simp
  next
    case (Inr v)
    with c w1 show ?thesis by (simp add: publish_def)
  qed
qed

lemma normalize_step: "moves (wdb w) (wdb (snd (normalize E pid w)))"
proof -
  consider "snd (normalize E pid w) = w"
    | post ch n where "get_post (wdb w) pid = Some post" "post_state post \<notin> {Published, Rejected}"
        "snd (normalize E pid w) = snd (normalize_write E ch post n (normalize_tags ch) w)"
    using normalize_cases [of E pid w] by (metis snd_conv)
  then show ?thesis
  proof cases
    case 1
    then show ?thesis by simp
  next
    case 2
    let ?q = "final_row E ch post n (normalize_tags ch)"
    have sk: "source_key ?q = source_key post"
      by (simp add: source_key_def final_row_def normalized_row_def) (metis ai_step_keeps(6) ai_step_row post.select_convs(3) post.surjective post.update_convs(9) prod.collapse)
    have same: "same_row post ?q" "same_row post (?q\<lparr>post_state := Rejected\<rparr>)"
      using sk by (simp_all add: same_row_def same_post_def source_key_def)
    have row: "pub_row post \<Longrightarrow> pub_row ?q" by (simp add: pub_row_def)
    have pid: "post_id ?q = pid" "post_id (?q\<lparr>post_state := Rejected\<rparr>) = pid"
      using tget_key [OF 2(1)] by simp_all
    have opt: "moves (wdb w) (add_opt_event (wclock w) pid ev (wdb w))" for ev
      using 2(1) by (auto simp: add_opt_event_def event split: option.split)
    have act: "actor_ok (add_opt_event (wclock w) pid ev (wdb w)) None" for ev by simp
    have g: "get_post (add_opt_event (wclock w) k ev (wdb w)) pid = Some post" for k ev using 2(1) by simp
    have "moves (wdb w) (committed_db w ev ?q act pl)" "moves (wdb w) (committed_db w ev (?q\<lparr>post_state := Rejected\<rparr>) act pl)"
      for ev act pl
      unfolding committed_db_def pid
      using go_on [OF opt save_event [OF g same(1) row act]]
        go_on [OF opt save_event [OF g same(2) pub_row_edit(1) act]] by simp_all
    then show ?thesis unfolding 2(3) normalize_write_wdb by simp
  qed
qed

lemma cb_commit_step:
  assumes "get_post (wdb w) k = Some p" and "s \<noteq> Published"
  shows "moves (wdb w) (wdb (cb_commit cb (p\<lparr>post_state := s\<rparr>) act w))"
  using save_event' [OF assms(1) same_row_edit(1) pub_row_edit(1) [OF assms(2)]] by (simp add: cb_commit_def)

lemma callback_step: "moves (wdb w) (wdb (snd (handle_callback E cb w)))"
proof -
  have a: "moves (wdb w) (wdb (snd (cb_approve E cb w))) \<and> moves (wdb w) (wdb (snd (cb_reject E cb w)))"
  proof (cases "cb_target E cb w")
    case (Inl r)
    have "wdb (snd r) = wdb w" using cb_target_stop [of E cb w "fst r" "snd r"] Inl by simp
    with Inl show ?thesis by (simp add: cb_approve_def cb_reject_def)
  next
    case (Inr pc)
    obtain p ch where pc: "pc = (p, ch)" by (cases pc)
    with Inr have g: "get_post (wdb w) (post_id p) = Some p" by (simp add: cb_target_Inr(2))
    have "wdb (snd (cb_approve E cb w)) = wdb (cb_commit cb (p\<lparr>post_state := Approved\<rparr>) Ev_approved w)"
      unfolding cb_approve_def Inr pc sum.case prod.case Let_def
      by (intro answer_bind_wdb enqueue_bind_wdb) simp
    moreover have "wdb (snd (cb_reject E cb w)) = wdb (cb_commit cb (p\<lparr>post_state := Rejected\<rparr>) Ev_rejected w)"
      unfolding cb_reject_def Inr pc sum.case prod.case Let_def by (intro answer_bind_wdb) simp
    ultimately show ?thesis using cb_commit_step [OF g, of Approved] cb_commit_step [OF g, of Rejected] by simp
  qed
  then show ?thesis by (simp add: handle_callback_def cb_noop_def)
qed

lemma commit_decision_step:
  assumes "get_post (wdb w) k = Some p0" and "same_row p0 p" and "pub_row p0 \<Longrightarrow> pub_row p" and "a \<in> set (admins (wdb w))"
  shows "moves (wdb w) (wdb (commit_decision a p act pl w))"
  using save_event' [OF assms(1-3) actor_ok_admin [OF assms(4)]] by (simp add: commit_decision_def)

lemma decide_core_step:
  assumes "a \<in> set (admins (wdb w))"
  shows "moves (wdb w) (wdb (snd (decide_core E pid dec a w)))"
proof (cases "find_post (wdb w) pid")
  case (Inl e)
  then show ?thesis by (simp add: decide_core_def)
next
  case (Inr p)
  then have g: "get_post (wdb w) pid = Some p" by simp
  define q where "q = with_tags (pd_tag_ids dec) p"
  have q: "same_row p q" "pub_row p \<Longrightarrow> pub_row q" by (simp_all add: q_def)
  have c: "moves (wdb w) (wdb (commit_decision a (q\<lparr>post_state := s, scheduled_for := t\<rparr>) act pl w))"
    "moves (wdb w) (wdb (commit_decision a (q\<lparr>post_state := s\<rparr>) act pl w))" if "s \<noteq> Published" for s t act pl
    using that same_row_trans [OF q(1)] by (auto intro!: commit_decision_step [OF g] assms)
  have e: "wdb (snd (case enqueue_publish E k dl w1 of (Inl e, w2) \<Rightarrow> (Inl e, w2) | (Inr u, w2) \<Rightarrow> (Inr (f w2), w2)))
      = wdb w1" for k dl w1 and f :: "world \<Rightarrow> post"
    by (rule enqueue_bind_wdb) simp
  show ?thesis
    unfolding decide_core_def Inr sum.case Let_def q_def [symmetric]
    using c by (simp add: e split: option.split sum.split)
qed

lemma edit_tags_step:
  assumes "a \<in> set (admins (wdb w))"
  shows "moves (wdb w) (wdb (snd (edit_tags pid ids a w)))"
proof (cases "find_post (wdb w) pid")
  case (Inr p)
  then have g: "get_post (wdb w) pid = Some p" by simp
  show ?thesis
    unfolding edit_tags_def Inr sum.case Let_def using save_event [OF g same_row_edit(2) _ actor_ok_admin [OF assms]] by simp
qed (simp add: edit_tags_def)

lemma handle_step: "a \<in> set (admins (wdb w)) \<Longrightarrow> moves (wdb w) (wdb (snd (handle E C rq a w)))"
  by (cases rq)
    (simp_all add: tag_made tag_changed tag_gone template_made template_changed template_gone channel_made
      channel_changed channel_gone ai_changed account_made account_changed
      edit_tags_step decide_core_step decide_def approve_def schedule_def reject_def)

lemma serve_step: "moves (wdb w) (wdb (snd (serve E C tok rq w)))"
  using serve_cases [of E C tok rq w]
proof (elim disjE exE conjE)
  fix a
  assume "get_current_admin (wdb w) (get_claims C (uni E) (cfg E) (wclock w) tok) = Inr a"
    and h: "serve E C tok rq w = handle E C rq a w"
  then have "a \<in> set (admins (wdb w))"
    by (auto simp: get_current_admin_def dest: active_adminD split: sum.splits option.splits)
  then show ?thesis unfolding h by (rule handle_step)
qed simp

lemma post_draft_step: "moves (wdb w) (wdb (snd (post_draft E pid w)))"
proof -
  have rec: "moves (wdb v) (wdb (record_draft E pid m v))" for m v
    by (auto simp: record_draft_def intro!: save_event split: option.split)
  have rec': "moves (wdb w) (wdb (record_draft E pid m (w\<lparr>wcalls := cs\<rparr>)))" for m cs
    using rec [of "w\<lparr>wcalls := cs\<rparr>" m] by simp
  show ?thesis
    unfolding post_draft_def
    by (auto simp: Let_def case_prod_beta tg_do_def rec' split: option.split tg_outcome.split)
qed

lemma ingest_step: "moves (wdb w) (wdb (snd (ingest_message E T m ch w)))"
proof (cases "insert_post (wclock w) ch m (wdb w)")
  case None
  then show ?thesis by (simp add: ingest_refused)
next
  case (Some pd)
  then obtain pid d1 where i: "insert_post (wclock w) ch m (wdb w) = Some (pid, d1)" by (cases pd) auto
  then have s1: "moves (wdb w) d1" by (rule insert)
  have "moves d1 (attach_media now pid refs d1)" for now refs
    by (auto simp: attach_media_def Let_def intro!: save_event split: option.split)
  with s1 ingest_wdb [of w ch m E T] i show ?thesis by (auto intro: go_on)
qed

lemma live_step: "moves (wdb w) (wdb (on_new_message E T cm chat m w))"
proof (cases "map_of cm chat")
  case (Some ch)
  obtain r w1 where i: "ingest_message E T m ch w = (r, w1)" by fastforce
  have one: "moves (wdb w) (wdb w1)" using ingest_step [of w E T m ch] i by simp
  have "moves (wdb w1) (wdb (snd (ingest_message E T m ch (sleep t w1))))" for t
    using ingest_step [of "sleep t w1" E T m ch] by simp
  then show ?thesis
    using one go_on [OF one] by (auto simp: on_new_message_def Some i split: sum.split exn.split)
qed (simp add: on_new_message_def)

lemma backfill_each_step: "moves (wdb w) (wdb (snd (backfill_each E T ch ms n w)))"
proof (induction ms arbitrary: n w)
  case (Cons m ms)
  obtain r w1 where i: "ingest_message E T m ch w = (r, w1)" by fastforce
  have one: "moves (wdb w) (wdb w1)" using ingest_step [of w E T m ch] i by simp
  have "moves (wdb w1) (wdb (snd (backfill_each E T ch ms k (sleep t w1))))" for t k
    using Cons.IH [of "sleep t w1" k] by simp
  then show ?case
    using go_on [OF one] Cons.IH [of w1] by (simp add: i split: sum.split exn.split)
qed simp

text \<open>Every step but a run of the publish job.\<close>

lemma other_step: "sys_step E C T w w' \<Longrightarrow> moves (wdb w) (wdb w') \<or> (\<exists>pid. w' = snd (publish E pid w))"
  by (induction rule: sys_step.induct)
    (auto simp: serve_step signed_in callback_step normalize_step post_draft_step
      pruned ingest_step reconcile_scheduled_def reconcile_pending_def live_step backfill_def backfill_each_step
      try_alert_def enqueue_alert_def cmd_queue_def cmd_stats_def cmd_health_def seeded)

end

text \<open>The remaining move: the row of a sent message gets its id.\<close>

locale store_moves = row_moves +
  assumes published: "get_post d k = Some p0 \<Longrightarrow> published_message_id p0 = None \<Longrightarrow>
      moves d (save_post now (published_row now mid p0) d)"
begin

lemma publish_step: "moves (wdb w) (wdb (snd (publish E pid w)))"
  by (rule publish_rows) (rule published)

lemma sys_step_ok: "sys_step E C T w w' \<Longrightarrow> moves (wdb w) (wdb w')"
  using other_step publish_step by metis

lemma reach_ok: "reach E C T w w' \<Longrightarrow> moves (wdb w) (wdb w')"
  by (induction rule: reach.induct) (auto intro: go_on sys_step_ok)

end

section \<open>The moves keep the invariant\<close>

lemma insert_step:
  assumes "insert_post now ch m d = Some (pid, d1)"
  shows "step_ok d d1"
proof -
  have "admins d1 = admins d" using assms by (auto simp: insert_post_def Let_def split: if_splits)
  moreover have "source_key (new_post pid (channel_id ch) (m_id m) (message_text m) now) \<notin> source_key ` set (posts d)"
    using insert_post_Some(2) [OF assms] by (simp add: already_ingested_iff)
  ultimately show ?thesis
    using insert_post_Some [OF assms]
    by (intro step_add [where p = "new_post pid (channel_id ch) (m_id m) (message_text m) now"])
      (simp_all add: pub_row_def)
qed

lemma delete_tag_step: "step_ok (wdb w) (wdb (snd (delete_tag k w)))"
proof (cases "tget tag_id (tags (wdb w)) k")
  case (Some t)
  show ?thesis
    by (rule step_map [where f = "drop_tag (wclock w) k"])
      (auto simp: delete_tag_def Some drop_tag_def same_post_def source_key_def pub_row_def)
qed (simp add: delete_tag_def)

lemma delete_channel_step: "step_ok (wdb w) (wdb (snd (delete_channel k w)))"
proof (cases "fst (delete_channel k w)")
  case (Inl e)
  then have "snd (delete_channel k w) = w" by (auto simp: delete_channel_def split: option.splits if_splits)
  then show ?thesis by simp
next
  case (Inr u)
  show ?thesis
    by (rule step_filter [where P = "\<lambda>p. source_channel_id p \<noteq> k"])
      (use Inr in \<open>auto simp: delete_channel_def cascade_channel_def Let_def split: option.splits if_splits\<close>)
qed

lemma update_admin_rows:
  "wdb (snd (update_admin C aid u w)) = wdb w \<or>
   (\<exists>a a0. tget admin_id (admins (wdb w)) aid = Some a0 \<and> admin_id a = aid \<and>
      wdb (snd (update_admin C aid u w)) = (wdb w)\<lparr>admins := tput admin_id a (admins (wdb w))\<rparr>)"
proof (cases "updated_admin C (wclock w) (admins (wdb w)) aid u")
  case (Inr a)
  then obtain a0 where a0: "tget admin_id (admins (wdb w)) aid = Some a0"
    by (auto simp: updated_admin_def split: option.splits)
  have "admin_id a = admin_id a0"
    using Inr a0
    by (auto simp: updated_admin_def change_role_def change_disabled_def Let_def split: option.splits sum.splits if_splits)
  with a0 tget_key [OF a0] Inr show ?thesis by (auto simp: update_admin_def commit_admin_def)
qed (simp add: update_admin_def)

lemma step_admins:
  assumes "posts d' = posts d" and "dedupe_rows d' = dedupe_rows d" and "next_id d \<le> next_id d'"
    and "admins_ok d \<Longrightarrow> admins_ok d'"
  shows "step_ok d d'"
proof -
  have "ids_fresh d \<Longrightarrow> ids_fresh d'" using assms(1,3) by (fastforce simp: ids_fresh_def)
  with assms keeps_same [of d' d] show ?thesis
    by (auto simp: step_ok_def sound_def store_ok_def unique_sources_def)
qed

lemma tput_admins_ok:
  assumes "admins_ok d" and "tget admin_id (admins d) (admin_id a) = Some a0" and "has_super (tput admin_id a (admins d))"
  shows "admins_ok (d\<lparr>admins := tput admin_id a (admins d)\<rparr>)"
proof -
  have "admin_id a < next_id d" using assms(1,2) tbl.get_in tget_key by (fastforce simp: admins_ok_def)
  then show ?thesis
    using assms(1,3) unique_keys_tput by (auto simp: admins_ok_def dest: tput_in_set)
qed

lemma update_admin_step: "step_ok (wdb w) (wdb (snd (update_admin C aid u w)))"
proof (rule step_admins)
  show "admins_ok (wdb w) \<Longrightarrow> admins_ok (wdb (snd (update_admin C aid u w)))"
    using update_admin_rows [of C aid u w]
  proof (elim disjE exE conjE)
    fix a a0
    assume ok: "admins_ok (wdb w)" and g: "tget admin_id (admins (wdb w)) aid = Some a0" "admin_id a = aid"
      and d: "wdb (snd (update_admin C aid u w)) = (wdb w)\<lparr>admins := tput admin_id a (admins (wdb w))\<rparr>"
    have "has_super (admins (wdb (snd (update_admin C aid u w))))"
      by (rule update_admin_has_super) (use ok in \<open>simp_all add: admins_ok_def\<close>)
    then show ?thesis using tput_admins_ok [OF ok] g by (simp add: d)
  qed simp
qed (use update_admin_rows [of C aid u w] in auto)

lemma create_admin_step: "step_ok (wdb w) (wdb (snd (create_admin C c w)))"
proof (cases "fst (create_admin C c w)")
  case (Inl e)
  then have "snd (create_admin C c w) = w" by (auto simp: create_admin_def Let_def split: if_splits)
  then show ?thesis by simp
next
  case (Inr a)
  then have d: "wdb (snd (create_admin C c w)) = (wdb w)\<lparr>admins := tadd a (admins (wdb w)), next_id := next_id (wdb w) + 1\<rparr>"
    "admin_id a = next_id (wdb w)"
    by (auto simp: create_admin_def Let_def split: if_splits)
  have "admins_ok (wdb w) \<Longrightarrow> admins_ok (wdb (snd (create_admin C c w)))"
  proof -
    assume ok: "admins_ok (wdb w)"
    then have "admin_id a \<notin> admin_id ` set (admins (wdb w))" using d(2) by (auto simp: admins_ok_def)
    then have "unique_keys admin_id (tadd a (admins (wdb w)))"
      using ok by (intro unique_keys_tadd) (simp_all add: admins_ok_def)
    with ok d show ?thesis
      by (fastforce simp: admins_ok_def tadd_def has_super_def active_supers_def)
  qed
  then show ?thesis by (intro step_admins) (simp_all add: d)
qed

lemma login_step: "step_ok (wdb w) (wdb (snd (login C s uname password w)))"
proof -
  obtain r w1 where a: "authenticate C uname password w = (r, w1)" by fastforce
  have l: "snd (login C s uname password w) = w1" using a by (simp add: login_def Let_def split: sum.split)
  show ?thesis
  proof (cases r)
    case (Inl e)
    with a authenticate_error_frame [of C uname password w e w1] l show ?thesis by simp
  next
    case (Inr x)
    with authenticate_Inr [of C uname password w x w1] a obtain a0 where a0: "a0 \<in> set (admins (wdb w))"
      "disabled_at a0 = None" "x = a0\<lparr>password_hash := password_hash x\<rparr>"
      "wdb w1 = wdb w \<and> x = a0 \<or> wdb w1 = (wdb w)\<lparr>admins := tput admin_id x (admins (wdb w))\<rparr>" by blast
    have k: "admin_id x = admin_id a0" "admin_role x = admin_role a0" "disabled_at x = disabled_at a0"
      using a0(3) by (cases x, cases a0, simp)+
    have "admins_ok (wdb w) \<Longrightarrow> admins_ok ((wdb w)\<lparr>admins := tput admin_id x (admins (wdb w))\<rparr>)"
    proof -
      assume ok: "admins_ok (wdb w)"
      have g: "tget admin_id (admins (wdb w)) (admin_id x) = Some a0"
        using tbl.get_ok [of admin_id "admins (wdb w)" a0] ok a0(1) k(1) by (simp add: admins_ok_def)
      have "other_super (admins (wdb w)) (admin_id x) \<or> admin_role x = R_super_admin \<and> disabled_at x = None"
        using has_super_cases [OF _ _ g] ok k by (simp add: admins_ok_def)
      from tput_admins_ok [OF ok g tput_has_super [OF g this]] show ?thesis .
    qed
    then have "step_ok (wdb w) ((wdb w)\<lparr>admins := tput admin_id x (admins (wdb w))\<rparr>)"
      by (intro step_admins) simp_all
    with a0(4) l show ?thesis by auto
  qed
qed

text \<open>Endpoints that write only tables outside the invariant.\<close>

lemma config_steps:
  "step_ok (wdb w) (wdb (snd (create_tag U tc w)))" "step_ok (wdb w) (wdb (snd (update_tag k tu w)))"
  "step_ok (wdb w) (wdb (snd (create_template pc w)))" "step_ok (wdb w) (wdb (snd (update_template k pu w)))"
  "step_ok (wdb w) (wdb (snd (delete_template k w)))" "step_ok (wdb w) (wdb (snd (create_channel s cc w)))"
  "step_ok (wdb w) (wdb (snd (update_channel k cu w)))" "step_ok (wdb w) (wdb (snd (update_ai_settings k au w)))"
  by (rule step_same_posts;
      simp add: create_tag_def update_tag_def create_template_def update_template_def delete_template_def
        create_channel_def update_channel_def update_ai_settings_def Let_def
        split: option.split sum.split exn.split)+

lemma housekeeping_step: "step_ok (wdb w) (wdb (snd (prune_dedupe s rm_ok w)))"
  by (rule step_rows)
    (simp_all add: prune_dedupe_def prune_dedupe_rows_def prune_audit_events_def prune_media_files_def Let_def
      distinct_map_filter)

lemma amain_cases:
  "wdb (snd (amain C s command w)) \<in> {wdb w, wdb (seed_admin C s w), wdb (seed_defaults w)}"
  by (simp add: amain_def)

lemma seed_step: "step_ok (wdb w) (wdb (snd (amain C s command w)))"
proof -
  have "admins_ok (wdb w) \<Longrightarrow> admins_ok (wdb (seed_admin C s w))"
  proof -
    assume ok: "admins_ok (wdb w)"
    then have "next_id (wdb w) \<notin> admin_id ` set (admins (wdb w))" by (auto simp: admins_ok_def)
    with ok unique_keys_tadd [of admin_id "admins (wdb w)"] show ?thesis
      by (fastforce simp: admins_ok_def seed_admin_def Let_def tadd_def has_super_def active_supers_def)
  qed
  then have "step_ok (wdb w) (wdb (seed_admin C s w))"
    by (intro step_admins) (simp_all add: seed_admin_def Let_def)
  moreover have "step_ok (wdb w) (wdb (seed_defaults w))"
    by (rule step_same_posts) (simp_all add: seed_defaults_fields)
  ultimately show ?thesis using amain_cases [of C s command w] by auto
qed

interpretation invariant: store_moves step_ok
  by unfold_locales
    (simp_all add: step_event step_reserve step_release config_steps delete_tag_step delete_channel_step
      create_admin_step update_admin_step login_step housekeeping_step seed_step insert_step step_save same_row_def published_row_same,
     rule step_trans)

section \<open>Properties\<close>

definition root_world :: world where
  "root_world = (sample_world [sample_post] [])\<lparr>wdb := (sample_db [sample_post] [])\<lparr>admins := [owner]\<rparr>\<rparr>"

lemma root_good: "good (wdb root_world)"
proof -
  have "store_ok (wdb root_world)" "\<forall>p \<in> set (posts (wdb root_world)). pub_row p"
    "distinct (map pd_hash (dedupe_rows (wdb root_world)))" "unique_keys admin_id (admins (wdb root_world))"
    "\<forall>a \<in> set (admins (wdb root_world)). admin_id a < next_id (wdb root_world)" "has_super (admins (wdb root_world))"
    by code_simp+
  then show ?thesis by (simp add: good_def sound_def admins_ok_def)
qed

text \<open>
  C18: somebody can always manage the accounts. In every state that runs of requests, sign-ins, buttons, jobs,
  ingestions, seeding and housekeeping reach, in any order and with any failures, but each of them after the one
  before has ended, an active super-admin is left, if there was one at first. Two account updates that overlap can lose
  the last one; that is \<open>overlapping_demotions_lose_both\<close>.
\<close>

theorem last_super_admin_stays:
  assumes "reach E C T w w'" and "unique_keys admin_id (admins (wdb w))" and "\<forall>a \<in> set (admins (wdb w)). admin_id a < next_id (wdb w)"
    and "has_super (admins (wdb w))"
  shows "\<exists>a \<in> set (admins (wdb w')). admin_role a = R_super_admin \<and> disabled_at a = None"
proof -
  have "admins_ok (wdb w')" using invariant.reach_ok [OF assms(1)] assms(2-4) by (simp add: step_ok_def admins_ok_def)
  then show ?thesis by (auto simp: admins_ok_def has_super_def active_supers_def filter_empty_conv)
qed

theorem last_super_admin_stays_witness:
  "\<exists>a \<in> set (admins (wdb (snd (serve sample_env root_crypto (Some (lit ''tok'')) (Update_admin 1 demote) root_world)))).
     admin_role a = R_super_admin \<and> disabled_at a = None"
proof -
  have "reach sample_env root_crypto offline root_world
      (snd (serve sample_env root_crypto (Some (lit ''tok'')) (Update_admin 1 demote) root_world))"
    by (rule reach.Step [OF reach.Start Request])
  then show ?thesis by (rule last_super_admin_stays) (use root_good in \<open>simp_all add: good_def admins_ok_def\<close>)
qed

text \<open>
  C13: what is recorded of a post stays recorded. Along runs of requests, sign-ins, buttons, jobs, ingestions, seeding
  and housekeeping, in any order and with any failures, but each of them after the one before has ended, a post keeps its
  source, its received text and, once it has one, the id of its published message, as long as its row exists: nothing
  replaces or clears it. Two publish jobs of a post without a hash that overlap can record two ids one after the other
  (\<open>unhashed_post_sent_twice\<close>).
\<close>

theorem published_id_is_final:
  assumes "reach E C T w w'" and "sound (wdb w)" and "p \<in> set (posts (wdb w))" and "q \<in> set (posts (wdb w'))"
    and "post_id q = post_id p"
  shows "source_key q = source_key p \<and> raw_text q = raw_text p \<and>
    (published_message_id p \<noteq> None \<longrightarrow> published_message_id q = published_message_id p)"
proof -
  have k: "keeps (wdb w) (wdb w')" using invariant.reach_ok [OF assms(1)] assms(2) by (simp add: step_ok_def)
  have "post_id p < next_id (wdb w)" using assms(2,3) by (simp add: sound_def store_ok_def ids_fresh_def)
  with k assms(4,5) obtain r where r: "r \<in> set (posts (wdb w))" "same_post r q" by (fastforce simp: keeps_def)
  then have "post_id r = post_id p" using assms(5) by (simp add: same_post_def)
  then have "r = p"
    using tbl.get_ok [of post_id "posts (wdb w)"] r(1) assms(2,3) by (metis sound_def option.inject store_ok_def)
  with r(2) show ?thesis by (simp add: same_post_def)
qed

definition delivered_world :: world where
  "delivered_world = (sample_world [done_post] [])\<lparr>wdb := (sample_db [done_post] [])\<lparr>admins := [owner]\<rparr>\<rparr>"

theorem published_id_is_final_witness:
  "\<exists>q \<in> set (posts (wdb (snd (publish sample_env 9 (snd (serve sample_env root_crypto (Some (lit ''tok'')) (Approve 9 None) delivered_world)))))).
     published_message_id q = Some 7"
proof -
  let ?w' = "snd (publish sample_env 9 (snd (serve sample_env root_crypto (Some (lit ''tok'')) (Approve 9 None) delivered_world)))"
  have r: "reach sample_env root_crypto offline delivered_world ?w'"
    by (rule reach.Step [OF reach.Step [OF reach.Start Request] Publish_job])
  have "store_ok (wdb delivered_world)" "\<forall>p \<in> set (posts (wdb delivered_world)). pub_row p"
    "distinct (map pd_hash (dedupe_rows (wdb delivered_world)))"
    by code_simp+
  then have g: "sound (wdb delivered_world)" by (simp add: sound_def)
  have p: "done_post \<in> set (posts (wdb delivered_world))" by (simp add: delivered_world_def sample_db_def)
  have "map post_id (posts (wdb ?w')) = [9]" by code_simp
  then obtain q where q: "posts (wdb ?w') = [q]" "post_id q = 9" by (cases "posts (wdb ?w')") auto
  then have "q \<in> set (posts (wdb ?w'))" "post_id q = post_id done_post" by (simp_all add: done_post_def sample_defs)
  from published_id_is_final [OF r g p this] q show ?thesis by (simp add: done_post_def)
qed

end
