(* ===== verification/Integrity.thy ===== *)
theory Integrity
  imports System
begin

text \<open>
  Referential integrity: every foreign key that \<open>shared/models.py\<close> declares names a row that is there. It is a
  second relation that the moves of the services keep, so the steps need no further proof.
\<close>

section \<open>References\<close>

definition key_set :: "('r \<Rightarrow> int) \<Rightarrow> 'r list \<Rightarrow> int set" where
  "key_set key t = key ` set t"

definition link_ok :: "db \<Rightarrow> source_channel_tag \<Rightarrow> bool" where
  "link_ok d l \<longleftrightarrow> sct_channel_id l \<in> key_set channel_id (source_channels d) \<and> sct_tag_id l \<in> key_set tag_id (tags d)"

definition event_ok :: "db \<Rightarrow> post_event \<Rightarrow> bool" where
  "event_ok d e \<longleftrightarrow> event_post_id e \<in> key_set post_id (posts d) \<and> actor_ok d (actor_admin_id e)"

definition references :: "db \<Rightarrow> bool" where
  "references d \<longleftrightarrow>
     (\<forall>p \<in> set (posts d). source_channel_id p \<in> key_set channel_id (source_channels d)) \<and>
     (\<forall>e \<in> set (post_events d). event_ok d e) \<and>
     (\<forall>l \<in> set (source_channel_tags d). link_ok d l) \<and>
     (\<forall>ch \<in> set (source_channels d). template_exists d ch)"

definition keeps_references :: "db \<Rightarrow> db \<Rightarrow> bool" where
  "keeps_references d d' \<longleftrightarrow> (references d \<longrightarrow> references d')"

lemma key_set_tput [simp]: "key_set key (tput key r t) = key_set key t"
  by (simp add: key_set_def tput_image)

lemma key_set_tadd [simp]: "key_set key (tadd r t) = insert (key r) (key_set key t)"
  by (auto simp: key_set_def tadd_def)

lemma key_set_get: "tget key t k = Some r \<Longrightarrow> k \<in> key_set key t"
  using tbl.get_in [of key t k r] tget_key [of key t k r] by (auto simp: key_set_def)

text \<open>Changes that take no key away and leave the rows that refer to others alone.\<close>

lemma keeps_referencesI:
  assumes "\<And>p. p \<in> set (posts d') \<Longrightarrow> source_channel_id p \<in> key_set channel_id (source_channels d) \<or>
      (\<exists>q \<in> set (posts d). source_channel_id p = source_channel_id q)"
    and "\<And>e. e \<in> set (post_events d') \<Longrightarrow> e \<in> set (post_events d) \<or> event_ok d' e"
    and "\<And>l. l \<in> set (source_channel_tags d') \<Longrightarrow> l \<in> set (source_channel_tags d) \<or> link_ok d' l"
    and "\<And>ch. ch \<in> set (source_channels d') \<Longrightarrow> template_exists d' ch \<or>
      (\<exists>ch0 \<in> set (source_channels d). normalization_template_id ch = normalization_template_id ch0)"
    and "key_set channel_id (source_channels d) \<subseteq> key_set channel_id (source_channels d')"
    and "key_set tag_id (tags d) \<subseteq> key_set tag_id (tags d')" and "key_set post_id (posts d) \<subseteq> key_set post_id (posts d')"
    and "key_set template_id (templates d) \<subseteq> key_set template_id (templates d')"
    and "key_set admin_id (admins d) \<subseteq> key_set admin_id (admins d')"
  shows "keeps_references d d'"
  unfolding keeps_references_def
proof
  assume r: "references d"
  have tpl: "get_template x t \<noteq> None \<longleftrightarrow> t \<in> key_set template_id (templates x)" for x t
    by (auto simp: key_set_def tget_None)
  have "template_exists d' ch" if "ch \<in> set (source_channels d')" for ch
    using assms(4) [OF that] r assms(8) tpl by (auto simp: references_def template_exists_def split: option.splits)
  moreover have "event_ok d' e" if "e \<in> set (post_events d)" for e
  proof -
    have "event_ok d e" using r that by (simp add: references_def)
    then show ?thesis using assms(7,9) by (cases "actor_admin_id e") (auto simp: event_ok_def actor_ok_def key_set_def)
  qed
  moreover have "link_ok d' l" if "l \<in> set (source_channel_tags d)" for l
    using r that assms(5,6) by (auto simp: references_def link_ok_def)
  moreover have "source_channel_id p \<in> key_set channel_id (source_channels d')" if "p \<in> set (posts d')" for p
    using assms(1) [OF that] r assms(5) by (auto simp: references_def)
  ultimately show "references d'" using assms(2,3) unfolding references_def by blast
qed

section \<open>The moves\<close>

lemma keeps_references_refl [simp]: "keeps_references d d"
  by (simp add: keeps_references_def)

lemma keeps_references_trans: "keeps_references d d' \<Longrightarrow> keeps_references d' d'' \<Longrightarrow> keeps_references d d''"
  by (simp add: keeps_references_def)

lemma references_frame:
  "posts d' = posts d \<Longrightarrow> post_events d' = post_events d \<Longrightarrow> source_channel_tags d' = source_channel_tags d \<Longrightarrow>
   source_channels d' = source_channels d \<Longrightarrow> tags d' = tags d \<Longrightarrow> templates d' = templates d \<Longrightarrow> admins d' = admins d \<Longrightarrow>
   keeps_references d d'"
  by (rule keeps_referencesI) auto

lemma actor_ok_event [simp]: "actor_ok (add_event now pid a act pl d) b = actor_ok d b"
  by (simp add: actor_ok_def split: option.split)

lemma references_event:
  assumes "get_post d pid \<noteq> None" and "actor_ok d a"
  shows "keeps_references d (add_event now pid a act pl d)"
proof (rule keeps_referencesI)
  fix e assume "e \<in> set (post_events (add_event now pid a act pl d))"
  moreover have "pid \<in> key_set post_id (posts d)" using assms(1) key_set_get by fast
  ultimately show "e \<in> set (post_events d) \<or> event_ok (add_event now pid a act pl d) e"
    using assms(2) by (auto simp: event_ok_def)
qed auto

lemma references_posts:
  assumes "\<And>p. p \<in> set (posts d') \<Longrightarrow> \<exists>q \<in> set (posts d). source_channel_id p = source_channel_id q"
    and "key_set post_id (posts d) \<subseteq> key_set post_id (posts d')" and "post_events d' = post_events d"
    and "source_channel_tags d' = source_channel_tags d" and "source_channels d' = source_channels d" and "tags d' = tags d"
    and "templates d' = templates d" and "admins d' = admins d"
  shows "keeps_references d d'"
  by (rule keeps_referencesI) (use assms in auto)

lemma references_save:
  assumes "get_post d k = Some p0" and "same_post p0 p"
  shows "keeps_references d (save_post now p d)"
proof (rule references_posts)
  fix r assume "r \<in> set (posts (save_post now p d))"
  then have "r \<in> set (posts d) \<or> source_channel_id r = source_channel_id p"
    by (auto simp: save_post_def split: if_splits dest!: tput_in_set)
  moreover have "p0 \<in> set (posts d)" "source_channel_id p = source_channel_id p0"
    using assms tbl.get_in by (auto simp: same_post_def source_key_def)
  ultimately show "\<exists>q \<in> set (posts d). source_channel_id r = source_channel_id q" by auto
qed (use assms in \<open>auto simp: save_post_def\<close>)

lemma references_insert:
  assumes "insert_post now ch m d = Some (pid, d1)"
  shows "keeps_references d d1"
proof (rule keeps_referencesI)
  have "channel_id ch \<in> key_set channel_id (source_channels d)"
    using assms key_set_get [of channel_id "source_channels d" "channel_id ch"] by (auto simp: insert_post_def split: if_splits)
  then show "p \<in> set (posts d1) \<Longrightarrow> source_channel_id p \<in> key_set channel_id (source_channels d) \<or>
      (\<exists>q \<in> set (posts d). source_channel_id p = source_channel_id q)" for p
    using insert_post_Some(3) [OF assms] by (auto simp: new_post_def)
qed (use assms in \<open>auto simp: insert_post_def Let_def event_ok_def split: if_splits\<close>)

lemma references_tables:
  assumes "posts d' = posts d" and "post_events d' = post_events d" and "source_channel_tags d' = source_channel_tags d"
    and "source_channels d' = source_channels d" and "admins d' = admins d"
    and "key_set tag_id (tags d) \<subseteq> key_set tag_id (tags d')" and "key_set template_id (templates d) \<subseteq> key_set template_id (templates d')"
  shows "keeps_references d d'"
  by (rule keeps_referencesI) (use assms in auto)

lemma references_vocabulary:
  "keeps_references (wdb w) (wdb (snd (create_tag U tc w)))" "keeps_references (wdb w) (wdb (snd (update_tag k tu w)))"
  "keeps_references (wdb w) (wdb (snd (create_template pc w)))" "keeps_references (wdb w) (wdb (snd (update_template k pu w)))"
  by (rule references_tables;
      simp add: create_tag_def update_tag_def create_template_def update_template_def Let_def subset_insertI
        split: sum.split option.split)+

lemma references_delete_tag: "keeps_references (wdb w) (wdb (snd (delete_tag k w)))"
proof (cases "tget tag_id (tags (wdb w)) k")
  case (Some t)
  have p: "post_id (drop_tag now k p) = post_id p" "source_channel_id (drop_tag now k p) = source_channel_id p" for now p
    by (simp_all add: drop_tag_def)
  have "link_ok (wdb (snd (delete_tag k w))) l" if "link_ok (wdb w) l" "sct_tag_id l \<noteq> k" for l
    using that by (auto simp: link_ok_def delete_tag_def Some key_set_def tdel_def)
  then show ?thesis
    by (auto simp: keeps_references_def references_def delete_tag_def Some p event_ok_def actor_ok_def template_exists_def
        key_set_def image_image split: option.splits)
qed (simp add: delete_tag_def)

lemma references_delete_template: "keeps_references (wdb w) (wdb (snd (delete_template k w)))"
proof (cases "get_template (wdb w) k")
  case (Some t)
  have c: "channel_id (unset_template k ch) = channel_id ch" for ch by (simp add: unset_template_def)
  have "template_exists (wdb (snd (delete_template k w))) (unset_template k ch)" if "template_exists (wdb w) ch" for ch
    using that by (auto simp: template_exists_def delete_template_def Some unset_template_def tget_tdel split: option.splits)
  then show ?thesis
    by (auto simp: keeps_references_def references_def delete_template_def Some event_ok_def actor_ok_def link_ok_def
        key_set_def image_image c split: option.splits)
qed (simp add: delete_template_def)

lemma template_exists_cong [simp]:
  "template_exists (d\<lparr>source_channels := cs, source_channel_tags := ls\<rparr>) = template_exists d"
  "template_exists (d\<lparr>source_channels := cs, source_channel_tags := ls, next_id := n\<rparr>) = template_exists d"
  by (simp_all add: template_exists_def fun_eq_iff split: option.split)

lemma links_known:
  assumes "set_default_tag_links d cid xs = Inr links" and "l \<in> set links"
  shows "l \<in> set (source_channel_tags d) \<or> sct_channel_id l = cid \<and> sct_tag_id l \<in> key_set tag_id (tags d)"
proof -
  have "unknown_tags d xs = [] \<longleftrightarrow> set xs \<subseteq> key_set tag_id (tags d)"
    by (auto simp: unknown_tags_def key_set_def simp flip: set_empty)
  with assms show ?thesis by (auto simp: set_default_tag_links_def Let_def subset_iff split: if_splits)
qed

lemma references_create_channel: "keeps_references (wdb w) (wdb (snd (create_channel s c w)))"
proof (cases "fst (create_channel s c w)")
  case (Inl e)
  then have "wdb (snd (create_channel s c w)) = wdb w"
    by (auto simp: create_channel_def Let_def split: if_splits sum.splits exn.splits)
  then show ?thesis by simp
next
  case (Inr ch)
  then obtain links where l: "set_default_tag_links (wdb w) (channel_id ch) (cc_default_tag_ids c) = Inr links"
    "template_exists (wdb w) ch"
    "wdb (snd (create_channel s c w)) = (wdb w)\<lparr>source_channels := tadd ch (source_channels (wdb w)),
        source_channel_tags := links, next_id := next_id (wdb w) + 1\<rparr>"
    by (auto simp: create_channel_def flush_channel_def Let_def split: if_splits sum.splits exn.splits)
  show ?thesis unfolding l(3)
  proof (rule keeps_referencesI, goal_cases)
    case (3 k)
    then show ?case using links_known [OF l(1)] by (auto simp: link_ok_def)
  next
    case (4 ch')
    then have "ch' = ch \<or> ch' \<in> set (source_channels (wdb w))" by (auto simp: tadd_def)
    then show ?case using l(2) by (auto simp: template_exists_cong)
  qed auto
qed

lemma references_channel_put:
  assumes "get_channel (wdb w) (channel_id ch) = Some ch0"
    and "template_exists (wdb w) ch \<or> normalization_template_id ch = normalization_template_id ch0"
    and "\<And>l. l \<in> set links \<Longrightarrow> l \<in> set (source_channel_tags (wdb w)) \<or>
      sct_channel_id l = channel_id ch \<and> sct_tag_id l \<in> key_set tag_id (tags (wdb w))"
  shows "keeps_references (wdb w) ((wdb w)\<lparr>source_channels := tput channel_id ch (source_channels (wdb w)), source_channel_tags := links\<rparr>)"
proof (rule keeps_referencesI, goal_cases)
  case (3 l)
  then show ?case using assms(3) [of l] key_set_get [OF assms(1)] by (auto simp: link_ok_def)
next
  case (4 ch')
  then have "ch' = ch \<or> ch' \<in> set (source_channels (wdb w))" by (auto dest!: tput_in_set)
  then show ?case using assms(2) tbl.get_in [OF assms(1)] by (auto simp: template_exists_cong)
qed auto

lemma references_update_channel: "keeps_references (wdb w) (wdb (snd (update_channel k u w)))"
proof (cases "update_channel k u w")
  case (Pair r w1)
  show ?thesis
  proof (cases r)
    case (Inl e)
    then have "w1 = w" using Pair by (auto simp: update_channel_def Let_def split: option.splits if_splits sum.splits)
    then show ?thesis using Pair by simp
  next
    case (Inr ch)
    then have u: "update_channel k u w = (Inr ch, w1)" using Pair by simp
    from update_channel_Inr [OF u] obtain ch0 links where c: "get_channel (wdb w) k = Some ch0" "channel_id ch = k"
      "wdb w1 = (wdb w)\<lparr>source_channels := tput channel_id ch (source_channels (wdb w)), source_channel_tags := links\<rparr>"
      and l: "case up_default_tag_ids u of
       Some (Some xs) \<Rightarrow> set_default_tag_links (wdb w) k xs = Inr links \<and> default_tag_ids ch = xs
     | _ \<Rightarrow> links = source_channel_tags (wdb w) \<and> default_tag_ids ch = default_tag_ids ch0" by blast
    have links: "(\<exists>xs. set_default_tag_links (wdb w) k xs = Inr links) \<or> links = source_channel_tags (wdb w)"
      using l by (cases "up_default_tag_ids u") (auto split: option.splits)
    have t: "template_exists (wdb w) ch"
      using u by (auto simp: update_channel_def flush_channel_def Let_def split: option.splits if_splits sum.splits)
    have known: "l \<in> set (source_channel_tags (wdb w)) \<or> sct_channel_id l = k \<and> sct_tag_id l \<in> key_set tag_id (tags (wdb w))"
      if "l \<in> set links" for l using links links_known [of "wdb w" k _ links] that by blast
    have "keeps_references (wdb w) ((wdb w)\<lparr>source_channels := tput channel_id ch (source_channels (wdb w)), source_channel_tags := links\<rparr>)"
      by (rule references_channel_put [of _ _ ch0]) (simp_all add: c(1,2) t known)
    then show ?thesis by (simp add: u c(3))
  qed
qed

lemma references_update_ai: "keeps_references (wdb w) (wdb (snd (update_ai_settings k u w)))"
proof (cases "get_channel (wdb w) k")
  case (Some ch)
  have "channel_id ch = k" using tget_key [OF Some] .
  then have "keeps_references (wdb w) ((wdb w)\<lparr>source_channels := tput channel_id (apply_ai_update u ch) (source_channels (wdb w)),
      source_channel_tags := source_channel_tags (wdb w)\<rparr>)"
    by (intro references_channel_put [of _ _ ch]) (use Some in simp_all)
  then show ?thesis by (simp add: update_ai_settings_def get_ai_settings_def Some Let_def)
qed (simp add: update_ai_settings_def get_ai_settings_def)

lemma references_delete_channel: "keeps_references (wdb w) (wdb (snd (delete_channel k w)))"
proof -
  have "references (cascade_channel k d)" if r: "references d" for d
  proof -
    let ?d = "cascade_channel k d"
    have rows: "set (posts ?d) = {p \<in> set (posts d). source_channel_id p \<noteq> k}" "tags ?d = tags d" "templates ?d = templates d"
      "admins ?d = admins d" "key_set channel_id (source_channels ?d) = key_set channel_id (source_channels d) - {k}"
      "set (source_channel_tags ?d) = {l \<in> set (source_channel_tags d). sct_channel_id l \<noteq> k}"
      "set (source_channels ?d) \<subseteq> set (source_channels d)"
      "set (post_events ?d) =
        {e \<in> set (post_events d). event_post_id e \<notin> post_id ` {p \<in> set (posts d). source_channel_id p = k}}"
      by (auto simp: cascade_channel_def Let_def key_set_def tdel_def)
    have "event_ok ?d e" if "e \<in> set (post_events ?d)" for e
    proof -
      have "event_ok d e" using that r rows by (auto simp: references_def)
      then obtain p where "p \<in> set (posts d)" "event_post_id e = post_id p" by (auto simp: event_ok_def key_set_def)
      moreover from this that have "source_channel_id p \<noteq> k" by (auto simp: rows)
      ultimately show ?thesis using \<open>event_ok d e\<close> by (auto simp: event_ok_def key_set_def rows actor_ok_def split: option.splits)
    qed
    moreover have "template_exists ?d ch" if "ch \<in> set (source_channels ?d)" for ch
    proof -
      have "template_exists d ch" using that r rows(7) by (auto simp: references_def)
      then show ?thesis by (auto simp: template_exists_def rows split: option.splits)
    qed
    ultimately show ?thesis using r by (simp add: references_def link_ok_def rows)
  qed
  then show ?thesis by (simp add: delete_channel_def keeps_references_def split: option.split)
qed

lemma references_accounts:
  assumes "posts d' = posts d" and "post_events d' = post_events d" and "source_channel_tags d' = source_channel_tags d"
    and "source_channels d' = source_channels d" and "tags d' = tags d" and "templates d' = templates d"
    and "key_set admin_id (admins d) \<subseteq> key_set admin_id (admins d')"
  shows "keeps_references d d'"
  by (rule keeps_referencesI) (use assms in auto)

lemma references_create_admin: "keeps_references (wdb w) (wdb (snd (create_admin C c w)))"
  by (rule references_accounts) (auto simp: create_admin_def Let_def)

lemma references_update_admin: "keeps_references (wdb w) (wdb (snd (update_admin C k u w)))"
  by (rule references_accounts) (use update_admin_rows [of C k u w] in auto)

lemma references_login: "keeps_references (wdb w) (wdb (snd (login C s uname password w)))"
proof -
  obtain r w1 where a: "authenticate C uname password w = (r, w1)" by fastforce
  have l: "snd (login C s uname password w) = w1" using a by (simp add: login_def Let_def split: sum.split)
  have "wdb w1 = wdb w \<or> (\<exists>x. wdb w1 = (wdb w)\<lparr>admins := tput admin_id x (admins (wdb w))\<rparr>)"
    using a authenticate_error_frame [of C uname password w _ w1] authenticate_Inr [of C uname password w _ w1]
    by (cases r) auto
  then show ?thesis unfolding l by (intro references_accounts) auto
qed

lemma references_prune: "keeps_references (wdb w) (wdb (snd (prune_dedupe s rm_ok w)))"
  by (rule keeps_referencesI)
     (auto simp: prune_dedupe_def prune_dedupe_rows_def prune_audit_events_def prune_media_files_def Let_def)

lemma references_dedupe: "keeps_references d (snd (reserve_dedupe now h d))" "keeps_references d (release_dedupe h d)"
  by (rule references_frame; simp add: reserve_dedupe_def release_dedupe_def)+

lemma references_seed: "keeps_references (wdb w) (wdb (snd (amain C s command w)))"
proof -
  have "keeps_references (wdb w) (wdb (seed_admin C s w))"
    by (rule references_accounts) (auto simp: seed_admin_def Let_def)
  moreover have "keeps_references (wdb w) (wdb (seed_defaults w))"
  proof -
    have "keeps_references (wdb w) (seed_template (wclock w) (wdb w))"
      by (rule references_tables) (auto simp: seed_template_def)
    moreover have "keeps_references d (seed_tags now existing ts d)" for d now existing ts
      by (rule references_tables) (use seed_tags_fields(6) in \<open>simp_all add: seed_tags_fields key_set_def\<close>)
    ultimately show ?thesis using keeps_references_trans by (auto simp: seed_defaults_def Let_def)
  qed
  ultimately show ?thesis using amain_cases [of C s command w] by auto
qed

interpretation foreign_keys: store_moves keeps_references
  by unfold_locales
    (simp_all add: references_event references_save references_dedupe references_insert references_vocabulary
      references_delete_tag references_delete_template references_create_channel references_update_channel
      references_delete_channel references_update_ai references_create_admin references_update_admin references_login
      references_prune references_seed same_row_def published_row_same,
     rule keeps_references_trans)

section \<open>Property\<close>

text \<open>
  C15: the references of the store are typed. In every state the services reach, in any order and with any
  failures, each post belongs to a channel that exists, each event to a post and an account that exist, each
  tag link to a channel and a tag, and each channel's template exists: what the foreign keys demand is kept by
  the operations, with their cascades.
\<close>

theorem references_hold:
  assumes "reach E C T w w'" and "references (wdb w)"
  shows "list_all (\<lambda>p. get_channel (wdb w') (source_channel_id p) \<noteq> None) (posts (wdb w')) \<and>
    list_all (\<lambda>e. get_post (wdb w') (event_post_id e) \<noteq> None \<and>
      (case actor_admin_id e of None \<Rightarrow> True | Some a \<Rightarrow> get_admin (wdb w') a \<noteq> None)) (post_events (wdb w')) \<and>
    list_all (\<lambda>l. get_channel (wdb w') (sct_channel_id l) \<noteq> None \<and> get_tag (wdb w') (sct_tag_id l) \<noteq> None)
      (source_channel_tags (wdb w')) \<and>
    list_all (\<lambda>ch. case normalization_template_id ch of None \<Rightarrow> True | Some t \<Rightarrow> get_template (wdb w') t \<noteq> None)
      (source_channels (wdb w'))"
proof -
  have r: "references (wdb w')" using foreign_keys.reach_ok [OF assms(1)] assms(2) by (simp add: keeps_references_def)
  have g: "tget key t k \<noteq> None \<longleftrightarrow> k \<in> key_set key t" for key and t :: "'r list" and k
    by (auto simp: key_set_def tget_None)
  from r show ?thesis
    by (auto simp: references_def list_all_iff tget_None key_set_def event_ok_def actor_ok_def link_ok_def template_exists_def
        split: option.splits)
qed

theorem references_hold_witness:
  "list_all (\<lambda>e. get_post (wdb (snd (publish sample_env 9 (snd (normalize sample_env 9 root_world))))) (event_post_id e) \<noteq> None)
     (post_events (wdb (snd (publish sample_env 9 (snd (normalize sample_env 9 root_world)))))) \<and>
   map event_action (post_events (wdb (snd (normalize sample_env 9 root_world)))) \<noteq> []"
proof
  have r: "reach sample_env two_kinds offline root_world (snd (publish sample_env 9 (snd (normalize sample_env 9 root_world))))"
    by (rule reach.Step [OF reach.Step [OF reach.Start Normalize_job] Publish_job])
  have "references (wdb root_world)" by code_simp
  from references_hold [OF r this]
  show "list_all (\<lambda>e. get_post (wdb (snd (publish sample_env 9 (snd (normalize sample_env 9 root_world))))) (event_post_id e) \<noteq> None)
      (post_events (wdb (snd (publish sample_env 9 (snd (normalize sample_env 9 root_world))))))"
    by (simp only: list_all_iff) blast
  show "map event_action (post_events (wdb (snd (normalize sample_env 9 root_world)))) \<noteq> []" by code_simp
qed

end
