(* ===== verification/Pipeline.thy ===== *)
theory Pipeline
  imports PublishRun Integrity
begin

text \<open>
  The queues at work. The consumers of \<open>worker/main.py\<close> and \<open>bot/main.py\<close> take jobs, in any order and at any
  time, and call the functions registered for them; a job that raises is over. What comes of it end to end:
  the queues run dry, and a message of a source channel reaches the destination.
\<close>

section \<open>Consumers\<close>

text \<open>The function of a job applied to its arguments; other arguments than a function takes are refused.\<close>

definition run_job :: "env \<Rightarrow> (pystr \<Rightarrow> bool) \<Rightarrow> job \<Rightarrow> pystr eff" where
  "run_job E rm_ok j w =
     (case (job_name j, job_args j) of
        (JOB_NORMALIZE, [JInt pid]) \<Rightarrow> normalize E pid w
      | (JOB_PUBLISH, [JInt pid]) \<Rightarrow> publish E pid w
      | (JOB_POST_DRAFT, [JInt pid]) \<Rightarrow> post_draft E pid w
      | (JOB_PRUNE_DEDUPE, []) \<Rightarrow> (let (r, w1) = prune_dedupe (cfg E) rm_ok w in (Inr r, w1))
      | (JOB_ALERT, [JStr msg]) \<Rightarrow> alert E msg w
      | _ \<Rightarrow> (Inl (OtherError (lit ''TypeError'')), w))"

text \<open>The world of a job that starts after a while and is off its queue.\<close>

definition taken :: "time \<Rightarrow> job list \<Rightarrow> world \<Rightarrow> world" where
  "taken dt js w = (sleep dt w)\<lparr>wjobs := js\<rparr>"

inductive consume :: "env \<Rightarrow> (pystr \<Rightarrow> bool) \<Rightarrow> world \<Rightarrow> world \<Rightarrow> bool" for E rm_ok where
  Take: "wjobs w = xs @ j # ys \<Longrightarrow> 0 \<le> dt \<Longrightarrow> consume E rm_ok w (snd (run_job E rm_ok j (taken dt (xs @ ys) w)))"

inductive_cases consumeE: "consume E rm_ok w w'"

lemma taken_fields [simp]:
  "wdb (taken dt js w) = wdb w" "wjobs (taken dt js w) = js" "wcalls (taken dt js w) = wcalls w"
  "wclock (taken dt js w) = wclock w + dt" "wfiles (taken dt js w) = wfiles w"
  by (simp_all add: taken_def)

section \<open>The queues run dry\<close>

text \<open>Only the normalize job queues another one, and one at most.\<close>

definition cost :: "job \<Rightarrow> nat" where
  "cost j = (if job_name j = JOB_NORMALIZE then 2 else 1)"

definition load :: "job list \<Rightarrow> nat" where
  "load js = sum_list (map cost js)"

lemma load_simps [simp]: "load [] = 0" "load (j # js) = cost j + load js" "load (xs @ ys) = load xs + load ys"
  by (simp_all add: load_def)

lemma cost_pos: "0 < cost j"
  by (simp add: cost_def)

lemma send_of_jobs: "wjobs (snd (send_of E p w)) = wjobs w"
  using send_spaced_only [of "destination_channel_id (cfg E)" "reserved_world w p" E "publish_text p" "raw_media_refs p"]
  by (simp add: only_sends_def reserved_world_def)

lemma publish_core_jobs: "wjobs (snd (publish_core E pid w)) = wjobs w"
proof (cases "publish_guard (wdb w) pid")
  case (Inl r)
  then show ?thesis by (simp add: publish_core_skip)
next
  case (Inr p)
  show ?thesis
  proof (cases "get_channel (wdb w) (source_channel_id p)")
    case None
    with Inr show ?thesis by (simp add: publish_core_no_channel)
  next
    case (Some ch)
    have "wjobs (snd (publish_finish E pid mid h ch w')) = wjobs w'" for mid h w'
      using publish_finish_calls by (simp add: card_calls_def)
    then show ?thesis
      using publish_core_dup [OF Inr Some] publish_core_send [OF Inr Some, of E] send_of_jobs [of E p w]
      by (cases "truthy (dedupe_hash p) \<and> dedupe_exists (wdb w) (the (dedupe_hash p))")
        (auto simp: case_prod_beta split: sum.split)
  qed
qed

lemma publish_jobs: "wjobs (snd (publish E pid w)) = wjobs w"
  using publish_after_core [of E pid w] publish_core_jobs [of E pid w] by (simp add: card_calls_def)

lemma alert_jobs: "wjobs (snd (alert E msg w)) = wjobs w"
  by (simp add: alert_def case_prod_beta split: sum.split)

lemma post_draft_jobs: "wjobs (snd (post_draft E pid w)) = wjobs w"
  by (simp add: post_draft_def Let_def case_prod_beta split: sum.split option.split)

lemma prune_dedupe_jobs: "wjobs (snd (prune_dedupe s rm_ok w)) = wjobs w"
  by (simp add: prune_dedupe_def prune_media_files_def Let_def case_prod_beta)

text \<open>The job that the normalize job hands a post on with.\<close>

definition hands_on :: "int \<Rightarrow> job list \<Rightarrow> bool" where
  "hands_on pid js \<longleftrightarrow> js = [] \<or> js = [publish_job pid None] \<or> js = [post_draft_job pid]"

lemma normalize_jobs: "\<exists>js. wjobs (snd (normalize E pid w)) = wjobs w @ js \<and> hands_on pid js"
proof -
  have "\<exists>js. wjobs (snd (normalize_write E ch p n ids w)) = wjobs w @ js \<and> hands_on (post_id p) js" for ch p n ids
    using enqueue_job_jobs
    by (cases "is_duplicate (cfg E) (wclock w) (wdb w) (content_hash E p)")
      (auto simp: normalize_write_dup normalize_write_fresh Let_def enqueue_defs hands_on_def split: sum.split)
  note written = this
  consider "snd (normalize E pid w) = w"
    | p ch n where "post_id p = pid" "snd (normalize E pid w) = snd (normalize_write E ch p n (normalize_tags ch) w)"
    using normalize_cases [of E pid w] by (metis snd_conv tget_key)
  then show ?thesis
    using written by cases (auto simp: hands_on_def intro: exI [of _ "[]"])
qed

lemma run_job_cases:
  obtains (refused) "snd (run_job E rm_ok j w) = w"
  | (normalizes) pid where "job_name j = JOB_NORMALIZE" "run_job E rm_ok j w = normalize E pid w" "job_args j = [JInt pid]"
  | (publishes) pid where "run_job E rm_ok j w = publish E pid w"
  | (drafts) pid where "run_job E rm_ok j w = post_draft E pid w"
  | (prunes) "snd (run_job E rm_ok j w) = snd (prune_dedupe (cfg E) rm_ok w)"
  | (alerts) msg where "run_job E rm_ok j w = alert E msg w"
proof (cases "job_args j")
  case Nil
  then show ?thesis using that by (cases "job_name j") (simp_all add: run_job_def case_prod_beta)
next
  case (Cons a as)
  show ?thesis
  proof (cases "as = []")
    case True
    then show ?thesis using Cons that by (cases "job_name j"; cases a) (simp_all add: run_job_def)
  next
    case False
    then show ?thesis using Cons refused by (cases "job_name j"; cases as; cases a) (simp_all add: run_job_def)
  qed
qed

lemma run_job_jobs:
  "\<exists>js. wjobs (snd (run_job E rm_ok j w)) = wjobs w @ js \<and> load js < cost j \<and> list_all owned js"
proof (cases rule: run_job_cases [of E rm_ok j w])
  case (normalizes pid)
  obtain js where js: "wjobs (snd (normalize E pid w)) = wjobs w @ js" "hands_on pid js" using normalize_jobs by blast
  have "load js < cost j \<and> list_all owned js"
    using js(2) normalizes(1) by (auto simp: hands_on_def cost_def publish_job_def post_draft_job_def owned_def)
  with js(1) normalizes(2) show ?thesis by auto
qed (use cost_pos [of j] in \<open>auto simp: publish_jobs alert_jobs post_draft_jobs prune_dedupe_jobs intro: exI [of _ "[]"]\<close>)

section \<open>Jobs that are cut short\<close>

text \<open>
  With \<open>retry_jobs\<close>, ARQ runs a job again that was cancelled by a restart, or whose process died, until it has been
  started \<open>max_tries\<close> times; then the job is given up. What a run leaves behind that was cut short may be anything in
  the store and at Telegram; to the queue it has added at most the job that it hands on. Beside each queued job stands
  how often it has been started.
\<close>

definition handed :: "job \<Rightarrow> job list \<Rightarrow> bool" where
  "handed j js \<longleftrightarrow> js = [] \<or> (\<exists>pid. job_name j = JOB_NORMALIZE \<and> job_args j = [JInt pid] \<and> hands_on pid js)"

inductive attempt :: "env \<Rightarrow> (pystr \<Rightarrow> bool) \<Rightarrow> nat \<Rightarrow> world \<times> nat list \<Rightarrow> world \<times> nat list \<Rightarrow> bool" for E rm_ok max_tries where
  Run: "wjobs w = xs @ j # ys \<Longrightarrow> length us = length xs \<Longrightarrow> 0 \<le> dt \<Longrightarrow>
    wjobs (snd (run_job E rm_ok j (taken dt (xs @ ys) w))) = xs @ ys @ js \<Longrightarrow>
    attempt E rm_ok max_tries (w, us @ n # vs) (snd (run_job E rm_ok j (taken dt (xs @ ys) w)), us @ vs @ replicate (length js) 0)"
| Cut_short: "wjobs w = xs @ j # ys \<Longrightarrow> length us = length xs \<Longrightarrow> Suc n < max_tries \<Longrightarrow> handed j js \<Longrightarrow>
    wjobs w1 = xs @ j # ys @ js \<Longrightarrow>
    attempt E rm_ok max_tries (w, us @ n # vs) (w1, us @ Suc n # vs @ replicate (length js) 0)"
| Given_up: "wjobs w = xs @ j # ys \<Longrightarrow> length us = length xs \<Longrightarrow> \<not> Suc n < max_tries \<Longrightarrow> handed j js \<Longrightarrow>
    wjobs w1 = xs @ ys @ js \<Longrightarrow>
    attempt E rm_ok max_tries (w, us @ n # vs) (w1, us @ vs @ replicate (length js) 0)"

inductive_cases attemptE: "attempt E rm_ok max_tries s s'"

text \<open>The starts that a job has left, and those of the jobs it may hand on.\<close>

definition price :: "nat \<Rightarrow> job \<Rightarrow> nat \<Rightarrow> nat" where
  "price k j n = (k - n) * (if job_name j = JOB_NORMALIZE then Suc k else 1)"

fun prices :: "nat \<Rightarrow> job list \<Rightarrow> nat list \<Rightarrow> nat" where
  "prices k (j # js) (n # ns) = price k j n + prices k js ns"
| "prices k js ns = 0"

lemma prices_append [simp]:
  "length ns = length js \<Longrightarrow> prices k (js @ js') (ns @ ms) = prices k js ns + prices k js' ms"
  by (induction ns js rule: list_induct2) simp_all

lemma prices_fresh: "prices k js (replicate (length js) 0) = k * (length js + k * length (filter (\<lambda>j. job_name j = JOB_NORMALIZE) js))"
  by (induction js) (simp_all add: price_def algebra_simps)

lemma prices_length: "length ns = length js \<Longrightarrow> list_all (\<lambda>n. n < k) ns \<Longrightarrow> length js \<le> prices k js ns"
proof (induction ns js rule: list_induct2)
  case (Cons n ns j js)
  have "Suc 0 \<le> (k - n) * Suc 0" using Cons.prems by (simp add: Suc_le_eq)
  also have "\<dots> \<le> price k j n" unfolding price_def by (rule mult_le_mono2) simp
  finally show ?case using Cons by simp
qed simp

text \<open>One start of a job is worth more than what it hands on.\<close>

lemma handed_price: "handed j js \<Longrightarrow> prices k js (replicate (length js) 0) < (if job_name j = JOB_NORMALIZE then Suc k else 1)"
  by (auto simp: handed_def hands_on_def price_def publish_job_def post_draft_job_def)

lemma price_start: "n < k \<Longrightarrow> price k j (Suc n) + (if job_name j = JOB_NORMALIZE then Suc k else 1) = price k j n"
  by (cases k) (auto simp: price_def algebra_simps Suc_diff_le)

lemma run_job_handed:
  assumes "wjobs (snd (run_job E rm_ok j w)) = wjobs w @ js" shows "handed j js"
proof (cases "job_name j = JOB_NORMALIZE \<and> (\<exists>pid. job_args j = [JInt pid])")
  case True
  then obtain pid where pid: "job_name j = JOB_NORMALIZE" "job_args j = [JInt pid]" by blast
  then have "run_job E rm_ok j w = normalize E pid w" by (simp add: run_job_def)
  then show ?thesis using normalize_jobs [of E pid w] assms pid by (auto simp: handed_def)
next
  case False
  have "wjobs (snd (run_job E rm_ok j w)) = wjobs w"
  proof (cases rule: run_job_cases [of E rm_ok j w])
    case (normalizes pid)
    with False show ?thesis by simp
  qed (simp_all add: publish_jobs alert_jobs post_draft_jobs prune_dedupe_jobs)
  then show ?thesis using assms by (simp add: handed_def)
qed

lemma all_fresh [simp]: "0 < k \<Longrightarrow> list_all (\<lambda>n. n < k) (replicate m (0 :: nat))"
  by (simp add: list_all_iff)

definition counted :: "nat \<Rightarrow> world \<times> nat list \<Rightarrow> bool" where
  "counted k s \<longleftrightarrow> length (snd s) = length (wjobs (fst s)) \<and> list_all (\<lambda>n. n < k) (snd s)"

abbreviation total :: "nat \<Rightarrow> world \<times> nat list \<Rightarrow> nat" where
  "total k s \<equiv> prices k (wjobs (fst s)) (snd s)"

lemma attempt_total:
  assumes "attempt E rm_ok k s s'" and "counted k s"
  shows "counted k s' \<and> total k s' < total k s"
  using assms(1)
proof (cases rule: attempt.cases)
  case (Run w xs j ys us dt js n vs)
  have "handed j js" by (rule run_job_handed [of E rm_ok j "taken dt (xs @ ys) w"]) (simp add: Run(6))
  moreover have "0 < k" using assms(2) by (auto simp: counted_def Run)
  ultimately show ?thesis
    using assms(2) handed_price [of j js k] price_start [of n k j] Run by (auto simp: counted_def split: if_splits)
next
  case (Cut_short w xs j ys us n js w1 vs)
  then show ?thesis
    using assms(2) handed_price [of j js k] price_start [of n k j] by (auto simp: counted_def split: if_splits)
next
  case (Given_up w xs j ys us n js w1 vs)
  moreover have "0 < k" using assms(2) by (auto simp: counted_def Given_up)
  ultimately show ?thesis
    using assms(2) handed_price [of j js k] price_start [of n k j] by (auto simp: counted_def split: if_splits)
qed

lemma attempts_total: "(attempt E rm_ok k ^^ n) s s' \<Longrightarrow> counted k s \<Longrightarrow> counted k s' \<and> n + total k s' \<le> total k s"
proof (induction n arbitrary: s')
  case (Suc n)
  then obtain s1 where s1: "(attempt E rm_ok k ^^ n) s s1" "attempt E rm_ok k s1 s'" by auto
  from attempt_total [OF s1(2)] Suc.IH [OF s1(1)] Suc.prems(2) show ?case by fastforce
qed simp

lemma attempt_possible:
  assumes "counted k s" shows "(\<exists>s'. attempt E rm_ok k s s') \<longleftrightarrow> wjobs (fst s) \<noteq> []"
proof
  assume "wjobs (fst s) \<noteq> []"
  then obtain j js where j: "wjobs (fst s) = [] @ j # js" by (cases "wjobs (fst s)") auto
  then obtain n ns where n: "snd s = [] @ n # ns" using assms by (cases "snd s") (auto simp: counted_def)
  let ?w = "taken 0 ([] @ js) (fst s)"
  obtain zs where "wjobs (snd (run_job E rm_ok j ?w)) = [] @ js @ zs" using run_job_jobs [of E rm_ok j ?w] by auto
  from attempt.Run [OF j _ order.refl this, of "[]" k n ns] n show "\<exists>s'. attempt E rm_ok k s s'" by (metis list.size(3) prod.collapse)
qed (auto elim!: attemptE)

text \<open>
  C20: the queues run dry. However the jobs are picked, and however often a run is cut short and started again, with
  whatever it had done by then, the consumers make at most \<open>max_tries\<close> starts per job and \<open>max_tries\<close> more for each
  start of a normalize job, and they stand still only when no job is left.
\<close>

theorem queues_run_dry:
  assumes "0 < max_tries" and "(attempt E rm_ok max_tries ^^ n) (w, replicate (length (wjobs w)) 0) (w', ts)"
  shows "n + length (wjobs w') \<le> max_tries * (length (wjobs w) + max_tries * length (filter (\<lambda>j. job_name j = JOB_NORMALIZE) (wjobs w))) \<and>
    ((\<exists>s. attempt E rm_ok max_tries (w', ts) s) \<longleftrightarrow> wjobs w' \<noteq> [])"
proof -
  have c: "counted max_tries (w, replicate (length (wjobs w)) 0)" using assms(1) by (simp add: counted_def list_all_iff)
  from attempts_total [OF assms(2) c] have c': "counted max_tries (w', ts)"
    and n: "n + total max_tries (w', ts) \<le> total max_tries (w, replicate (length (wjobs w)) 0)" by auto
  have "length (wjobs w') \<le> total max_tries (w', ts)"
    using prices_length [of ts "wjobs w'" max_tries] c' by (simp add: counted_def)
  then show ?thesis using n attempt_possible [OF c', of E rm_ok] by (simp add: prices_fresh)
qed

definition busy_world :: world where
  "busy_world = (sample_world [sample_post] [])\<lparr>wjobs := [normalize_job 9, alert_job (lit ''up'')]\<rparr>"

theorem queues_run_dry_witness:
  "\<exists>w'. (attempt sample_env (\<lambda>f. True) 5 ^^ 1) (busy_world, [0, 0]) (w', [1, 0, 0]) \<and> length (wjobs w') = 3 \<and> 1 + length (wjobs w') \<le> 35 \<and>
     (\<exists>s. attempt sample_env (\<lambda>f. True) 5 (w', [1, 0, 0]) s)"
proof -
  let ?js = "[normalize_job 9, alert_job (lit ''up''), publish_job 9 None]"
  let ?w' = "busy_world\<lparr>wjobs := ?js\<rparr>"
  have b: "wjobs busy_world = [] @ normalize_job 9 # [alert_job (lit ''up'')]" by (simp add: busy_world_def)
  have h: "handed (normalize_job 9) [publish_job 9 None]" by (simp add: handed_def hands_on_def normalize_job_def)
  have "attempt sample_env (\<lambda>f. True) 5 (busy_world, [] @ 0 # [0]) (?w', [] @ Suc 0 # [0] @ replicate (length [publish_job 9 None]) 0)"
    by (rule attempt.Cut_short [OF b _ _ h]) simp_all
  then have step: "(attempt sample_env (\<lambda>f. True) 5 ^^ 1) (busy_world, replicate (length (wjobs busy_world)) 0) (?w', [1, 0, 0])"
    by (simp add: eq_OO b numeral_2_eq_2)
  from queues_run_dry [OF _ step] step show ?thesis
    by (intro exI [of _ ?w']) (auto simp: b normalize_job_def alert_job_def numeral_2_eq_2)
qed

text \<open>What the moves keep, the consumers keep.\<close>

context store_moves begin

lemma consume_ok:
  assumes "consume E rm_ok w w'" shows "moves (wdb w) (wdb w')"
  using assms
proof (rule consumeE)
  fix xs j ys dt
  assume w': "w' = snd (run_job E rm_ok j (taken dt (xs @ ys) w))"
  let ?w = "taken dt (xs @ ys) w"
  have "moves (wdb ?w) (wdb w')"
  proof (cases rule: run_job_cases [of E rm_ok j ?w])
    case (normalizes pid)
    show ?thesis unfolding w' normalizes(2) by (rule sys_step_ok [OF sys_step.Normalize_job])
  next
    case (publishes pid)
    show ?thesis unfolding w' publishes by (rule sys_step_ok [OF sys_step.Publish_job])
  next
    case (drafts pid)
    show ?thesis unfolding w' drafts by (rule sys_step_ok [OF sys_step.Draft_job])
  next
    case prunes
    show ?thesis unfolding w' prunes by (rule pruned)
  next
    case (alerts msg)
    show ?thesis unfolding w' alerts by (rule sys_step_ok [OF sys_step.Alert_job])
  qed (simp add: w')
  then show ?thesis by simp
qed

lemma consumes_ok: "(consume E rm_ok)\<^sup>*\<^sup>* w w' \<Longrightarrow> moves (wdb w) (wdb w')"
  by (induction rule: rtranclp_induct) (auto intro: consume_ok go_on)

end

text \<open>Whatever the consumers do, the store stays well formed and its foreign keys hold.\<close>

theorem consumers_keep_store:
  assumes "(consume E rm_ok)\<^sup>*\<^sup>* w w'"
  shows "(good (wdb w) \<longrightarrow> good (wdb w')) \<and> (references (wdb w) \<longrightarrow> references (wdb w'))"
  using step_good [OF invariant.consumes_ok [OF assms]] foreign_keys.consumes_ok [OF assms]
  by (simp add: keeps_references_def)

end
