(* ===== verification/Delivery.thy ===== *)
theory Delivery
  imports Pipeline
begin

text \<open>
  From a source channel to the readers, through the code of all four processes: ingestion, the normalize job,
  then for an auto channel the publish job, and for a queue channel the draft card, the decision of an editor
  and the publish job.
\<close>

section \<open>What is delivered\<close>

text \<open>A Bot API that takes every call.\<close>

definition accepting :: "env \<Rightarrow> bool" where
  "accepting E \<longleftrightarrow> (\<forall>h c. \<exists>n. telegram E h c = Delivered n \<and> n \<noteq> 0)"

text \<open>How a delivered post is recorded: as published, unless the ORM refuses the bookkeeping statement.\<close>

definition recorded_as :: "env \<Rightarrow> int \<Rightarrow> post \<Rightarrow> bool" where
  "recorded_as E mid q \<longleftrightarrow>
     (case orm_add_statement E of
        None \<Rightarrow> post_state q = Published \<and> published_message_id q = Some mid
      | Some e \<Rightarrow> post_state q = Publish_failed \<and> published_message_id q = None)"

text \<open>The destination got one message with the text, and everything after it went to the editor group.\<close>

definition delivered_once :: "env \<Rightarrow> pystr \<Rightarrow> int \<Rightarrow> world \<Rightarrow> world \<Rightarrow> bool" where
  "delivered_once E t pid w w' \<longleftrightarrow>
     (\<exists>mid rest q. wcalls w' = wcalls w @ (Send_message (destination_channel_id (cfg E)) t None, Delivered mid) # rest \<and>
        list_all (\<lambda>x. call_chat (fst x) = Some (editor_group_id (cfg E))) rest \<and>
        get_post (wdb w') pid = Some q \<and> recorded_as E mid q)"

text \<open>A post that has been normalized, waits for publication, and has nothing to send but its text.\<close>

definition publishable :: "db \<Rightarrow> settings \<Rightarrow> int \<Rightarrow> pystr \<Rightarrow> bool" where
  "publishable d s pid t \<longleftrightarrow>
     (\<exists>p. get_post d pid = Some p \<and> published_message_id p = None \<and> post_state p \<notin> SKIP_STATES \<and>
        get_channel d (source_channel_id p) \<noteq> None \<and> truthy (dedupe_hash p) \<and> \<not> dedupe_exists d (the (dedupe_hash p)) \<and>
        sendable s (raw_media_refs p) = [] \<and> publish_text p = t)"

section \<open>Publishing\<close>

lemma send_text_only:
  assumes "accepting E" and "sendable (cfg E) (raw_media_refs p) = []" and "publish_text p \<noteq> []"
  shows "\<exists>mid. mid \<noteq> 0 \<and> fst (send_of E p w) = Inr (Some mid) \<and>
    wcalls (snd (send_of E p w)) = wcalls w @ [(Send_message (destination_channel_id (cfg E)) (publish_text p) None, Delivered mid)]"
proof -
  let ?c = "Send_message (destination_channel_id (cfg E)) (publish_text p) None"
  obtain mid where "telegram E (wcalls w) ?c = Delivered mid" "mid \<noteq> 0"
    using assms(1) unfolding accepting_def by blast
  then show ?thesis
    using assms(2,3) by (auto simp: send_spaced_def send_post_def tg_do_def reserved_world_def Let_def)
qed

lemma publish_delivers:
  assumes "publishable (wdb w) (cfg E) pid t" and "accepting E" and "t \<noteq> []"
  shows "delivered_once E t pid w (snd (publish E pid w))"
proof -
  obtain p ch where p: "get_post (wdb w) pid = Some p" "published_message_id p = None" "post_state p \<notin> SKIP_STATES"
      "get_channel (wdb w) (source_channel_id p) = Some ch" "truthy (dedupe_hash p)"
      "\<not> dedupe_exists (wdb w) (the (dedupe_hash p))" "sendable (cfg E) (raw_media_refs p) = []" "publish_text p = t"
    using assms(1) by (auto simp: publishable_def)
  have g: "publish_guard (wdb w) pid = Inr p" using p by (simp add: publish_guard_Inr)
  have free: "\<not> (truthy (dedupe_hash p) \<and> dedupe_exists (wdb w) (the (dedupe_hash p)))" using p(6) by simp
  obtain mid w3 where s: "mid \<noteq> 0" "send_of E p w = (Inr (Some mid), w3)"
      "wcalls w3 = wcalls w @ [(Send_message (destination_channel_id (cfg E)) t None, Delivered mid)]"
    using send_text_only [OF assms(2) p(7), of w] assms(3) p(8) by (metis prod.collapse)
  have "publish_core E pid w = publish_finish E pid mid (dedupe_hash p) ch w3"
    using publish_core_send [OF g p(4) free, of E] s by simp
  then have "card_calls E w3 (snd (publish E pid w))"
    using publish_after_core [of E pid w] publish_finish_calls card_calls_trans by metis
  then obtain rest where rest: "wcalls (snd (publish E pid w)) = wcalls w3 @ rest"
      "list_all (\<lambda>x. call_chat (fst x) = Some (editor_group_id (cfg E))) rest"
    by (auto simp: card_calls_def)
  have "\<exists>q. get_post (wdb (snd (publish E pid w))) pid = Some q \<and> recorded_as E mid q"
  proof (cases "orm_add_statement E")
    case None
    have "telegram E h c \<noteq> Broken m" for h c m using assms(2) unfolding accepting_def by (metis tg_outcome.distinct(5))
    then show ?thesis
      using recorded_outcome [OF g p(4) free s(2,1) None] by (auto simp: recorded_as_def None)
  next
    case (Some e)
    show ?thesis
      using unrecorded_outcome [OF g p(4-6) _ s(1) Some] s(2) p(2) by (auto simp: recorded_as_def Some)
  qed
  then show ?thesis using rest s(3) by (auto simp: delivered_once_def)
qed

section \<open>One job at a time\<close>

lemma idle_stays: "(consume E rm_ok)\<^sup>*\<^sup>* w w' \<Longrightarrow> wjobs w = [] \<Longrightarrow> w' = w"
  by (induction rule: converse_rtranclp_induct) (auto elim: consumeE)

lemma single_job:
  assumes "(consume E rm_ok)\<^sup>*\<^sup>* w w'" and "wjobs w = [j]" and "wjobs w' = []"
  obtains dt where "0 \<le> dt" "(consume E rm_ok)\<^sup>*\<^sup>* (snd (run_job E rm_ok j (taken dt [] w))) w'"
  using assms(1)
proof (cases rule: converse_rtranclpE)
  case (step w1)
  from step(1) obtain dt where "0 \<le> dt" "w1 = snd (run_job E rm_ok j (taken dt [] w))"
    using assms(2) by (auto elim!: consumeE simp: append_eq_Cons_conv Cons_eq_append_conv)
  with step(2) that show ?thesis by blast
qed (use assms in simp)

lemma run_job_publish [simp]: "run_job E rm_ok (publish_job pid t) = publish E pid"
  by (rule ext) (simp add: run_job_def publish_job_def)

lemma run_job_normalize [simp]: "run_job E rm_ok (normalize_job pid) = normalize E pid"
  by (rule ext) (simp add: run_job_def normalize_job_def)

lemma run_job_draft [simp]: "run_job E rm_ok (post_draft_job pid) = post_draft E pid"
  by (rule ext) (simp add: run_job_def post_draft_job_def)

lemma publish_job_delivers:
  assumes "(consume E rm_ok)\<^sup>*\<^sup>* w w'" and "wjobs w = [publish_job pid dt]" and "wjobs w' = []"
    and "publishable (wdb w) (cfg E) pid t" and "accepting E" and "t \<noteq> []"
  shows "delivered_once E t pid w w'"
proof -
  obtain dt' where r: "(consume E rm_ok)\<^sup>*\<^sup>* (snd (publish E pid (taken dt' [] w))) w'"
    using single_job [OF assms(1-3)] by auto
  have "wjobs (snd (publish E pid (taken dt' [] w))) = []" by (simp add: publish_jobs)
  from idle_stays [OF r this] have "w' = snd (publish E pid (taken dt' [] w))" .
  moreover have "delivered_once E t pid (taken dt' [] w) (snd (publish E pid (taken dt' [] w)))"
    by (rule publish_delivers) (use assms(4-6) in simp_all)
  ultimately show ?thesis by (simp add: delivered_once_def)
qed

section \<open>Ingestion and normalization\<close>

lemma attach_media_frame [simp]:
  "tags (attach_media now pid refs d) = tags d" "templates (attach_media now pid refs d) = templates d"
  by (simp_all add: attach_media_def Let_def split: option.split)

lemma normalize_text_cong:
  "tags d' = tags d \<Longrightarrow> normalize_text E d' = normalize_text E d"
  by (simp add: fun_eq_iff normalize_text_def resolve_tag_labels_def)

lemma channel_template_cong: "templates d' = templates d \<Longrightarrow> channel_template d' = channel_template d"
  by (simp add: fun_eq_iff channel_template_def)

text \<open>The row of a text message after ingestion, and what ingestion leaves alone.\<close>

lemma ingest_text:
  assumes "ids_fresh (wdb w)" and "redis_up E" and "\<not> already_ingested (wdb w) (channel_id ch) (m_id m)"
    and "get_channel (wdb w) (channel_id ch) = Some ch" and "media_kind m = None"
  obtains u where "get_post (wdb (snd (ingest_message E T m ch w))) (next_id (wdb w))
      = Some ((new_post (next_id (wdb w)) (channel_id ch) (m_id m) (message_text m) (wclock w))\<lparr>updated_at := u\<rparr>)"
    "wjobs (snd (ingest_message E T m ch w)) = wjobs w @ [normalize_job (next_id (wdb w))]"
    "wcalls (snd (ingest_message E T m ch w)) = wcalls w"
    "source_channels (wdb (snd (ingest_message E T m ch w))) = source_channels (wdb w)"
    "tags (wdb (snd (ingest_message E T m ch w))) = tags (wdb w)"
    "templates (wdb (snd (ingest_message E T m ch w))) = templates (wdb w)"
    "dedupe_rows (wdb (snd (ingest_message E T m ch w))) = dedupe_rows (wdb w)"
proof -
  let ?pid = "next_id (wdb w)"
  define p where "p = new_post ?pid (channel_id ch) (m_id m) (message_text m) (wclock w)"
  define d1 where "d1 = add_event (wclock w) ?pid None Ev_ingested [(''has_media'', JBool False)]
     ((wdb w)\<lparr>posts := tadd p (posts (wdb w)), next_id := next_id (wdb w) + 1\<rparr>)"
  have ins: "insert_post (wclock w) ch m (wdb w) = Some (?pid, d1)"
    using assms(3,4) by (simp add: insert_post_def Let_def d1_def p_def)
  have ps: "posts d1 = posts (wdb w) @ [p]" by (simp add: d1_def tadd_def)
  have nin: "post_id p \<notin> post_id ` set (posts (wdb w))" using fresh_next [OF assms(1)] by (simp add: p_def)
  have g: "get_post d1 ?pid = Some p"
    using ps nin tget_None [of post_id "posts (wdb w)" ?pid] by (simp add: tget_def find_append p_def)
  define d2 where "d2 = attach_media (wclock w) ?pid [] d1"
  have run: "ingest_message E T m ch w = (Inr (Some ?pid), w\<lparr>wdb := d2, wpool := True, wjobs := wjobs w @ [normalize_job ?pid]\<rparr>)"
    using ins g assms(5) by (simp add: ingest_message_def download_media_def enqueue_normalize_def enqueue_job_up [OF assms(2)] d2_def)
  obtain u where "posts d2 = posts (wdb w) @ [p\<lparr>raw_media_refs := [], updated_at := u\<rparr>]"
    using attach_media_new [OF ps nin, of "wclock w" "[]"] by (auto simp: d2_def p_def)
  then have row: "get_post d2 ?pid = Some (p\<lparr>updated_at := u\<rparr>)"
    using nin tget_None [of post_id "posts (wdb w)" ?pid] by (simp add: tget_def find_append p_def new_post_def)
  have frame: "source_channels d2 = source_channels (wdb w)" "tags d2 = tags (wdb w)"
      "templates d2 = templates (wdb w)" "dedupe_rows d2 = dedupe_rows (wdb w)"
    by (simp_all add: d2_def d1_def)
  show thesis by (rule that [of u, folded p_def]) (simp_all add: run row frame)
qed

lemma normalize_channels: "source_channels (wdb (snd (normalize E pid w))) = source_channels (wdb w)"
proof -
  consider "snd (normalize E pid w) = w"
    | p ch n where "snd (normalize E pid w) = snd (normalize_write E ch p n (normalize_tags ch) w)"
    using normalize_cases [of E pid w] by (metis snd_conv)
  then show ?thesis by cases (simp_all add: normalize_write_wdb)
qed

lemma unbranded_text:
  "\<not> should_ai_transform (cfg E) ch \<Longrightarrow> ai_transformed_text p = None \<Longrightarrow> branded E ch n \<noteq> [] \<Longrightarrow>
   publish_text (final_row E ch p n ids) = branded E ch n"
  unfolding branded_def by (simp add: publish_text_def final_row_def ai_step_off normalized_row_def or_else_def)

text \<open>A text that is new: no row of the index has its hash.\<close>

definition new_text :: "env \<Rightarrow> db \<Rightarrow> pystr option \<Rightarrow> bool" where
  "new_text E d t \<longleftrightarrow> compute_dedupe_hash (uni E) (sha256_hex E) t [] \<noteq> [] \<and>
     \<not> dedupe_exists d (compute_dedupe_hash (uni E) (sha256_hex E) t [])"

lemma not_duplicate: "\<not> dedupe_exists d h \<Longrightarrow> \<not> is_duplicate s now d h"
  by (auto simp: dedupe_exists_def is_duplicate_def list_ex_iff)

text \<open>What the normalize job makes of such a row.\<close>

lemma normalize_text_row:
  assumes "ready E w p ch n" and "redis_up E" and "raw_media_refs p = []" and "new_text E (wdb w) (raw_text p)"
    and "\<not> should_ai_transform (cfg E) ch" and "branded E ch n \<noteq> []" and "ai_transformed_text p = None"
    and "published_message_id p = None" and "post_state p \<notin> SKIP_STATES"
  shows "wjobs (snd (normalize E (post_id p) w))
      = wjobs w @ [if channel_policy ch = P_auto then publish_job (post_id p) None else post_draft_job (post_id p)]"
    and "publishable (wdb (snd (normalize E (post_id p) w))) (cfg E) (post_id p) (branded E ch n)"
    and "\<exists>u. get_post (wdb (snd (normalize E (post_id p) w))) (post_id p)
      = Some ((final_row E ch p n (normalize_tags ch))\<lparr>updated_at := u\<rparr>)"
proof -
  have h: "content_hash E p \<noteq> []" "\<not> dedupe_exists (wdb w) (content_hash E p)"
    using assms(3,4) by (simp_all add: new_text_def content_hash_def)
  show "wjobs (snd (normalize E (post_id p) w))
      = wjobs w @ [if channel_policy ch = P_auto then publish_job (post_id p) None else post_draft_job (post_id p)]"
    using not_duplicate [OF h(2)] assms(1,2)
    by (simp add: ready_normalize normalize_write_fresh Let_def enqueue_defs enqueue_job_up)
  show row: "\<exists>u. get_post (wdb (snd (normalize E (post_id p) w))) (post_id p)
      = Some ((final_row E ch p n (normalize_tags ch))\<lparr>updated_at := u\<rparr>)"
    using ready_post [OF assms(1)] not_duplicate [OF h(2)] by simp
  have "dedupe_exists (wdb (snd (normalize E (post_id p) w))) = dedupe_exists (wdb w)"
    by (rule dedupe_exists_cong) (simp add: normalize_frame)
  moreover have "source_channel_id (final_row E ch p n (normalize_tags ch)) = source_channel_id p"
    by (simp add: final_row_def normalized_row_def)
  ultimately show "publishable (wdb (snd (normalize E (post_id p) w))) (cfg E) (post_id p) (branded E ch n)"
    using row assms h unbranded_text [of E ch p n "normalize_tags ch"]
    by (auto simp: publishable_def normalize_channels ready_def sendable_def truthy_def publish_text_def)
qed

section \<open>End to end\<close>

text \<open>
  A text message arrives: its channel is in the store, the message is not, its text is new, its template renders
  to \<open>n\<close>, the channel has no AI step, and the watermark step leaves some text.
\<close>

definition arrives :: "env \<Rightarrow> world \<Rightarrow> source_channel \<Rightarrow> message \<Rightarrow> pystr \<Rightarrow> bool" where
  "arrives E w ch m n \<longleftrightarrow> ids_fresh (wdb w) \<and> get_channel (wdb w) (channel_id ch) = Some ch \<and>
     \<not> already_ingested (wdb w) (channel_id ch) (m_id m) \<and> media_kind m = None \<and> new_text E (wdb w) (message_text m) \<and>
     normalize_text E (wdb w) (channel_template (wdb w) ch) (or_else (message_text m) []) (channel_label ch)
       (normalize_tags ch) = Inr n \<and>
     \<not> should_ai_transform (cfg E) ch \<and> branded E ch n \<noteq> []"

lemma new_post_columns [simp]:
  "ai_transformed_text (new_post k c m t now) = None" "published_message_id (new_post k c m t now) = None"
  "draft_message_id (new_post k c m t now) = None"
  by (simp_all add: new_post_def)

text \<open>The world between the normalize job and the next one.\<close>

lemma arrived:
  assumes "arrives E w ch m n" and "redis_up E" and "wjobs w = []"
    and "(consume E rm_ok)\<^sup>*\<^sup>* (snd (ingest_message E T m ch w)) w'" and "wjobs w' = []"
  obtains w2 p u where "(consume E rm_ok)\<^sup>*\<^sup>* w2 w'" "wcalls w2 = wcalls w" "post_id p = next_id (wdb w)"
    "wjobs w2 = [if channel_policy ch = P_auto then publish_job (next_id (wdb w)) None else post_draft_job (next_id (wdb w))]"
    "publishable (wdb w2) (cfg E) (next_id (wdb w)) (branded E ch n)"
    "get_post (wdb w2) (next_id (wdb w)) = Some ((final_row E ch p n (normalize_tags ch))\<lparr>updated_at := u\<rparr>)"
    "post_state p = Pending" "draft_message_id p = None" "source_channel_id p = channel_id ch"
    "get_channel (wdb w2) (channel_id ch) = Some ch"
proof -
  let ?w1 = "snd (ingest_message E T m ch w)" and ?pid = "next_id (wdb w)"
  have a: "ids_fresh (wdb w)" "\<not> already_ingested (wdb w) (channel_id ch) (m_id m)"
      "get_channel (wdb w) (channel_id ch) = Some ch" "media_kind m = None"
    using assms(1) by (simp_all add: arrives_def)
  obtain u where w1: "get_post (wdb ?w1) ?pid
      = Some ((new_post ?pid (channel_id ch) (m_id m) (message_text m) (wclock w))\<lparr>updated_at := u\<rparr>)"
    "wjobs ?w1 = wjobs w @ [normalize_job ?pid]" "wcalls ?w1 = wcalls w"
    "source_channels (wdb ?w1) = source_channels (wdb w)" "tags (wdb ?w1) = tags (wdb w)"
    "templates (wdb ?w1) = templates (wdb w)" "dedupe_rows (wdb ?w1) = dedupe_rows (wdb w)"
    using ingest_text [OF a(1) assms(2) a(2-4)] by blast
  define p where "p = (new_post ?pid (channel_id ch) (m_id m) (message_text m) (wclock w))\<lparr>updated_at := u\<rparr>"
  have p: "post_id p = ?pid" "post_state p = Pending" "raw_text p = message_text m" "raw_media_refs p = []"
      "source_channel_id p = channel_id ch" "ai_transformed_text p = None" "published_message_id p = None"
      "draft_message_id p = None"
    by (simp_all add: p_def)
  obtain dt where run: "(consume E rm_ok)\<^sup>*\<^sup>* (snd (normalize E ?pid (taken dt [] ?w1))) w'"
    using single_job [OF assms(4) _ assms(5), of "normalize_job ?pid"] w1(2) assms(3) by auto
  have chan: "get_channel (wdb ?w1) (channel_id ch) = Some ch" using a(3) w1(4) by simp
  have rdy: "ready E (taken dt [] ?w1) p ch n"
    using assms(1) w1(1) chan p normalize_text_cong [OF w1(5)] channel_template_cong [OF w1(6)]
    by (simp add: ready_def arrives_def p_def [symmetric])
  have new: "new_text E (wdb (taken dt [] ?w1)) (raw_text p)"
    using assms(1) p(3) dedupe_exists_cong [OF w1(7)] by (simp add: arrives_def new_text_def)
  have skip: "post_state p \<notin> SKIP_STATES" using p(2) by (simp add: SKIP_STATES_def)
  note norm = normalize_text_row [OF rdy assms(2) p(4) new _ _ p(6,7) skip]
  have off: "\<not> should_ai_transform (cfg E) ch" "branded E ch n \<noteq> []" using assms(1) by (simp_all add: arrives_def)
  obtain u' where row: "get_post (wdb (snd (normalize E ?pid (taken dt [] ?w1)))) ?pid
      = Some ((final_row E ch p n (normalize_tags ch))\<lparr>updated_at := u'\<rparr>)"
    using norm(3) [OF off] p(1) by auto
  show thesis
    by (rule that [OF run _ p(1) _ _ row p(2,8,5)])
      (use norm(1,2) [OF off] p(1) w1(3) chan in \<open>simp_all add: normalize_frame normalize_channels\<close>)
qed

text \<open>
  C6: a new text message of an auto channel without an AI step reaches the readers. Its text is not in the dedupe
  index, its template renders and the watermark step leaves some text; Redis is up, Telegram takes every call, and nothing
  else is queued. Then, whatever waits lie between the jobs, once the queues are empty the destination has got exactly
  one message, with the branded text, and the post is recorded as far as the ORM lets it; nothing else was sent anywhere
  but to the editor group.
\<close>

theorem message_reaches_destination:
  assumes "arrives E w ch m n" and "channel_policy ch = P_auto" and "redis_up E" and "accepting E" and "wjobs w = []"
    and "(consume E rm_ok)\<^sup>*\<^sup>* (snd (ingest_message E T m ch w)) w'" and "wjobs w' = []"
  shows "delivered_once E (branded E ch n) (next_id (wdb w)) w w'"
proof -
  obtain w2 where w2: "(consume E rm_ok)\<^sup>*\<^sup>* w2 w'" "wcalls w2 = wcalls w" "wjobs w2 = [publish_job (next_id (wdb w)) None]"
      "publishable (wdb w2) (cfg E) (next_id (wdb w)) (branded E ch n)"
    using arrived [OF assms(1,3,5-7)] assms(2) by auto
  have "branded E ch n \<noteq> []" using assms(1) by (simp add: arrives_def)
  from publish_job_delivers [OF w2(1,3) assms(7) w2(4) assms(4) this] w2(2) show ?thesis
    by (simp add: delivered_once_def)
qed

lemma consume_one: "wjobs w = [j] \<Longrightarrow> consume E rm_ok w (snd (run_job E rm_ok j (taken 0 [] w)))"
  using consume.Take [of w "[]" j "[]" 0] by simp

text \<open>The two jobs of a message, one minute after another.\<close>

definition two_jobs :: "world \<Rightarrow> int \<Rightarrow> world" where
  "two_jobs w1 pid = snd (publish sample_env pid (taken 0 [] (snd (normalize sample_env pid (taken 0 [] w1)))))"

theorem message_reaches_destination_witness:
  "delivered_once sample_env (lit ''hello'') 100 (sample_world [sample_post] [])
     (two_jobs (snd (ingest_message sample_env offline text_message sample_channel (sample_world [sample_post] []))) 100)"
proof -
  let ?w = "sample_world [sample_post] []"
  let ?w1 = "snd (ingest_message sample_env offline text_message sample_channel ?w)"
  let ?w2 = "snd (normalize sample_env 100 (taken 0 [] ?w1))"
  have a: "arrives sample_env ?w sample_channel text_message (lit ''hello'')" by code_simp
  have e: "accepting sample_env" by (simp add: accepting_def sample_env_def)
  have r: "redis_up sample_env" by (rule sample_up)
  have idle: "wjobs ?w = []" by (simp add: sample_world_def)
  have auto': "channel_policy sample_channel = P_auto" by (simp add: sample_channel_def)
  have j: "wjobs ?w1 = [normalize_job 100]" "wjobs ?w2 = [publish_job 100 None]" by code_simp+
  have run: "(consume sample_env (\<lambda>f. True))\<^sup>*\<^sup>* ?w1 (two_jobs ?w1 100)"
    using consume_one [OF j(1), of sample_env "\<lambda>f. True"] consume_one [OF j(2), of sample_env "\<lambda>f. True"]
    by (simp add: two_jobs_def)
  have fin: "wjobs (two_jobs ?w1 100) = []" by (simp add: two_jobs_def publish_jobs)
  have k: "next_id (wdb ?w) = 100" by (simp add: sample_world_def sample_db_def)
  have t: "branded sample_env sample_channel (lit ''hello'') = lit ''hello''" by code_simp
  from message_reaches_destination [OF a auto' r e idle run fin] show ?thesis unfolding k t .
qed

text \<open>Queue channels.\<close>

lemma publish_text_cong:
  "ai_transformed_text q = ai_transformed_text p \<Longrightarrow> normalized_text q = normalized_text p \<Longrightarrow> raw_text q = raw_text p \<Longrightarrow>
   publish_text q = publish_text p"
  by (simp only: publish_text_def)

lemma publish_text_stamp [simp]:
  "publish_text (p\<lparr>updated_at := u\<rparr>) = publish_text p" "publish_text (p\<lparr>draft_message_id := k\<rparr>) = publish_text p"
  by (rule publish_text_cong; simp)+

lemma publishable_approved:
  assumes "publishable (wdb w) s pid t" and "redis_up E"
  shows "publishable (wdb (snd (approve E pid tags' actor w))) s pid t \<and>
    wjobs (snd (approve E pid tags' actor w)) = wjobs w @ [publish_job pid None] \<and>
    wcalls (snd (approve E pid tags' actor w)) = wcalls w"
proof -
  obtain p where p: "get_post (wdb w) pid = Some p" "published_message_id p = None" "post_state p \<notin> SKIP_STATES"
      "get_channel (wdb w) (source_channel_id p) \<noteq> None" "truthy (dedupe_hash p)"
      "\<not> dedupe_exists (wdb w) (the (dedupe_hash p))" "sendable s (raw_media_refs p) = []" "publish_text p = t"
    using assms(1) by (auto simp: publishable_def)
  define q where "q = with_tags tags' p\<lparr>post_state := Approved, scheduled_for := None\<rparr>"
  define w1 where "w1 = commit_decision actor q Ev_approved [(''tag_ids'', ints (tag_ids q))] w"
  have pid: "post_id q = pid" using tget_key [OF p(1)] by (simp add: q_def)
  then obtain u where u: "get_post (wdb w1) pid = Some (q\<lparr>updated_at := u\<rparr>)"
    using commit_decision_post [of w q p actor Ev_approved] p(1) unfolding w1_def by metis
  have eq: "snd (approve E pid tags' actor w) = w1\<lparr>wpool := True, wjobs := wjobs w @ [publish_job pid None]\<rparr>"
    using approve_eq [OF p(1) q_def, of E actor] pid
    by (simp add: enqueue_publish_def enqueue_job_up [OF assms(2)] w1_def)
  have same: "source_channels (wdb w1) = source_channels (wdb w)" "dedupe_rows (wdb w1) = dedupe_rows (wdb w)" "wcalls w1 = wcalls w"
    by (simp_all add: w1_def commit_decision_def)
  have free: "dedupe_exists (wdb w1) = dedupe_exists (wdb w)" by (rule dedupe_exists_cong [OF same(2)])
  have cols: "published_message_id q = None" "post_state q = Approved" "source_channel_id q = source_channel_id p"
      "dedupe_hash q = dedupe_hash p" "raw_media_refs q = raw_media_refs p"
    using p(2) by (simp_all add: q_def with_tags_def split: option.split)
  have body: "publish_text q = publish_text p"
    by (rule publish_text_cong) (simp_all add: q_def with_tags_def split: option.split)
  have "publishable (wdb w1) s pid t"
    unfolding publishable_def
    by (rule exI [of _ "q\<lparr>updated_at := u\<rparr>"])
      (use p u same(1) cols free body in \<open>simp add: SKIP_STATES_def\<close>)
  then show ?thesis unfolding eq using same(3) by simp
qed

lemma publishable_drafted:
  assumes "publishable (wdb w) s pid t"
  shows "publishable (wdb (record_draft E pid mid w)) s pid t"
proof -
  obtain p where p: "get_post (wdb w) pid = Some p" "published_message_id p = None" "post_state p \<notin> SKIP_STATES"
      "get_channel (wdb w) (source_channel_id p) \<noteq> None" "truthy (dedupe_hash p)"
      "\<not> dedupe_exists (wdb w) (the (dedupe_hash p))" "sendable s (raw_media_refs p) = []" "publish_text p = t"
    using assms by (auto simp: publishable_def)
  obtain u where "get_post (wdb (record_draft E pid mid w)) pid = Some (p\<lparr>draft_message_id := Some mid, updated_at := u\<rparr>)"
    using record_draft_get [OF p(1)] by blast
  moreover have "dedupe_rows (wdb (record_draft E pid mid w)) = dedupe_rows (wdb w)"
    by (simp add: record_draft_def split: option.split)
  then have "dedupe_exists (wdb (record_draft E pid mid w)) = dedupe_exists (wdb w)" by (rule dedupe_exists_cong)
  ultimately show ?thesis using p by (auto simp: publishable_def)
qed

text \<open>The draft job on a row that has no card yet.\<close>

lemma draft_posts_card:
  assumes "get_post (wdb w) pid = Some p" and "get_channel (wdb w) (source_channel_id p) = Some ch"
    and "normalized_text p \<noteq> None" and "draft_message_id p = None" and "post_state p = Pending"
    and "editor_group_id (cfg E) \<noteq> 0" and "accepting E"
  obtains mid body where "wcalls (snd (post_draft E pid w))
      = wcalls w @ [(Send_message (editor_group_id (cfg E)) body (Some (draft_keyboard (cfg E) p)), Delivered mid)]"
    "wdb (snd (post_draft E pid w)) = wdb (record_draft E pid mid w)"
proof -
  obtain body where card: "build_draft_payload E (wdb w) p ch = (body, draft_keyboard (cfg E) p)"
    using assms(5) by (simp add: build_draft_payload_def Let_def)
  let ?c = "Send_message (editor_group_id (cfg E)) body (Some (draft_keyboard (cfg E) p))"
  obtain mid where mid: "telegram E (wcalls w) ?c = Delivered mid" using assms(7) unfolding accepting_def by blast
  have "tg_do E ?c w = (Inr mid, w\<lparr>wcalls := wcalls w @ [(?c, Delivered mid)]\<rparr>)" by (simp add: tg_do_def mid)
  then have "snd (post_draft E pid w) = record_draft E pid mid (w\<lparr>wcalls := wcalls w @ [(?c, Delivered mid)]\<rparr>)"
    using assms card by (auto simp: post_draft_def Let_def)
  then show thesis by (intro that [of body mid]) (simp_all add: record_draft_def split: option.split)
qed

text \<open>
  C7: a new text message of a queue channel without an AI step waits for an editor. Its text is not in the dedupe
  index, its template renders and the watermark step leaves some text; Redis is up, Telegram takes every call, the editors
  have a group, and nothing else is queued. Then, once the queues are empty, the only call there was put a card with
  the two buttons into the editor group, and the post is pending under that card; and whoever approves it then, with whatever
  tags, the branded text is delivered to the destination once when the queues are empty again.
\<close>

theorem queued_message_waits_for_approval:
  assumes "arrives E w ch m n" and "channel_policy ch \<noteq> P_auto" and "redis_up E" and "accepting E" and "wjobs w = []"
    and "editor_group_id (cfg E) \<noteq> 0"
    and "(consume E rm_ok)\<^sup>*\<^sup>* (snd (ingest_message E T m ch w)) w'" and "wjobs w' = []"
  shows "(\<exists>body mid q. wcalls w' = wcalls w @
        [(Send_message (editor_group_id (cfg E)) body (Some (draft_keyboard (cfg E) q)), Delivered mid)] \<and>
      get_post (wdb w') (next_id (wdb w)) = Some q \<and> post_state q = Pending \<and> draft_message_id q = Some mid) \<and>
    ((consume E rm_ok)\<^sup>*\<^sup>* (snd (approve E (next_id (wdb w)) tags' actor w')) w'' \<and> wjobs w'' = [] \<longrightarrow>
      delivered_once E (branded E ch n) (next_id (wdb w)) w' w'')"
proof -
  let ?pid = "next_id (wdb w)"
  obtain w2 p u where w2: "(consume E rm_ok)\<^sup>*\<^sup>* w2 w'" "wcalls w2 = wcalls w" "post_id p = ?pid"
      "wjobs w2 = [post_draft_job ?pid]" "publishable (wdb w2) (cfg E) ?pid (branded E ch n)"
      "get_post (wdb w2) ?pid = Some ((final_row E ch p n (normalize_tags ch))\<lparr>updated_at := u\<rparr>)"
      "post_state p = Pending" "draft_message_id p = None" "source_channel_id p = channel_id ch"
      "get_channel (wdb w2) (channel_id ch) = Some ch"
    using arrived [OF assms(1,3,5,7,8)] assms(2) by auto
  define q where "q = (final_row E ch p n (normalize_tags ch))\<lparr>updated_at := u\<rparr>"
  have q: "get_post (wdb w2) ?pid = Some q" "post_state q = Pending" "draft_message_id q = None"
      "source_channel_id q = channel_id ch" "normalized_text q \<noteq> None"
    using w2(6-9) by (simp_all add: q_def final_row_def normalized_row_def)
  obtain dt where run: "(consume E rm_ok)\<^sup>*\<^sup>* (snd (post_draft E ?pid (taken dt [] w2))) w'"
    using single_job [OF w2(1,4) assms(8)] by auto
  have w': "w' = snd (post_draft E ?pid (taken dt [] w2))"
    by (rule idle_stays [OF run]) (simp add: post_draft_jobs)
  have t: "get_post (wdb (taken dt [] w2)) ?pid = Some q" "get_channel (wdb (taken dt [] w2)) (source_channel_id q) = Some ch"
    using q(1,4) w2(10) by simp_all
  obtain mid body where card: "wcalls w' = wcalls (taken dt [] w2) @
        [(Send_message (editor_group_id (cfg E)) body (Some (draft_keyboard (cfg E) q)), Delivered mid)]"
      "wdb w' = wdb (record_draft E ?pid mid (taken dt [] w2))"
    unfolding w' by (rule draft_posts_card [OF t q(5,3,2) assms(6,4)]) blast
  obtain u' where row: "get_post (wdb w') ?pid = Some (q\<lparr>draft_message_id := Some mid, updated_at := u'\<rparr>)"
    using record_draft_get [of "taken dt [] w2" ?pid q E mid] q(1) card(2) by auto
  have kb: "draft_keyboard (cfg E) (q\<lparr>draft_message_id := Some mid, updated_at := u'\<rparr>) = draft_keyboard (cfg E) q"
    by (simp add: draft_keyboard_def)
  have pub: "publishable (wdb w') (cfg E) ?pid (branded E ch n)"
    using publishable_drafted [of "taken dt [] w2" "cfg E" ?pid "branded E ch n" E mid] w2(5) card(2) by simp
  note app = publishable_approved [OF pub assms(3), of tags' actor]
  have "delivered_once E (branded E ch n) ?pid w' w''"
    if "(consume E rm_ok)\<^sup>*\<^sup>* (snd (approve E ?pid tags' actor w')) w''" "wjobs w'' = []"
    using publish_job_delivers [OF that(1) _ that(2)] app assms(1,4,8) by (simp add: arrives_def delivered_once_def)
  then show ?thesis using card(1) w2(2) row kb q(2)
    by (intro conjI exI [of _ body] exI [of _ mid] exI [of _ "q\<lparr>draft_message_id := Some mid, updated_at := u'\<rparr>"]) auto
qed

definition queue_channel :: source_channel where
  "queue_channel = sample_channel\<lparr>channel_policy := P_queue\<rparr>"

definition queue_world :: world where
  "queue_world = (sample_world [] [])\<lparr>wdb := (sample_db [] [])\<lparr>source_channels := [queue_channel]\<rparr>\<rparr>"

definition drafted_world :: world where
  "drafted_world = snd (post_draft sample_env 100 (taken 0 [] (snd (normalize sample_env 100 (taken 0 []
     (snd (ingest_message sample_env offline text_message queue_channel queue_world)))))))"

theorem queued_message_waits_for_approval_witness:
  "(\<exists>q. get_post (wdb drafted_world) 100 = Some q \<and> post_state q = Pending \<and> draft_message_id q \<noteq> None) \<and>
   delivered_once sample_env (lit ''hello'') 100 drafted_world
     (snd (publish sample_env 100 (taken 0 [] (snd (approve sample_env 100 (Some [5]) editor drafted_world)))))"
proof -
  let ?w1 = "snd (ingest_message sample_env offline text_message queue_channel queue_world)"
  let ?w2 = "snd (normalize sample_env 100 (taken 0 [] ?w1))"
  let ?a = "snd (approve sample_env 100 (Some [5]) editor drafted_world)"
  let ?w'' = "snd (publish sample_env 100 (taken 0 [] ?a))"
  have a: "arrives sample_env queue_world queue_channel text_message (lit ''hello'')" by code_simp
  have e: "accepting sample_env" by (simp add: accepting_def sample_env_def)
  have idle: "wjobs queue_world = []" by (simp add: queue_world_def sample_world_def)
  have g: "editor_group_id (cfg sample_env) \<noteq> 0" by (simp add: sample_env_def)
  have queue: "channel_policy queue_channel \<noteq> P_auto" by (simp add: queue_channel_def)
  have j: "wjobs ?w1 = [normalize_job 100]" "wjobs ?w2 = [post_draft_job 100]" "wjobs ?a = [publish_job 100 None]" by code_simp+
  have run: "(consume sample_env (\<lambda>f. True))\<^sup>*\<^sup>* ?w1 drafted_world"
    using consume_one [OF j(1), of sample_env "\<lambda>f. True"] consume_one [OF j(2), of sample_env "\<lambda>f. True"]
    by (simp add: drafted_world_def)
  have fin: "wjobs drafted_world = []" by (simp add: drafted_world_def post_draft_jobs)
  have k: "next_id (wdb queue_world) = 100" by (simp add: queue_world_def sample_db_def)
  have t: "branded sample_env queue_channel (lit ''hello'') = lit ''hello''" by code_simp
  have run': "(consume sample_env (\<lambda>f. True))\<^sup>*\<^sup>* ?a ?w''"
    using consume_one [OF j(3), of sample_env "\<lambda>f. True"] by simp
  have fin': "wjobs ?w'' = []" by (simp add: publish_jobs)
  from queued_message_waits_for_approval [OF a queue sample_up e idle g run fin, of "Some [5]" editor ?w''] run' fin'
  show ?thesis unfolding k t by auto
qed

end
