(* ===== verification/Schedule.thy ===== *)
theory Schedule
  imports Delivery
begin

text \<open>
  Scheduled publication: the deferral that \<open>api/routers/queue.py\<close> passes to \<open>enqueue_publish\<close>, against consumers
  that take a job only when it is due. A scheduled post waits for its instant; one that is scheduled again, for
  later, does not.
\<close>

section \<open>Jobs that are due\<close>

text \<open>
  The queue with the instant at which each job is due, as the queue library defines it: the time of the enqueue and
  the deferral.
\<close>

type_synonym timed = "world \<times> time list"

definition stamps :: "time \<Rightarrow> job list \<Rightarrow> time list" where
  "stamps now js = map (\<lambda>j. now + (case job_defer j of None \<Rightarrow> 0 | Some d \<Rightarrow> d)) js"

definition added :: "timed \<Rightarrow> world \<Rightarrow> timed" where
  "added s w' = (w', snd s @ stamps (wclock (fst s)) (drop (length (wjobs (fst s))) (wjobs w')))"

definition other_job :: "int \<Rightarrow> job \<Rightarrow> bool" where
  "other_job pid j \<longleftrightarrow> JInt pid \<notin> set (job_args j)"

text \<open>
  A consumer waits and takes a job that is then due; meanwhile the other services do anything that leaves the post
  alone and queues no job for it.
\<close>

inductive timed_step :: "env \<Rightarrow> (pystr \<Rightarrow> bool) \<Rightarrow> int \<Rightarrow> timed \<Rightarrow> timed \<Rightarrow> bool" for E rm_ok pid where
  Take: "wjobs w = xs @ j # ys \<Longrightarrow> ts = ds @ t # es \<Longrightarrow> length ds = length xs \<Longrightarrow> 0 \<le> dt \<Longrightarrow> t \<le> wclock w + dt \<Longrightarrow>
    timed_step E rm_ok pid (w, ts)
      (added (taken dt (xs @ ys) w, ds @ es) (snd (run_job E rm_ok j (taken dt (xs @ ys) w))))"
| Elsewhere: "get_post (wdb w') pid = get_post (wdb w) pid \<Longrightarrow> wjobs w' = wjobs w @ js \<Longrightarrow> list_all (other_job pid) js \<Longrightarrow>
    wclock w \<le> wclock w' \<Longrightarrow> timed_step E rm_ok pid (w, ts) (added (w, ts) w')"

inductive_cases timed_stepE: "timed_step E rm_ok pid (w, ts) s"

definition schedule_timed :: "env \<Rightarrow> int \<Rightarrow> py_datetime \<Rightarrow> admin \<Rightarrow> timed \<Rightarrow> timed" where
  "schedule_timed E pid t actor s = added s (snd (schedule E pid t actor (fst s)))"

section \<open>What jobs leave alone\<close>

lemma save_post_other: "post_id p \<noteq> k \<Longrightarrow> get_post (save_post now p d) k = get_post d k"
  by (simp add: get_post_save_other)

lemma publish_core_other:
  assumes "k \<noteq> pid" shows "get_post (wdb (snd (publish_core E pid w))) k = get_post (wdb w) k"
proof (cases "publish_guard (wdb w) pid")
  case (Inl r)
  then show ?thesis by (simp add: publish_core_skip)
next
  case (Inr p)
  have id: "post_id p = pid" using Inr tget_key by (fastforce simp: publish_guard_Inr)
  have claim: "get_post (claim_post now p d) k = get_post d k" for now d
    using assms id by (simp add: claim_post_def save_post_other)
  have dup: "get_post (mark_duplicate now pid h d) k = get_post d k" for now h d
    using assms by (auto simp: mark_duplicate_def save_post_other split: option.split dest!: tget_key)
  have res: "get_post (snd (reserve_dedupe now h d)) k = get_post d k" "get_post (release_dedupe h d) k = get_post d k" for now h d
    by (auto simp: reserve_dedupe_def release_dedupe_def Let_def)
  have fin: "get_post (wdb (snd (publish_finish E pid mid h ch w'))) k = get_post (wdb w') k" for mid h ch w'
  proof -
    have "get_post (snd (mark_published E now pid mid h d)) k = get_post d k" for now d
      using assms by (auto simp: mark_published_def Let_def save_post_other split: option.split dest!: tget_key)
    then show ?thesis by (simp add: publish_finish_def Let_def case_prod_beta split: sum.split option.split)
  qed
  have sent: "get_post (wdb (snd (send_of E p w))) k = get_post (wdb w) k"
    by (subst send_of_db) (simp add: reserved_world_def res claim)
  show ?thesis
  proof (cases "get_channel (wdb w) (source_channel_id p)")
    case None
    with Inr show ?thesis by (simp add: publish_core_no_channel claim)
  next
    case (Some ch)
    show ?thesis
      using publish_core_dup [OF Inr Some] publish_core_send [OF Inr Some, of E] sent
      by (cases "truthy (dedupe_hash p) \<and> dedupe_exists (wdb w) (the (dedupe_hash p))")
        (auto simp: case_prod_beta fin res dup claim split: sum.split)
  qed
qed

lemma publish_other:
  assumes "k \<noteq> pid" shows "get_post (wdb (snd (publish E pid w))) k = get_post (wdb w) k"
proof -
  have "get_post (wdb (snd (on_publish_failure E pid err w'))) k = get_post (wdb w') k" for err w'
    using assms by (auto simp: on_publish_failure_def Let_def save_post_other split: option.split dest!: tget_key)
  then show ?thesis using publish_core_other [OF assms, of E w] by (auto simp: publish_def case_prod_beta split: sum.split)
qed

lemma publish_clock:
  assumes "patient E" shows "wclock w \<le> wclock (snd (publish E pid w))"
proof -
  have fin: "wclock (snd (publish_finish E pid mid h ch w')) = wclock w'" for mid h ch w'
    by (simp add: publish_finish_def Let_def case_prod_beta split: sum.split option.split)
  have "wclock w \<le> wclock (snd (publish_core E pid w))"
  proof (cases "publish_guard (wdb w) pid")
    case (Inl r)
    then show ?thesis by (simp add: publish_core_skip)
  next
    case (Inr p)
    have sent: "wclock w \<le> wclock (snd (send_of E p w))"
      using send_spaced_clock [OF assms, of "reserved_world w p"] by (simp add: reserved_world_def)
    show ?thesis
    proof (cases "get_channel (wdb w) (source_channel_id p)")
      case None
      with Inr show ?thesis by (simp add: publish_core_no_channel)
    next
      case (Some ch)
      show ?thesis
        using publish_core_dup [OF Inr Some] publish_core_send [OF Inr Some, of E] sent
        by (cases "truthy (dedupe_hash p) \<and> dedupe_exists (wdb w) (the (dedupe_hash p))")
          (auto simp: case_prod_beta fin split: sum.split)
    qed
  qed
  then show ?thesis by (auto simp: publish_def case_prod_beta split: sum.split)
qed

lemma post_draft_other: "k \<noteq> pid \<Longrightarrow> get_post (wdb (snd (post_draft E pid w))) k = get_post (wdb w) k"
  by (auto simp: post_draft_def record_draft_def Let_def case_prod_beta save_post_other split: sum.split option.split dest!: tget_key)

lemma post_draft_clock: "wclock (snd (post_draft E pid w)) = wclock w"
  by (auto simp: post_draft_def record_draft_def Let_def case_prod_beta tg_do_world split: sum.split option.split)

lemma prune_dedupe_other: "posts (wdb (snd (prune_dedupe s rm_ok w))) = posts (wdb w)" "wclock (snd (prune_dedupe s rm_ok w)) = wclock w"
  by (simp_all add: prune_dedupe_def prune_media_files_def prune_dedupe_rows_def prune_audit_events_def Let_def case_prod_beta)

lemma alert_other: "wdb (snd (alert E msg w)) = wdb w" "wclock (snd (alert E msg w)) = wclock w"
  by (auto simp: alert_def case_prod_beta tg_do_world split: sum.split)

lemma run_job_clock:
  assumes "patient E" shows "wclock w \<le> wclock (snd (run_job E rm_ok j w))"
  by (cases rule: run_job_cases [of E rm_ok j w])
    (simp_all add: normalize_frame(3) publish_clock [OF assms] post_draft_clock prune_dedupe_other alert_other)

text \<open>A job for something else changes nothing of a post, and hands on only what is not about the post.\<close>

lemma run_job_other:
  assumes "other_job pid j"
  shows "get_post (wdb (snd (run_job E rm_ok j w))) pid = get_post (wdb w) pid \<and>
    (\<exists>js. wjobs (snd (run_job E rm_ok j w)) = wjobs w @ js \<and> list_all (other_job pid) js)"
proof -
  have stay: "\<exists>js. wjobs w' = wjobs w @ js \<and> list_all (other_job pid) js" if "wjobs w' = wjobs w" for w'
    using that by (intro exI [of _ "[]"]) simp
  have hand: "\<exists>js. wjobs (snd (normalize E k w)) = wjobs w @ js \<and> list_all (other_job pid) js" if "k \<noteq> pid" for k
  proof -
    obtain js where "wjobs (snd (normalize E k w)) = wjobs w @ js" "hands_on k js" using normalize_jobs by blast
    then show ?thesis using that by (intro exI [of _ js]) (auto simp: hands_on_def other_job_def publish_job_def post_draft_job_def)
  qed
  have "snd (run_job E rm_ok j w) = w \<or> (\<exists>k. k \<noteq> pid \<and> run_job E rm_ok j w \<in> {normalize E k w, publish E k w, post_draft E k w})
      \<or> snd (run_job E rm_ok j w) = snd (prune_dedupe (cfg E) rm_ok w) \<or> (\<exists>msg. run_job E rm_ok j w = alert E msg w)"
    using assms unfolding other_job_def run_job_def
    by (cases "job_name j"; cases "job_args j"; cases "tl (job_args j)"; cases "hd (job_args j)") (auto simp: case_prod_beta)
  then consider "snd (run_job E rm_ok j w) = w" | k where "k \<noteq> pid" "run_job E rm_ok j w = normalize E k w"
    | k where "k \<noteq> pid" "run_job E rm_ok j w = publish E k w" | k where "k \<noteq> pid" "run_job E rm_ok j w = post_draft E k w"
    | "snd (run_job E rm_ok j w) = snd (prune_dedupe (cfg E) rm_ok w)" | msg where "run_job E rm_ok j w = alert E msg w"
    by blast
  then show ?thesis
  proof cases
    case (2 k)
    then show ?thesis using normalize_frame(5) [of pid k] hand by simp
  next
    case (3 k)
    then show ?thesis using publish_other [of pid k] by (simp add: stay publish_jobs)
  next
    case (4 k)
    then show ?thesis using post_draft_other [of pid k] by (simp add: stay post_draft_jobs)
  next
    case 5
    then show ?thesis by (simp add: prune_dedupe_other stay prune_dedupe_jobs)
  next
    case (6 msg)
    then show ?thesis by (simp add: alert_other stay alert_jobs)
  qed (simp add: stay)
qed

section \<open>Waiting\<close>

text \<open>The post as it was scheduled; its job in the queue under its instant, and no other job for it.\<close>

definition still_scheduled :: "int \<Rightarrow> time \<Rightarrow> db \<Rightarrow> bool" where
  "still_scheduled pid due d \<longleftrightarrow>
     (\<exists>q. get_post d pid = Some q \<and> post_state q = Scheduled \<and> scheduled_for q = Some due \<and> published_message_id q = None)"

definition sole_job :: "int \<Rightarrow> job \<Rightarrow> time \<Rightarrow> job list \<Rightarrow> time list \<Rightarrow> bool" where
  "sole_job pid j due js ts \<longleftrightarrow>
     (\<exists>xs ys ds es. js = xs @ j # ys \<and> ts = ds @ due # es \<and> length ds = length xs \<and> length es = length ys \<and>
        list_all (other_job pid) (xs @ ys))"

definition waiting :: "int \<Rightarrow> job \<Rightarrow> time \<Rightarrow> timed \<Rightarrow> bool" where
  "waiting pid j due s \<longleftrightarrow> still_scheduled pid due (wdb (fst s)) \<and> sole_job pid j due (wjobs (fst s)) (snd s)"

lemma sole_jobI:
  "length ds = length xs \<Longrightarrow> length es = length ys \<Longrightarrow> list_all (other_job pid) (xs @ ys) \<Longrightarrow>
   sole_job pid j due (xs @ j # ys) (ds @ due # es)"
  unfolding sole_job_def by blast

lemma stamps_length [simp]: "length (stamps now js) = length js"
  by (simp add: stamps_def)

text \<open>Jobs added at the end leave the wait as it is.\<close>

lemma sole_job_added:
  assumes "sole_job pid j due js ts" and "list_all (other_job pid) ks" and "length us = length ks"
  shows "sole_job pid j due (js @ ks) (ts @ us)"
proof -
  obtain xs ys ds es where w: "js = xs @ j # ys" "ts = ds @ due # es" "length ds = length xs" "length es = length ys"
      "list_all (other_job pid) (xs @ ys)"
    using assms(1) unfolding sole_job_def by blast
  show ?thesis
    using sole_jobI [of ds xs "es @ us" "ys @ ks" pid j due] w assms(2,3) by simp
qed

lemma waiting_added:
  assumes "waiting pid j due s" and "get_post (wdb w') pid = get_post (wdb (fst s)) pid" and "wjobs w' = wjobs (fst s) @ js"
    and "list_all (other_job pid) js"
  shows "waiting pid j due (added s w')"
  using assms sole_job_added [of pid j due "wjobs (fst s)" "snd s" js] by (simp add: waiting_def added_def still_scheduled_def)

text \<open>Another job taken off the queue leaves it, too; and the job itself is taken at its instant at the earliest.\<close>

lemma sole_job_taken:
  assumes "sole_job pid j due (xs @ i # ys) (ds @ t # es)" and "length ds = length xs"
  shows "t = due \<or> other_job pid i \<and> sole_job pid j due (xs @ ys) (ds @ es)"
proof -
  obtain us vs bs cs where w: "xs @ i # ys = us @ j # vs" "ds @ t # es = bs @ due # cs" "length bs = length us" "length cs = length vs"
      "list_all (other_job pid) (us @ vs)"
    using assms(1) unfolding sole_job_def by blast
  consider "length xs = length us" | "length xs < length us" | "length us < length xs" by linarith
  then show ?thesis
  proof cases
    case 1
    then show ?thesis using w assms(2) by simp
  next
    case 2
    then obtain us' where u: "us = xs @ i # us'" "ys = us' @ j # vs"
      using w(1) by (auto simp: append_eq_append_conv2 append_eq_Cons_conv Cons_eq_append_conv)
    with 2 obtain bs' where b: "bs = ds @ t # bs'" "es = bs' @ due # cs"
      using w(2,3) assms(2) by (auto simp: append_eq_append_conv2 append_eq_Cons_conv Cons_eq_append_conv)
    show ?thesis using sole_jobI [of "ds @ bs'" "xs @ us'" cs vs pid j due] w(3-5) assms(2) u b by simp
  next
    case 3
    then obtain vs' where u: "xs = us @ j # vs'" "vs = vs' @ i # ys"
      using w(1) by (auto simp: append_eq_append_conv2 append_eq_Cons_conv Cons_eq_append_conv)
    with 3 obtain cs' where b: "ds = bs @ due # cs'" "cs = cs' @ t # es"
      using w(2,3) assms(2) by (auto simp: append_eq_append_conv2 append_eq_Cons_conv Cons_eq_append_conv)
    show ?thesis using sole_jobI [of bs us "cs' @ es" "vs' @ ys" pid j due] w(3-5) assms(2) u b by simp
  qed
qed

lemma waiting_taken:
  assumes "waiting pid j due (w, ts)" and "wjobs w = xs @ i # ys" and "ts = ds @ t # es" and "length ds = length xs"
  shows "t = due \<or> other_job pid i \<and> waiting pid j due (taken dt (xs @ ys) w, ds @ es)"
  using assms sole_job_taken [of pid j due xs i ys ds t es] by (auto simp: waiting_def)

lemma timed_step_waits:
  assumes "timed_step E rm_ok pid s s'" and "patient E" and "due \<le> wclock (fst s) \<or> waiting pid j due s"
  shows "due \<le> wclock (fst s') \<or> waiting pid j due s'"
  using assms(1)
proof (cases rule: timed_step.cases)
  case (Take w xs i ys ts ds t es dt)
  let ?w = "taken dt (xs @ ys) w"
  have c: "wclock w + dt \<le> wclock (snd (run_job E rm_ok i ?w))" using run_job_clock [OF assms(2), of ?w] by simp
  show ?thesis
  proof (cases "due \<le> wclock w + dt")
    case True
    then show ?thesis using c by (simp add: Take added_def)
  next
    case False
    then have "waiting pid j due (w, ts)" "t \<noteq> due" using assms(3) Take by auto
    then have o: "other_job pid i" "waiting pid j due (?w, ds @ es)" using waiting_taken [OF _ Take(3-5), of pid j due dt] by blast+
    note r = run_job_other [OF o(1), of E rm_ok ?w]
    then obtain js where "wjobs (snd (run_job E rm_ok i ?w)) = wjobs ?w @ js" "list_all (other_job pid) js" by blast
    then show ?thesis using waiting_added [OF o(2)] r by (simp add: Take)
  qed
next
  case (Elsewhere w' w js ts)
  then show ?thesis using assms(3) waiting_added [of pid j due "(w, ts)" w' js] by (auto simp: added_def)
qed

lemma timed_waits:
  assumes "(timed_step E rm_ok pid)\<^sup>*\<^sup>* s s'" and "patient E" and "waiting pid j due s"
  shows "due \<le> wclock (fst s') \<or> waiting pid j due s'"
  using assms(1)
proof (induction rule: rtranclp_induct)
  case base
  show ?case using assms(3) by simp
next
  case (step s1 s2)
  from timed_step_waits [OF step.hyps(2) assms(2) step.IH] show ?case .
qed

lemma scheduled_waits:
  assumes "get_post (wdb w) pid = Some p" and "published_message_id p = None" and "redis_up E" and "dt_utc t = Some due"
    and "wclock w < due" and "length ts = length (wjobs w)" and "list_all (other_job pid) (wjobs w)"
  shows "waiting pid (publish_job pid (Some (due - wclock w))) due (schedule_timed E pid t actor (w, ts))"
proof -
  obtain u where u: "get_post (wdb (snd (schedule E pid t actor w))) pid
      = Some (p\<lparr>post_state := Scheduled, scheduled_for := Some due, updated_at := u\<rparr>)"
    "wjobs (snd (schedule E pid t actor w)) = wjobs w @ [publish_job pid (Some (due - wclock w))]"
    using schedule_accepted [OF assms(1,3-5)] by blast
  then show ?thesis
    using assms(2,7) sole_jobI [of ts "wjobs w" "[]" "[]" pid "publish_job pid (Some (due - wclock w))" due] assms(6)
    by (simp add: waiting_def still_scheduled_def schedule_timed_def added_def stamps_def publish_job_def)
qed

section \<open>Properties\<close>

text \<open>
  C8: a scheduled post waits. When a post that is not published is scheduled for a later instant, Redis is up
  and no job of the post is queued at that moment, then whichever due jobs the consumers take and whatever the other
  services do to other posts, the post stays scheduled and unpublished until its instant, and its one publish job
  stays in the queue under that instant. A job of an earlier schedule would still be there and publish it;
  that is \<open>rescheduled_post_goes_out_early\<close>.
\<close>

theorem scheduled_post_waits:
  assumes "get_post (wdb w) pid = Some p" and "published_message_id p = None" and "redis_up E" and "patient E"
    and "dt_utc t = Some due" and "wclock w < due" and "length ts = length (wjobs w)"
    and "list_all (\<lambda>j. JInt pid \<notin> set (job_args j)) (wjobs w)"
    and "(timed_step E rm_ok pid)\<^sup>*\<^sup>* (schedule_timed E pid t actor (w, ts)) (w', ts')"
  shows "due \<le> wclock w' \<or>
    (\<exists>q. get_post (wdb w') pid = Some q \<and> post_state q = Scheduled \<and> scheduled_for q = Some due \<and> published_message_id q = None) \<and>
    (publish_job pid (Some (due - wclock w)), due) \<in> set (zip (wjobs w') ts') \<and>
    length (filter (\<lambda>j. JInt pid \<in> set (job_args j)) (wjobs w')) = 1"
proof -
  let ?j = "publish_job pid (Some (due - wclock w))"
  have "list_all (other_job pid) (wjobs w)" using assms(8) by (simp add: other_job_def [abs_def])
  from timed_waits [OF assms(9,4) scheduled_waits [OF assms(1-3,5-7) this]]
  have "due \<le> wclock w' \<or> waiting pid ?j due (w', ts')" by simp
  moreover have "(?j, due) \<in> set (zip (wjobs w') ts') \<and> length (filter (\<lambda>j. JInt pid \<in> set (job_args j)) (wjobs w')) = 1"
    if "sole_job pid ?j due (wjobs w') ts'"
  proof -
    obtain xs ys ds es where w: "wjobs w' = xs @ ?j # ys" "ts' = ds @ due # es" "length ds = length xs"
        "list_all (other_job pid) (xs @ ys)"
      using \<open>sole_job pid ?j due (wjobs w') ts'\<close> unfolding sole_job_def by blast
    have "filter (\<lambda>j. JInt pid \<in> set (job_args j)) zs = []" if "list_all (other_job pid) zs" for zs
      using that by (induction zs) (simp_all add: other_job_def)
    then show ?thesis using w by (simp add: publish_job_def)
  qed
  ultimately show ?thesis by (auto simp: waiting_def still_scheduled_def)
qed

theorem scheduled_post_waits_witness:
  "\<exists>w' ts'. timed_step sample_env (\<lambda>f. True) 9 (schedule_timed sample_env 9 noon editor (fresh_world\<lparr>wjobs := [alert_job (lit ''up'')]\<rparr>, [0])) (w', ts') \<and>
     (publish_job 9 (Some (days 1)), days 1001) \<in> set (zip (wjobs w') ts')"
proof -
  let ?w = "fresh_world\<lparr>wjobs := [alert_job (lit ''up'')]\<rparr>"
  let ?j = "publish_job 9 (Some (days 1001 - wclock ?w))"
  let ?s = "schedule_timed sample_env 9 noon editor (?w, [0])"
  have c: "wclock ?w = days 1000" by (simp add: fresh_world_def sample_world_def)
  have g: "get_post (wdb ?w) 9 = Some hashed_post" and n: "published_message_id hashed_post = None"
    using fresh_guard by (simp_all add: publish_guard_Inr)
  have up: "redis_up sample_env" using sample_redis_up by (simp add: redis_up_def)
  have pat: "patient sample_env" by (simp add: patient_def sample_defs seconds_def)
  have d: "dt_utc noon = Some (days 1001)" by code_simp
  have lt: "wclock ?w < days 1001" by (simp add: c days_def)
  have l: "length [0::time] = length (wjobs ?w)" by simp
  have o: "list_all (\<lambda>j. JInt 9 \<notin> set (job_args j)) (wjobs ?w)" by (simp add: alert_job_def)
  obtain u where u: "wjobs (fst ?s) = [] @ alert_job (lit ''up'') # [?j]" "snd ?s = [] @ 0 # [days 1001]" "wclock (fst ?s) = days 1000"
    using schedule_accepted [OF g up d lt, of editor] by (auto simp: schedule_timed_def added_def stamps_def publish_job_def c)
  define w1 where "w1 = snd (run_job sample_env (\<lambda>f. True) (alert_job (lit ''up'')) (taken 0 ([] @ [?j]) (fst ?s)))"
  obtain w' ts' where s': "added (taken 0 ([] @ [?j]) (fst ?s), [] @ [days 1001]) w1 = (w', ts')" by fastforce
  have "timed_step sample_env (\<lambda>f. True) 9 (fst ?s, snd ?s) (w', ts')"
    unfolding s' [symmetric] w1_def by (rule timed_step.Take [OF u(1,2)]) (simp_all add: u(3) days_def)
  then have step: "timed_step sample_env (\<lambda>f. True) 9 ?s (w', ts')" by simp
  have r: "run_job sample_env rm (alert_job (lit ''up'')) w2 = alert sample_env (lit ''up'') w2" for rm w2
    by (simp add: run_job_def alert_job_def)
  have w': "wclock w' = days 1000" using s' by (auto simp: added_def w1_def r alert_other u(3))
  from step have "(timed_step sample_env (\<lambda>f. True) 9)\<^sup>*\<^sup>* ?s (w', ts')" by (rule r_into_rtranclp)
  from scheduled_post_waits [OF g n up pat d lt l o this]
  have "(?j, days 1001) \<in> set (zip (wjobs w') ts')" using w' by (simp add: days_def)
  then show ?thesis using step c by (auto simp: days_def)
qed

text \<open>
  Nobody takes the job of an earlier schedule off the queue, and the publish job does not look at the schedule: a
  post that is scheduled again, for later, can be delivered at the first instant.
\<close>

theorem rescheduled_post_goes_out_early:
  assumes "publishable (wdb w) (cfg E) pid x" and "x \<noteq> []" and "accepting E" and "redis_up E" and "wjobs w = []"
    and "dt_utc t1 = Some due1" and "dt_utc t2 = Some due2" and "wclock w < due1" and "due1 < due2"
  shows "\<exists>s. timed_step E rm_ok pid (schedule_timed E pid t2 a2 (schedule_timed E pid t1 a1 (w, []))) s \<and>
    s = added (taken (due1 - wclock w) (wjobs (fst s)) (fst (schedule_timed E pid t2 a2 (schedule_timed E pid t1 a1 (w, [])))), [due2]) (fst s) \<and>
    delivered_once E x pid w (fst s)"
proof -
  obtain p where p: "get_post (wdb w) pid = Some p" "published_message_id p = None" "get_channel (wdb w) (source_channel_id p) \<noteq> None"
      "truthy (dedupe_hash p)" "\<not> dedupe_exists (wdb w) (the (dedupe_hash p))" "sendable (cfg E) (raw_media_refs p) = []" "publish_text p = x"
    using assms(1) by (auto simp: publishable_def)
  let ?w1 = "snd (schedule E pid t1 a1 w)"
  obtain u1 where u1: "get_post (wdb ?w1) pid = Some (p\<lparr>post_state := Scheduled, scheduled_for := Some due1, updated_at := u1\<rparr>)"
    "wjobs ?w1 = [publish_job pid (Some (due1 - wclock w))]" "wclock ?w1 = wclock w" "wcalls ?w1 = wcalls w"
    "source_channels (wdb ?w1) = source_channels (wdb w)" "dedupe_rows (wdb ?w1) = dedupe_rows (wdb w)"
    using schedule_accepted [OF p(1) assms(4,6,8), of a1] assms(5) by auto
  have "wclock ?w1 < due2" using u1(3) assms(8,9) by simp
  let ?w2 = "snd (schedule E pid t2 a2 ?w1)"
  obtain u2 where u2: "get_post (wdb ?w2) pid
      = Some (p\<lparr>post_state := Scheduled, scheduled_for := Some due1, updated_at := u1, post_state := Scheduled, scheduled_for := Some due2, updated_at := u2\<rparr>)"
    "wjobs ?w2 = [publish_job pid (Some (due1 - wclock w)), publish_job pid (Some (due2 - wclock w))]" "wclock ?w2 = wclock w"
    "wcalls ?w2 = wcalls w" "source_channels (wdb ?w2) = source_channels (wdb w)" "dedupe_rows (wdb ?w2) = dedupe_rows (wdb w)"
    using schedule_accepted [OF u1(1) assms(4,7) \<open>wclock ?w1 < due2\<close>, of a2] u1 by auto
  let ?j2 = "publish_job pid (Some (due2 - wclock w))"
  let ?t = "taken (due1 - wclock w) [?j2] ?w2"
  have s2: "schedule_timed E pid t2 a2 (schedule_timed E pid t1 a1 (w, [])) = (?w2, [due1, due2])"
    using u1(2,3) u2(2) assms(5) by (simp add: schedule_timed_def added_def stamps_def publish_job_def)
  have q: "wjobs (snd (publish E pid ?t)) = [?j2]" by (simp add: publish_jobs)
  have "dedupe_exists (wdb ?w2) = dedupe_exists (wdb w)" using u2(6) by (rule dedupe_exists_cong)
  then have "publishable (wdb ?t) (cfg E) pid x"
    using p u2 by (simp add: publishable_def SKIP_STATES_def publish_text_def)
  from publish_delivers [OF this assms(3,2)] have "delivered_once E x pid w (snd (publish E pid ?t))"
    by (simp add: delivered_once_def u2(4))
  moreover have "timed_step E rm_ok pid (?w2, [due1, due2]) (added (?t, [due2]) (snd (publish E pid ?t)))"
    using timed_step.Take [of ?w2 "[]" "publish_job pid (Some (due1 - wclock w))" "[?j2]" "[due1, due2]" "[]" due1 "[due2]"
        "due1 - wclock w" E rm_ok pid] u2(2,3) assms(8) by simp
  ultimately show ?thesis unfolding s2 using q by (intro exI [of _ "added (?t, [due2]) (snd (publish E pid ?t))"]) (simp add: added_def)
qed

end
