(* ===== verification/Ops.thy ===== *)
theory Ops
  imports System
begin

text \<open>
  Operations: the health endpoint of the services
  (\<open>shared/health.py\<close>), the queue gauge (\<open>api/metrics.py\<close>, \<open>shared/tasks.py\<close>) and the start-up
  checks and CORS policy of the API (\<open>api/main.py\<close>).
\<close>

section \<open>Health\<close>

text \<open>A check that raises is recorded under the class name of its exception.\<close>

type_synonym check = "pystr + bool \<times> pystr"

definition check_result :: "check \<Rightarrow> bool \<times> pystr" where
  "check_result c = (case c of
      Inl cls \<Rightarrow> (False, lit ''error:'' @ cls)
    | Inr (True, detail) \<Rightarrow> (True, lit ''ok'')
    | Inr (False, detail) \<Rightarrow> (False, detail))"

definition healthz :: "check \<Rightarrow> check \<Rightarrow> (pystr \<times> check) list \<Rightarrow> nat \<times> pystr \<times> (pystr \<times> pystr) list" where
  "healthz db_check redis_check extra =
     (let results = (lit ''db'', check_result db_check) # (lit ''redis'', check_result redis_check)
                      # map (\<lambda>(n, c). (n, check_result c)) extra;
          ok = list_all (\<lambda>(n, r). fst r) results
      in (if ok then 200 else 503, if ok then lit ''ok'' else lit ''degraded'',
          fold (\<lambda>(n, r) m. AList.update n (snd r) m) results []))"

text \<open>
  The server of a service: its name, its port and its extra checks, none unless they are given. It has one route,
  which serves \<open>GET\<close> and, as aiohttp adds it, \<open>HEAD\<close>.
\<close>

record health_app =
  ha_service :: pystr
  ha_port :: int
  ha_checks :: "(pystr \<times> check) list"

definition start_health_server :: "pystr \<Rightarrow> int \<Rightarrow> (pystr \<times> check) list option \<Rightarrow> pystr \<times> health_app" where
  "start_health_server service port extra =
     (lit ''healthz:'' @ service,
      \<lparr>ha_service = service, ha_port = port, ha_checks = (case extra of None \<Rightarrow> [] | Some cs \<Rightarrow> cs)\<rparr>)"

record health_body =
  hb_status :: pystr
  hb_service :: pystr
  hb_checks :: "(pystr \<times> pystr) list"

definition run_health :: "health_app \<Rightarrow> check \<Rightarrow> check \<Rightarrow> pystr \<Rightarrow> pystr \<Rightarrow> nat \<times> health_body option" where
  "run_health app db_check redis_check method path =
     (if path \<noteq> lit ''/healthz'' then (404, None)
      else if method \<notin> {lit ''GET'', lit ''HEAD''} then (405, None)
      else let (code, status, checks) = healthz db_check redis_check (ha_checks app)
           in (code, Some \<lparr>hb_status = status, hb_service = ha_service app, hb_checks = checks\<rparr>))"

text \<open>The extra check of the user account.\<close>

definition mtproto_check :: "time \<Rightarrow> liveness \<Rightarrow> check" where
  "mtproto_check now st = Inr (is_mtproto_healthy now st)"

section \<open>Queue gauge\<close>

definition queued_job_count :: "env \<Rightarrow> bool \<Rightarrow> queue \<Rightarrow> world \<Rightarrow> int \<times> world" where
  "queued_job_count E zcard_ok q w =
     (case get_pool E w of
        (Inl e, w1) \<Rightarrow> (0, w1)
      | (Inr u, w1) \<Rightarrow> (if zcard_ok then int (length (filter (\<lambda>j. job_queue j = q) (wjobs w1))) else 0, w1))"

definition refresh_queue_depths :: "env \<Rightarrow> bool \<Rightarrow> world \<Rightarrow> (pystr \<times> int) list \<times> world" where
  "refresh_queue_depths E zcard_ok w =
     (let (n1, w1) = queued_job_count E zcard_ok QUEUE_WORKER w;
          (n2, w2) = queued_job_count E zcard_ok QUEUE_BOT w1
      in ([(lit ''worker'', n1), (lit ''bot'', n2)], w2))"

section \<open>Start of the API\<close>

definition lifespan :: "settings \<Rightarrow> unit result" where
  "lifespan s = require_auth_secret s"

definition cors_policy :: "settings \<Rightarrow> pystr list \<times> bool" where
  "cors_policy s = (let origins = cors_origin_list s in (origins, lit ''*'' \<notin> set origins))"

section \<open>Properties\<close>

text \<open>
  the health endpoint answers 200 exactly when the database, Redis and every extra check pass; an
  exception in a check never escapes, it only degrades the answer.
\<close>

theorem healthz_status:
  "fst (healthz db rd extra) = (if (\<exists>x y. db = Inr (True, x) \<and> rd = Inr (True, y)) \<and>
      (\<forall>(n, c) \<in> set extra. \<exists>z. c = Inr (True, z)) then 200 else 503)"
proof -
  have r: "fst (check_result c) = (\<exists>z. c = Inr (True, z))" for c
    by (auto simp: check_result_def split: sum.split bool.split)
  have "(\<forall>x\<in>set extra. case x of (n, c) \<Rightarrow> fst (check_result c)) =
        (\<forall>(n, c)\<in>set extra. \<exists>z. c = Inr (True, z))"
    by (intro ball_cong refl) (simp add: r split: prod.split)
  moreover have "fst (healthz db rd extra) = (if fst (check_result db) \<and> fst (check_result rd) \<and>
      (\<forall>x\<in>set extra. case x of (n, c) \<Rightarrow> fst (check_result c)) then 200 else 503)"
    by (simp add: healthz_def Let_def list_all_iff case_prod_beta)
  ultimately show ?thesis by (simp add: r)
qed

text \<open>The user account is reported degraded exactly when its session, the database or Redis is not well.\<close>

theorem userbot_health:
  "fst (run_health (snd (start_health_server (lit ''userbot'') port (Some [(lit ''mtproto'', mtproto_check now st)]))) db rd
      (lit ''GET'') (lit ''/healthz''))
   = (if (\<exists>x y. db = Inr (True, x) \<and> rd = Inr (True, y)) \<and> fst (is_mtproto_healthy now st) then 200 else 503)"
proof -
  have "fst (healthz db rd [(lit ''mtproto'', mtproto_check now st)]) =
      (if (\<exists>x y. db = Inr (True, x) \<and> rd = Inr (True, y)) \<and> fst (is_mtproto_healthy now st) then 200 else 503)"
    unfolding healthz_status by (cases "is_mtproto_healthy now st") (auto simp: mtproto_check_def)
  then show ?thesis by (simp add: run_health_def start_health_server_def case_prod_beta)
qed

end
