(* ===== verification/Startup.thy ===== *)
theory Startup
  imports Userbot Ops
begin

text \<open>
  How the processes start: the clients and what they refuse (\<open>bot/client.py\<close>, \<open>userbot/client.py\<close>), the
  user account up to its listening state (\<open>run\<close> in \<open>userbot/main.py\<close>), the worker's start-up hook
  (\<open>worker/main.py\<close>), and the request counters of the API (\<open>api/metrics.py\<close>).
\<close>

section \<open>Clients\<close>

definition session_path :: "settings \<Rightarrow> pystr" where
  "session_path s = path_join (session_dir s) (telegram_session_name s @ lit ''.session'')"

text \<open>\<open>str.removesuffix\<close>.\<close>

definition removesuffix :: "pystr \<Rightarrow> pystr \<Rightarrow> pystr" where
  "removesuffix suf s =
     (if suf \<noteq> [] \<and> drop (length s - length suf) s = suf then take (length s - length suf) s else s)"

text \<open>The session name and the credentials that the library client is made with.\<close>

definition build_client :: "settings \<Rightarrow> (pystr \<times> int \<times> pystr) result" where
  "build_client s =
     (if telegram_api_id s = 0 \<or> telegram_api_hash s = []
      then Inl (RuntimeError (lit ''TELEGRAM_API_ID / TELEGRAM_API_HASH are required for the userbot''))
      else Inr (removesuffix (lit ''.session'') (session_path s), telegram_api_id s, telegram_api_hash s))"

text \<open>The bot: its token, and the local server it talks to, or none for the cloud.\<close>

definition build_bot :: "settings \<Rightarrow> pystr \<Rightarrow> pystr \<times> pystr option" where
  "build_bot s token = (token, if bot_api_server_url s \<noteq> [] then Some (bot_api_server_url s) else None)"

text \<open>The process-wide instance is built on first use.\<close>

definition get_bot :: "settings \<Rightarrow> (pystr \<times> pystr option) option \<Rightarrow> (pystr \<times> pystr option) result" where
  "get_bot s b0 =
     (case b0 of
        Some b \<Rightarrow> Inr b
      | None \<Rightarrow>
          if bot_token s = [] then Inl (RuntimeError (lit ''BOT_TOKEN is required for the bot service''))
          else Inr (build_bot s (bot_token s)))"

section \<open>The user account\<close>

text \<open>
  What signing in gives: the account is there, and the client says whether it is connected; one of the
  fatal errors, with its class name; or another exception.
\<close>

datatype sign_in = Signed_in bool | Fatal_error pystr | Sign_in_raises exn

text \<open>How \<open>run\<close> gets on: it raises, it exits with status 1, or it listens to the channels of a map.\<close>

datatype run_state = Raised exn | System_exit | Listening channel_map liveness

definition cannot_start_text :: "pystr \<Rightarrow> pystr" where
  "cannot_start_text name = [128680] @ lit '' Userbot cannot start: '' @ name @ [32, 8212, 32]
     @ lit ''manual re-login required (docker compose run --rm -it userbot python -m userbot.login)''"

definition connected_state :: "bool \<Rightarrow> time \<Rightarrow> liveness" where
  "connected_state connected now = \<lparr>mt_connected = connected, mt_authorized = True, mt_last_ok = Some now,
     mt_failure_count = 0, mt_failure_reason = []\<rparr>"

definition run_userbot :: "env \<Rightarrow> telethon \<Rightarrow> sign_in \<Rightarrow> world \<Rightarrow> run_state \<times> world" where
  "run_userbot E T si w =
     (if bot_token (cfg E) = [] \<and> telegram_api_id (cfg E) = 0
      then (Raised (RuntimeError (lit ''userbot requires TELEGRAM_API_ID/TELEGRAM_API_HASH'')), w)
      else (case build_client (cfg E) of
              Inl e \<Rightarrow> (Raised e, w)
            | Inr client \<Rightarrow>
                (case si of
                   Fatal_error name \<Rightarrow> (System_exit, try_alert E (cannot_start_text name) w)
                 | Sign_in_raises e \<Rightarrow> (Raised e, w)
                 | Signed_in connected \<Rightarrow>
                     let st = connected_state connected (wclock w); (cm, w1) = start E T w
                     in (Listening cm st, w1))))"

section \<open>The worker\<close>

text \<open>Overdue posts are queued once the worker starts; a failure of that is logged.\<close>

definition on_startup :: "env \<Rightarrow> world \<Rightarrow> world" where
  "on_startup E w = snd (reconcile_scheduled E w)"

section \<open>Request counters\<close>

text \<open>The counter of requests, by method, route template and status.\<close>

type_synonym counters = "((pystr \<times> pystr \<times> int) \<times> nat) list"

definition EXEMPT_PATHS :: "pystr list" where
  "EXEMPT_PATHS = [lit ''/metrics'', lit ''/healthz'', lit ''/openapi.json'', lit ''/docs'', lit ''/docs/oauth2-redirect'']"

definition route_template :: "pystr option \<Rightarrow> pystr" where
  "route_template route = (case route of None \<Rightarrow> lit ''unmatched'' | Some p \<Rightarrow> if p = [] then lit ''unmatched'' else p)"

definition reading :: "counters \<Rightarrow> pystr \<times> pystr \<times> int \<Rightarrow> nat" where
  "reading m k = (case map_of m k of None \<Rightarrow> 0 | Some n \<Rightarrow> n)"

definition inc :: "pystr \<times> pystr \<times> int \<Rightarrow> counters \<Rightarrow> counters" where
  "inc k m = AList.update k (reading m k + 1) m"

record http =
  h_method :: pystr
  h_path :: pystr
  h_route :: "pystr option"

text \<open>One request through the middleware: what the application answers, or the exception that leaves it.\<close>

definition dispatch :: "http \<Rightarrow> int result \<Rightarrow> counters \<Rightarrow> int result \<times> counters" where
  "dispatch rq ans m =
     (case ans of
        Inl e \<Rightarrow> (Inl e, m)
      | Inr status \<Rightarrow>
          (Inr status,
           if List.member EXEMPT_PATHS (h_path rq) then m
           else inc (h_method rq, route_template (h_route rq), status) m))"

fun dispatch_all :: "(http \<times> int result) list \<Rightarrow> counters \<Rightarrow> counters" where
  "dispatch_all [] m = m"
| "dispatch_all ((rq, ans) # rs) m = dispatch_all rs (snd (dispatch rq ans m))"

section \<open>Facts\<close>

lemma reading_inc: "reading (inc k m) k' = reading m k' + (if k' = k then 1 else 0)"
  by (simp add: reading_def inc_def update_conv)

definition counted :: "http \<times> int result \<Rightarrow> (pystr \<times> pystr \<times> int) option" where
  "counted ra = (case snd ra of Inl e \<Rightarrow> None
     | Inr status \<Rightarrow> if List.member EXEMPT_PATHS (h_path (fst ra)) then None
        else Some (h_method (fst ra), route_template (h_route (fst ra)), status))"

text \<open>
  Each request that is answered and not exempt is counted once, under its own method, route and status; a
  request that ends in an exception is not counted at all.
\<close>

theorem requests_counted_once:
  "reading (dispatch_all rs m) k = reading m k + length (filter (\<lambda>ra. counted ra = Some k) rs)"
proof (induction rs arbitrary: m)
  case (Cons ra rs)
  obtain rq a where ra: "ra = (rq, a)" by (cases ra)
  have "reading (snd (dispatch rq a m)) k = reading m k + (if counted ra = Some k then 1 else 0)"
    by (simp add: ra dispatch_def counted_def reading_inc split: sum.split)
  then show ?case by (simp add: ra Cons)
qed simp

text \<open>A session that was signed in and is connected is reported healthy until the first probe is overdue.\<close>

theorem started_session_is_healthy:
  assumes "now \<le> t" and "t \<le> now + seconds WATCHDOG_STALE_SECONDS"
  shows "is_mtproto_healthy t (connected_state c now) = (if c then (True, lit ''ok'') else (False, lit ''disconnected''))"
  using assms by (simp add: is_mtproto_healthy_def connected_state_def)

lemma try_alert_frame: "wdb (try_alert E msg w) = wdb w" "wcalls (try_alert E msg w) = wcalls w"
  by (simp_all add: try_alert_def enqueue_alert_def)

lemma try_alert_jobs: "wjobs (try_alert E msg w) \<in> {wjobs w, wjobs w @ [alert_job msg]}"
  using enqueue_job_cases [of E "alert_job msg" w] by (auto simp: try_alert_def enqueue_alert_def)

text \<open>
  A start that fails stores nothing and calls nobody, and puts at most one alert into the queues, which names
  the error; a start that succeeds is exactly recovery, mapping and backfill.
\<close>

theorem run_userbot_outcome:
  "case run_userbot E T si w of
     (Listening cm st, w') \<Rightarrow> (cm, w') = start E T w
   | (System_exit, w') \<Rightarrow> \<exists>name. si = Fatal_error name \<and> wdb w' = wdb w \<and> wcalls w' = wcalls w \<and>
        wjobs w' \<in> {wjobs w, wjobs w @ [alert_job (cannot_start_text name)]}
   | (Raised e, w') \<Rightarrow> w' = w"
  by (auto simp: run_userbot_def Let_def try_alert_frame try_alert_jobs build_client_def case_prod_beta split: sign_in.split)
     (use try_alert_jobs in blast)

end
