(* ===== verification/Recovery.thy ===== *)
theory Recovery
  imports Schedule Startup
begin

text \<open>
  What recovery does not recover: a publish job that is interrupted after its claim (the process is killed, or the job
  runs into its time limit, which cancels it) leaves the post in the state \<open>publishing\<close>. Everything the services do by
  themselves, that is the consumers, the start-up hook of the worker, and the ingestion, the backfill, the recovery and the
  watchdog of the user account, passes it by.
\<close>

section \<open>What the services do by themselves\<close>

inductive background :: "env \<Rightarrow> telethon \<Rightarrow> (pystr \<Rightarrow> bool) \<Rightarrow> world \<Rightarrow> world \<Rightarrow> bool" for E T rm_ok where
  Consume: "consume E rm_ok w w' \<Longrightarrow> background E T rm_ok w w'"
| Worker_start: "background E T rm_ok w (on_startup E w)"
| Account_start: "background E T rm_ok w (snd (reconcile_pending E w))"
| Live_message: "background E T rm_ok w (on_new_message E T cm chat m w)"
| Backfill: "background E T rm_ok w (snd (backfill E T ch w))"
| Watchdog_alert: "background E T rm_ok w (try_alert E msg w)"
| Pause: "0 \<le> dt \<Longrightarrow> background E T rm_ok w (sleep dt w)"

text \<open>A post that was claimed and not published; the normalize job can still find its text to be a duplicate.\<close>

definition stuck :: "int \<Rightarrow> db \<Rightarrow> bool" where
  "stuck pid d \<longleftrightarrow> (\<exists>p. get_post d pid = Some p \<and> post_state p \<in> {Publishing, Rejected} \<and> published_message_id p = None)"

lemma stuck_guard: "stuck pid d \<Longrightarrow> \<exists>r. publish_guard d pid = Inl r"
  by (auto simp: stuck_def publish_guard_def SKIP_STATES_def)

lemma stuck_publish: "stuck pid (wdb w) \<Longrightarrow> snd (publish E pid w) = w"
  using stuck_guard publish_skip by fastforce

lemma stuck_record: "stuck pid (wdb w) \<Longrightarrow> stuck pid (wdb (record_draft E pid m w))"
  using record_draft_get [of w pid] by (fastforce simp: stuck_def)

lemma stuck_draft: "stuck pid (wdb w) \<Longrightarrow> stuck pid (wdb (snd (post_draft E pid w)))"
  by (auto simp: post_draft_def Let_def case_prod_beta stuck_record split: sum.split option.split)

lemma stuck_normalize:
  assumes "stuck pid (wdb w)" shows "stuck pid (wdb (snd (normalize E pid w)))"
  using normalize_cases [of E pid w]
proof
  assume "normalize E pid w = (fst (normalize E pid w), w)"
  then show ?thesis using assms by (metis snd_conv)
next
  assume "\<exists>post ch n. get_post (wdb w) pid = Some post \<and> post_state post \<notin> {Published, Rejected} \<and>
      get_channel (wdb w) (source_channel_id post) = Some ch \<and>
      normalize E pid w = normalize_write E ch post n (normalize_tags ch) w"
  then obtain p ch n where p: "get_post (wdb w) pid = Some p" "normalize E pid w = normalize_write E ch p n (normalize_tags ch) w" by blast
  moreover have "post_id p = pid" using p(1) by (rule tget_key)
  ultimately show ?thesis
    using assms normalize_write_post [of w p E ch n "normalize_tags ch"] by (auto simp: stuck_def split: if_splits)
qed

text \<open>No job changes this, whichever post it is for.\<close>

lemma run_job_about:
  assumes "\<not> other_job pid j"
  obtains "snd (run_job E rm_ok j w) = w" | "run_job E rm_ok j w = normalize E pid w" | "run_job E rm_ok j w = publish E pid w"
    | "run_job E rm_ok j w = post_draft E pid w"
proof -
  obtain a as where j: "job_args j = a # as" "JInt pid \<in> set (a # as)"
    using assms by (cases "job_args j") (simp_all add: other_job_def)
  show thesis
  proof (cases as)
    case Nil
    then have "job_args j = [JInt pid]" using j by simp
    then show ?thesis using that by (cases "job_name j") (simp_all add: run_job_def)
  next
    case (Cons b bs)
    then have "snd (run_job E rm_ok j w) = w" using j(1) by (cases "job_name j"; cases a) (simp_all add: run_job_def)
    then show ?thesis by (rule that)
  qed
qed

lemma stuck_job:
  assumes "stuck pid (wdb w)" shows "stuck pid (wdb (snd (run_job E rm_ok j w)))"
proof (cases "other_job pid j")
  case True
  from run_job_other [OF this, of E rm_ok w] assms show ?thesis by (simp add: stuck_def)
next
  case False
  then show ?thesis
    by (rule run_job_about [of pid j E rm_ok w])
      (simp_all only: assms stuck_normalize [OF assms] stuck_publish [OF assms] stuck_draft [OF assms])
qed

text \<open>A message that comes in adds a row, and media to it.\<close>

lemma stuck_attach:
  assumes "stuck pid d" shows "stuck pid (attach_media now k refs d)"
proof (cases "get_post d k")
  case (Some q)
  have k: "post_id q = k" by (rule tget_key [OF Some])
  have "stuck pid (save_post now (q\<lparr>raw_media_refs := refs\<rparr>) d)"
  proof (cases "k = pid")
    case True
    then show ?thesis using assms Some get_post_save [OF Some, of "q\<lparr>raw_media_refs := refs\<rparr>" now] k by (auto simp: stuck_def)
  next
    case False
    then show ?thesis using assms k get_post_save_other [of pid "q\<lparr>raw_media_refs := refs\<rparr>" now d] by (simp add: stuck_def)
  qed
  then show ?thesis by (simp add: stuck_def attach_media_def Let_def Some)
qed (simp add: attach_media_def assms)

lemma stuck_ingest:
  assumes "stuck pid (wdb w)" shows "stuck pid (wdb (snd (ingest_message E T m ch w)))"
proof (cases "insert_post (wclock w) ch m (wdb w)")
  case None
  then show ?thesis by (simp add: ingest_refused assms)
next
  case (Some pd)
  then obtain k d1 where i: "insert_post (wclock w) ch m (wdb w) = Some (k, d1)" by (cases pd) auto
  have "find f xs = Some p \<Longrightarrow> find f (xs @ ys) = Some p" for f :: "post \<Rightarrow> bool" and xs ys p by (induction xs) auto
  then have "stuck pid d1" using assms i insert_post_Some [OF i] by (fastforce simp: stuck_def tget_def)
  with ingest_wdb [of w ch m E T] i show ?thesis by (auto simp: stuck_attach)
qed

lemma stuck_live:
  assumes "stuck pid (wdb w)" shows "stuck pid (wdb (on_new_message E T cm chat m w))"
proof (cases "map_of cm chat")
  case (Some ch)
  obtain r w1 where i: "ingest_message E T m ch w = (r, w1)" by fastforce
  have one: "stuck pid (wdb w1)" using stuck_ingest [OF assms, of E T m ch] i by simp
  have "stuck pid (wdb (snd (ingest_message E T m ch (sleep t w1))))" for t
    using stuck_ingest [of pid "sleep t w1" E T m ch] one by simp
  then show ?thesis using one by (auto simp: on_new_message_def Some i split: sum.split exn.split)
qed (simp add: on_new_message_def assms)

lemma stuck_backfill: "stuck pid (wdb w) \<Longrightarrow> stuck pid (wdb (snd (backfill_each E T ch ms n w)))"
proof (induction ms arbitrary: n w)
  case (Cons m ms)
  obtain r w1 where i: "ingest_message E T m ch w = (r, w1)" by fastforce
  have one: "stuck pid (wdb w1)" using stuck_ingest [OF Cons.prems, of E T m ch] i by simp
  have "stuck pid (wdb (snd (backfill_each E T ch ms k (sleep t w1))))" for t k
    using Cons.IH [of "sleep t w1" k] one by simp
  then show ?case using Cons.IH [OF one] by (simp add: i split: sum.split exn.split)
qed simp

lemma stuck_background: "background E T rm_ok w w' \<Longrightarrow> stuck pid (wdb w) \<Longrightarrow> stuck pid (wdb w')"
proof (induction rule: background.induct)
  case (Consume w w')
  then show ?case by (auto elim!: consumeE intro!: stuck_job)
qed (simp_all add: on_startup_def reconcile_scheduled_def reconcile_pending_def stuck_live backfill_def stuck_backfill
    try_alert_def enqueue_alert_def)

lemma stuck_runs: "(background E T rm_ok)\<^sup>*\<^sup>* w w' \<Longrightarrow> stuck pid (wdb w) \<Longrightarrow> stuck pid (wdb w')"
  by (induction rule: rtranclp_induct) (auto intro: stuck_background)

section \<open>Properties\<close>

text \<open>
  an interrupted publish job is not made up for. When a job stops right after its claim, or after it has reserved
  the hash, then nothing that the services do by themselves, in whatever order and for how long, publishes the post:
  its row stays in the state \<open>publishing\<close>, or is rejected as a duplicate, and every further publish job leaves the world as it is.
  The document on updates (\<open>docs/FLEET_UPDATES.md\<close>) promises the opposite.
\<close>

theorem interrupted_publish_is_stuck:
  assumes "publish_guard (wdb w) pid = Inr p" and "w1 \<in> {w\<lparr>wdb := claim_post (wclock w) p (wdb w)\<rparr>, reserved_world w p}"
    and "(background E T rm_ok)\<^sup>*\<^sup>* w1 w2"
  shows "(\<exists>q. get_post (wdb w2) pid = Some q \<and> post_state q \<in> {Publishing, Rejected} \<and> published_message_id q = None) \<and>
    snd (publish E pid w2) = w2"
proof -
  have p: "get_post (wdb w) pid = Some p" "published_message_id p = None" using assms(1) by (simp_all add: publish_guard_Inr)
  have "stuck pid (wdb w1)"
    using assms(2) p(2) claim_post_get [OF p(1), of "wclock w"] reserved_post [OF assms(1)] by (auto simp: stuck_def)
  from stuck_runs [OF assms(3) this] show ?thesis using stuck_publish by (simp add: stuck_def)
qed

theorem interrupted_publish_is_stuck_witness:
  "\<exists>w2. background sample_env offline (\<lambda>f. True) (reserved_world fresh_world hashed_post) w2 \<and> wclock w2 = days 1001 \<and>
     snd (publish sample_env 9 w2) = w2"
proof -
  let ?w1 = "reserved_world fresh_world hashed_post"
  let ?w2 = "sleep (days 1) ?w1"
  have step: "background sample_env offline (\<lambda>f. True) ?w1 ?w2" by (rule background.Pause) (simp add: days_def)
  then have "(background sample_env offline (\<lambda>f. True))\<^sup>*\<^sup>* ?w1 ?w2" by (rule r_into_rtranclp)
  from interrupted_publish_is_stuck [OF fresh_guard _ this] have "snd (publish sample_env 9 ?w2) = ?w2" by simp
  moreover have "wclock ?w2 = days 1001" by (simp add: reserved_world_def fresh_world_def sample_world_def days_def)
  ultimately show ?thesis using step by blast
qed

text \<open>
  Nor does an approval help when the hash was reserved: the publish job that it queues takes the reservation for
  another post's and rejects the post.
\<close>

theorem approved_after_interruption_is_duplicate:
  assumes "publish_guard (wdb w) pid = Inr p" and "get_channel (wdb w) (source_channel_id p) = Some ch"
    and "truthy (dedupe_hash p)"
  shows "fst (publish E pid (snd (approve E pid ids actor (reserved_world w p)))) = Inr (lit ''duplicate'')"
proof -
  let ?w1 = "reserved_world w p"
  obtain u where q: "get_post (wdb ?w1) pid = Some (p\<lparr>post_state := Publishing, updated_at := u\<rparr>)"
    using reserved_post [OF assms(1)] by blast
  define a where "a = with_tags ids (p\<lparr>post_state := Publishing, updated_at := u\<rparr>)\<lparr>post_state := Approved, scheduled_for := None\<rparr>"
  define w2 where "w2 = snd (approve E pid ids actor ?w1)"
  have id: "post_id a = pid" using tget_key [OF q] by (simp add: a_def)
  obtain v where r: "get_post (wdb w2) pid = Some (a\<lparr>updated_at := v\<rparr>)"
    using commit_decision_post [of ?w1 a _ actor Ev_approved] q id approve_eq [OF q a_def, of E actor]
    by (force simp: w2_def enqueue_publish_def)
  have keeps: "dedupe_rows (wdb w2) = dedupe_rows (wdb ?w1)" "source_channels (wdb w2) = source_channels (wdb w)"
    using approve_eq [OF q a_def, of E actor] by (simp_all add: w2_def enqueue_publish_def commit_decision_def reserved_world_def)
  have "dedupe_exists (wdb w2) (the (dedupe_hash p))"
    using reserved_exists [OF assms(3), of w] dedupe_exists_cong [OF keeps(1)] by simp
  moreover have h: "dedupe_hash (with_tags ids q) = dedupe_hash q" for q by (simp add: with_tags_def split: option.split)
  have "publish_guard (wdb w2) pid = Inr (a\<lparr>updated_at := v\<rparr>)"
    using r assms(1) by (simp add: publish_guard_Inr a_def SKIP_STATES_def)
  ultimately have "fst (publish E pid w2) = Inr (lit ''duplicate'')"
    using publish_duplicate_outcome [of w2 pid "a\<lparr>updated_at := v\<rparr>" ch E] assms(2,3) keeps(2) h by (simp add: a_def)
  then show ?thesis by (simp add: w2_def)
qed

end
