(* ===== verification/SendQueue.thy ===== *)
theory SendQueue
  imports PublishRun "HOL-Library.Sublist"
begin

text \<open>
  The send lock of \<open>bot/publisher.py\<close>: publish jobs that run side by side take turns at the destination channel. A
  job waits for the lock in the order of arrival, sleeps for the configured spacing while it holds it, makes its
  calls, makes them once more after the wait that flood control asks for, and gives the lock back.
\<close>

section \<open>Turns\<close>

text \<open>
  Where a job is: before the lock, in line, asleep in its turn, at its calls (the first or the second time), asleep
  after a flood wait, or past the lock.
\<close>

datatype turn = Outside | In_line | Spacing time | Calling bool | Flood_wait time | Over

text \<open>The lock with its line of waiters, the jobs in the order of their arrival, and the calls with their instants.\<close>

record line =
  l_holder :: "nat option"
  l_waiters :: "nat list"
  l_turns :: "nat \<Rightarrow> turn"
  l_arrived :: "nat list"
  l_calls :: "(nat \<times> time) list"
  l_now :: time

definition turn_of :: "line \<Rightarrow> nat \<Rightarrow> turn \<Rightarrow> line" where
  "turn_of L j t = L\<lparr>l_turns := (l_turns L)(j := t)\<rparr>"

text \<open>
  The lock of the standard library is given to a newcomer when nobody holds it or waits for it, and to the first of
  the line otherwise. A job that is cancelled leaves the line, or gives the lock back.
\<close>

inductive line_step :: "time \<Rightarrow> line \<Rightarrow> line \<Rightarrow> bool" for spacing where
  Take_lock: "l_turns L j = Outside \<Longrightarrow> l_holder L = None \<Longrightarrow> l_waiters L = [] \<Longrightarrow>
    line_step spacing L ((turn_of L j (Spacing (l_now L + spacing)))\<lparr>l_holder := Some j, l_arrived := l_arrived L @ [j]\<rparr>)"
| Join_line: "l_turns L j = Outside \<Longrightarrow> l_holder L \<noteq> None \<or> l_waiters L \<noteq> [] \<Longrightarrow>
    line_step spacing L ((turn_of L j In_line)\<lparr>l_waiters := l_waiters L @ [j], l_arrived := l_arrived L @ [j]\<rparr>)"
| Next_in_line: "l_holder L = None \<Longrightarrow> l_waiters L = j # js \<Longrightarrow>
    line_step spacing L ((turn_of L j (Spacing (l_now L + spacing)))\<lparr>l_holder := Some j, l_waiters := js\<rparr>)"
| Wake: "l_turns L j = Spacing t \<Longrightarrow> t \<le> l_now L \<Longrightarrow> line_step spacing L (turn_of L j (Calling True))"
| Call: "l_turns L j = Calling b \<Longrightarrow> line_step spacing L (L\<lparr>l_calls := l_calls L @ [(j, l_now L)]\<rparr>)"
| Flood: "l_turns L j = Calling True \<Longrightarrow> line_step spacing L (turn_of L j (Flood_wait (l_now L + seconds (n + 1))))"
| Again: "l_turns L j = Flood_wait t \<Longrightarrow> t \<le> l_now L \<Longrightarrow> line_step spacing L (turn_of L j (Calling False))"
| Leave: "l_turns L j \<in> {Spacing t, Calling b, Flood_wait t} \<Longrightarrow> line_step spacing L ((turn_of L j Over)\<lparr>l_holder := None\<rparr>)"
| Give_up: "l_turns L j = In_line \<Longrightarrow>
    line_step spacing L ((turn_of L j Over)\<lparr>l_waiters := filter (\<lambda>i. i \<noteq> j) (l_waiters L)\<rparr>)"
| Time: "0 \<le> dt \<Longrightarrow> line_step spacing L (L\<lparr>l_now := l_now L + dt\<rparr>)"

abbreviation line_steps :: "time \<Rightarrow> line \<Rightarrow> line \<Rightarrow> bool" where
  "line_steps spacing \<equiv> (line_step spacing)\<^sup>*\<^sup>*"

definition empty_line :: "time \<Rightarrow> line" where
  "empty_line now = \<lparr>l_holder = None, l_waiters = [], l_turns = (\<lambda>j. Outside), l_arrived = [], l_calls = [], l_now = now\<rparr>"

lemma turn_of_fields [simp]:
  "l_holder (turn_of L j t) = l_holder L" "l_waiters (turn_of L j t) = l_waiters L"
  "l_turns (turn_of L j t) = (l_turns L)(j := t)" "l_arrived (turn_of L j t) = l_arrived L"
  "l_calls (turn_of L j t) = l_calls L" "l_now (turn_of L j t) = l_now L"
  by (simp_all add: turn_of_def)

section \<open>The lock and the line\<close>

text \<open>Only the holder is in its turn; the line has those that wait, once each; a job arrives once.\<close>

definition job_ok :: "line \<Rightarrow> nat \<Rightarrow> bool" where
  "job_ok L j \<longleftrightarrow>
     (case l_turns L j of
        Outside \<Rightarrow> l_holder L \<noteq> Some j \<and> j \<notin> set (l_waiters L) \<and> j \<notin> set (l_arrived L)
      | In_line \<Rightarrow> l_holder L \<noteq> Some j \<and> j \<in> set (l_waiters L) \<and> j \<in> set (l_arrived L)
      | Over \<Rightarrow> l_holder L \<noteq> Some j \<and> j \<notin> set (l_waiters L) \<and> j \<in> set (l_arrived L)
      | _ \<Rightarrow> l_holder L = Some j \<and> j \<notin> set (l_waiters L) \<and> j \<in> set (l_arrived L))"

definition lock_ok :: "line \<Rightarrow> bool" where
  "lock_ok L \<longleftrightarrow> (\<forall>j. job_ok L j) \<and> distinct (l_waiters L) \<and> distinct (l_arrived L)"

lemma lock_okD: "lock_ok L \<Longrightarrow> job_ok L j" "lock_ok L \<Longrightarrow> distinct (l_waiters L)" "lock_ok L \<Longrightarrow> distinct (l_arrived L)"
  by (simp_all add: lock_ok_def)

lemma turn_facts:
  "lock_ok L \<Longrightarrow> l_turns L j = Outside \<Longrightarrow> l_holder L \<noteq> Some j \<and> j \<notin> set (l_waiters L) \<and> j \<notin> set (l_arrived L)"
  "lock_ok L \<Longrightarrow> l_turns L j = In_line \<Longrightarrow> l_holder L \<noteq> Some j \<and> j \<in> set (l_waiters L)"
  "lock_ok L \<Longrightarrow> l_turns L j = Spacing t \<Longrightarrow> l_holder L = Some j"
  "lock_ok L \<Longrightarrow> l_turns L j = Calling b \<Longrightarrow> l_holder L = Some j"
  "lock_ok L \<Longrightarrow> l_turns L j = Flood_wait t \<Longrightarrow> l_holder L = Some j"
  "lock_ok L \<Longrightarrow> j \<in> set (l_waiters L) \<Longrightarrow> l_turns L j = In_line"
  using lock_okD(1) [of L j] by (auto simp: job_ok_def split: turn.splits)

lemma line_step_job:
  assumes "line_step sp L L'" and "lock_ok L" shows "job_ok L' k"
  using assms(1)
proof (cases rule: line_step.cases)
  case (Take_lock j)
  then show ?thesis using lock_okD(1) [OF assms(2), of k] turn_facts(1) [OF assms(2) Take_lock(2)]
    by (cases "k = j") (auto simp: job_ok_def split: turn.splits)
next
  case (Join_line j)
  then show ?thesis using lock_okD(1) [OF assms(2), of k] turn_facts(1) [OF assms(2) Join_line(2)]
    by (cases "k = j") (auto simp: job_ok_def split: turn.splits)
next
  case (Next_in_line j js)
  then have "j \<in> set (l_waiters L)" "distinct (j # js)" using lock_okD(2) [OF assms(2)] by simp_all
  then show ?thesis using Next_in_line lock_okD(1) [OF assms(2), of k] lock_okD(1) [OF assms(2), of j] turn_facts(6) [OF assms(2)]
    by (cases "k = j") (auto simp: job_ok_def split: turn.splits)
next
  case (Wake j t)
  then show ?thesis using lock_okD(1) [OF assms(2), of k] lock_okD(1) [OF assms(2), of j]
    by (cases "k = j") (auto simp: job_ok_def split: turn.splits)
next
  case (Call j b)
  then show ?thesis using lock_okD(1) [OF assms(2), of k] by (simp add: job_ok_def split: turn.splits)
next
  case (Flood j n)
  then show ?thesis using lock_okD(1) [OF assms(2), of k] lock_okD(1) [OF assms(2), of j]
    by (cases "k = j") (auto simp: job_ok_def split: turn.splits)
next
  case (Again j t)
  then show ?thesis using lock_okD(1) [OF assms(2), of k] lock_okD(1) [OF assms(2), of j]
    by (cases "k = j") (auto simp: job_ok_def split: turn.splits)
next
  case (Leave j t b)
  then show ?thesis using lock_okD(1) [OF assms(2), of k] lock_okD(1) [OF assms(2), of j]
    by (cases "k = j") (auto simp: job_ok_def split: turn.splits)
next
  case (Give_up j)
  then show ?thesis using lock_okD(1) [OF assms(2), of k] lock_okD(1) [OF assms(2), of j]
    by (cases "k = j") (auto simp: job_ok_def split: turn.splits)
next
  case (Time dt)
  then show ?thesis using lock_okD(1) [OF assms(2), of k] by (simp add: job_ok_def split: turn.splits)
qed

lemma line_step_lock:
  assumes "line_step sp L L'" and "lock_ok L" shows "lock_ok L'"
proof -
  have "distinct (l_waiters L') \<and> distinct (l_arrived L')"
    using assms(1) lock_okD(2,3) [OF assms(2)] turn_facts(1) [OF assms(2)]
    by (cases rule: line_step.cases) auto
  with line_step_job [OF assms] show ?thesis by (simp add: lock_ok_def)
qed

definition held :: "line \<Rightarrow> nat list" where
  "held L = (case l_holder L of None \<Rightarrow> [] | Some j \<Rightarrow> [j])"

section \<open>The order of the calls\<close>

lemma remdups_adj_snoc:
  "remdups_adj (xs @ [x]) = (if xs \<noteq> [] \<and> last xs = x then remdups_adj xs else remdups_adj xs @ [x])"
  by (induction xs rule: remdups_adj.induct) auto

lemma subseq_remdups_snoc: "subseq (remdups_adj (xs @ [x])) (remdups_adj xs @ [x])"
  by (simp add: remdups_adj_snoc subseq_rev_drop_many)

text \<open>Those that made calls, in one block each, then the holder and the line: all in the order of arrival.\<close>

definition in_order :: "line \<Rightarrow> bool" where
  "in_order L \<longleftrightarrow> subseq (remdups_adj (map fst (l_calls L) @ held L) @ l_waiters L) (l_arrived L)"

lemma line_step_order: "line_step sp L L' \<Longrightarrow> lock_ok L \<Longrightarrow> in_order L \<Longrightarrow> in_order L'"
proof (induction rule: line_step.induct)
  case (Take_lock L j)
  then have "subseq (remdups_adj (map fst (l_calls L)) @ [j]) (l_arrived L @ [j])"
    by (simp add: in_order_def held_def list_emb_append_mono)
  from subseq_order.order_trans [OF subseq_remdups_snoc this] show ?case using Take_lock by (simp add: in_order_def held_def)
next
  case (Join_line L j)
  then show ?case
    using list_emb_append_mono [of "(=)" "remdups_adj (map fst (l_calls L) @ held L) @ l_waiters L" "l_arrived L" "[j]" "[j]"]
    by (simp add: in_order_def held_def)
next
  case (Next_in_line L j js)
  have "subseq (remdups_adj (map fst (l_calls L) @ [j]) @ js) ((remdups_adj (map fst (l_calls L)) @ [j]) @ js)"
    by (intro list_emb_append_mono subseq_remdups_snoc) simp
  from subseq_order.order_trans [OF this, of "l_arrived L"] show ?case using Next_in_line by (simp add: in_order_def held_def)
next
  case (Call L j b)
  then have "l_holder L = Some j" using turn_facts(4) by blast
  moreover have "remdups_adj ((cs @ [j]) @ [j]) = remdups_adj (cs @ [j])" for cs :: "nat list" by (subst remdups_adj_snoc) simp
  ultimately show ?case using Call by (simp add: in_order_def held_def)
next
  case (Leave L j t b)
  then have "l_holder L = Some j" using turn_facts(3-5) by blast
  have "subseq (remdups_adj (map fst (l_calls L)) @ l_waiters L) (remdups_adj (map fst (l_calls L) @ [j]) @ l_waiters L)"
    by (intro list_emb_append_mono) (simp_all add: remdups_adj_snoc subseq_rev_drop_many)
  note shrink = subseq_order.order_trans [OF this, of "l_arrived L"]
  show ?case using shrink \<open>l_holder L = Some j\<close> Leave by (simp add: in_order_def held_def)
next
  case (Give_up L j)
  have "subseq (remdups_adj (map fst (l_calls L) @ held L) @ filter (\<lambda>i. i \<noteq> j) (l_waiters L))
      (remdups_adj (map fst (l_calls L) @ held L) @ l_waiters L)"
    by (intro list_emb_append_mono) (simp_all add: subseq_filter_left)
  from subseq_order.order_trans [OF this, of "l_arrived L"] show ?case using Give_up by (simp add: in_order_def held_def)
qed (simp_all add: in_order_def held_def)

section \<open>The space between the calls\<close>

text \<open>What the holder may count on: the calls of the others are long enough ago, at the latest when it wakes.\<close>

definition ready_at :: "line \<Rightarrow> nat \<Rightarrow> time" where
  "ready_at L j = (case l_turns L j of Spacing d \<Rightarrow> d | _ \<Rightarrow> l_now L)"

definition spaced_for :: "time \<Rightarrow> line \<Rightarrow> nat \<Rightarrow> bool" where
  "spaced_for sp L j \<longleftrightarrow> (\<forall>(i, t) \<in> set (l_calls L). i \<noteq> j \<longrightarrow> t + sp \<le> ready_at L j)"

definition spaced_line :: "time \<Rightarrow> line \<Rightarrow> bool" where
  "spaced_line sp L \<longleftrightarrow> sorted_wrt (\<lambda>(i, t) (k, u). i \<noteq> k \<longrightarrow> t + sp \<le> u) (l_calls L) \<and>
     (\<forall>(i, t) \<in> set (l_calls L). t \<le> l_now L) \<and> (\<forall>j. l_holder L = Some j \<longrightarrow> spaced_for sp L j)"

lemma spaced_for_mono:
  "spaced_for sp L j \<Longrightarrow> l_calls L' = l_calls L \<Longrightarrow> ready_at L j \<le> ready_at L' j \<Longrightarrow> spaced_for sp L' j"
  by (force simp: spaced_for_def)

lemma spaced_line_fields [simp]:
  "spaced_line sp (L\<lparr>l_waiters := js\<rparr>) = spaced_line sp L" "spaced_line sp (L\<lparr>l_arrived := js\<rparr>) = spaced_line sp L"
  by (simp_all add: spaced_line_def spaced_for_def ready_at_def split: turn.split)

lemma spaced_line_other: "l_holder L \<noteq> Some j \<Longrightarrow> spaced_line sp L \<Longrightarrow> spaced_line sp (turn_of L j t)"
  by (auto simp: spaced_line_def intro: spaced_for_mono simp: ready_at_def split: turn.split)

lemma spaced_line_holder:
  "lock_ok L \<Longrightarrow> spaced_line sp L \<Longrightarrow> l_holder L = Some j \<Longrightarrow> ready_at L j \<le> ready_at (turn_of L j t) j \<Longrightarrow>
   spaced_line sp (turn_of L j t)"
  by (auto simp: spaced_line_def intro: spaced_for_mono)

lemma line_step_spaced:
  assumes "line_step sp L L'" and "lock_ok L" and "spaced_line sp L" shows "spaced_line sp L'"
  using assms(1)
proof (cases rule: line_step.cases)
  case (Take_lock j)
  then show ?thesis using assms(3) by (fastforce simp: spaced_line_def spaced_for_def ready_at_def)
next
  case (Join_line j)
  then show ?thesis using turn_facts(1) [OF assms(2)] assms(3) by (simp add: spaced_line_other)
next
  case (Next_in_line j js)
  then show ?thesis using assms(3) by (fastforce simp: spaced_line_def spaced_for_def ready_at_def)
next
  case (Wake j t)
  then show ?thesis using turn_facts(3) [OF assms(2)] assms(2,3) by (simp add: spaced_line_holder ready_at_def)
next
  case (Call j b)
  then have "l_holder L = Some j" "ready_at L j = l_now L" using turn_facts(4) [OF assms(2)] by (simp_all add: ready_at_def)
  then show ?thesis using Call assms(3) by (fastforce simp: spaced_line_def spaced_for_def ready_at_def sorted_wrt_append)
next
  case (Flood j n)
  then show ?thesis using turn_facts(4) [OF assms(2)] assms(2,3) by (simp add: spaced_line_holder ready_at_def)
next
  case (Again j t)
  then show ?thesis using turn_facts(5) [OF assms(2)] assms(2,3) by (simp add: spaced_line_holder ready_at_def)
next
  case (Leave j t b)
  then show ?thesis using assms(3) by (simp add: spaced_line_def)
next
  case (Give_up j)
  then show ?thesis using turn_facts(2) [OF assms(2)] assms(3) by (simp add: spaced_line_other)
next
  case (Time dt)
  have "spaced_for sp L' j" if "l_holder L = Some j" for j
    using that assms(3) Time spaced_for_mono [of sp L j L'] by (auto simp: spaced_line_def ready_at_def split: turn.split)
  then show ?thesis using Time assms(3) by (fastforce simp: spaced_line_def)
qed

lemma line_steps_ok:
  assumes "line_steps sp (empty_line now) L"
  shows "lock_ok L \<and> in_order L \<and> spaced_line sp L"
  using assms
proof (induction rule: rtranclp_induct)
  case base
  show ?case by (simp add: empty_line_def lock_ok_def job_ok_def in_order_def held_def spaced_line_def)
next
  case (step L1 L2)
  then show ?case using line_step_lock line_step_order line_step_spaced by blast
qed

section \<open>A send in one go is a turn\<close>

lemma calls_in_turn:
  assumes "l_turns L j = Calling b"
  shows "line_steps sp L (L\<lparr>l_calls := l_calls L @ replicate n (j, l_now L)\<rparr>)"
proof (induction n)
  case (Suc n)
  have "line_step sp (L\<lparr>l_calls := l_calls L @ replicate n (j, l_now L)\<rparr>) (L\<lparr>l_calls := l_calls L @ replicate (Suc n) (j, l_now L)\<rparr>)"
    using line_step.Call [of "L\<lparr>l_calls := l_calls L @ replicate n (j, l_now L)\<rparr>" j b sp] assms
    by (simp add: replicate_append_same [symmetric])
  with Suc show ?case by (rule rtranclp.rtrancl_into_rtrancl)
qed simp

lemma send_post_calls:
  "\<exists>n. length (wcalls (snd (send_post E chat text refs w))) = length (wcalls w) + n"
  using send_post_only [of chat w E "text" refs] by (auto simp: only_sends_def)

lemma three_steps: "line_step sp A B \<Longrightarrow> line_step sp B C \<Longrightarrow> line_step sp C D \<Longrightarrow> line_steps sp A D"
  by (meson converse_rtranclp_into_rtranclp r_into_rtranclp)

text \<open>The start of a turn, up to the first calls, and its end.\<close>

lemma turn_starts:
  assumes "l_turns L j = Outside" and "l_holder L = None" and "l_waiters L = []" and "0 \<le> sp"
  shows "line_steps sp L ((turn_of L j (Calling True))\<lparr>l_holder := Some j, l_arrived := l_arrived L @ [j],
    l_calls := l_calls L @ replicate n (j, l_now L + sp), l_now := l_now L + sp\<rparr>)"
proof -
  let ?L1 = "(turn_of L j (Spacing (l_now L + sp)))\<lparr>l_holder := Some j, l_arrived := l_arrived L @ [j]\<rparr>"
  let ?L2 = "?L1\<lparr>l_now := l_now ?L1 + sp\<rparr>"
  let ?L3 = "turn_of ?L2 j (Calling True)"
  have "line_step sp L ?L1" using assms(1-3) by (rule line_step.Take_lock)
  moreover have "line_step sp ?L1 ?L2" using assms(4) by (rule line_step.Time)
  moreover have "line_step sp ?L2 ?L3" by (rule line_step.Wake [where t = "l_now L + sp"]) simp_all
  ultimately have "line_steps sp L ?L3" by (rule three_steps)
  moreover have "line_steps sp ?L3 (?L3\<lparr>l_calls := l_calls ?L3 @ replicate n (j, l_now ?L3)\<rparr>)"
    by (rule calls_in_turn [where b = True]) simp
  ultimately have "line_steps sp L (?L3\<lparr>l_calls := l_calls ?L3 @ replicate n (j, l_now ?L3)\<rparr>)" by (rule rtranclp_trans)
  then show ?thesis by (cases L) (simp add: turn_of_def)
qed

lemma turn_again:
  assumes "l_turns L j = Calling True" and "0 \<le> k"
  shows "line_steps sp L ((turn_of L j (Calling False))\<lparr>l_calls := l_calls L @ replicate n (j, l_now L + seconds (k + 1)), l_now := l_now L + seconds (k + 1)\<rparr>)"
proof -
  let ?L1 = "turn_of L j (Flood_wait (l_now L + seconds (k + 1)))"
  let ?L2 = "?L1\<lparr>l_now := l_now ?L1 + seconds (k + 1)\<rparr>"
  let ?L3 = "turn_of ?L2 j (Calling False)"
  have "line_step sp L ?L1" using assms(1) by (rule line_step.Flood)
  moreover have "line_step sp ?L1 ?L2" using assms(2) by (intro line_step.Time) (simp add: seconds_def)
  moreover have "line_step sp ?L2 ?L3" by (rule line_step.Again [where t = "l_now L + seconds (k + 1)"]) simp_all
  ultimately have "line_steps sp L ?L3" by (rule three_steps)
  moreover have "line_steps sp ?L3 (?L3\<lparr>l_calls := l_calls ?L3 @ replicate n (j, l_now ?L3)\<rparr>)"
    by (rule calls_in_turn [where b = False]) simp
  ultimately have "line_steps sp L (?L3\<lparr>l_calls := l_calls ?L3 @ replicate n (j, l_now ?L3)\<rparr>)" by (rule rtranclp_trans)
  then show ?thesis by (cases L) (simp add: turn_of_def)
qed

lemma turn_ends: "l_turns L j = Calling b \<Longrightarrow> line_step sp L ((turn_of L j Over)\<lparr>l_holder := None\<rparr>)"
  by (rule line_step.Leave [where b = b and t = 0]) simp

section \<open>Properties\<close>

text \<open>
  C4: posts are sent one after the other, with space between them. However many publish jobs reach the send, wait,
  are cancelled or fail, and whatever flood waits they meet: the calls of a post come in one block, the posts in the order in
  which their jobs arrived, and between a call for one post and any later call for another lies at least the configured spacing.
\<close>

theorem publishes_take_turns:
  assumes "line_steps (publish_spacing_seconds (cfg E)) (empty_line now) L"
  shows "sorted_wrt (\<lambda>(i, t) (k, u). i \<noteq> k \<longrightarrow> t + publish_spacing_seconds (cfg E) \<le> u) (l_calls L) \<and>
    subseq (remdups_adj (map fst (l_calls L))) (l_arrived L) \<and> distinct (l_arrived L)"
proof -
  from line_steps_ok [OF assms] have ok: "lock_ok L" "in_order L" "spaced_line (publish_spacing_seconds (cfg E)) L" by simp_all
  have "subseq (remdups_adj (map fst (l_calls L))) (remdups_adj (map fst (l_calls L) @ held L) @ l_waiters L)"
    by (cases "l_holder L") (auto simp: held_def remdups_adj_snoc intro!: subseq_rev_drop_many)
  from subseq_order.order_trans [OF this] ok show ?thesis by (simp add: in_order_def spaced_line_def lock_ok_def)
qed

theorem publishes_take_turns_witness:
  "\<exists>L. line_steps (publish_spacing_seconds (cfg sample_env)) (empty_line 0) L \<and> map fst (l_calls L) = [0, 0, 1] \<and>
     sorted_wrt (\<lambda>(i, t) (k, u). i \<noteq> k \<longrightarrow> t + publish_spacing_seconds (cfg sample_env) \<le> u) (l_calls L)"
proof -
  let ?sp = "publish_spacing_seconds (cfg sample_env)"
  have sp: "0 \<le> ?sp" by (simp add: sample_defs seconds_def)
  let ?L1 = "(turn_of (empty_line 0) 0 (Calling True))\<lparr>l_holder := Some 0, l_arrived := [0], l_calls := replicate 2 (0, ?sp), l_now := ?sp\<rparr>"
  let ?L2 = "(turn_of ?L1 0 Over)\<lparr>l_holder := None\<rparr>"
  let ?L3 = "(turn_of ?L2 1 (Calling True))\<lparr>l_holder := Some 1, l_arrived := l_arrived ?L2 @ [1], l_calls := l_calls ?L2 @ replicate 1 (1, l_now ?L2 + ?sp), l_now := l_now ?L2 + ?sp\<rparr>"
  have one: "line_steps ?sp (empty_line 0) ?L1"
    using turn_starts [of "empty_line 0" 0 ?sp 2] sp by (simp add: empty_line_def)
  have "line_step ?sp ?L1 ?L2" by (rule turn_ends) simp
  with one have "line_steps ?sp (empty_line 0) ?L2" by (rule rtranclp.rtrancl_into_rtrancl)
  moreover have "line_steps ?sp ?L2 ?L3" by (rule turn_starts) (simp_all add: sp empty_line_def)
  ultimately have run: "line_steps ?sp (empty_line 0) ?L3" by (rule rtranclp_trans)
  from publishes_take_turns [OF run] run show ?thesis
    by (intro exI [of _ ?L3]) (simp add: eval_nat_numeral)
qed

text \<open>
  A send that runs in one go is a turn: a job that finds the lock free makes as many calls as the send of the model,
  and gives the lock back at the same instant.
\<close>

theorem send_spaced_is_a_turn:
  assumes "patient E" and "l_turns L j = Outside" and "l_holder L = None" and "l_waiters L = []" and "l_now L = wclock w"
  shows "\<exists>L'. line_steps (publish_spacing_seconds (cfg E)) L L' \<and> l_turns L' j = Over \<and> l_holder L' = None \<and>
    l_now L' = wclock (snd (send_spaced E chat text refs w)) \<and>
    length (l_calls L') - length (l_calls L) = length (wcalls (snd (send_spaced E chat text refs w))) - length (wcalls w)"
proof -
  let ?sp = "publish_spacing_seconds (cfg E)"
  let ?w0 = "sleep ?sp w"
  have sp: "0 \<le> ?sp" using assms(1) by (simp add: patient_def)
  obtain r w1 where s: "send_post E chat text refs ?w0 = (r, w1)" by fastforce
  obtain n where n: "length (wcalls w1) = length (wcalls w) + n" using send_post_calls [of E chat "text" refs ?w0] s by auto
  have p: "prompt ?w0 (r, w1)" using prompt_send_post [OF assms(1), of ?w0 chat "text" refs] s by simp
  let ?L1 = "(turn_of L j (Calling True))\<lparr>l_holder := Some j, l_arrived := l_arrived L @ [j], l_calls := l_calls L @ replicate n (j, l_now L + ?sp), l_now := l_now L + ?sp\<rparr>"
  have one: "line_steps ?sp L ?L1" by (rule turn_starts [OF assms(2-4) sp])
  show ?thesis
  proof (cases "\<exists>k. r = Inl (TelegramRetryAfter k)")
    case True
    then obtain k where k: "r = Inl (TelegramRetryAfter k)" by blast
    let ?w2 = "sleep (seconds (k + 1)) w1"
    have k0: "0 \<le> k" using p k by (simp add: prompt_def)
    obtain m where m: "length (wcalls (snd (send_post E chat text refs ?w2))) = length (wcalls ?w2) + m" using send_post_calls by blast
    have c: "wclock (snd (send_post E chat text refs ?w2)) = wclock ?w2" using prompt_send_post [OF assms(1)] by (simp add: prompt_def)
    let ?L2 = "(turn_of ?L1 j (Calling False))\<lparr>l_calls := l_calls ?L1 @ replicate m (j, l_now ?L1 + seconds (k + 1)), l_now := l_now ?L1 + seconds (k + 1)\<rparr>"
    have "line_steps ?sp ?L1 ?L2" by (rule turn_again) (simp_all add: k0)
    from rtranclp_trans [OF one this] have "line_steps ?sp L ((turn_of ?L2 j Over)\<lparr>l_holder := None\<rparr>)"
      by (rule rtranclp.rtrancl_into_rtrancl) (rule turn_ends [where b = False], simp)
    moreover have "send_spaced E chat text refs w = send_post E chat text refs ?w2" by (simp add: send_spaced_def s k)
    ultimately show ?thesis
      using p c n m assms(5) by (intro exI [of _ "(turn_of ?L2 j Over)\<lparr>l_holder := None\<rparr>"]) (simp add: prompt_def)
  next
    case False
    then have "send_spaced E chat text refs w = (r, w1)" by (auto simp: send_spaced_def s split: sum.split exn.split)
    moreover have "line_steps ?sp L ((turn_of ?L1 j Over)\<lparr>l_holder := None\<rparr>)"
      by (rule rtranclp.rtrancl_into_rtrancl [OF one]) (rule turn_ends [where b = True], simp)
    ultimately show ?thesis
      using p n assms(5) by (intro exI [of _ "(turn_of ?L1 j Over)\<lparr>l_holder := None\<rparr>"]) (simp add: prompt_def)
  qed
qed

end
