(* ===== verification/Provenance.thy ===== *)
theory Provenance
  imports System
begin

text \<open>
  Where messages come from. The log of calls to Telegram against the store, over every run of the services: a
  post that is recorded as published was delivered to the destination channel, and nothing reaches that channel
  but posts that the guard of the publish job let through.
\<close>

section \<open>The log of calls\<close>

text \<open>A world after calls that all satisfy a predicate.\<close>

definition logs :: "(tg_call \<Rightarrow> bool) \<Rightarrow> world \<Rightarrow> world \<Rightarrow> bool" where
  "logs P w w' \<longleftrightarrow> (\<exists>xs. wcalls w' = wcalls w @ xs \<and> (\<forall>x \<in> set xs. P (fst x)))"

lemma logs_same: "wcalls w' = wcalls w \<Longrightarrow> logs P w w'"
  by (simp add: logs_def)

lemma logs_refl [simp]: "logs P w w"
  by (simp add: logs_same)

lemma logs_trans: "logs P w w1 \<Longrightarrow> logs P w1 w2 \<Longrightarrow> logs P w w2"
  by (fastforce simp: logs_def)

lemma logs_weaken: "logs P w w' \<Longrightarrow> (\<And>c. P c \<Longrightarrow> Q c) \<Longrightarrow> logs Q w w'"
  by (auto simp: logs_def)

lemma logs_tg: "P c \<Longrightarrow> logs P w (snd (tg_do E c w))"
  by (simp add: logs_def tg_do_world)

lemma logs_from: "wcalls w1 = wcalls w \<Longrightarrow> logs P w w' = logs P w1 w'"
  by (simp add: logs_def)

lemma logs_to: "wcalls w1 = wcalls w' \<Longrightarrow> logs P w w' = logs P w w1"
  by (simp add: logs_def)

lemma logs_bind:
  assumes "logs P w (snd r)" and "\<And>m w1. r = (Inr m, w1) \<Longrightarrow> logs P w1 (snd (k m w1))"
  shows "logs P w (snd (case r of (Inl e, w1) \<Rightarrow> (h e w1, w1) | (Inr m, w1) \<Rightarrow> k m w1))"
  using assms by (cases r; cases "fst r") (auto intro: logs_trans)

lemma logs_kept: "logs P w w' \<Longrightarrow> x \<in> set (wcalls w) \<Longrightarrow> x \<in> set (wcalls w')"
  by (auto simp: logs_def)

section \<open>Sending a post\<close>

text \<open>A new message to a chat that shows the text of the post, a blank in its place, or media alone.\<close>

definition shows_text :: "int \<Rightarrow> pystr \<Rightarrow> tg_call \<Rightarrow> bool" where
  "shows_text chat t c \<longleftrightarrow> call_chat c = Some chat \<and> is_send c \<and> call_text c \<in> {None, Some [32], Some t}"

lemma send_rest_logs: "logs (shows_text chat t) w (snd (send_rest E chat t cap extra mid w))"
  unfolding send_rest_def
  by (intro logs_bind) (auto simp: shows_text_def intro!: logs_tg logs_bind)

lemma send_post_logs: "logs (shows_text chat t) w (snd (send_post E chat t refs w))"
  unfolding send_post_def Let_def
  by (auto simp: shows_text_def primary_call_def caption_of_def split: list.split
      intro!: logs_bind logs_tg send_rest_logs)

lemma send_spaced_logs: "logs (shows_text chat t) w (snd (send_spaced E chat t refs w))"
proof -
  let ?w0 = "sleep (publish_spacing_seconds (cfg E)) w"
  obtain r w1 where s: "send_post E chat t refs ?w0 = (r, w1)" by fastforce
  have one: "logs (shows_text chat t) w w1" using send_post_logs [of chat t ?w0 E refs] s by (simp add: logs_def)
  have two: "logs (shows_text chat t) w1 (snd (send_post E chat t refs (sleep n w1)))" for n
    using send_post_logs [of chat t "sleep n w1" E refs] by (simp add: logs_def)
  show ?thesis
    using one logs_trans [OF one two] by (auto simp: send_spaced_def s split: sum.split exn.split)
qed

text \<open>The id that a send returns is that of a message it delivered.\<close>

definition delivered_to :: "int \<Rightarrow> world \<Rightarrow> int \<Rightarrow> bool" where
  "delivered_to chat w mid \<longleftrightarrow> list_ex (\<lambda>(c, r). r = Delivered mid \<and> is_send c \<and> call_chat c = Some chat) (wcalls w)"

lemma delivered_to_kept: "logs P w w' \<Longrightarrow> delivered_to chat w mid \<Longrightarrow> delivered_to chat w' mid"
  by (auto simp: logs_def delivered_to_def)

lemma delivered_to_tg:
  "tg_do E c w = (Inr mid, w') \<Longrightarrow> is_send c \<Longrightarrow> call_chat c = Some chat \<Longrightarrow> delivered_to chat w' mid"
  by (auto simp: tg_do_def delivered_to_def Let_def split: tg_outcome.splits)

lemma send_rest_id: "send_rest E chat t cap extra mid w = (Inr m, w') \<Longrightarrow> m = Some mid"
  by (auto simp: send_rest_def split: prod.splits sum.splits if_splits)

lemma send_post_id:
  assumes "send_post E chat t refs w = (Inr (Some mid), w')"
  shows "delivered_to chat w' mid"
proof -
  have plain: "delivered_to chat w' mid"
    if "(case tg_do E (Send_message chat x None) w of (Inl e, w1) \<Rightarrow> (Inl e, w1) | (Inr m, w1) \<Rightarrow> (Inr (Some m), w1)) = (Inr (Some mid), w')"
    for x using that by (auto split: prod.splits sum.splits intro: delivered_to_tg)
  have media: "delivered_to chat w' mid"
    if m: "(case tg_do E (primary_call k chat path cap) w of (Inl e, w1) \<Rightarrow> (Inl e, w1)
        | (Inr n, w1) \<Rightarrow> send_rest E chat t cap extra n w1) = (Inr (Some mid), w')" for k path cap extra
  proof -
    obtain n w1 where g: "tg_do E (primary_call k chat path cap) w = (Inr n, w1)" "send_rest E chat t cap extra n w1 = (Inr (Some mid), w')"
      using m by (auto split: prod.splits sum.splits)
    have "n = mid" using send_rest_id [OF g(2)] by simp
    moreover have "delivered_to chat w1 n" by (rule delivered_to_tg [OF g(1)]) (simp_all add: primary_call_def)
    ultimately show ?thesis using delivered_to_kept [OF send_rest_logs, of chat w1 mid] g(2) by (metis snd_conv)
  qed
  show ?thesis
    using assms plain media unfolding send_post_def Let_def by (auto split: list.splits if_splits)
qed

lemma send_spaced_id:
  assumes "send_spaced E chat t refs w = (Inr (Some mid), w')"
  shows "delivered_to chat w' mid"
  using assms send_post_id unfolding send_spaced_def by (auto split: prod.splits sum.splits exn.splits)

section \<open>What each operation logs\<close>

text \<open>The back office, sign-in, the worker and ingestion call nobody.\<close>

lemma enqueue_publish_calls [simp]: "wcalls (snd (enqueue_publish E pid dl w)) = wcalls w"
  by (simp add: enqueue_publish_def)

lemma enqueue_bind_calls:
  "wcalls (snd (case enqueue_publish E k dl w1 of (Inl e, w2) \<Rightarrow> (Inl e, w2) | (Inr u, w2) \<Rightarrow> (Inr (f w2), w2))) = wcalls w1"
  using enqueue_publish_calls [of E k dl w1] by (cases "enqueue_publish E k dl w1") (simp split: sum.split)

lemma decide_core_calls [simp]: "wcalls (snd (decide_core E pid dec a w)) = wcalls w"
  by (simp add: decide_core_def Let_def enqueue_bind_calls split: sum.split option.split)

lemma edit_tags_calls [simp]: "wcalls (snd (edit_tags pid ids a w)) = wcalls w"
  by (simp add: edit_tags_def Let_def split: sum.split)

lemma vocabulary_calls [simp]:
  "wcalls (snd (create_tag U tc w)) = wcalls w" "wcalls (snd (update_tag k tu w)) = wcalls w"
  "wcalls (snd (delete_tag k w)) = wcalls w" "wcalls (snd (create_template pc w)) = wcalls w"
  "wcalls (snd (update_template k pu w)) = wcalls w" "wcalls (snd (delete_template k w)) = wcalls w"
  by (simp_all add: create_tag_def update_tag_def delete_tag_def create_template_def update_template_def
      delete_template_def Let_def split: sum.split option.split)

lemma channel_calls [simp]:
  "wcalls (snd (create_channel s cc w)) = wcalls w" "wcalls (snd (update_channel k cu w)) = wcalls w"
  "wcalls (snd (delete_channel k w)) = wcalls w" "wcalls (snd (update_ai_settings k au w)) = wcalls w"
  by (simp_all add: create_channel_def update_channel_def delete_channel_def update_ai_settings_def Let_def
      split: sum.split option.split exn.split)

lemma account_calls [simp]:
  "wcalls (snd (create_admin C ac w)) = wcalls w" "wcalls (snd (update_admin C k u w)) = wcalls w"
  "wcalls (snd (authenticate C uname password w)) = wcalls w"
  by (simp_all add: create_admin_def update_admin_def commit_admin_def authenticate_def Let_def
      split: sum.split option.split bool.split)

lemma login_calls [simp]: "wcalls (snd (login C s uname password w)) = wcalls w"
  using account_calls(3) [of C uname password w]
  by (cases "authenticate C uname password w") (simp add: login_def Let_def split: sum.split)

lemma serve_calls [simp]: "wcalls (snd (serve E C tok rq w)) = wcalls w"
proof -
  have "wcalls (snd (handle E C rq a w)) = wcalls w" for a
    by (cases rq) (simp_all add: decide_def approve_def schedule_def reject_def)
  then show ?thesis using serve_cases [of E C tok rq w] by fastforce
qed

lemma ingest_calls [simp]: "wcalls (snd (ingest_message E T m ch w)) = wcalls w"
proof (cases "insert_post (wclock w) ch m (wdb w)")
  case None
  then show ?thesis by (simp add: ingest_message_def)
next
  case (Some pd)
  obtain r w1 where d: "download_media E T m (fst pd) ch (w\<lparr>wdb := snd pd\<rparr>) = (r, w1)" by fastforce
  have w1: "wcalls w1 = wcalls w" using download_media_frame(3) [of E T m "fst pd" ch "w\<lparr>wdb := snd pd\<rparr>"] by (simp add: d)
  have e: "wcalls (snd (case enqueue_normalize E k w2 of (Inl e, w3) \<Rightarrow> (Inl e, w3) | (Inr u, w3) \<Rightarrow> (Inr (Some k), w3))) = wcalls w2"
    for k w2
  proof -
    have "wcalls (snd (enqueue_normalize E k w2)) = wcalls w2" by (simp add: enqueue_normalize_def)
    then show ?thesis by (cases "enqueue_normalize E k w2") (simp split: sum.split)
  qed
  show ?thesis
    using w1 by (auto simp: ingest_message_def Some case_prod_beta d Let_def e [unfolded case_prod_beta] split: sum.split)
qed

lemma housekeeping_calls [simp]:
  "wcalls (snd (prune_dedupe s rm_ok w)) = wcalls w" "wcalls (snd (reconcile_scheduled E w)) = wcalls w"
  "wcalls (snd (reconcile_pending E w)) = wcalls w"
  by (simp_all add: prune_dedupe_def prune_media_files_def reconcile_scheduled_def reconcile_pending_def Let_def
      case_prod_beta)

text \<open>The bot writes to the editor group or answers a button, and publishes.\<close>

definition editorial :: "env \<Rightarrow> tg_call \<Rightarrow> bool" where
  "editorial E c \<longleftrightarrow> call_chat c \<in> {None, Some (editor_group_id (cfg E))}"

lemma edit_draft_card_logs: "logs (editorial E) w (snd (edit_draft_card E p ch w))"
  by (cases "build_draft_payload E (wdb w) p ch")
    (auto simp: edit_draft_card_def editorial_def intro!: logs_tg logs_bind)

lemma alert_failure_logs: "logs (editorial E) w (snd (alert_failure E p err w))"
  by (auto simp: alert_failure_def editorial_def intro!: logs_tg logs_bind)

lemma alert_logs: "logs (editorial E) w (snd (alert E msg w))"
  by (auto simp: alert_def editorial_def intro!: logs_tg logs_bind)

lemma answer_logs: "logs (editorial E) w (snd (answer E t b w))"
  by (simp add: logs_def answer_world editorial_def)

lemma bot_authorized_chat: "bot_authorized s d cb \<Longrightarrow> cb_chat cb = Some (editor_group_id s)"
  by (auto simp: bot_authorized_def split: if_splits)

lemma cb_edit_card_logs: "cb_chat cb = Some (editor_group_id (cfg E)) \<Longrightarrow> logs (editorial E) w (snd (cb_edit_card E cb p crd w))"
  by (auto simp: cb_edit_card_def editorial_def intro!: logs_tg logs_bind)

lemma enqueue_bind_logs:
  assumes "\<And>w'. logs P w' (snd (k w'))"
  shows "logs P w (snd (case enqueue_publish E pid dl w of (Inl e, w2) \<Rightarrow> (Inl e, w2) | (Inr u, w2) \<Rightarrow> k w2))"
proof (rule logs_bind)
  show "logs P w (snd (enqueue_publish E pid dl w))" by (rule logs_same) simp
qed (rule assms)

lemma callback_logs: "logs (editorial E) w (snd (handle_callback E cb w))"
proof -
  have both: "logs (editorial E) w (snd (cb_approve E cb w)) \<and> logs (editorial E) w (snd (cb_reject E cb w))"
  proof (cases "cb_target E cb w")
    case (Inl r)
    then have "logs (editorial E) w (snd r)"
      by (auto simp: cb_target_def intro: answer_logs split: if_splits option.splits)
    then show ?thesis by (simp add: cb_approve_def cb_reject_def Inl)
  next
    case (Inr pc)
    obtain p ch where pc: "pc = (p, ch)" by (cases pc)
    have chat: "cb_chat cb = Some (editor_group_id (cfg E))"
      using Inr by (auto simp: cb_target_def intro: bot_authorized_chat split: if_splits)
    have from_commit: "logs (editorial E) (cb_commit cb q act w) w' \<Longrightarrow> logs (editorial E) w w'" for q act w'
      by (simp add: logs_def)
    show ?thesis
      unfolding cb_approve_def cb_reject_def Inr pc sum.case prod.case Let_def
      by (intro conjI; rule from_commit, rule logs_bind [OF answer_logs])
        (simp_all add: enqueue_bind_logs cb_edit_card_logs [OF chat])
  qed
  then show ?thesis by (simp add: handle_callback_def cb_noop_def answer_logs)
qed

lemma record_draft_logs: "logs P w w' \<Longrightarrow> logs P w (record_draft E pid m w')"
  by (simp add: logs_def)

lemma post_draft_logs: "logs (editorial E) w (snd (post_draft E pid w))"
proof -
  have sent: "logs (editorial E) w (snd (case tg_do E (Send_message (editor_group_id (cfg E)) t (Some kb)) w of
      (Inl e, w1) \<Rightarrow> (Inl e, w1) | (Inr m, w1) \<Rightarrow> (Inr (a m), record_draft E pid m w1)))" for t kb and a :: "int \<Rightarrow> pystr"
    by (rule logs_bind) (auto simp: editorial_def intro!: logs_tg record_draft_logs)
  have edited: "logs (editorial E) w (snd (case tg_do E (Edit_message_text (editor_group_id (cfg E)) k t kb) w of
      (Inl e, w1) \<Rightarrow> (Inl e, w1) | (Inr m, w1) \<Rightarrow> (Inr (a m), w1)))" for k t kb and a :: "int \<Rightarrow> pystr"
    by (rule logs_bind) (auto simp: editorial_def intro!: logs_tg)
  have fin: "logs (editorial E) w (snd (case r of (Inl e, w1) \<Rightarrow> (if is_telegram_error e then Inr (g e) else Inl e, w1) | (Inr a, w1) \<Rightarrow> (Inr a, w1)))"
    if "logs (editorial E) w (snd r)" for r :: "pystr result \<times> world" and g
    using that by (cases r; cases "fst r") auto
  show ?thesis
  proof (cases "get_post (wdb w) pid")
    case (Some p)
    show ?thesis
      using fin [OF sent] fin [OF edited]
      by (auto simp: post_draft_def Some Let_def split: option.split prod.split)
  qed (simp add: post_draft_def)
qed

text \<open>The publish job sends the text of a post that its guard lets through.\<close>

definition publishing :: "env \<Rightarrow> int \<Rightarrow> world \<Rightarrow> tg_call \<Rightarrow> bool" where
  "publishing E pid w c \<longleftrightarrow> (\<exists>p. publish_guard (wdb w) pid = Inr p \<and>
     shows_text (destination_channel_id (cfg E)) (publish_text p) c)"

lemma publish_finish_logs: "logs (editorial E) w (snd (publish_finish E pid mid h ch w))"
proof -
  obtain r d where m: "mark_published E (wclock w) pid mid h (wdb w) = (r, d)" by fastforce
  have "logs (editorial E) w (snd (edit_draft_card E p ch (w\<lparr>wdb := d\<rparr>)))" for p
    using edit_draft_card_logs [of E "w\<lparr>wdb := d\<rparr>" p ch] by (simp add: logs_def)
  then have "logs (editorial E) w (snd (case edit_draft_card E p ch (w\<lparr>wdb := d\<rparr>) of
      (Inl e, w2) \<Rightarrow> (Inl e, w2) | (Inr v, w2) \<Rightarrow> (Inr (lit ''published''), w2)))" for p
    by (rule logs_bind) simp
  then show ?thesis
    by (cases r; cases "get_post d pid") (simp_all add: publish_finish_def m Let_def logs_same)
qed

lemma publish_core_logs: "logs (\<lambda>c. publishing E pid w c \<or> editorial E c) w (snd (publish_core E pid w))"
proof (cases "publish_guard (wdb w) pid")
  case (Inl r)
  then show ?thesis by (simp add: publish_core_skip)
next
  case (Inr p)
  show ?thesis
  proof (cases "get_channel (wdb w) (source_channel_id p)")
    case None
    then show ?thesis using publish_core_no_channel [OF Inr, of E] by (simp add: logs_same)
  next
    case (Some ch)
    show ?thesis
    proof (cases "truthy (dedupe_hash p) \<and> dedupe_exists (wdb w) (the (dedupe_hash p))")
      case True
      then show ?thesis using publish_core_dup [OF Inr Some, of E] by (simp add: logs_same)
    next
      case False
      obtain r w3 where s: "send_of E p w = (r, w3)" by fastforce
      have "logs (shows_text (destination_channel_id (cfg E)) (publish_text p)) w w3"
        using send_spaced_logs [of "destination_channel_id (cfg E)" "publish_text p" "reserved_world w p" E "raw_media_refs p"] s
        by (simp add: logs_def reserved_world_def)
      then have sent: "logs (\<lambda>c. publishing E pid w c \<or> editorial E c) w w3"
        using Inr by (auto simp: publishing_def intro: logs_weaken)
      have "logs (\<lambda>c. publishing E pid w c \<or> editorial E c) w (snd (publish_finish E pid mid (dedupe_hash p) ch w3))" for mid
        by (rule logs_trans [OF sent logs_weaken [OF publish_finish_logs]]) simp
      moreover have "logs (\<lambda>c. publishing E pid w c \<or> editorial E c) w (w3\<lparr>wdb := d\<rparr>)" for d
        using sent by (simp add: logs_def)
      ultimately show ?thesis
        unfolding publish_core_send [OF Inr Some False] s by (auto split: sum.split)
    qed
  qed
qed

lemma publish_after_core_logs: "logs (editorial E) (snd (publish_core E pid w)) (snd (publish E pid w))"
proof -
  obtain r w1 where c: "publish_core E pid w = (r, w1)" by fastforce
  have "logs (editorial E) w1 (snd (on_publish_failure E pid err w1))" for err
  proof (cases "get_post (wdb w1) pid")
    case (Some p)
    let ?p = "p\<lparr>post_state := Publish_failed\<rparr>"
    let ?d = "add_event (wclock w1) pid None Ev_publish_failed [(''error'', JStr (take 500 err))] (save_post (wclock w1) ?p (wdb w1))"
    show ?thesis
      using alert_failure_logs [of E "w1\<lparr>wdb := ?d\<rparr>" ?p err] by (simp add: on_publish_failure_def Some logs_def Let_def)
  qed (simp add: on_publish_failure_def)
  then show ?thesis using c by (simp add: publish_def case_prod_beta split: sum.split)
qed

lemma publish_logs: "logs (\<lambda>c. publishing E pid w c \<or> editorial E c) w (snd (publish E pid w))"
  by (rule logs_trans [OF publish_core_logs logs_weaken [OF publish_after_core_logs]]) simp

lemma command_logs:
  "logs (editorial E) w (snd (cmd_queue E chat w))" "logs (editorial E) w (snd (cmd_stats E chat w))"
  "logs (editorial E) w (snd (cmd_health E chat w))"
  by (auto simp: cmd_queue_def cmd_stats_def cmd_health_def say_def cmd_authorized_def editorial_def intro!: logs_bind logs_tg)

lemma live_calls [simp]: "wcalls (on_new_message E T cm chat m w) = wcalls w"
proof (cases "map_of cm chat")
  case (Some ch)
  obtain r w1 where i: "ingest_message E T m ch w = (r, w1)" by fastforce
  then have "wcalls w1 = wcalls w" using ingest_calls [of E T m ch w] by simp
  then show ?thesis by (simp add: on_new_message_def Some i split: sum.split exn.split)
qed (simp add: on_new_message_def)

lemma backfill_calls [simp]: "wcalls (snd (backfill E T ch w)) = wcalls w"
proof -
  have "wcalls (snd (backfill_each E T ch ms n w)) = wcalls w" for ms n
  proof (induction ms arbitrary: n w)
    case (Cons m ms)
    obtain r w1 where i: "ingest_message E T m ch w = (r, w1)" by fastforce
    then have "wcalls w1 = wcalls w" using ingest_calls [of E T m ch w] by simp
    then show ?case using Cons.IH by (simp add: i split: sum.split exn.split)
  qed simp
  then show ?thesis by (simp add: backfill_def)
qed

lemma notice_calls [simp]: "wcalls (try_alert E msg w) = wcalls w" "wcalls (snd (amain C s command w)) = wcalls w"
  by (simp_all add: try_alert_def enqueue_alert_def amain_def seed_admin_def seed_defaults_def Let_def)

lemma sys_step_logs: "sys_step E C T w w' \<Longrightarrow> logs (editorial E) w w' \<or> (\<exists>pid. w' = snd (publish E pid w))"
proof (induction rule: sys_step.induct)
  case (Publish_job pid w)
  show ?case by (intro disjI2 exI) (rule refl)
next
  case (Command cmd w chat)
  then have "logs (editorial E) w (snd (cmd E chat w))" by (elim insertE emptyE) (simp_all only: command_logs)
  then show ?case ..
qed (simp_all add: normalize_frame(1) logs_same callback_logs post_draft_logs alert_logs)

lemma sys_step_kept: "sys_step E C T w w' \<Longrightarrow> \<exists>xs. wcalls w' = wcalls w @ xs"
proof -
  assume "sys_step E C T w w'"
  from sys_step_logs [OF this] have "logs (\<lambda>c. True) w w'"
    by (elim disjE exE) (auto intro: logs_weaken [OF publish_logs] logs_weaken)
  then show ?thesis by (auto simp: logs_def)
qed

section \<open>Ids in the store\<close>

text \<open>The message ids that the store holds. Only the publish job adds one, and it is that of its own message.\<close>

definition recorded_ids :: "db \<Rightarrow> int set" where
  "recorded_ids d = {mid. Some mid \<in> published_message_id ` set (posts d)}"

definition adds_ids :: "int set \<Rightarrow> db \<Rightarrow> db \<Rightarrow> bool" where
  "adds_ids X d d' \<longleftrightarrow> recorded_ids d' \<subseteq> recorded_ids d \<union> X"

lemma adds_ids_same: "posts d' = posts d \<Longrightarrow> adds_ids X d d'"
  by (simp add: adds_ids_def recorded_ids_def)

lemma adds_idsI:
  "(\<And>q. q \<in> set (posts d') \<Longrightarrow> (\<exists>p \<in> set (posts d). published_message_id q = published_message_id p) \<or>
      published_message_id q = None \<or> published_message_id q \<in> Some ` X) \<Longrightarrow> adds_ids X d d'"
  by (fastforce simp: adds_ids_def recorded_ids_def)

lemma adds_ids_save:
  assumes "get_post d k = Some p0" and "published_message_id p = published_message_id p0 \<or> published_message_id p \<in> Some ` X"
  shows "adds_ids X d (save_post now p d)"
proof (rule adds_idsI)
  fix q assume "q \<in> set (posts (save_post now p d))"
  then have "q \<in> set (posts d) \<or> published_message_id q = published_message_id p"
    by (auto simp: save_post_def split: if_splits dest!: tput_in_set)
  then show "(\<exists>p \<in> set (posts d). published_message_id q = published_message_id p) \<or>
      published_message_id q = None \<or> published_message_id q \<in> Some ` X"
    using assms(2) tbl.get_in [OF assms(1)] by auto
qed

interpretation recorded: row_moves "adds_ids X" for X
proof (unfold_locales, goal_cases)
  case (2 d d' d'') then show ?case by (auto simp: adds_ids_def)
next
  case (4 d k p0 p now) then show ?case by (intro adds_ids_save [OF 4(1)]) (auto simp: same_row_def)
next
  case (7 now ch m d pid d1) then show ?case by (intro adds_idsI) (auto simp: insert_post_Some(3) new_post_def)
next
  case (10 w k) show ?case by (rule adds_idsI) (auto simp: delete_tag_def drop_tag_def split: option.splits)
next
  case (22 w C s command) show ?case
    using amain_cases [of C s command w] by (intro adds_ids_same) (auto simp: seed_admin_def seed_defaults_fields Let_def)
next
  case (16 w k) show ?case
    by (rule adds_idsI) (auto simp: delete_channel_def cascade_channel_def Let_def split: option.splits if_splits)
qed (auto intro!: adds_ids_same simp: create_tag_def update_tag_def create_template_def update_template_def delete_template_def
    create_channel_def update_channel_def update_ai_settings_def create_admin_def update_admin_def commit_admin_def
    login_def authenticate_def prune_dedupe_def prune_dedupe_rows_def prune_audit_events_def prune_media_files_def
    reserve_dedupe_def release_dedupe_def add_event_def Let_def split: option.split sum.split exn.split bool.split prod.split)

lemma publish_adds_ids:
  "adds_ids {mid. delivered_to (destination_channel_id (cfg E)) (snd (publish E pid w)) mid} (wdb w) (wdb (snd (publish E pid w)))"
  (is "adds_ids ?X _ _")
proof (rule recorded.publish_rows)
  fix p mid ch w3 q
  assume s: "send_of E p w = (Inr (Some mid), w3)"
    and core: "publish_core E pid w = publish_finish E pid mid (dedupe_hash p) ch w3" and q: "get_post (wdb w3) pid = Some q"
  have "logs (editorial E) w3 (snd (publish_core E pid w))" unfolding core by (rule publish_finish_logs)
  then have "delivered_to (destination_channel_id (cfg E)) (snd (publish_core E pid w)) mid"
    by (rule delivered_to_kept [OF _ send_spaced_id [OF s]])
  then have "mid \<in> ?X" using delivered_to_kept [OF publish_after_core_logs] by simp
  then show "adds_ids ?X (wdb w3) (save_post (wclock w3) (published_row (wclock w3) mid q) (wdb w3))"
    by (intro adds_ids_save [OF q]) (simp add: published_row_def)
qed

section \<open>Properties\<close>

text \<open>
  C3: what is recorded as published was delivered. In every state the services reach, in any order and with any
  failures, each post that carries the id of a published message has a call in the log that created a message
  with that id in the destination channel and succeeded.
\<close>

theorem published_means_delivered:
  assumes "reach E C T w w'"
    and "list_all (\<lambda>p. case published_message_id p of None \<Rightarrow> True
      | Some mid \<Rightarrow> delivered_to (destination_channel_id (cfg E)) w mid) (posts (wdb w))"
  shows "list_all (\<lambda>p. case published_message_id p of None \<Rightarrow> True
      | Some mid \<Rightarrow> list_ex (\<lambda>(c, r). r = Delivered mid \<and> is_send c \<and> call_chat c = Some (destination_channel_id (cfg E)))
          (wcalls w')) (posts (wdb w'))"
proof -
  let ?chat = "destination_channel_id (cfg E)"
  have "recorded_ids (wdb w') \<subseteq> {mid. delivered_to ?chat w' mid}"
    using assms(1)
  proof (induction rule: reach.induct)
    case Start
    show ?case
    proof
      fix mid assume "mid \<in> recorded_ids (wdb w)"
      then obtain p where "p \<in> set (posts (wdb w))" "published_message_id p = Some mid" by (auto simp: recorded_ids_def)
      then show "mid \<in> {mid. delivered_to ?chat w mid}" using assms(2) by (fastforce simp: list_all_iff)
    qed
  next
    case (Step w1 w2)
    have kept: "delivered_to ?chat w2 mid" if "delivered_to ?chat w1 mid" for mid
      using sys_step_kept [OF Step.hyps(2)] that by (auto simp: delivered_to_def)
    from recorded.other_step [OF Step.hyps(2), where X = "{}"] have "adds_ids {mid. delivered_to ?chat w2 mid} (wdb w1) (wdb w2)"
      using publish_adds_ids by (auto simp: adds_ids_def)
    then show ?case using Step.IH kept by (auto simp: adds_ids_def)
  qed
  then have "delivered_to ?chat w' mid" if "p \<in> set (posts (wdb w'))" "published_message_id p = Some mid" for p mid
    using that by (force simp: recorded_ids_def)
  then have "list_all (\<lambda>p. case published_message_id p of None \<Rightarrow> True | Some mid \<Rightarrow> delivered_to ?chat w' mid) (posts (wdb w'))"
    by (simp add: list_all_iff split: option.split)
  then show ?thesis unfolding delivered_to_def .
qed

theorem published_means_delivered_witness:
  "map published_message_id (posts (wdb (snd (publish sample_env 9 (sample_world [sample_post] []))))) = [Some 7] \<and>
   list_all (\<lambda>p. case published_message_id p of None \<Rightarrow> True
     | Some mid \<Rightarrow> list_ex (\<lambda>(c, r). r = Delivered mid \<and> is_send c \<and> call_chat c = Some (-100))
         (wcalls (snd (publish sample_env 9 (sample_world [sample_post] [])))))
     (posts (wdb (snd (publish sample_env 9 (sample_world [sample_post] [])))))"
proof
  show "map published_message_id (posts (wdb (snd (publish sample_env 9 (sample_world [sample_post] []))))) = [Some 7]"
    by code_simp
  have r: "reach sample_env two_kinds offline (sample_world [sample_post] []) (snd (publish sample_env 9 (sample_world [sample_post] [])))"
    by (rule reach.Step [OF reach.Start Publish_job])
  have d: "destination_channel_id (cfg sample_env) = -100" by code_simp
  show "list_all (\<lambda>p. case published_message_id p of None \<Rightarrow> True
     | Some mid \<Rightarrow> list_ex (\<lambda>(c, r). r = Delivered mid \<and> is_send c \<and> call_chat c = Some (-100))
         (wcalls (snd (publish sample_env 9 (sample_world [sample_post] [])))))
     (posts (wdb (snd (publish sample_env 9 (sample_world [sample_post] [])))))"
    by (rule published_means_delivered [OF r, unfolded d]) (simp add: sample_defs)
qed

lemma reach_kept: "reach E C T w w' \<Longrightarrow> \<exists>xs. wcalls w' = wcalls w @ xs"
  by (induction rule: reach.induct) (auto dest: sys_step_kept)

lemma logs_nth:
  assumes "logs P w w'" and "length (wcalls w) \<le> i" and "i < length (wcalls w')"
  shows "P (fst (wcalls w' ! i))"
  using assms by (auto simp: logs_def nth_append)

text \<open>
  C11: readers see posts and nothing else. When the editor group is not the destination channel itself, every call
  that the services make to the destination channel, over any run, creates a message and was made while a publish job
  ran, whose post, when that job started, was in the store, had no published message and was neither rejected nor published nor
  being published; what the message shows is the text of that post, a blank, or media without a caption. No button, card,
  alert or request writes there.
\<close>

theorem destination_shows_posts:
  assumes "reach E C T w w'" and "editor_group_id (cfg E) \<noteq> destination_channel_id (cfg E)"
    and "length (wcalls w) \<le> i" and "i < length (wcalls w')"
    and "call_chat (fst (wcalls w' ! i)) = Some (destination_channel_id (cfg E))"
  shows "is_send (fst (wcalls w' ! i)) \<and>
    (\<exists>w1 pid p. reach E C T w w1 \<and> reach E C T (snd (publish E pid w1)) w' \<and>
      length (wcalls w1) \<le> i \<and> i < length (wcalls (snd (publish E pid w1))) \<and>
      wcalls (snd (publish E pid w1)) ! i = wcalls w' ! i \<and>
      get_post (wdb w1) pid = Some p \<and> published_message_id p = None \<and> post_state p \<notin> {Rejected, Published, Publishing} \<and>
      call_text (fst (wcalls w' ! i)) \<in> {None, Some (lit '' ''), Some (publish_text p)})"
  using assms(1,3-5)
proof (induction rule: reach.induct)
  case Start
  then show ?case by simp
next
  case (Step w1 w2)
  obtain xs where xs: "wcalls w2 = wcalls w1 @ xs" using sys_step_kept [OF Step.hyps(2)] by blast
  show ?case
  proof (cases "i < length (wcalls w1)")
    case True
    then have "wcalls w2 ! i = wcalls w1 ! i" by (simp add: xs nth_append)
    then show ?thesis using Step.IH Step.prems True by (auto intro: reach.Step [OF _ Step.hyps(2)])
  next
    case False
    from sys_step_logs [OF Step.hyps(2)] show ?thesis
    proof
      assume "logs (editorial E) w1 w2"
      from logs_nth [OF this, of i] have "editorial E (fst (wcalls w2 ! i))" using False Step.prems by simp
      then show ?thesis using Step.prems(3) assms(2) by (simp add: editorial_def)
    next
      assume "\<exists>pid. w2 = snd (publish E pid w1)"
      then obtain pid where w2: "w2 = snd (publish E pid w1)" ..
      have "publishing E pid w1 (fst (wcalls w2 ! i)) \<or> editorial E (fst (wcalls w2 ! i))"
        using logs_nth [OF publish_logs [of E pid w1], of i] False Step.prems by (simp add: w2)
      then have "publishing E pid w1 (fst (wcalls w2 ! i))" using Step.prems(3) assms(2) by (auto simp: editorial_def)
      then obtain p where p: "publish_guard (wdb w1) pid = Inr p"
        "shows_text (destination_channel_id (cfg E)) (publish_text p) (fst (wcalls w2 ! i))"
        unfolding publishing_def by blast
      have "lit '' '' = [32]" by (simp add: lit_def)
      then show ?thesis
        using p False Step.prems Step.hyps(1) reach.Start [of E C T w2]
        by (auto simp: shows_text_def publish_guard_Inr SKIP_STATES_def w2 intro!: exI [of _ w1] exI [of _ pid])
    qed
  qed
qed

theorem destination_shows_posts_witness:
  "wcalls (snd (publish sample_env 9 (sample_world [sample_post] []))) = [(Send_message (-100) (lit ''hi'') None, Delivered 7)] \<and>
   (\<exists>w1 pid p. reach sample_env two_kinds offline (sample_world [sample_post] []) w1 \<and> get_post (wdb w1) pid = Some p \<and>
      Some (lit ''hi'') \<in> {None, Some (lit '' ''), Some (publish_text p)})"
proof
  show calls: "wcalls (snd (publish sample_env 9 (sample_world [sample_post] []))) = [(Send_message (-100) (lit ''hi'') None, Delivered 7)]"
    by code_simp
  have r: "reach sample_env two_kinds offline (sample_world [sample_post] []) (snd (publish sample_env 9 (sample_world [sample_post] [])))"
    by (rule reach.Step [OF reach.Start Publish_job])
  have d: "destination_channel_id (cfg sample_env) = -100" "editor_group_id (cfg sample_env) = -200" by code_simp+
  have e: "wcalls (sample_world [sample_post] []) = []" by (simp add: sample_world_def)
  show "\<exists>w1 pid p. reach sample_env two_kinds offline (sample_world [sample_post] []) w1 \<and> get_post (wdb w1) pid = Some p \<and>
      Some (lit ''hi'') \<in> {None, Some (lit '' ''), Some (publish_text p)}"
    using destination_shows_posts [OF r, of 0] unfolding d calls e by auto
qed

end
