(* ===== verification/Concurrent.thy ===== *)
theory Concurrent
  imports System PublishRace
begin

text \<open>
  The services at the same time. A step of \<open>System\<close> is a whole request or job; here publish jobs advance one
  transaction or call at a time, an ingestion commits its row and its media apart, and an update of an account is
  checked before it is written, with anything else in between. An update writes its row as it was checked. What the moves of the services keep on top of any
  state is kept by these parts too.
\<close>

section \<open>Overlapping steps\<close>

text \<open>
  The shared world, the publish jobs that are in flight with the log of what they have sent, the ingestions that have
  committed their row, and the account rows that requests have checked and not yet written.
\<close>

record running =
  ov_world :: world
  ov_jobs :: "nat \<Rightarrow> phase"
  ov_log :: "(nat \<times> post \<times> time \<times> sent) list"
  ov_ingests :: "nat \<Rightarrow> int option"
  ov_updates :: "nat \<Rightarrow> admin option"

definition alone :: "world \<Rightarrow> running" where
  "alone w = \<lparr>ov_world = w, ov_jobs = (\<lambda>j. Finished), ov_log = [], ov_ingests = (\<lambda>k. None), ov_updates = (\<lambda>k. None)\<rparr>"

definition race_of :: "running \<Rightarrow> race" where
  "race_of v = \<lparr>rdb = wdb (ov_world v), rclock = wclock (ov_world v), rjobs = ov_jobs v, rlog = ov_log v\<rparr>"

definition with_race :: "race \<Rightarrow> running \<Rightarrow> running" where
  "with_race S v = v\<lparr>ov_world := (ov_world v)\<lparr>wdb := rdb S, wclock := rclock S\<rparr>, ov_jobs := rjobs S, ov_log := rlog S\<rparr>"

definition with_db :: "db \<Rightarrow> running \<Rightarrow> running" where
  "with_db d v = v\<lparr>ov_world := (ov_world v)\<lparr>wdb := d\<rparr>\<rparr>"

inductive overlap_step :: "env \<Rightarrow> crypto \<Rightarrow> telethon \<Rightarrow> running \<Rightarrow> running \<Rightarrow> bool" for E C T where
  Whole: "sys_step E C T (ov_world v) w \<Longrightarrow> overlap_step E C T v (v\<lparr>ov_world := w\<rparr>)"
| Job_queued: "ov_jobs v j = Finished \<Longrightarrow> overlap_step E C T v (v\<lparr>ov_jobs := (ov_jobs v)(j := Queued pid)\<rparr>)"
| Job_part: "job_step E j (race_of v) S \<Longrightarrow> overlap_step E C T v (with_race S v)"
| Job_ended: "overlap_step E C T v (v\<lparr>ov_jobs := (ov_jobs v)(j := Finished)\<rparr>)"
| Row_stored: "insert_post (wclock (ov_world v)) ch m (wdb (ov_world v)) = Some (pid, d) \<Longrightarrow>
    overlap_step E C T v ((with_db d v)\<lparr>ov_ingests := (ov_ingests v)(k := Some pid)\<rparr>)"
| Media_stored: "ov_ingests v k = Some pid \<Longrightarrow>
    overlap_step E C T v ((with_db (attach_media (wclock (ov_world v)) pid refs (wdb (ov_world v))) v)\<lparr>ov_ingests := (ov_ingests v)(k := None)\<rparr>)"
| Update_checked: "valid_admin_update u \<Longrightarrow>
    updated_admin C (wclock (ov_world v)) (admins (wdb (ov_world v))) aid u = Inr a \<Longrightarrow>
    overlap_step E C T v (v\<lparr>ov_updates := (ov_updates v)(k := Some a)\<rparr>)"
| Update_written: "ov_updates v k = Some a \<Longrightarrow>
    overlap_step E C T v (v\<lparr>ov_world := snd (commit_admin a (ov_world v)), ov_updates := (ov_updates v)(k := None)\<rparr>)"

inductive overlaps :: "env \<Rightarrow> crypto \<Rightarrow> telethon \<Rightarrow> running \<Rightarrow> running \<Rightarrow> bool" for E C T v where
  Here: "overlaps E C T v v"
| There: "overlaps E C T v v1 \<Longrightarrow> overlap_step E C T v1 v2 \<Longrightarrow> overlaps E C T v v2"

text \<open>One after the other is a special case.\<close>

lemma reach_overlaps: "reach E C T (ov_world v) w' \<Longrightarrow> overlaps E C T v (v\<lparr>ov_world := w'\<rparr>)"
proof (induction rule: reach.induct)
  case Start
  show ?case by (simp add: overlaps.Here)
next
  case (Step w1 w2)
  have "overlap_step E C T (v\<lparr>ov_world := w1\<rparr>) ((v\<lparr>ov_world := w1\<rparr>)\<lparr>ov_world := w2\<rparr>)"
    by (rule Whole) (use Step.hyps(2) in simp)
  then show ?case using Step.IH by (auto intro: overlaps.There)
qed

section \<open>What overlapping moves keep\<close>

text \<open>
  Two laws more than for whole steps: a sent message may be recorded of a row whatever the row holds by then, and an
  account row may be written on any state.
\<close>

locale overlapping_moves = row_moves +
  assumes recorded: "get_post d k = Some p0 \<Longrightarrow> moves d (save_post now (published_row now mid p0) d)"
    and account_written: "moves (wdb w) (wdb (snd (commit_admin a w)))"
begin

lemma publish_moves: "moves (wdb w) (wdb (snd (publish E pid w)))"
  by (rule publish_rows) (rule recorded)

lemma whole_step: "sys_step E C T w w' \<Longrightarrow> moves (wdb w) (wdb w')"
  using other_step publish_moves by metis

lemma marked: "moves d (snd (mark_published E now pid mid h d))"
  by (rule step_mark_published) (rule recorded)

lemma part_step: "job_step E j S S' \<Longrightarrow> moves (rdb S) (rdb S')"
proof (induction rule: job_step.induct)
  case (Mark S p mid d)
  then show ?case using marked [of "rdb S" E "rclock S" "post_id p" mid "dedupe_hash p"] by simp
next
  case (Mark_failed S p mid e d)
  then show ?case using marked [of "rdb S" E "rclock S" "post_id p" mid "dedupe_hash p"] by simp
next
  case (Card_failed S p mid d err)
  then show ?case using marked [of "rdb S" E "rclock S" "post_id p" mid "dedupe_hash p"] by simp
next
  case (Record_failure S pid err w)
  then show ?case using on_publish_failure_ok [of w E pid err] by simp
next
  case (Reserve_won S p d)
  then show ?case using reserve [of "rdb S" "rclock S" "dedupe_hash p"] by simp
next
  case (Reserve_lost S p d)
  then have "moves (rdb S) d" using reserve [of "rdb S" "rclock S" "dedupe_hash p"] by simp
  then show ?case using go_on step_mark_duplicate by fastforce
qed (simp_all add: step_claim step_mark_duplicate release)

lemma overlap_step_ok: "overlap_step E C T v v' \<Longrightarrow> moves (wdb (ov_world v)) (wdb (ov_world v'))"
proof (induction rule: overlap_step.induct)
  case (Job_part j v S)
  then show ?case using part_step [of E j "race_of v" S] by (simp add: race_of_def with_race_def)
next
  case (Media_stored v k pid refs)
  show ?case
    by (auto simp: with_db_def attach_media_def Let_def same_row_edit pub_row_edit intro!: save_event split: option.split)
qed (simp_all add: whole_step with_db_def insert account_written)

lemma overlaps_ok: "overlaps E C T v v' \<Longrightarrow> moves (wdb (ov_world v)) (wdb (ov_world v'))"
  by (induction rule: overlaps.induct) (auto intro: go_on overlap_step_ok)

end

section \<open>The invariant\<close>

definition keeps_sound :: "db \<Rightarrow> db \<Rightarrow> bool" where
  "keeps_sound d d' \<longleftrightarrow> (sound d \<longrightarrow> sound d')"

lemma keeps_sound_step: "step_ok d d' \<Longrightarrow> keeps_sound d d'"
  by (simp add: keeps_sound_def step_ok_def)

lemma sound_map:
  assumes "sound d" and "posts d' = map f (posts d)" and "dedupe_rows d' = dedupe_rows d" and "next_id d' = next_id d"
    and "\<And>p. p \<in> set (posts d) \<Longrightarrow> post_id (f p) = post_id p \<and> source_key (f p) = source_key p \<and> pub_row (f p)"
  shows "sound d'"
proof -
  have f: "map post_id (posts d') = map post_id (posts d)" "map source_key (posts d') = map source_key (posts d)"
    using assms(2,5) by auto
  have "ids_fresh d'" using assms(1,2,4,5) by (auto simp: sound_def store_ok_def ids_fresh_def)
  moreover have "unique_sources d'" "unique_keys post_id (posts d')"
    using assms(1) unfolding sound_def store_ok_def unique_sources_def unique_keys_def keys_def f by blast+
  ultimately show ?thesis using assms by (auto simp: sound_def store_ok_def)
qed

lemma sound_recorded:
  assumes "get_post d k = Some p0"
  shows "keeps_sound d (save_post now (published_row now mid p0) d)"
  unfolding keeps_sound_def
proof
  let ?q = "(published_row now mid p0)\<lparr>updated_at := now\<rparr>"
  assume s: "sound d"
  have uniq: "r = p0" if "r \<in> set (posts d)" "post_id r = post_id p0" for r
    using that tbl.get_ok [of post_id "posts d" r] s assms tget_key [OF assms] by (auto simp: sound_def store_ok_def)
  show "sound (save_post now (published_row now mid p0) d)"
  proof (cases "get_post d (post_id (published_row now mid p0)) = Some (published_row now mid p0)")
    case False
    show ?thesis
    proof (rule sound_map [OF s, where f = "\<lambda>r. if post_id r = post_id ?q then ?q else r"])
      show "posts (save_post now (published_row now mid p0) d) = map (\<lambda>r. if post_id r = post_id ?q then ?q else r) (posts d)"
        using False by (simp add: save_post_def tput_def)
      fix r assume "r \<in> set (posts d)"
      then show "post_id (if post_id r = post_id ?q then ?q else r) = post_id r \<and>
          source_key (if post_id r = post_id ?q then ?q else r) = source_key r \<and>
          pub_row (if post_id r = post_id ?q then ?q else r)"
        using uniq [of r] s by (auto simp: published_row_def source_key_def pub_row_def sound_def)
    qed simp_all
  qed (use s in \<open>simp add: save_post_def\<close>)
qed

lemma sound_account: "keeps_sound (wdb w) (wdb (snd (commit_admin a w)))"
  by (auto simp: keeps_sound_def commit_admin_def sound_def store_ok_def ids_fresh_def unique_sources_def)

interpretation overlapping: overlapping_moves keeps_sound
  by unfold_locales
    (simp_all add: keeps_sound_step invariant.event invariant.save invariant.reserve invariant.release invariant.insert
      invariant.tag_made invariant.tag_changed invariant.tag_gone invariant.template_made invariant.template_changed
      invariant.template_gone invariant.channel_made invariant.channel_changed invariant.channel_gone invariant.ai_changed
      invariant.account_made invariant.account_changed invariant.signed_in invariant.pruned invariant.seeded
      sound_recorded sound_account,
     simp add: keeps_sound_def)

section \<open>Property\<close>

text \<open>
  C2: the store stays consistent while the services run at the same time. Requests, sign-ins, buttons, jobs,
  ingestions, seeding and housekeeping follow one another in any order and with any failures; between their steps,
  any number of publish jobs advance one transaction or call at a time or break off, ingestions that have stored
  their row add its media, and checked updates of accounts are written. In every state that is reached, no source
  message is stored twice, post ids are unique, a published post has its message id, and no hash is reserved twice.
\<close>

theorem system_invariant:
  assumes "overlaps E C T v v'" and "sound (wdb (ov_world v))"
  shows "distinct (map (\<lambda>p. (source_channel_id p, source_message_id p)) (posts (wdb (ov_world v')))) \<and>
    distinct (map post_id (posts (wdb (ov_world v')))) \<and>
    (\<forall>p \<in> set (posts (wdb (ov_world v'))). post_state p = Published \<longrightarrow> published_message_id p \<noteq> None) \<and>
    distinct (map pd_hash (dedupe_rows (wdb (ov_world v'))))"
proof -
  have "sound (wdb (ov_world v'))" using overlapping.overlaps_ok [OF assms(1)] assms(2) by (simp add: keeps_sound_def)
  moreover have "source_key = (\<lambda>p. (source_channel_id p, source_message_id p))" by (simp add: source_key_def fun_eq_iff)
  ultimately show ?thesis
    by (simp add: sound_def store_ok_def unique_sources_def unique_keys_def keys_def pub_row_def)
qed

text \<open>A publish job claims its post; before it goes on, another message is ingested.\<close>

theorem system_invariant_witness:
  "distinct (map post_id (posts (wdb (snd (ingest_message sample_env offline text_message sample_channel
     (root_world\<lparr>wdb := claim_post (days 1000) sample_post (wdb root_world)\<rparr>))))))"
proof -
  let ?v0 = "alone root_world" and ?d = "claim_post (days 1000) sample_post (wdb root_world)"
  let ?v1 = "?v0\<lparr>ov_jobs := (ov_jobs ?v0)(0 := Queued 9)\<rparr>"
  let ?S2 = "at (race_of ?v1) 0 (Loaded sample_post)"
  let ?v2 = "with_race ?S2 ?v1"
  let ?S3 = "(at (race_of ?v2) 0 (Claimed sample_post))\<lparr>rdb := claim_post (rclock (race_of ?v2)) sample_post (rdb (race_of ?v2))\<rparr>"
  let ?v3 = "with_race ?S3 ?v2"
  let ?w = "snd (ingest_message sample_env offline text_message sample_channel (ov_world ?v3))"
  have clock: "wclock root_world = days 1000" by (simp add: root_world_def sample_world_def)
  have g: "publish_guard (wdb root_world) 9 = Inr sample_post" "get_post (wdb root_world) (post_id sample_post) = Some sample_post"
    by code_simp+
  have w3: "ov_world ?v3 = root_world\<lparr>wdb := ?d\<rparr>"
    by (simp add: with_race_def race_of_def alone_def clock)
  have "overlaps sample_env root_crypto offline ?v0 (?v3\<lparr>ov_world := ?w\<rparr>)"
  proof (rule overlaps.There [OF overlaps.There [OF overlaps.There [OF overlaps.There [OF overlaps.Here]]]])
    show "overlap_step sample_env root_crypto offline ?v0 ?v1" by (rule Job_queued) (simp add: alone_def)
    show "overlap_step sample_env root_crypto offline ?v1 ?v2"
      by (rule Job_part, rule job_step.Load [where pid = 9]) (simp_all add: race_of_def alone_def g(1))
    show "overlap_step sample_env root_crypto offline ?v2 ?v3"
      by (rule Job_part, rule job_step.Claim) (simp_all add: race_of_def with_race_def alone_def at_def g(2))
    show "overlap_step sample_env root_crypto offline ?v3 (?v3\<lparr>ov_world := ?w\<rparr>)" by (rule Whole) (rule Ingest)
  qed
  moreover have "sound (wdb (ov_world ?v0))" using root_good by (simp add: alone_def good_def)
  ultimately have "distinct (map post_id (posts (wdb (ov_world (?v3\<lparr>ov_world := ?w\<rparr>)))))" using system_invariant by blast
  moreover have "ov_world (?v3\<lparr>ov_world := ?w\<rparr>) = ?w" by simp
  ultimately show ?thesis unfolding w3 by metis
qed

end
