(* ===== verification/Wire.thy ===== *)
theory Wire
  imports Tasks "HOL-Library.AList"
begin

text \<open>
  The wire format of jobs: \<open>arq_job_serializer\<close> and \<open>arq_job_deserializer\<close> of \<open>shared/tasks.py\<close>, with the
  part of Python's \<open>json\<close> and of UTF-8 that they rest on. Numbers with a fraction or an exponent do not
  occur in jobs and are not read, nor are \<open>NaN\<close> and the infinities. The nesting depth that a reader accepts is bounded by the length of its input.
\<close>

section \<open>Values\<close>

text \<open>An object of a type that JSON does not know is given by what \<open>str\<close> makes of it.\<close>

datatype json_value =
    J_null
  | J_bool bool
  | J_int int
  | J_str pystr
  | J_list "json_value list"
  | J_dict "(pystr \<times> json_value) list"
  | J_other pystr

section \<open>Writing\<close>

definition hex_digit :: "int \<Rightarrow> int" where
  "hex_digit n = (if n < 10 then 48 + n else 87 + n)"

definition hex4 :: "int \<Rightarrow> pystr" where
  "hex4 c = [hex_digit (c div 4096), hex_digit (c div 256 mod 16), hex_digit (c div 16 mod 16), hex_digit (c mod 16)]"

definition unicode_escape :: "int \<Rightarrow> pystr" where
  "unicode_escape c = 92 # 117 # hex4 c"

text \<open>The two surrogates of a character beyond the basic plane.\<close>

definition high_of :: "int \<Rightarrow> int" where
  "high_of c = 55296 + (c - 65536) div 1024"

definition low_of :: "int \<Rightarrow> int" where
  "low_of c = 56320 + (c - 65536) mod 1024"

definition escape_char :: "int \<Rightarrow> pystr" where
  "escape_char c =
     (if c = 34 then [92, 34] else if c = 92 then [92, 92]
      else if c = 10 then [92, 110] else if c = 13 then [92, 114] else if c = 9 then [92, 116]
      else if c = 12 then [92, 102] else if c = 8 then [92, 98]
      else if 32 \<le> c \<and> c \<le> 126 then [c]
      else if c < 65536 then unicode_escape c
      else unicode_escape (high_of c) @ unicode_escape (low_of c))"

definition dumps_str :: "pystr \<Rightarrow> pystr" where
  "dumps_str s = 34 # concat (map escape_char s) @ [34]"

fun dumps :: "json_value \<Rightarrow> pystr" where
  "dumps J_null = lit ''null''"
| "dumps (J_bool b) = (if b then lit ''true'' else lit ''false'')"
| "dumps (J_int n) = str_int n"
| "dumps (J_str s) = dumps_str s"
| "dumps (J_list vs) = [91] @ join [44, 32] (map dumps vs) @ [93]"
| "dumps (J_dict kvs) = [123] @ join [44, 32] (map (\<lambda>(k, v). dumps_str k @ [58, 32] @ dumps v) kvs) @ [125]"
| "dumps (J_other s) = dumps_str s"

section \<open>Reading\<close>

definition skip_space :: "pystr \<Rightarrow> pystr" where
  "skip_space s = dropWhile (\<lambda>c. c = 32 \<or> c = 9 \<or> c = 10 \<or> c = 13) s"

definition hex_value :: "int \<Rightarrow> int option" where
  "hex_value c =
     (if 48 \<le> c \<and> c \<le> 57 then Some (c - 48) else if 97 \<le> c \<and> c \<le> 102 then Some (c - 87)
      else if 65 \<le> c \<and> c \<le> 70 then Some (c - 55) else None)"

fun read_hex4 :: "pystr \<Rightarrow> (int \<times> pystr) option" where
  "read_hex4 (a # b # c # d # s) =
     (case (hex_value a, hex_value b, hex_value c, hex_value d) of
        (Some w, Some x, Some y, Some z) \<Rightarrow> Some (((w * 16 + x) * 16 + y) * 16 + z, s)
      | _ \<Rightarrow> None)"
| "read_hex4 s = None"

text \<open>After a high surrogate, an escape for a low surrogate belongs to the same character.\<close>

definition read_low :: "int \<Rightarrow> pystr \<Rightarrow> int \<times> pystr" where
  "read_low u s =
     (if 55296 \<le> u \<and> u \<le> 56319
      then (case s of
              x # y # t \<Rightarrow>
                (if x = 92 \<and> y = 117
                 then (case read_hex4 t of
                         Some (v, r) \<Rightarrow> if 56320 \<le> v \<and> v \<le> 57343 then (65536 + (u - 55296) * 1024 + (v - 56320), r) else (u, s)
                       | None \<Rightarrow> (u, s))
                 else (u, s))
            | _ \<Rightarrow> (u, s))
      else (u, s))"

text \<open>One character of a string after its opening quote, with escapes resolved.\<close>

definition read_escape :: "pystr \<Rightarrow> (int \<times> pystr) option" where
  "read_escape s =
     (case s of
        [] \<Rightarrow> None
      | e # t \<Rightarrow>
          if e = 117 then map_option (\<lambda>(u, r). read_low u r) (read_hex4 t)
          else if e = 34 \<or> e = 92 \<or> e = 47 then Some (e, t)
          else if e = 110 then Some (10, t) else if e = 114 then Some (13, t) else if e = 116 then Some (9, t)
          else if e = 102 then Some (12, t) else if e = 98 then Some (8, t) else None)"

lemma read_hex4_length: "read_hex4 s = Some (v, r) \<Longrightarrow> length r < length s"
  by (induction s rule: read_hex4.induct) (auto split: option.splits)

lemma read_low_length: "length (snd (read_low u s)) \<le> length s"
  by (auto simp: read_low_def split: list.split option.split dest!: read_hex4_length)

lemma read_escape_length: "read_escape s = Some (c, t) \<Longrightarrow> length t < length s"
proof -
  have "read_hex4 s' = Some (u, r) \<Longrightarrow> length (snd (read_low u r)) < length s'" for s' u r
    using read_hex4_length [of s' u r] read_low_length [of u r] by simp
  then show "read_escape s = Some (c, t) \<Longrightarrow> length t < length s"
    by (fastforce simp: read_escape_def less_Suc_eq split: list.splits if_splits)
qed

function scan_string :: "pystr \<Rightarrow> (pystr \<times> pystr) option" where
  "scan_string s =
     (case s of
        [] \<Rightarrow> None
      | c # t \<Rightarrow>
          if c = 34 then Some ([], t)
          else if c = 92
          then (case read_escape t of
                  None \<Rightarrow> None
                | Some (d, r) \<Rightarrow> map_option (apfst ((#) d)) (scan_string r))
          else if c < 32 then None
          else map_option (apfst ((#) c)) (scan_string t))"
  by pat_completeness auto
termination
  by (relation "measure length") (auto dest: read_escape_length)

declare scan_string.simps [simp del]

definition scan_number :: "pystr \<Rightarrow> (json_value \<times> pystr) option" where
  "scan_number s =
     (let (neg, t) = (case s of c # u \<Rightarrow> if c = 45 then (True, u) else (False, s) | [] \<Rightarrow> (False, s));
          ds = (case t of c # u \<Rightarrow> if c = 48 then [48] else takeWhile is_digit t | [] \<Rightarrow> []);
          rest = drop (length ds) t
      in if ds = [] \<or> (rest \<noteq> [] \<and> (hd rest = 46 \<or> hd rest = 101 \<or> hd rest = 69)) then None
         else Some (J_int (if neg then - undigits 0 ds else undigits 0 ds), rest))"

text \<open>The dictionary of a list of members: a repeated key keeps its place and gets the last value.\<close>

definition dict_of :: "(pystr \<times> json_value) list \<Rightarrow> (pystr \<times> json_value) list" where
  "dict_of kvs = fold (\<lambda>(k, v). AList.update k v) kvs []"

fun scan :: "nat \<Rightarrow> pystr \<Rightarrow> (json_value \<times> pystr) option"
  and elements :: "nat \<Rightarrow> pystr \<Rightarrow> (json_value list \<times> pystr) option"
  and members :: "nat \<Rightarrow> pystr \<Rightarrow> ((pystr \<times> json_value) list \<times> pystr) option" where
  "scan 0 s = None"
| "scan (Suc n) s =
     (case s of
        [] \<Rightarrow> None
      | c # t \<Rightarrow>
          if c = 34 then map_option (apfst J_str) (scan_string t)
          else if c = 91
          then (case skip_space t of
                  d # u \<Rightarrow> if d = 93 then Some (J_list [], u) else map_option (apfst J_list) (elements n (d # u))
                | [] \<Rightarrow> None)
          else if c = 123
          then (case skip_space t of
                  d # u \<Rightarrow> if d = 125 then Some (J_dict [], u) else map_option (apfst (J_dict \<circ> dict_of)) (members n (d # u))
                | [] \<Rightarrow> None)
          else if startswith s (lit ''null'') then Some (J_null, drop 4 s)
          else if startswith s (lit ''true'') then Some (J_bool True, drop 4 s)
          else if startswith s (lit ''false'') then Some (J_bool False, drop 5 s)
          else scan_number s)"
| "elements 0 s = None"
| "elements (Suc n) s =
     (case scan n s of
        None \<Rightarrow> None
      | Some (v, t) \<Rightarrow>
          (case skip_space t of
             d # u \<Rightarrow>
               if d = 93 then Some ([v], u)
               else if d = 44 then map_option (apfst ((#) v)) (elements n (skip_space u))
               else None
           | [] \<Rightarrow> None))"
| "members 0 s = None"
| "members (Suc n) s =
     (case s of
        [] \<Rightarrow> None
      | q # t \<Rightarrow>
          if q \<noteq> 34 then None
          else (case scan_string t of
             None \<Rightarrow> None
           | Some (k, t1) \<Rightarrow>
               (case skip_space t1 of
                  [] \<Rightarrow> None
                | c # t2 \<Rightarrow>
                    if c \<noteq> 58 then None
                    else (case scan n (skip_space t2) of
                       None \<Rightarrow> None
                     | Some (v, t3) \<Rightarrow>
                         (case skip_space t3 of
                            [] \<Rightarrow> None
                          | d # u \<Rightarrow>
                              if d = 125 then Some ([(k, v)], u)
                              else if d = 44 then map_option (apfst ((#) (k, v))) (members n (skip_space u))
                              else None)))))"

text \<open>\<open>json.loads\<close> of a string: one value and nothing but white space around it.\<close>

definition loads :: "pystr \<Rightarrow> json_value option" where
  "loads s =
     (case scan (Suc (length s)) (skip_space s) of
        None \<Rightarrow> None
      | Some (v, t) \<Rightarrow> if skip_space t = [] then Some v else None)"

section \<open>Bytes\<close>

text \<open>UTF-8; surrogates have no encoding.\<close>

definition utf8_char :: "int \<Rightarrow> int list option" where
  "utf8_char c =
     (if c < 128 then Some [c]
      else if c < 2048 then Some [192 + c div 64, 128 + c mod 64]
      else if 55296 \<le> c \<and> c \<le> 57343 then None
      else if c < 65536 then Some [224 + c div 4096, 128 + c div 64 mod 64, 128 + c mod 64]
      else Some [240 + c div 262144, 128 + c div 4096 mod 64, 128 + c div 64 mod 64, 128 + c mod 64])"

fun utf8 :: "pystr \<Rightarrow> int list option" where
  "utf8 [] = Some []"
| "utf8 (c # s) =
     (case (utf8_char c, utf8 s) of (Some b, Some bs) \<Rightarrow> Some (b @ bs) | _ \<Rightarrow> None)"

text \<open>
  \<open>json.dumps(data, default=str).encode()\<close>, and \<open>json.loads(data)\<close> of bytes. What the writer makes is ASCII; for
  other bytes \<open>decode\<close> stands for what Python makes of them.
\<close>

definition arq_job_serializer :: "json_value \<Rightarrow> int list option" where
  "arq_job_serializer v = utf8 (dumps v)"

definition arq_job_deserializer :: "(int list \<Rightarrow> pystr option) \<Rightarrow> int list \<Rightarrow> json_value option" where
  "arq_job_deserializer decode bs =
     (if list_all (\<lambda>b. 0 < b \<and> b < 128) bs then loads bs
      else (case decode bs of None \<Rightarrow> None | Some s \<Rightarrow> loads s))"

section \<open>Strings survive\<close>

text \<open>Code points, none of them a high surrogate followed by a low one: such a pair is read as one character.\<close>

fun unpaired :: "pystr \<Rightarrow> bool" where
  "unpaired (c # d # s) \<longleftrightarrow> \<not> (55296 \<le> c \<and> c \<le> 56319 \<and> 56320 \<le> d \<and> d \<le> 57343) \<and> unpaired (d # s)"
| "unpaired s \<longleftrightarrow> True"

definition readable_str :: "pystr \<Rightarrow> bool" where
  "readable_str s \<longleftrightarrow> list_all (\<lambda>c. 0 \<le> c \<and> c \<le> 1114111) s \<and> unpaired s"

lemma readable_Cons: "readable_str (c # s) \<Longrightarrow> 0 \<le> c \<and> c \<le> 1114111 \<and> readable_str s"
  by (cases s) (auto simp: readable_str_def)

lemma hex_roundtrip: "0 \<le> n \<Longrightarrow> n < 16 \<Longrightarrow> hex_value (hex_digit n) = Some n"
  by (simp add: hex_value_def hex_digit_def)

lemma hex4_value:
  "((c div 4096 * 16 + c div 256 mod 16) * 16 + c div 16 mod 16) * 16 + c mod 16 = c" for c :: int
proof -
  have d: "c div 256 = c div 16 div 16" "c div 4096 = c div 16 div 16 div 16"
    using zdiv_zmult2_eq [of 16 c 16] zdiv_zmult2_eq [of 16 c 256] zdiv_zmult2_eq [of 16 "c div 16" 16] by simp_all
  have "q div 16 * 16 + q mod 16 = q" for q :: int by simp
  then show ?thesis unfolding d by simp
qed

lemma read_hex4_hex4: "0 \<le> c \<Longrightarrow> c < 65536 \<Longrightarrow> read_hex4 (hex4 c @ s) = Some (c, s)"
proof -
  assume "0 \<le> c" "c < 65536"
  then have "0 \<le> c div 4096" "c div 4096 < 16" by simp_all
  then have d: "hex_value (hex_digit (c div 4096)) = Some (c div 4096)"
    "hex_value (hex_digit (c div 256 mod 16)) = Some (c div 256 mod 16)"
    "hex_value (hex_digit (c div 16 mod 16)) = Some (c div 16 mod 16)" "hex_value (hex_digit (c mod 16)) = Some (c mod 16)"
    by (simp_all add: hex_roundtrip)
  show ?thesis
    by (simp only: hex4_def append_Cons append_Nil read_hex4.simps d prod.case option.case hex4_value)
qed

lemma surrogates:
  assumes "65536 \<le> c" and "c \<le> 1114111"
  shows "55296 \<le> high_of c \<and> high_of c \<le> 56319" and "56320 \<le> low_of c \<and> low_of c \<le> 57343"
    and "65536 + (high_of c - 55296) * 1024 + (low_of c - 56320) = c"
proof -
  have "0 \<le> (c - 65536) div 1024" "(c - 65536) div 1024 < 1024" using assms by simp_all
  then show "55296 \<le> high_of c \<and> high_of c \<le> 56319" by (simp add: high_of_def)
  have "0 \<le> (c - 65536) mod 1024" "(c - 65536) mod 1024 < 1024" by simp_all
  then show "56320 \<le> low_of c \<and> low_of c \<le> 57343" unfolding low_of_def by linarith
  define x y where "x = (c - 65536) div 1024" and "y = (c - 65536) mod 1024"
  have "x * 1024 + y = c - 65536" unfolding x_def y_def by simp
  then show "65536 + (high_of c - 55296) * 1024 + (low_of c - 56320) = c"
    unfolding high_of_def low_of_def x_def [symmetric] y_def [symmetric] by simp
qed

lemma read_low_escape:
  assumes "0 \<le> k" and "k < 65536"
  shows "read_low u (unicode_escape k @ s) =
    (if 55296 \<le> u \<and> u \<le> 56319 \<and> 56320 \<le> k \<and> k \<le> 57343 then (65536 + (u - 55296) * 1024 + (k - 56320), s)
     else (u, unicode_escape k @ s))"
  by (simp add: read_low_def unicode_escape_def read_hex4_hex4 [OF assms])

text \<open>What starts like a character that is no low surrogate is not taken for one.\<close>

lemma read_low_keeps:
  assumes "readable_str (u # s)"
  shows "read_low u (concat (map escape_char s) @ 34 # r) = (u, concat (map escape_char s) @ 34 # r)"
proof (cases s)
  case Nil
  then show ?thesis by (auto simp: read_low_def split: list.split)
next
  case (Cons d t)
  have d: "0 \<le> d" "d \<le> 1114111" "55296 \<le> u \<Longrightarrow> u \<le> 56319 \<Longrightarrow> \<not> (56320 \<le> d \<and> d \<le> 57343)"
    using assms by (auto simp: Cons readable_str_def)
  have hex: "read_low u (unicode_escape c @ x) = (u, unicode_escape c @ x)"
    if "0 \<le> c" "c < 65536" "55296 \<le> u \<Longrightarrow> u \<le> 56319 \<Longrightarrow> \<not> (56320 \<le> c \<and> c \<le> 57343)" for c x
    using that(3) by (simp add: read_low_escape [OF that(1,2)])
  have high: "read_low u (unicode_escape (high_of d) @ x) = (u, unicode_escape (high_of d) @ x)" if "65536 \<le> d" for x
    by (rule hex) (use surrogates(1) [OF that d(2)] in auto)
  have other: "x \<noteq> 92 \<Longrightarrow> read_low u (x # y) = (u, x # y)" "z \<noteq> 117 \<Longrightarrow> read_low u (92 # z # y) = (u, 92 # z # y)" for x y z
    by (simp_all add: read_low_def split: list.split)
  show ?thesis
    unfolding Cons using d by (simp add: escape_char_def hex high other)
qed

lemma scan_escaped:
  assumes "readable_str (c # s)"
  shows "scan_string (escape_char c @ concat (map escape_char s) @ 34 # r)
    = map_option (apfst ((#) c)) (scan_string (concat (map escape_char s) @ 34 # r))"
proof -
  let ?t = "concat (map escape_char s) @ 34 # r"
  have c: "0 \<le> c" "c \<le> 1114111" using readable_Cons [OF assms] by simp_all
  have esc: "scan_string (92 # x) = (case read_escape x of None \<Rightarrow> None
      | Some (d, r) \<Rightarrow> map_option (apfst ((#) d)) (scan_string r))" for x
    by (subst scan_string.simps) simp
  have hex: "scan_string (unicode_escape k @ x) = map_option (apfst ((#) (fst (read_low k x)))) (scan_string (snd (read_low k x)))"
    if "0 \<le> k" "k < 65536" for k x
    by (simp add: unicode_escape_def read_hex4_hex4 [OF that] esc read_escape_def case_prod_beta)
  have pair: "scan_string (unicode_escape (high_of c) @ unicode_escape (low_of c) @ ?t) = map_option (apfst ((#) c)) (scan_string ?t)"
    if "65536 \<le> c"
  proof -
    note s = surrogates [OF that c(2)]
    have "read_low (high_of c) (unicode_escape (low_of c) @ ?t) = (c, ?t)"
      using s read_low_escape [of "low_of c" "high_of c" ?t] by simp
    with s hex [of "high_of c" "unicode_escape (low_of c) @ ?t"] show ?thesis by simp
  qed
  have single: "scan_string (unicode_escape c @ ?t) = map_option (apfst ((#) c)) (scan_string ?t)" if "c < 65536"
    using hex [OF c(1) that, of ?t] read_low_keeps [OF assms, of r] by simp
  have plain: "scan_string (c # ?t) = map_option (apfst ((#) c)) (scan_string ?t)" if "32 \<le> c" "c \<noteq> 34" "c \<noteq> 92"
    using that by (subst scan_string.simps) simp
  show ?thesis
    by (simp add: escape_char_def esc read_escape_def pair single plain)
qed

lemma scan_dumped:
  "readable_str s \<Longrightarrow> scan_string (concat (map escape_char s) @ 34 # r) = Some (s, r)"
proof (induction s)
  case Nil
  show ?case by (subst scan_string.simps) simp
next
  case (Cons c s)
  then show ?case using scan_escaped [of c s r] readable_Cons [of c s] by simp
qed

section \<open>Values survive\<close>

text \<open>What a reader sees: the value with objects of other types as their text.\<close>

fun seen :: "json_value \<Rightarrow> json_value" where
  "seen (J_list vs) = J_list (map seen vs)"
| "seen (J_dict kvs) = J_dict (map (\<lambda>(k, v). (k, seen v)) kvs)"
| "seen (J_other s) = J_str s"
| "seen v = v"

text \<open>The keys of a dictionary are distinct.\<close>

fun readable :: "json_value \<Rightarrow> bool" where
  "readable (J_str s) = readable_str s"
| "readable (J_other s) = readable_str s"
| "readable (J_list vs) = list_all readable vs"
| "readable (J_dict kvs) = (distinct (map fst kvs) \<and> list_all (\<lambda>(k, v). readable_str k \<and> readable v) kvs)"
| "readable v = True"

lemma dict_of_distinct: "distinct (map fst kvs) \<Longrightarrow> dict_of kvs = kvs"
proof -
  have "distinct (map fst (acc @ kvs)) \<Longrightarrow> fold (\<lambda>(k, v). AList.update k v) kvs acc = acc @ kvs" for acc
  proof (induction kvs arbitrary: acc)
    case (Cons kv kvs)
    have "AList.update (fst kv) (snd kv) acc = acc @ [kv]"
      using Cons.prems by (induction acc) (auto simp: prod_eq_iff)
    then show ?case using Cons.IH [of "acc @ [kv]"] Cons.prems by (simp add: case_prod_beta)
  qed simp
  from this [of "[]"] show "distinct (map fst kvs) \<Longrightarrow> dict_of kvs = kvs" by (simp add: dict_of_def)
qed

definition ends :: "pystr \<Rightarrow> bool" where
  "ends r \<longleftrightarrow> r = [] \<or> hd r = 44 \<or> hd r = 93 \<or> hd r = 125"

lemma ends_simps [simp]: "ends []" "ends (44 # r)" "ends (93 # r)" "ends (125 # r)"
  by (simp_all add: ends_def)

lemma literals: "lit ''null'' = [110, 117, 108, 108]" "lit ''true'' = [116, 114, 117, 101]"
  "lit ''false'' = [102, 97, 108, 115, 101]"
  by (simp_all add: lit_def)

lemma digits_head: "0 \<le> n \<Longrightarrow> hd (digits n) = 48 \<Longrightarrow> n = 0"
proof (induction n rule: digits.induct)
  case (1 n)
  show ?case
  proof (cases "n < 10")
    case True
    then show ?thesis using 1(3) by (subst (asm) digits.simps) simp
  next
    case False
    have "digits n = digits (n div 10) @ [48 + n mod 10]" using False by (subst digits.simps) simp
    then have "hd (digits (n div 10)) = 48" using 1(3) by simp
    then have "n div 10 = 0" using 1(1) [OF False] False by simp
    then show ?thesis using False by simp
  qed
qed

lemma take_digits: "0 \<le> n \<Longrightarrow> ends r \<Longrightarrow> takeWhile is_digit (digits n @ r) = digits n"
  using digits_chars [of n] by (cases r) (auto simp: takeWhile_append2 ends_def is_digit_def)

lemma scan_natural:
  assumes "0 \<le> n" and "ends r" and "digits n = c # t"
  shows "(let ds = if c = 48 then [48] else takeWhile is_digit (c # t @ r) in ds) = c # t"
proof (cases "c = 48")
  case True
  then have "n = 0" using digits_head [OF assms(1)] assms(3) by simp
  then have "digits n = [48]" by (subst digits.simps) simp
  then show ?thesis using assms(3) by simp
next
  case False
  then show ?thesis using take_digits [OF assms(1,2)] assms(3) by simp
qed

lemma scan_int:
  assumes "ends r" shows "scan_number (str_int n @ r) = Some (J_int n, r)"
proof -
  define m where "m = \<bar>n\<bar>"
  have m: "0 \<le> m" by (simp add: m_def)
  obtain c t where ct: "digits m = c # t" by (cases "digits m") auto
  have "c \<in> set (digits m)" by (simp add: ct)
  then have c: "c \<noteq> 45" using digits_chars [OF m, of c] by (auto simp: is_digit_def)
  have ds: "(if c = 48 then [48] else takeWhile is_digit (c # t @ r)) = c # t"
    using scan_natural [OF m assms ct] by simp
  have r: "\<not> (r \<noteq> [] \<and> (hd r = 46 \<or> hd r = 101 \<or> hd r = 69))" using assms by (auto simp: ends_def)
  have v: "undigits 0 (c # t) = m" using undigits_digits [of m] by (simp add: ct)
  have s: "str_int n = (if n < 0 then 45 # c # t else c # t)" using ct by (cases "n < 0") (simp_all add: str_int_def m_def)
  show ?thesis
    using c ds r v by (cases "n < 0") (auto simp: s scan_number_def Let_def m_def)
qed

lemma str_int_head: "\<exists>c t. str_int n = c # t \<and> (c = 45 \<or> is_digit c)"
proof -
  obtain c t where ct: "digits n = c # t" by (cases "digits n") auto
  then have "0 \<le> n \<Longrightarrow> is_digit c" using digits_chars [of n c] by simp
  then show ?thesis using ct by (auto simp: str_int_def)
qed

lemma dumps_head: "\<exists>c t. dumps v = c # t \<and> c \<notin> {32, 9, 10, 13, 93, 125, 44}"
  using str_int_head by (cases v) (fastforce simp: literals dumps_str_def is_digit_def)+

lemma skip_dumps [simp]: "skip_space (dumps v @ r) = dumps v @ r"
  using dumps_head [of v] by (auto simp: skip_space_def)

lemma skip_punctuation [simp]:
  "skip_space [] = []" "skip_space (44 # r) = 44 # r" "skip_space (58 # r) = 58 # r" "skip_space (93 # r) = 93 # r"
  "skip_space (125 # r) = 125 # r" "skip_space (34 # r) = 34 # r" "skip_space (32 # r) = skip_space r"
  by (simp_all add: skip_space_def)

lemma scan_list:
  assumes "vs \<noteq> []" and "length (join [44, 32] (map dumps vs)) < n"
    and "\<And>v m r. v \<in> set vs \<Longrightarrow> length (dumps v) \<le> m \<Longrightarrow> ends r \<Longrightarrow> scan m (dumps v @ r) = Some (seen v, r)"
  shows "elements n (join [44, 32] (map dumps vs) @ 93 # r) = Some (map seen vs, r)"
  using assms
proof (induction vs arbitrary: n)
  case (Cons v vs)
  then obtain m where n: "n = Suc m" by (cases n) auto
  have here: "length (dumps v) \<le> m \<Longrightarrow> ends q \<Longrightarrow> scan m (dumps v @ q) = Some (seen v, q)" for q
    using Cons.prems(3) by simp
  show ?case
  proof (cases vs)
    case Nil
    then show ?thesis using Cons.prems(2) here [of "93 # r"] by (simp add: n)
  next
    case (Cons w ws)
    let ?j = "join [44, 32] (map dumps vs)"
    have j: "join [44, 32] (map dumps (v # vs)) = dumps v @ 44 # 32 # ?j" by (simp add: Cons)
    have skip: "skip_space (?j @ 93 # r) = ?j @ 93 # r"
      using skip_dumps [of w] by (cases ws) (simp_all add: Cons)
    have rest: "elements m (?j @ 93 # r) = Some (map seen vs, r)"
      by (rule Cons.IH) (use Cons.prems(2,3) in \<open>simp_all add: Cons n\<close>)
    show ?thesis
      using Cons.prems(2) here [of "44 # 32 # ?j @ 93 # r"] rest unfolding j by (simp add: n skip)
  qed
qed simp

lemma scan_dict:
  assumes "kvs \<noteq> []" and "length (join [44, 32] (map (\<lambda>(k, v). dumps_str k @ [58, 32] @ dumps v) kvs)) < n"
    and "\<And>kv m r. kv \<in> set kvs \<Longrightarrow> length (dumps (snd kv)) \<le> m \<Longrightarrow> ends r \<Longrightarrow>
      scan m (dumps (snd kv) @ r) = Some (seen (snd kv), r)"
    and "\<And>kv. kv \<in> set kvs \<Longrightarrow> readable_str (fst kv)"
  shows "members n (join [44, 32] (map (\<lambda>(k, v). dumps_str k @ [58, 32] @ dumps v) kvs) @ 125 # r)
    = Some (map (\<lambda>(k, v). (k, seen v)) kvs, r)"
  using assms
proof (induction kvs arbitrary: n)
  case (Cons kv kvs)
  obtain k v where kv: "kv = (k, v)" by (cases kv)
  let ?f = "\<lambda>(k, v). dumps_str k @ [58, 32] @ dumps v"
  from Cons.prems obtain m where n: "n = Suc m" by (cases n) auto
  have here: "length (dumps v) \<le> m \<Longrightarrow> ends q \<Longrightarrow> scan m (dumps v @ q) = Some (seen v, q)" for q
    using Cons.prems(3) [of kv] by (simp add: kv)
  have k: "scan_string (concat (map escape_char k) @ 34 # q) = Some (k, q)" for q
    using Cons.prems(4) [of kv] by (simp add: kv scan_dumped)
  show ?case
  proof (cases kvs)
    case Nil
    then show ?thesis using Cons.prems(2) here [of "125 # r"] by (simp add: n kv dumps_str_def k)
  next
    case (Cons w ws)
    define J where "J = join [44, 32] (map ?f kvs)"
    have j: "join [44, 32] (map ?f (kv # kvs)) = dumps_str k @ 58 # 32 # dumps v @ 44 # 32 # J" by (simp add: Cons kv J_def)
    have skip: "skip_space (J @ 125 # r) = J @ 125 # r"
      by (cases ws; cases w) (simp_all add: Cons J_def dumps_str_def)
    have rest: "members m (J @ 125 # r) = Some (map (\<lambda>(k, v). (k, seen v)) kvs, r)"
      unfolding J_def by (rule Cons.IH) (use Cons.prems(2-4) in \<open>simp_all add: Cons n kv\<close>)
    have "length (dumps v) \<le> m" using Cons.prems(2) unfolding j by (simp add: n)
    then show ?thesis
      using here [of "44 # 32 # J @ 125 # r"] rest unfolding j by (simp add: n skip kv dumps_str_def k)
  qed
qed simp

lemma scan_dumps:
  "readable v \<Longrightarrow> length (dumps v) \<le> n \<Longrightarrow> ends r \<Longrightarrow> scan n (dumps v @ r) = Some (seen v, r)"
proof (induction v arbitrary: n r)
  case (J_int k)
  obtain c t where c: "str_int k = c # t" "c = 45 \<or> is_digit c" using str_int_head by blast
  then obtain m where n: "n = Suc m" using J_int by (cases n) auto
  have "c \<noteq> 34" "c \<noteq> 91" "c \<noteq> 123" "c \<noteq> 110" "c \<noteq> 116" "c \<noteq> 102" using c(2) by (auto simp: is_digit_def)
  then show ?case using scan_int [OF J_int.prems(3), of k] by (simp add: n c literals)
next
  case (J_list vs)
  then obtain m where n: "n = Suc m" by (cases n) auto
  show ?case
  proof (cases vs)
    case (Cons v ws)
    let ?j = "join [44, 32] (map dumps vs)"
    have "elements m (?j @ 93 # r) = Some (map seen vs, r)"
      by (rule scan_list) (use J_list Cons n in \<open>auto simp: list_all_iff\<close>)
    moreover obtain c t where "?j @ 93 # r = c # t" "skip_space (?j @ 93 # r) = c # t" "c \<noteq> 93"
      using dumps_head [of v] skip_dumps [of v] by (cases ws) (fastforce simp: Cons)+
    ultimately show ?thesis by (simp add: n)
  qed (simp add: n)
next
  case (J_dict kvs)
  then obtain m where n: "n = Suc m" by (cases n) auto
  show ?case
  proof (cases kvs)
    case (Cons kv ws)
    let ?j = "join [44, 32] (map (\<lambda>(k, v). dumps_str k @ [58, 32] @ dumps v) kvs)"
    have "members m (?j @ 125 # r) = Some (map (\<lambda>(k, v). (k, seen v)) kvs, r)"
      by (rule scan_dict) (use J_dict Cons n in \<open>fastforce simp: list_all_iff\<close>)+
    moreover obtain t where "?j @ 125 # r = 34 # t"
      by (cases ws; cases kv) (simp_all add: Cons dumps_str_def)
    moreover have "dict_of (map (\<lambda>(k, v). (k, seen v)) kvs) = map (\<lambda>(k, v). (k, seen v)) kvs"
      by (rule dict_of_distinct) (use J_dict.prems(1) in \<open>simp add: comp_def case_prod_beta\<close>)
    ultimately show ?thesis by (simp add: n)
  qed (simp add: n)
next
  case J_null
  then show ?case by (cases n) (auto simp: literals)
next
  case (J_bool b)
  then show ?case by (cases n; cases b) (auto simp: literals)
next
  case (J_str s)
  then show ?case by (cases n) (auto simp: dumps_str_def scan_dumped)
next
  case (J_other s)
  then show ?case by (cases n) (auto simp: dumps_str_def scan_dumped)
qed

lemma loads_dumps: "readable v \<Longrightarrow> loads (dumps v) = Some (seen v)"
  using scan_dumps [of v "Suc (length (dumps v))" "[]"] skip_dumps [of v "[]"] by (simp add: loads_def)

section \<open>Bytes survive\<close>

definition printable :: "pystr \<Rightarrow> bool" where
  "printable s \<longleftrightarrow> list_all (\<lambda>c. 32 \<le> c \<and> c \<le> 126) s"

lemma printable_simps [simp]:
  "printable []" "printable (c # s) \<longleftrightarrow> 32 \<le> c \<and> c \<le> 126 \<and> printable s" "printable (s @ t) \<longleftrightarrow> printable s \<and> printable t"
  by (auto simp: printable_def)

lemma printable_concat: "(\<And>x. x \<in> set xs \<Longrightarrow> printable (f x)) \<Longrightarrow> printable (concat (map f xs))"
  by (induction xs) auto

lemma printable_join: "printable sep \<Longrightarrow> (\<And>p. p \<in> set ps \<Longrightarrow> printable p) \<Longrightarrow> printable (join sep ps)"
  by (induction sep ps rule: join.induct) auto

lemma printable_hex: "0 \<le> n \<Longrightarrow> n < 16 \<Longrightarrow> 32 \<le> hex_digit n \<and> hex_digit n \<le> 126"
  by (simp add: hex_digit_def)

lemma printable_escape: "0 \<le> c \<Longrightarrow> c < 65536 \<Longrightarrow> printable (unicode_escape c)"
proof -
  assume "0 \<le> c" "c < 65536"
  then have "0 \<le> c div 4096" "c div 4096 < 16" by simp_all
  then show ?thesis by (simp add: unicode_escape_def hex4_def printable_hex)
qed

lemma printable_char: "0 \<le> c \<Longrightarrow> c \<le> 1114111 \<Longrightarrow> printable (escape_char c)"
  using printable_escape [of c] printable_escape [of "high_of c"] printable_escape [of "low_of c"] surrogates [of c]
  by (auto simp: escape_char_def)

lemma printable_str: "readable_str s \<Longrightarrow> printable (dumps_str s)"
  by (auto simp: dumps_str_def readable_str_def list_all_iff intro!: printable_concat printable_char)

lemma printable_int: "printable (str_int n)"
  using digits_chars [of n] digits_chars [of "- n"]
  by (auto simp: str_int_def printable_def list_all_iff is_digit_def) fastforce+

lemma printable_dumps: "readable v \<Longrightarrow> printable (dumps v)"
proof (induction v)
  case (J_list vs)
  then show ?case by (auto simp: list_all_iff intro!: printable_join)
next
  case (J_dict kvs)
  then show ?case by (fastforce simp: list_all_iff printable_str intro!: printable_join)
qed (simp_all add: literals printable_str printable_int)

lemma utf8_printable: "printable s \<Longrightarrow> utf8 s = Some s"
  by (induction s) (auto simp: utf8_char_def)

section \<open>The format as a contract\<close>

text \<open>
  A writer and a reader agree when the reader gets what the writer meant. Whoever sends several messages
  through such a pair gets each of them out as if it had been alone, and no two meanings share a message.
\<close>

locale codec =
  fixes encode :: "'a \<Rightarrow> 'b option"
    and decode :: "'b \<Rightarrow> 'c option"
    and valid :: "'a \<Rightarrow> bool"
    and meaning :: "'a \<Rightarrow> 'c"
  assumes agree: "valid x \<Longrightarrow> \<exists>m. encode x = Some m \<and> decode m = Some (meaning x)"
begin

lemma decodes: "valid x \<Longrightarrow> Option.bind (encode x) decode = Some (meaning x)"
  using agree by fastforce

lemma unambiguous: "valid x \<Longrightarrow> valid y \<Longrightarrow> encode x = encode y \<Longrightarrow> meaning x = meaning y"
  using agree by (metis option.inject)

lemma transport:
  "list_all valid xs \<Longrightarrow> map (\<lambda>x. Option.bind (encode x) decode) xs = map (\<lambda>x. Some (meaning x)) xs"
  by (induction xs) (simp_all add: decodes)

end

interpretation wire: codec arq_job_serializer "arq_job_deserializer D" readable seen
  for D
proof
  fix v assume v: "readable v"
  have "list_all (\<lambda>b. 0 < b \<and> b < 128) (dumps v)"
    using printable_dumps [OF v] unfolding printable_def by (rule list.pred_mono_strong) simp
  then have "arq_job_deserializer D (dumps v) = Some (seen v)"
    by (simp add: arq_job_deserializer_def loads_dumps [OF v])
  then show "\<exists>m. arq_job_serializer v = Some m \<and> arq_job_deserializer D m = Some (seen v)"
    using utf8_printable [OF printable_dumps [OF v]] by (simp add: arq_job_serializer_def)
qed

text \<open>Integers in callback data are such a format, too.\<close>

interpretation decimal: codec "\<lambda>n. Some (str_int n)" "py_int U" "\<lambda>n. True" id
  for U
  by unfold_locales simp

section \<open>Jobs\<close>

fun job_text :: "job_name \<Rightarrow> pystr" where
  "job_text JOB_NORMALIZE = lit ''normalize''"
| "job_text JOB_PUBLISH = lit ''publish''"
| "job_text JOB_POST_DRAFT = lit ''post_draft''"
| "job_text JOB_PRUNE_DEDUPE = lit ''prune_dedupe''"
| "job_text JOB_ALERT = lit ''alert''"

fun argument :: "json \<Rightarrow> json_value" where
  "argument JNull = J_null"
| "argument (JBool b) = J_bool b"
| "argument (JInt n) = J_int n"
| "argument (JStr s) = J_str s"
| "argument (JList vs) = J_list (map argument vs)"

text \<open>A job is \<open>json({t, f, a, k, et})\<close>: the try, the function, its arguments, and the time it was queued.\<close>

definition job_body :: "job \<Rightarrow> int \<Rightarrow> json_value" where
  "job_body j et = J_dict [(lit ''t'', J_null), (lit ''f'', J_str (job_text (job_name j))),
     (lit ''a'', J_list (map argument (job_args j))), (lit ''k'', J_dict []), (lit ''et'', J_int et)]"

definition job_fields :: "json_value \<Rightarrow> (pystr \<times> json_value list) option" where
  "job_fields v =
     (case v of
        J_dict kvs \<Rightarrow>
          (case (map_of kvs (lit ''f''), map_of kvs (lit ''a'')) of
             (Some (J_str f), Some (J_list as)) \<Rightarrow> Some (f, as)
           | _ \<Rightarrow> None)
      | _ \<Rightarrow> None)"

fun readable_argument :: "json \<Rightarrow> bool" where
  "readable_argument (JStr s) = readable_str s"
| "readable_argument (JList vs) = list_all readable_argument vs"
| "readable_argument v = True"

lemma readable_argument: "readable_argument v \<Longrightarrow> readable (argument v) \<and> seen (argument v) = argument v"
  by (induction v) (auto simp: list_all_iff)

lemma readable_job_text: "readable_str (job_text f)"
  by (cases f) (simp_all add: readable_str_def lit_def)

lemma seen_arguments: "list_all readable_argument vs \<Longrightarrow> map (seen \<circ> argument) vs = map argument vs"
  using readable_argument by (auto simp: list_all_iff)

lemma job_body_readable:
  "list_all readable_argument (job_args j) \<Longrightarrow> readable (job_body j et) \<and> seen (job_body j et) = job_body j et"
  using readable_job_text [of "job_name j"] seen_arguments [of "job_args j"] readable_argument
  by (auto simp: job_body_def list_all_iff lit_def readable_str_def)

text \<open>
  C35: what a producer puts on the wire a consumer reads back. Every value of nulls, booleans, integers,
  strings, lists and dictionaries is written as printable ASCII and read back as it was, emoji and control
  characters included; an object of another type arrives as its text.
\<close>

theorem serializer_roundtrip:
  assumes "readable v"
  shows "\<exists>m. arq_job_serializer v = Some m \<and> list_all (\<lambda>b. 32 \<le> b \<and> b \<le> 126) m \<and>
    arq_job_deserializer D m = Some (seen v)"
  using wire.agree [OF assms, of D] printable_dumps [OF assms] utf8_printable [OF printable_dumps [OF assms]]
  by (auto simp: arq_job_serializer_def printable_def)

definition alert_value :: json_value where
  "alert_value = J_dict [(lit ''a'', J_list [J_str ([128680] @ lit '' down'' @ [10, 34]), J_int (- 40)]), (lit ''r'', J_other (lit ''x''))]"

theorem serializer_roundtrip_witness:
  "\<exists>m. arq_job_serializer alert_value = Some m \<and> list_all (\<lambda>b. 32 \<le> b \<and> b \<le> 126) m \<and>
    arq_job_deserializer (\<lambda>b. None) m
      = Some (J_dict [(lit ''a'', J_list [J_str ([128680] @ lit '' down'' @ [10, 34]), J_int (- 40)]), (lit ''r'', J_str (lit ''x''))])"
proof -
  have r: "readable alert_value" by code_simp
  have s: "seen alert_value
      = J_dict [(lit ''a'', J_list [J_str ([128680] @ lit '' down'' @ [10, 34]), J_int (- 40)]), (lit ''r'', J_str (lit ''x''))]"
    by (simp add: alert_value_def)
  show ?thesis using serializer_roundtrip [OF r, of "\<lambda>b. None"] unfolding s .
qed

text \<open>
  A job reaches a consumer that has its function, with the arguments of the producer, and no two
  jobs with different functions or arguments look alike on the wire.
\<close>

theorem jobs_reach_their_consumer:
  assumes "owned j" and "list_all readable_argument (job_args j)"
  shows "Option.bind (Option.bind (arq_job_serializer (job_body j et)) (arq_job_deserializer D)) job_fields
      = Some (job_text (job_name j), map argument (job_args j)) \<and>
    job_text (job_name j) \<in> set (map job_text (WorkerSettings_functions (job_queue j)))"
  using wire.decodes [of "job_body j et" D] job_body_readable [OF assms(2), of et] assms(1)
  by (auto simp: job_body_def job_fields_def lit_def owned_def)

text \<open>The restriction on strings is needed: two surrogates in a row come back as one character.\<close>

lemma paired_surrogates_merge: "loads (dumps (J_str [55357, 57000])) = Some (J_str [128680])"
  by code_simp

end
