(* ===== verification/Responses.thy ===== *)
theory Responses
  imports Api
begin

text \<open>
  The bodies of the back office's answers: the response models of \<open>api/schemas.py\<close> and, for each
  endpoint, the body its response model selects. The rows that a handler returns pass through these
  models, which decide what leaves the service.
\<close>

section \<open>Response models\<close>

record admin_out =
  ao_id :: int
  ao_username :: pystr
  ao_role :: role
  ao_tg_user_id :: "int option"
  ao_created_at :: time
  ao_disabled_at :: "time option"

definition AdminOut :: "admin \<Rightarrow> admin_out" where
  "AdminOut a = \<lparr>ao_id = admin_id a, ao_username = username a, ao_role = admin_role a,
     ao_tg_user_id = tg_user_id a, ao_created_at = admin_created_at a, ao_disabled_at = disabled_at a\<rparr>"

record tag_out =
  to_id :: int
  to_slug :: pystr
  to_label :: pystr
  to_color :: "pystr option"
  to_created_at :: time

definition TagOut :: "tag \<Rightarrow> tag_out" where
  "TagOut t = \<lparr>to_id = tag_id t, to_slug = slug t, to_label = label t, to_color = color t,
     to_created_at = tag_created_at t\<rparr>"

record template_out =
  tpo_id :: int
  tpo_name :: pystr
  tpo_body :: pystr
  tpo_created_at :: time

definition TemplateOut :: "template \<Rightarrow> template_out" where
  "TemplateOut t = \<lparr>tpo_id = template_id t, tpo_name = template_name t, tpo_body = template_body t,
     tpo_created_at = template_created_at t\<rparr>"

record ai_settings_out =
  aso_ai_enabled :: bool
  aso_ai_mode :: ai_mode
  aso_ai_target_language :: "pystr option"
  aso_ai_tone_prompt :: "pystr option"
  aso_ai_custom_system_prompt :: "pystr option"
  aso_watermark_enabled :: bool
  aso_watermark_text :: "pystr option"
  aso_strip_source_tags :: bool

definition AISettingsOut :: "source_channel \<Rightarrow> ai_settings_out" where
  "AISettingsOut ch = \<lparr>aso_ai_enabled = ai_enabled ch, aso_ai_mode = channel_ai_mode ch,
     aso_ai_target_language = ai_target_language ch, aso_ai_tone_prompt = ai_tone_prompt ch,
     aso_ai_custom_system_prompt = ai_custom_system_prompt ch, aso_watermark_enabled = watermark_enabled ch,
     aso_watermark_text = watermark_text ch, aso_strip_source_tags = strip_source_tags ch\<rparr>"

record ai_test_response =
  atr_original :: pystr
  atr_transformed :: pystr
  atr_model :: pystr
  atr_prompt_tokens :: int
  atr_completion_tokens :: int
  atr_latency_ms :: int

definition AITestResponse :: "pystr \<Rightarrow> transform_result \<Rightarrow> ai_test_response" where
  "AITestResponse original r = \<lparr>atr_original = original, atr_transformed = tr_text r, atr_model = tr_model r,
     atr_prompt_tokens = tr_prompt_tokens r, atr_completion_tokens = tr_completion_tokens r,
     atr_latency_ms = tr_latency_ms r\<rparr>"

text \<open>A channel is served with its AI settings.\<close>

record source_channel_out =
  sco_id :: int
  sco_telegram_channel_id :: int
  sco_title :: pystr
  sco_username :: "pystr option"
  sco_ingestion_enabled :: bool
  sco_policy :: policy
  sco_default_tag_ids :: "int list"
  sco_normalization_template_id :: "int option"
  sco_max_media_size_bytes :: int
  sco_source_label :: "pystr option"
  sco_ai :: ai_settings_out
  sco_created_at :: time

definition SourceChannelOut :: "source_channel \<Rightarrow> source_channel_out" where
  "SourceChannelOut ch = \<lparr>sco_id = channel_id ch, sco_telegram_channel_id = telegram_channel_id ch,
     sco_title = title ch, sco_username = channel_username ch, sco_ingestion_enabled = ingestion_enabled ch,
     sco_policy = channel_policy ch, sco_default_tag_ids = default_tag_ids ch,
     sco_normalization_template_id = normalization_template_id ch,
     sco_max_media_size_bytes = max_media_size_bytes ch, sco_source_label = source_label ch,
     sco_ai = AISettingsOut ch, sco_created_at = channel_created_at ch\<rparr>"

record post_event_out =
  peo_id :: int
  peo_post_id :: int
  peo_actor_admin_id :: "int option"
  peo_action :: event_action
  peo_payload :: payload
  peo_created_at :: time

definition PostEventOut :: "post_event \<Rightarrow> post_event_out" where
  "PostEventOut e = \<lparr>peo_id = event_id e, peo_post_id = event_post_id e, peo_actor_admin_id = actor_admin_id e,
     peo_action = event_action e, peo_payload = event_payload e, peo_created_at = event_created_at e\<rparr>"

text \<open>The fields of a post that are served: not its draft card, nor who created or handled it.\<close>

record post_out =
  po_id :: int
  po_source_channel_id :: int
  po_source_message_id :: int
  po_raw_text :: "pystr option"
  po_raw_media_refs :: "media_ref list"
  po_received_at :: time
  po_state :: post_state
  po_normalized_text :: "pystr option"
  po_ai_transformed_text :: "pystr option"
  po_media_paths :: "pystr list"
  po_tag_ids :: "int list"
  po_scheduled_for :: "time option"
  po_published_message_id :: "int option"
  po_published_at :: "time option"
  po_dedupe_hash :: "pystr option"
  po_created_at :: time
  po_updated_at :: time

definition PostOut :: "post \<Rightarrow> post_out" where
  "PostOut p = \<lparr>po_id = post_id p, po_source_channel_id = source_channel_id p,
     po_source_message_id = source_message_id p, po_raw_text = raw_text p, po_raw_media_refs = raw_media_refs p,
     po_received_at = received_at p, po_state = post_state p, po_normalized_text = normalized_text p,
     po_ai_transformed_text = ai_transformed_text p, po_media_paths = media_paths p, po_tag_ids = tag_ids p,
     po_scheduled_for = scheduled_for p, po_published_message_id = published_message_id p,
     po_published_at = published_at p, po_dedupe_hash = dedupe_hash p, po_created_at = post_created_at p,
     po_updated_at = updated_at p\<rparr>"

datatype response =
    Empty_r
  | Admin_r admin_out | Admins_r "admin_out list"
  | Tag_r tag_out | Tags_r "tag_out list" | Count_r nat
  | Template_r template_out | Templates_r "template_out list"
  | Channel_r source_channel_out | Channels_r "source_channel_out list"
  | Ai_settings_r ai_settings_out | Ai_test_r ai_test_response
  | Post_r post_out | Posts_page_r page
  | Events_page_r "post_event list" int int int | Events_r "post_event_out list"

section \<open>Answers\<close>

definition body :: "('a \<Rightarrow> response) \<Rightarrow> 'a result \<times> world \<Rightarrow> response result \<times> world" where
  "body f rw = (map_sum id f (fst rw), snd rw)"

definition read_body :: "('a \<Rightarrow> response) \<Rightarrow> 'a result \<Rightarrow> response eff" where
  "read_body f r w = (map_sum id f r, w)"

text \<open>
  The items of a page have no declared type, and the serializer does not know a row: as soon as there is one, building the
  answer raises.
\<close>

definition page_body :: "('a \<Rightarrow> 'r list) \<Rightarrow> ('a \<Rightarrow> response) \<Rightarrow> 'a result \<Rightarrow> response eff" where
  "page_body rows f r w =
     (case r of
        Inl e \<Rightarrow> Inl e
      | Inr p \<Rightarrow> if rows p = [] then Inr (f p) else Inl (OtherError (lit ''PydanticSerializationError'')), w)"

fun reply :: "env \<Rightarrow> crypto \<Rightarrow> request \<Rightarrow> admin \<Rightarrow> response eff" where
  "reply E C List_tags a w = read_body (\<lambda>ts. Tags_r (map TagOut ts)) (Inr (list_tags (wdb w))) w"
| "reply E C (Create_tag c) a w = body (\<lambda>t. Tag_r (TagOut t)) (create_tag (uni E) c w)"
| "reply E C (Update_tag k u) a w = body (\<lambda>t. Tag_r (TagOut t)) (update_tag k u w)"
| "reply E C (Delete_tag k) a w = body (\<lambda>_. Empty_r) (delete_tag k w)"
| "reply E C Count_tags a w = read_body Count_r (Inr (count_tags (wdb w))) w"
| "reply E C List_templates a w = read_body (\<lambda>ts. Templates_r (map TemplateOut ts)) (Inr (list_templates (wdb w))) w"
| "reply E C (Create_template c) a w = body (\<lambda>t. Template_r (TemplateOut t)) (create_template c w)"
| "reply E C (Update_template k u) a w = body (\<lambda>t. Template_r (TemplateOut t)) (update_template k u w)"
| "reply E C (Delete_template k) a w = body (\<lambda>_. Empty_r) (delete_template k w)"
| "reply E C List_channels a w = read_body (\<lambda>cs. Channels_r (map SourceChannelOut cs)) (Inr (list_channels (wdb w))) w"
| "reply E C (Create_channel c) a w = body (\<lambda>ch. Channel_r (SourceChannelOut ch)) (create_channel (cfg E) c w)"
| "reply E C (Update_channel k u) a w = body (\<lambda>ch. Channel_r (SourceChannelOut ch)) (update_channel k u w)"
| "reply E C (Delete_channel k) a w = body (\<lambda>_. Empty_r) (delete_channel k w)"
| "reply E C (Get_ai_settings k) a w = read_body (\<lambda>ch. Ai_settings_r (AISettingsOut ch)) (get_ai_settings (wdb w) k) w"
| "reply E C (Update_ai_settings k u) a w = body (\<lambda>ch. Ai_settings_r (AISettingsOut ch)) (update_ai_settings k u w)"
| "reply E C (Test_ai_transform k t) a w =
     read_body (\<lambda>r. Ai_test_r (AITestResponse (at_text t) r)) (test_ai_transform E (wdb w) k t) w"
| "reply E C List_admins a w = read_body (\<lambda>as. Admins_r (map AdminOut as)) (Inr (list_admins (wdb w))) w"
| "reply E C (Create_admin c) a w = body (\<lambda>b. Admin_r (AdminOut b)) (create_admin C c w)"
| "reply E C (Update_admin k u) a w = body (\<lambda>b. Admin_r (AdminOut b)) (update_admin C k u w)"
| "reply E C (List_queue ss l f) a w = page_body pg_items Posts_page_r (list_queue ss l f (wdb w)) w"
| "reply E C (Get_post k) a w = read_body (\<lambda>p. Post_r (PostOut p)) (get_queue_post (wdb w) k) w"
| "reply E C (Edit_tags k ids) a w = body (\<lambda>p. Post_r (PostOut p)) (edit_tags k ids a w)"
| "reply E C (Decide k dec) a w = body (\<lambda>p. Post_r (PostOut p)) (decide E k dec a w)"
| "reply E C (Approve k ids) a w = body (\<lambda>p. Post_r (PostOut p)) (approve E k ids a w)"
| "reply E C (Schedule k t) a w = body (\<lambda>p. Post_r (PostOut p)) (schedule E k t a w)"
| "reply E C (Reject k) a w = body (\<lambda>p. Post_r (PostOut p)) (reject E k a w)"
| "reply E C (List_events pid acts l f) a w =
     page_body fst (\<lambda>(items, total). Events_page_r items total l f) (list_events pid acts l f (wdb w)) w"
| "reply E C (List_post_events k) a w = read_body (\<lambda>es. Events_r (map PostEventOut es)) (Inr (list_post_events k (wdb w))) w"
| "reply E C Me a w = read_body (\<lambda>b. Admin_r (AdminOut b)) (me (Inr a)) w"

definition respond :: "env \<Rightarrow> crypto \<Rightarrow> pystr option \<Rightarrow> request \<Rightarrow> response eff" where
  "respond E C tok rq w =
     (let current = get_current_admin (wdb w) (get_claims C (uni E) (cfg E) (wclock w) tok);
          who = (case required_role rq of None \<Rightarrow> current | Some r \<Rightarrow> require_role r current)
      in case who of Inl e \<Rightarrow> (Inl e, w) | Inr a \<Rightarrow> reply E C rq a w)"

text \<open>The answers to a sequence of requests, each with its token.\<close>

fun conversation :: "env \<Rightarrow> crypto \<Rightarrow> (pystr option \<times> request) list \<Rightarrow> world \<Rightarrow> response result list \<times> world" where
  "conversation E C [] w = ([], w)"
| "conversation E C ((tok, rq) # rs) w =
     (let (r, w1) = respond E C tok rq w; (out', w2) = conversation E C rs w1 in (r # out', w2))"

text \<open>The effect of a request is that of \<open>serve\<close>; so is the answer, with a body, unless a listing cannot be written.\<close>

lemma map_sum_unit: "map_sum id (\<lambda>_. ()) (map_sum id f r) = map_sum id (\<lambda>_. ()) r"
  by (cases r) simp_all

lemma void_body: "void (body f rw) = void rw"
  by (simp add: void_def body_def map_sum_unit)

lemma void_read_body: "void (read_body f r w) = read_only r w"
  by (simp add: void_def read_body_def read_only_def map_sum_unit)

lemma map_sum_unit_id: "map_sum id (\<lambda>_. ()) r = r"
  by (cases r) simp_all

lemma void_unit: "void rw = rw" for rw :: "unit result \<times> world"
  by (simp add: void_def map_sum_unit_id)

fun listing :: "request \<Rightarrow> bool" where
  "listing (List_queue ss l f) = True"
| "listing (List_events pid acts l f) = True"
| "listing rq = False"

lemma reply_handle: "\<not> listing rq \<Longrightarrow> void (reply E C rq a w) = handle E C rq a w"
  by (cases rq) (simp_all add: void_body void_read_body void_unit)

lemma reply_world: "snd (reply E C rq a w) = snd (handle E C rq a w)"
proof (cases "listing rq")
  case True
  then show ?thesis by (cases rq) (simp_all add: page_body_def)
next
  case False
  from reply_handle [OF this, of E C a w] show ?thesis by (metis void_snd)
qed

lemma respond_world: "snd (respond E C tok rq w) = snd (serve E C tok rq w)"
  by (simp add: respond_def serve_def Let_def reply_world split: sum.split option.split)

end
