(* ===== verification/Routing.thy ===== *)
theory Routing
  imports Responses Startup
begin

text \<open>
  The HTTP surface of the back office: the routers under \<open>api/\<close> as tables, in the order in which
  \<open>create_app\<close> includes them, the order of the checks of a request, the status of each answer, and the counters
  of \<open>api/metrics.py\<close> around it. How the framework finds the route of a path is a parameter \<open>R\<close>; \<open>resolve\<close> is what
  its documentation says it does. CORS preflights, which are answered before any route, are left out.
\<close>

section \<open>Routes\<close>

datatype http_method = GET | POST | PATCH | DELETE

fun method_name :: "http_method \<Rightarrow> pystr" where
  "method_name GET = lit ''GET''"
| "method_name POST = lit ''POST''"
| "method_name PATCH = lit ''PATCH''"
| "method_name DELETE = lit ''DELETE''"

datatype segment = Fixed pystr | Param pystr

datatype endpoint =
    Ep_login | Ep_token | Ep_refresh | Ep_logout | Ep_me | Ep_list_tags | Ep_create_tag | Ep_update_tag
  | Ep_delete_tag | Ep_count_tags | Ep_list_templates | Ep_create_template | Ep_update_template
  | Ep_delete_template | Ep_list_channels | Ep_create_channel | Ep_update_channel | Ep_delete_channel
  | Ep_get_ai_settings | Ep_update_ai_settings | Ep_test_ai_transform | Ep_list_admins
  | Ep_create_admin | Ep_update_admin | Ep_list_queue | Ep_get_post | Ep_edit_tags | Ep_decide
  | Ep_approve | Ep_schedule | Ep_reject | Ep_list_events | Ep_list_post_events | Ep_openapi
  | Ep_docs | Ep_docs_oauth2 | Ep_meta | Ep_healthz | Ep_metrics

datatype route = Route (rt_method: http_method) (rt_path: "segment list") (rt_endpoint: endpoint) (rt_status: int)

text \<open>A router's routes, without the router's prefix.\<close>

definition auth_router :: "route list" where
  "auth_router =
     [Route POST [Fixed (lit ''login'')] Ep_login 200,
      Route POST [Fixed (lit ''token'')] Ep_token 200,
      Route POST [Fixed (lit ''refresh'')] Ep_refresh 200,
      Route POST [Fixed (lit ''logout'')] Ep_logout 204,
      Route GET [Fixed (lit ''me'')] Ep_me 200]"

definition tags_router :: "route list" where
  "tags_router =
     [Route GET [] Ep_list_tags 200,
      Route POST [] Ep_create_tag 201,
      Route PATCH [Param (lit ''tag_id'')] Ep_update_tag 200,
      Route DELETE [Param (lit ''tag_id'')] Ep_delete_tag 204,
      Route GET [Fixed (lit ''count'')] Ep_count_tags 200]"

definition templates_router :: "route list" where
  "templates_router =
     [Route GET [] Ep_list_templates 200,
      Route POST [] Ep_create_template 201,
      Route PATCH [Param (lit ''template_id'')] Ep_update_template 200,
      Route DELETE [Param (lit ''template_id'')] Ep_delete_template 204]"

definition source_channels_router :: "route list" where
  "source_channels_router =
     [Route GET [] Ep_list_channels 200,
      Route POST [] Ep_create_channel 201,
      Route PATCH [Param (lit ''channel_id'')] Ep_update_channel 200,
      Route DELETE [Param (lit ''channel_id'')] Ep_delete_channel 204]"

definition ai_settings_router :: "route list" where
  "ai_settings_router =
     [Route GET [Param (lit ''channel_id''), Fixed (lit ''ai'')] Ep_get_ai_settings 200,
      Route PATCH [Param (lit ''channel_id''), Fixed (lit ''ai'')] Ep_update_ai_settings 200,
      Route POST [Param (lit ''channel_id''), Fixed (lit ''ai''), Fixed (lit ''test'')] Ep_test_ai_transform 200]"

definition admins_router :: "route list" where
  "admins_router =
     [Route GET [] Ep_list_admins 200,
      Route POST [] Ep_create_admin 201,
      Route PATCH [Param (lit ''admin_id'')] Ep_update_admin 200]"

definition queue_router :: "route list" where
  "queue_router =
     [Route GET [] Ep_list_queue 200,
      Route GET [Param (lit ''post_id'')] Ep_get_post 200,
      Route PATCH [Param (lit ''post_id''), Fixed (lit ''tags'')] Ep_edit_tags 200,
      Route POST [Param (lit ''post_id''), Fixed (lit ''decision'')] Ep_decide 200,
      Route POST [Param (lit ''post_id''), Fixed (lit ''approve'')] Ep_approve 200,
      Route POST [Param (lit ''post_id''), Fixed (lit ''schedule'')] Ep_schedule 200,
      Route POST [Param (lit ''post_id''), Fixed (lit ''reject'')] Ep_reject 200]"

definition audit_router :: "route list" where
  "audit_router =
     [Route GET [] Ep_list_events 200,
      Route GET [Fixed (lit ''post''), Param (lit ''post_id'')] Ep_list_post_events 200]"

text \<open>\<open>include_router\<close> puts the prefix in front of every path. The first segment is what precedes the first slash.\<close>

definition include_router :: "pystr \<Rightarrow> route list \<Rightarrow> route list" where
  "include_router pre rs =
     map (\<lambda>r. Route (rt_method r) (Fixed [] # Fixed pre # rt_path r) (rt_endpoint r) (rt_status r)) rs"

text \<open>What the framework adds for the documentation comes first, the application's own endpoints last.\<close>

definition app_routes :: "route list" where
  "app_routes =
     [Route GET (Fixed [] # [Fixed (lit ''openapi.json'')]) Ep_openapi 200,
      Route GET (Fixed [] # [Fixed (lit ''docs'')]) Ep_docs 200,
      Route GET (Fixed [] # [Fixed (lit ''docs''), Fixed (lit ''oauth2-redirect'')]) Ep_docs_oauth2 200]
       @ include_router (lit ''auth'') auth_router
       @ include_router (lit ''tags'') tags_router
       @ include_router (lit ''templates'') templates_router
       @ include_router (lit ''source-channels'') source_channels_router
       @ include_router (lit ''source-channels'') ai_settings_router
       @ include_router (lit ''admins'') admins_router
       @ include_router (lit ''queue'') queue_router
       @ include_router (lit ''audit'') audit_router
       @ [Route GET (Fixed [] # [Fixed (lit ''meta'')]) Ep_meta 200,
      Route GET (Fixed [] # [Fixed (lit ''healthz'')]) Ep_healthz 200,
      Route GET (Fixed [] # [Fixed (lit ''metrics'')]) Ep_metrics 200]"

section \<open>Finding a route\<close>

text \<open>The values of the parameters; a parameter takes one segment, which is not empty.\<close>

fun match_path :: "segment list \<Rightarrow> pystr list \<Rightarrow> pystr list option" where
  "match_path [] [] = Some []"
| "match_path (Fixed f # ps) (s # ss) = (if s = f then match_path ps ss else None)"
| "match_path (Param x # ps) (s # ss) = (if s = [] then None else map_option ((#) s) (match_path ps ss))"
| "match_path ps ss = None"

datatype resolution = Found route "pystr list" | Method_not_allowed route | Redirected | Not_found

text \<open>How the framework finds a route for a method and a path.\<close>

type_synonym finder = "route list \<Rightarrow> pystr \<Rightarrow> pystr \<Rightarrow> resolution"

text \<open>Its documented behaviour: the first route, in the order of registration, that matches path and method.\<close>

fun full_match :: "route list \<Rightarrow> pystr \<Rightarrow> pystr list \<Rightarrow> (route \<times> pystr list) option" where
  "full_match [] m ss = None"
| "full_match (r # rs) m ss =
     (case match_path (rt_path r) ss of
        None \<Rightarrow> full_match rs m ss
      | Some vs \<Rightarrow> if method_name (rt_method r) = m then Some (r, vs) else full_match rs m ss)"

definition path_match :: "route list \<Rightarrow> pystr list \<Rightarrow> route option" where
  "path_match rs ss = List.find (\<lambda>r. match_path (rt_path r) ss \<noteq> None) rs"

text \<open>\<open>root_path="/api"\<close> is taken off a path that starts with it.\<close>

definition route_path :: "pystr \<Rightarrow> pystr" where
  "route_path p =
     (let root = lit ''/api''
      in if \<not> startswith p root then p
         else if p = root then []
         else if p ! length root = 47 then drop (length root) p
         else p)"

text \<open>The path with a slash at its end taken off or put on.\<close>

definition other_slash :: "pystr \<Rightarrow> pystr" where
  "other_slash p = (if p \<noteq> [] \<and> last p = 47 then rev (dropWhile (\<lambda>c. c = 47) (rev p)) else p @ [47])"

definition resolve :: "route list \<Rightarrow> pystr \<Rightarrow> pystr \<Rightarrow> resolution" where
  "resolve rs m path =
     (let p = route_path path; ss = split_on 47 p
      in case full_match rs m ss of
           Some (r, vs) \<Rightarrow> Found r vs
         | None \<Rightarrow>
             (case path_match rs ss of
                Some r \<Rightarrow> Method_not_allowed r
              | None \<Rightarrow>
                  if p \<noteq> [47] \<and> path_match rs (split_on 47 (other_slash p)) \<noteq> None then Redirected else Not_found))"

section \<open>Guards and calls\<close>

datatype guard = Open | Signed_in | At_least role

fun endpoint_guard :: "endpoint \<Rightarrow> guard" where
  "endpoint_guard Ep_login = Open"
| "endpoint_guard Ep_token = Open"
| "endpoint_guard Ep_refresh = Open"
| "endpoint_guard Ep_logout = Open"
| "endpoint_guard Ep_me = Signed_in"
| "endpoint_guard Ep_list_tags = At_least R_editor"
| "endpoint_guard Ep_create_tag = At_least R_admin"
| "endpoint_guard Ep_update_tag = At_least R_admin"
| "endpoint_guard Ep_delete_tag = At_least R_admin"
| "endpoint_guard Ep_count_tags = Signed_in"
| "endpoint_guard Ep_list_templates = At_least R_editor"
| "endpoint_guard Ep_create_template = At_least R_admin"
| "endpoint_guard Ep_update_template = At_least R_admin"
| "endpoint_guard Ep_delete_template = At_least R_admin"
| "endpoint_guard Ep_list_channels = At_least R_editor"
| "endpoint_guard Ep_create_channel = At_least R_admin"
| "endpoint_guard Ep_update_channel = At_least R_admin"
| "endpoint_guard Ep_delete_channel = At_least R_admin"
| "endpoint_guard Ep_get_ai_settings = At_least R_editor"
| "endpoint_guard Ep_update_ai_settings = At_least R_admin"
| "endpoint_guard Ep_test_ai_transform = At_least R_editor"
| "endpoint_guard Ep_list_admins = At_least R_admin"
| "endpoint_guard Ep_create_admin = At_least R_super_admin"
| "endpoint_guard Ep_update_admin = At_least R_super_admin"
| "endpoint_guard Ep_list_queue = Signed_in"
| "endpoint_guard Ep_get_post = Signed_in"
| "endpoint_guard Ep_edit_tags = Signed_in"
| "endpoint_guard Ep_decide = Signed_in"
| "endpoint_guard Ep_approve = Signed_in"
| "endpoint_guard Ep_schedule = Signed_in"
| "endpoint_guard Ep_reject = Signed_in"
| "endpoint_guard Ep_list_events = Signed_in"
| "endpoint_guard Ep_list_post_events = Signed_in"
| "endpoint_guard Ep_openapi = Open"
| "endpoint_guard Ep_docs = Open"
| "endpoint_guard Ep_docs_oauth2 = Open"
| "endpoint_guard Ep_meta = Open"
| "endpoint_guard Ep_healthz = Open"
| "endpoint_guard Ep_metrics = Open"

fun request_endpoint :: "request \<Rightarrow> endpoint" where
  "request_endpoint List_tags = Ep_list_tags"
| "request_endpoint (Create_tag c) = Ep_create_tag"
| "request_endpoint (Update_tag k u) = Ep_update_tag"
| "request_endpoint (Delete_tag k) = Ep_delete_tag"
| "request_endpoint Count_tags = Ep_count_tags"
| "request_endpoint List_templates = Ep_list_templates"
| "request_endpoint (Create_template c) = Ep_create_template"
| "request_endpoint (Update_template k u) = Ep_update_template"
| "request_endpoint (Delete_template k) = Ep_delete_template"
| "request_endpoint List_channels = Ep_list_channels"
| "request_endpoint (Create_channel c) = Ep_create_channel"
| "request_endpoint (Update_channel k u) = Ep_update_channel"
| "request_endpoint (Delete_channel k) = Ep_delete_channel"
| "request_endpoint (Get_ai_settings k) = Ep_get_ai_settings"
| "request_endpoint (Update_ai_settings k u) = Ep_update_ai_settings"
| "request_endpoint (Test_ai_transform k t) = Ep_test_ai_transform"
| "request_endpoint List_admins = Ep_list_admins"
| "request_endpoint (Create_admin c) = Ep_create_admin"
| "request_endpoint (Update_admin k u) = Ep_update_admin"
| "request_endpoint (List_queue ss l f) = Ep_list_queue"
| "request_endpoint (Get_post k) = Ep_get_post"
| "request_endpoint (Edit_tags k xs) = Ep_edit_tags"
| "request_endpoint (Decide k dec) = Ep_decide"
| "request_endpoint (Approve k xs) = Ep_approve"
| "request_endpoint (Schedule k t) = Ep_schedule"
| "request_endpoint (Reject k) = Ep_reject"
| "request_endpoint (List_events pid acts l f) = Ep_list_events"
| "request_endpoint (List_post_events k) = Ep_list_post_events"
| "request_endpoint Me = Ep_me"

text \<open>The ids in the path of a request.\<close>

fun request_ids :: "request \<Rightarrow> int list" where
  "request_ids (Update_tag k u) = [k]"
| "request_ids (Delete_tag k) = [k]"
| "request_ids (Update_template k u) = [k]"
| "request_ids (Delete_template k) = [k]"
| "request_ids (Update_channel k u) = [k]"
| "request_ids (Delete_channel k) = [k]"
| "request_ids (Get_ai_settings k) = [k]"
| "request_ids (Update_ai_settings k u) = [k]"
| "request_ids (Test_ai_transform k t) = [k]"
| "request_ids (Update_admin k u) = [k]"
| "request_ids (Get_post k) = [k]"
| "request_ids (Edit_tags k xs) = [k]"
| "request_ids (Decide k dec) = [k]"
| "request_ids (Approve k xs) = [k]"
| "request_ids (Schedule k t) = [k]"
| "request_ids (Reject k) = [k]"
| "request_ids (List_post_events k) = [k]"
| "request_ids rq = []"

section \<open>No route is shadowed\<close>

text \<open>Two patterns that some path matches both.\<close>

fun overlap :: "segment list \<Rightarrow> segment list \<Rightarrow> bool" where
  "overlap [] [] = True"
| "overlap (Fixed f # ps) (Fixed g # qs) = (f = g \<and> overlap ps qs)"
| "overlap (Fixed f # ps) (Param y # qs) = (f \<noteq> [] \<and> overlap ps qs)"
| "overlap (Param x # ps) (Fixed g # qs) = (g \<noteq> [] \<and> overlap ps qs)"
| "overlap (Param x # ps) (Param y # qs) = overlap ps qs"
| "overlap ps qs = False"

lemma match_overlap: "match_path ps ss \<noteq> None \<Longrightarrow> match_path qs ss \<noteq> None \<Longrightarrow> overlap ps qs"
proof (induction ps qs arbitrary: ss rule: overlap.induct)
  case (2 f ps g qs)
  then show ?case by (cases ss) (auto split: if_splits)
next
  case (3 f ps y qs)
  then show ?case by (cases ss) (auto split: if_splits)
next
  case (4 x ps g qs)
  then show ?case by (cases ss) (auto split: if_splits)
next
  case (5 x ps y qs)
  then show ?case by (cases ss) (auto split: if_splits)
qed (auto elim: match_path.elims)

definition apart :: "route \<Rightarrow> route \<Rightarrow> bool" where
  "apart r r' \<longleftrightarrow> rt_method r \<noteq> rt_method r' \<or> \<not> overlap (rt_path r) (rt_path r')"

lemma method_name_inj: "method_name m = method_name m' \<longleftrightarrow> m = m'"
  by (cases m; cases m') (simp_all add: lit_def)

lemma full_match_found:
  "sorted_wrt apart rs \<Longrightarrow> r \<in> set rs \<Longrightarrow> match_path (rt_path r) ss = Some vs \<Longrightarrow>
   full_match rs (method_name (rt_method r)) ss = Some (r, vs)"
proof (induction rs)
  case (Cons a rs)
  show ?case
  proof (cases "a = r")
    case True
    then show ?thesis using Cons.prems by simp
  next
    case False
    then have r: "r \<in> set rs" "apart a r" using Cons.prems by auto
    have "rt_method a \<noteq> rt_method r \<or> match_path (rt_path a) ss = None"
      using r(2) match_overlap [of "rt_path a" ss "rt_path r"] Cons.prems(3) by (cases "match_path (rt_path a) ss") (auto simp: apart_def)
    then show ?thesis using Cons r(1) by (auto simp: method_name_inj split: option.split)
  qed
qed simp

lemma app_routes_apart: "sorted_wrt apart app_routes"
  by code_simp

text \<open>Writing the values of the parameters into a pattern.\<close>

fun fill :: "segment list \<Rightarrow> pystr list \<Rightarrow> pystr list" where
  "fill [] vs = []"
| "fill (Fixed f # ps) vs = f # fill ps vs"
| "fill (Param x # ps) vs = (case vs of [] \<Rightarrow> [] # fill ps [] | v # us \<Rightarrow> v # fill ps us)"

fun params :: "segment list \<Rightarrow> nat" where
  "params [] = 0"
| "params (Fixed f # ps) = params ps"
| "params (Param x # ps) = Suc (params ps)"

definition url :: "route \<Rightarrow> pystr list \<Rightarrow> pystr" where
  "url r vs = join [47] (fill (rt_path r) vs)"

definition plain_value :: "pystr \<Rightarrow> bool" where
  "plain_value v \<longleftrightarrow> v \<noteq> [] \<and> 47 \<notin> set v"

lemma match_fill: "length vs = params ps \<Longrightarrow> list_all plain_value vs \<Longrightarrow> match_path ps (fill ps vs) = Some vs"
  by (induction ps vs rule: fill.induct) (auto simp: plain_value_def split: list.splits)

fun plain_segments :: "segment list \<Rightarrow> bool" where
  "plain_segments (Fixed [] # Fixed f # ps) \<longleftrightarrow> f \<noteq> lit ''api'' \<and>
     list_all (\<lambda>p. case p of Fixed g \<Rightarrow> 47 \<notin> set g | Param x \<Rightarrow> True) (Fixed f # ps)"
| "plain_segments ps \<longleftrightarrow> False"

lemma app_routes_plain: "list_all (\<lambda>r. plain_segments (rt_path r)) app_routes"
  by code_simp

lemma split_on_plain: "47 \<notin> set s \<Longrightarrow> split_on 47 s = [s]"
  by (induction s) auto

lemma split_on_step: "47 \<notin> set s \<Longrightarrow> split_on 47 (s @ 47 # t) = s # split_on 47 t"
  by (induction s) auto

lemma split_on_join:
  "list_all (\<lambda>s. 47 \<notin> set s) ss \<Longrightarrow> ss \<noteq> [] \<Longrightarrow> split_on 47 (join [47] ss) = ss"
proof (induction "[47 :: int]" ss rule: join.induct)
  case (3 p q ps)
  then show ?case by (simp add: split_on_step)
qed (simp_all add: split_on_plain)

lemma fill_plain:
  "list_all (\<lambda>p. case p of Fixed g \<Rightarrow> 47 \<notin> set g | Param x \<Rightarrow> True) ps \<Longrightarrow> list_all plain_value vs \<Longrightarrow>
   list_all (\<lambda>s. 47 \<notin> set s) (fill ps vs)"
  by (induction ps vs rule: fill.induct) (auto simp: plain_value_def split: list.splits)

lemma startswith_append: "startswith s q \<longleftrightarrow> (\<exists>t. s = q @ t)"
  by (induction s q rule: startswith.induct) auto

lemma route_path_stays:
  assumes "split_on 47 p = [] # f # ss" and "f \<noteq> lit ''api''" shows "route_path p = p"
proof (cases "startswith p (lit ''/api'')")
  case True
  then obtain t where p: "p = 47 # lit ''api'' @ t" by (auto simp: startswith_append lit_def)
  have "t \<noteq> []" "hd t \<noteq> 47"
    using assms split_on_step [of "lit ''api''" "tl t"] split_on_plain [of "lit ''api''"]
    by (cases t; auto simp: p lit_def)+
  then show ?thesis using True by (cases t) (simp_all add: route_path_def p lit_def)
qed (simp add: route_path_def)

lemma route_path_api: "p = 47 # q \<Longrightarrow> route_path (lit ''/api'' @ p) = p"
  by (simp add: route_path_def startswith_append lit_def)

lemma resolve_found:
  assumes "r \<in> set app_routes" and "route_path path = p" and "match_path (rt_path r) (split_on 47 p) = Some vs"
  shows "resolve app_routes (method_name (rt_method r)) path = Found r vs"
  using full_match_found [OF app_routes_apart assms(1,3)] by (simp add: resolve_def assms(2))

text \<open>
  C34: no endpoint is shadowed. With any values for its parameters, the path of every registered route leads to
  that route and gives back those values, with and without the root path in front, whatever else is registered.
\<close>

theorem routes_are_reached:
  assumes "r \<in> set app_routes" and "length vs = params (rt_path r)" and "list_all plain_value vs"
  shows "resolve app_routes (method_name (rt_method r)) (url r vs) = Found r vs \<and>
    resolve app_routes (method_name (rt_method r)) (lit ''/api'' @ url r vs) = Found r vs"
proof -
  have pl: "plain_segments (rt_path r)" using app_routes_plain assms(1) by (auto simp: list_all_iff)
  then obtain f ps where ps: "rt_path r = Fixed [] # Fixed f # ps" "f \<noteq> lit ''api''"
      "list_all (\<lambda>p. case p of Fixed g \<Rightarrow> 47 \<notin> set g | Param x \<Rightarrow> True) (Fixed f # ps)"
    by (auto elim: plain_segments.elims)
  let ?ss = "fill (rt_path r) vs"
  have "list_all (\<lambda>s. 47 \<notin> set s) ?ss" using fill_plain [OF ps(3) assms(3)] by (simp add: ps(1))
  then have split: "split_on 47 (url r vs) = ?ss" by (simp add: url_def split_on_join ps(1))
  have hit: "match_path (rt_path r) (split_on 47 (url r vs)) = Some vs"
    unfolding split by (rule match_fill [OF assms(2,3)])
  have "route_path (url r vs) = url r vs" by (rule route_path_stays [OF _ ps(2)]) (simp add: split ps(1))
  moreover have "url r vs = 47 # join [47] (f # fill ps vs)" by (simp add: url_def ps(1))
  ultimately show ?thesis
    using resolve_found [OF assms(1) _ hit] route_path_api by blast
qed

theorem routes_are_reached_witness:
  "resolve app_routes (lit ''PATCH'') (lit ''/api/tags/7'')
     = Found (Route PATCH [Fixed [], Fixed (lit ''tags''), Param (lit ''tag_id'')] Ep_update_tag 200) [str_int 7]"
proof -
  let ?r = "Route PATCH [Fixed [], Fixed (lit ''tags''), Param (lit ''tag_id'')] Ep_update_tag 200"
  have r: "?r \<in> set app_routes" by code_simp
  have v: "list_all plain_value [str_int 7]" by code_simp
  have u: "lit ''/api'' @ url ?r [str_int 7] = lit ''/api/tags/7''" by code_simp
  from routes_are_reached [OF r _ v] show ?thesis unfolding u by simp
qed

section \<open>Answering a request\<close>

text \<open>What the framework's validation makes of a request for an endpoint.\<close>

datatype call =
    Api_call request
  | Login_call pystr pystr
  | Token_call pystr pystr
  | Refresh_call "pystr option" "pystr option"
  | Logout_call
  | Page_call endpoint

fun call_endpoint :: "call \<Rightarrow> endpoint" where
  "call_endpoint (Api_call rq) = request_endpoint rq"
| "call_endpoint (Login_call u p) = Ep_login"
| "call_endpoint (Token_call u p) = Ep_token"
| "call_endpoint (Refresh_call c b) = Ep_refresh"
| "call_endpoint Logout_call = Ep_logout"
| "call_endpoint (Page_call e) = e"

text \<open>
  A request as it comes in: method, path and bearer token; whether its body, where one is read, is JSON; whether
  the rate limiter stops it; whether Redis counts a queue; and what validation makes of the path values, the
  query and the body for an endpoint, if anything.
\<close>

record http_request =
  hr_method :: pystr
  hr_path :: pystr
  hr_token :: "pystr option"
  hr_json :: bool
  hr_limited :: bool
  hr_zcard :: bool
  hr_reading :: "endpoint \<Rightarrow> pystr list \<Rightarrow> call option"

definition validated :: "http_request \<Rightarrow> endpoint \<Rightarrow> pystr list \<Rightarrow> call option" where
  "validated rq e vs =
     (case hr_reading rq e vs of None \<Rightarrow> None | Some c \<Rightarrow> if call_endpoint c = e then Some c else None)"

text \<open>The dependencies of an endpoint: the admin they find, for those that ask for one.\<close>

definition current_admin :: "env \<Rightarrow> crypto \<Rightarrow> pystr option \<Rightarrow> world \<Rightarrow> admin result" where
  "current_admin E C tok w = get_current_admin (wdb w) (get_claims C (uni E) (cfg E) (wclock w) tok)"

definition guard_check :: "env \<Rightarrow> crypto \<Rightarrow> pystr option \<Rightarrow> guard \<Rightarrow> world \<Rightarrow> admin option result" where
  "guard_check E C tok g w =
     (case g of
        Open \<Rightarrow> Inr None
      | Signed_in \<Rightarrow> map_sum id Some (current_admin E C tok w)
      | At_least R \<Rightarrow> map_sum id Some (require_role R (current_admin E C tok w)))"

text \<open>
  The handler, called with the admin that the dependencies found, and the serialization of what it returns, which can
  raise.
\<close>

fun run_call :: "env \<Rightarrow> crypto \<Rightarrow> (response \<Rightarrow> exn option) \<Rightarrow> bool \<Rightarrow> call \<Rightarrow> admin option \<Rightarrow> unit eff" where
  "run_call E C S z (Api_call rq) who w =
     (case reply E C rq (the who) w of
        (Inl e, w1) \<Rightarrow> (Inl e, w1)
      | (Inr b, w1) \<Rightarrow> (case S b of None \<Rightarrow> Inr () | Some e \<Rightarrow> Inl e, w1))"
| "run_call E C S z (Login_call u p) who w = void (login C (cfg E) u p w)"
| "run_call E C S z (Token_call u p) who w = void (login C (cfg E) u p w)"
| "run_call E C S z (Refresh_call c b) who w = void (refresh C (uni E) (cfg E) c b w)"
| "run_call E C S z Logout_call who w = void (logout w)"
| "run_call E C S z (Page_call e) who w =
     (Inr (), if e = Ep_metrics then snd (refresh_queue_depths E z w) else w)"

text \<open>An HTTP error is an answer with its status; any other exception leaves the application.\<close>

definition settle :: "int \<Rightarrow> unit result \<times> world \<Rightarrow> int result \<times> world" where
  "settle ok rw =
     (case fst rw of
        Inr u \<Rightarrow> Inr ok
      | Inl e \<Rightarrow> (case e of HTTPException c m \<Rightarrow> Inr c | _ \<Rightarrow> Inl e), snd rw)"

definition answer_http :: "env \<Rightarrow> crypto \<Rightarrow> (response \<Rightarrow> exn option) \<Rightarrow> finder \<Rightarrow> http_request \<Rightarrow> world \<Rightarrow> int result \<times> world" where
  "answer_http E C S R rq w =
     (case R app_routes (hr_method rq) (hr_path rq) of
        Not_found \<Rightarrow> (Inr 404, w)
      | Method_not_allowed r \<Rightarrow> (Inr 405, w)
      | Redirected \<Rightarrow> (Inr 307, w)
      | Found r vs \<Rightarrow>
          if \<not> hr_json rq then (Inr 422, w)
          else (case guard_check E C (hr_token rq) (endpoint_guard (rt_endpoint r)) w of
             Inl e \<Rightarrow> settle (rt_status r) (Inl e, w)
           | Inr who \<Rightarrow>
               (case validated rq (rt_endpoint r) vs of
                  None \<Rightarrow> (Inr 422, w)
                | Some c \<Rightarrow>
                    if hr_limited rq \<and> (rt_endpoint r = Ep_login \<or> rt_endpoint r = Ep_token) then (Inr 429, w)
                    else settle (rt_status r) (run_call E C S (hr_zcard rq) c who w))))"

section \<open>Counting\<close>

definition template_of :: "route \<Rightarrow> pystr" where
  "template_of r = join [47] (map (\<lambda>p. case p of Fixed f \<Rightarrow> f | Param x \<Rightarrow> 123 # x @ [125]) (rt_path r))"

text \<open>The route that the scope of a request holds after the router has run.\<close>

definition scope_route :: "resolution \<Rightarrow> pystr option" where
  "scope_route res =
     (case res of Found r vs \<Rightarrow> Some (template_of r) | Method_not_allowed r \<Rightarrow> Some (template_of r) | _ \<Rightarrow> None)"

definition serve_http ::
  "env \<Rightarrow> crypto \<Rightarrow> (response \<Rightarrow> exn option) \<Rightarrow> finder \<Rightarrow> http_request \<Rightarrow> world \<times> counters \<Rightarrow> int result \<times> world \<times> counters" where
  "serve_http E C S R rq wm =
     (let (ans, w1) = answer_http E C S R rq (fst wm);
          route = scope_route (R app_routes (hr_method rq) (hr_path rq));
          (ans', m1) = dispatch \<lparr>h_method = hr_method rq, h_path = hr_path rq, h_route = route\<rparr> ans (snd wm)
      in (ans', w1, m1))"

fun serve_all ::
  "env \<Rightarrow> crypto \<Rightarrow> (response \<Rightarrow> exn option) \<Rightarrow> finder \<Rightarrow> http_request list \<Rightarrow> world \<times> counters \<Rightarrow> world \<times> counters" where
  "serve_all E C S R [] wm = wm"
| "serve_all E C S R (rq # rqs) wm = serve_all E C S R rqs (snd (serve_http E C S R rq wm))"

section \<open>Who changes what\<close>

text \<open>The guard of an endpoint is the one that \<open>Api\<close> and \<open>Responses\<close> check.\<close>

lemma endpoint_guard_request:
  "endpoint_guard (request_endpoint rq) = (case required_role rq of None \<Rightarrow> Signed_in | Some R \<Rightarrow> At_least R)"
  by (cases rq) simp_all

lemma settle_world [simp]: "snd (settle ok rw) = snd rw"
  by (simp add: settle_def)

lemma refresh_world [simp]: "snd (refresh C U s c b w) = w"
  by (simp add: refresh_def Let_def split: sum.split option.split)

lemma queue_depths_store [simp]:
  "wdb (snd (refresh_queue_depths E z w)) = wdb w" "wjobs (snd (refresh_queue_depths E z w)) = wjobs w"
  by (auto simp: refresh_queue_depths_def queued_job_count_def get_pool_def Let_def case_prod_beta
      split: sum.splits option.splits if_splits)

fun reads_only :: "request \<Rightarrow> bool" where
  "reads_only List_tags = True"
| "reads_only Count_tags = True"
| "reads_only List_templates = True"
| "reads_only List_channels = True"
| "reads_only (Get_ai_settings k) = True"
| "reads_only (Test_ai_transform k t) = True"
| "reads_only List_admins = True"
| "reads_only (List_queue ss l f) = True"
| "reads_only (Get_post k) = True"
| "reads_only (List_events pid acts l f) = True"
| "reads_only (List_post_events k) = True"
| "reads_only Me = True"
| "reads_only rq = False"

lemma run_call_store:
  assumes "(wdb (snd (run_call E C S z c who w)), wjobs (snd (run_call E C S z c who w))) \<noteq> (wdb w, wjobs w)"
  shows "call_endpoint c = Ep_login \<or> call_endpoint c = Ep_token \<or> (\<exists>rq. c = Api_call rq \<and> \<not> reads_only rq)"
proof (cases c)
  case (Api_call rq)
  have "snd (run_call E C S z c who w) = snd (handle E C rq (the who) w)"
    by (auto simp: Api_call reply_world [symmetric] split: prod.split sum.split option.split)
  then have "\<not> reads_only rq" using assms by (cases rq) auto
  then show ?thesis using Api_call by blast
qed (use assms in \<open>auto simp: logout_def void_def split: if_splits\<close>)

text \<open>What a token has to be for the dependencies to find an admin.\<close>

lemma current_adminD:
  assumes "current_admin E C tok w = Inr a"
  shows "\<exists>t pl v. tok = Some t \<and> jwt_decode C t (jwt_secret (cfg E)) [jwt_algo (cfg E)] (wclock w) = Some pl \<and>
    map_of pl ''token_type'' = Some (JStr (lit ''access'')) \<and> map_of pl ''admin_id'' = Some v \<and>
    json_int (uni E) v = Inr (admin_id a) \<and> a \<in> set (admins (wdb w)) \<and> disabled_at a = None"
proof -
  obtain cl where cl: "get_claims C (uni E) (cfg E) (wclock w) tok = Inr cl" "active_admin (wdb w) (tc_admin_id cl) = Some a"
    using assms by (auto simp: current_admin_def get_current_admin_def split: sum.splits option.splits)
  then obtain t where t: "tok = Some t" "decode_token C (uni E) (cfg E) (wclock w) t = Inr (Some cl)" "tc_type cl = JStr (lit ''access'')"
    by (auto simp: get_claims_def split: if_splits sum.splits option.splits elim: truthyE)
  from t(2) show ?thesis
    using t(1,3) active_adminD [OF cl(2)]
    by (auto simp: decode_token_def decode_raw_def claim_def split: option.splits sum.splits)
qed

text \<open>
  C23: the whole surface is guarded. Whatever request comes in, with any method, path, token and body, and
  whatever route the framework finds: if it changes the store or the queues, it went to a sign-in endpoint; or its bearer
  token is one that the library accepts under the secret at that moment, an access token, and names an account row that
  is there and not disabled, and with this account either a super-admin changed an account, or an admin or super-admin
  changed a tag, a template, a channel or its AI settings, or the tags of a post were edited or a post decided.
\<close>

theorem changes_need_rights:
  assumes "(wdb (snd (answer_http E C S R rq w)), wjobs (snd (answer_http E C S R rq w))) \<noteq> (wdb w, wjobs w)"
  shows "\<exists>r vs. R app_routes (hr_method rq) (hr_path rq) = Found r vs \<and>
    (rt_endpoint r = Ep_login \<or> rt_endpoint r = Ep_token \<or>
     (\<exists>t pl v a. hr_token rq = Some t \<and> jwt_decode C t (jwt_secret (cfg E)) [jwt_algo (cfg E)] (wclock w) = Some pl \<and>
       map_of pl ''token_type'' = Some (JStr (lit ''access'')) \<and> map_of pl ''admin_id'' = Some v \<and>
       json_int (uni E) v = Inr (admin_id a) \<and> a \<in> set (admins (wdb w)) \<and> disabled_at a = None \<and>
       (rt_endpoint r \<in> {Ep_create_admin, Ep_update_admin} \<and> admin_role a = R_super_admin \<or>
        rt_endpoint r \<in> {Ep_create_tag, Ep_update_tag, Ep_delete_tag, Ep_create_template, Ep_update_template, Ep_delete_template,
          Ep_create_channel, Ep_update_channel, Ep_delete_channel, Ep_update_ai_settings} \<and> admin_role a \<in> {R_admin, R_super_admin} \<or>
        rt_endpoint r \<in> {Ep_edit_tags, Ep_decide, Ep_approve, Ep_schedule, Ep_reject})))"
proof (cases "R app_routes (hr_method rq) (hr_path rq)")
  case (Found r vs)
  obtain who c where g: "guard_check E C (hr_token rq) (endpoint_guard (rt_endpoint r)) w = Inr who"
    and v: "validated rq (rt_endpoint r) vs = Some c"
    and ch: "(wdb (snd (run_call E C S (hr_zcard rq) c who w)), wjobs (snd (run_call E C S (hr_zcard rq) c who w))) \<noteq> (wdb w, wjobs w)"
    using assms Found by (auto simp: answer_http_def split: if_splits sum.splits option.splits)
  have e: "call_endpoint c = rt_endpoint r" using v by (auto simp: validated_def split: option.splits if_splits)
  consider "rt_endpoint r = Ep_login" | "rt_endpoint r = Ep_token" | q where "c = Api_call q" "\<not> reads_only q"
    using run_call_store [OF ch] e by auto
  then show ?thesis
  proof cases
    case (3 q)
    have ep: "rt_endpoint r = request_endpoint q" using e 3(1) by simp
    then obtain a where a: "current_admin E C (hr_token rq) w = Inr a"
      "case required_role q of None \<Rightarrow> True | Some R \<Rightarrow> role_at_least (admin_role a) R"
      using g by (cases "current_admin E C (hr_token rq) w")
        (auto simp: guard_check_def endpoint_guard_request require_role_def split: option.splits if_splits)
    have "rt_endpoint r \<in> {Ep_create_admin, Ep_update_admin} \<and> admin_role a = R_super_admin \<or>
        rt_endpoint r \<in> {Ep_create_tag, Ep_update_tag, Ep_delete_tag, Ep_create_template, Ep_update_template, Ep_delete_template,
          Ep_create_channel, Ep_update_channel, Ep_delete_channel, Ep_update_ai_settings} \<and> admin_role a \<in> {R_admin, R_super_admin} \<or>
        rt_endpoint r \<in> {Ep_edit_tags, Ep_decide, Ep_approve, Ep_schedule, Ep_reject}"
      using a(2) 3(2) unfolding ep by (cases q; cases "admin_role a") (simp_all add: role_at_least_def)
    then show ?thesis using Found current_adminD [OF a(1)] by blast
  qed (use Found in auto)
qed (use assms in \<open>simp_all add: answer_http_def\<close>)

definition rejecting :: http_request where
  "rejecting = \<lparr>hr_method = lit ''POST'', hr_path = lit ''/api/queue/9/reject'', hr_token = Some (lit ''tok''), hr_json = True,
     hr_limited = False, hr_zcard = True, hr_reading = (\<lambda>e vs. if vs = [lit ''9''] then Some (Api_call (Reject 9)) else None)\<rparr>"

definition console_world :: world where
  "console_world = (sample_world [sample_post] [])\<lparr>wdb := (sample_db [sample_post] [])\<lparr>admins := [owner]\<rparr>\<rparr>"

theorem changes_need_rights_witness:
  "\<exists>r vs a. resolve app_routes (lit ''POST'') (lit ''/api/queue/9/reject'') = Found r vs \<and> rt_endpoint r = Ep_reject \<and>
     a \<in> set (admins (wdb console_world)) \<and> disabled_at a = None"
proof -
  have "map post_state (posts (wdb (snd (answer_http sample_env root_crypto (\<lambda>b. None) resolve rejecting console_world)))) = [Rejected]"
    by code_simp
  moreover have "map post_state (posts (wdb console_world)) = [Pending]" by code_simp
  ultimately have ch: "(wdb (snd (answer_http sample_env root_crypto (\<lambda>b. None) resolve rejecting console_world)),
      wjobs (snd (answer_http sample_env root_crypto (\<lambda>b. None) resolve rejecting console_world))) \<noteq> (wdb console_world, wjobs console_world)"
    by auto
  have res: "resolve app_routes (lit ''POST'') (lit ''/api/queue/9/reject'')
      = Found (Route POST [Fixed [], Fixed (lit ''queue''), Param (lit ''post_id''), Fixed (lit ''reject'')] Ep_reject 200) [lit ''9'']"
    by code_simp
  from changes_need_rights [OF ch] show ?thesis by (auto simp: rejecting_def res)
qed

section \<open>The labels of the counters\<close>

lemma dispatch_labels:
  "snd (dispatch rq ans m) = m \<or>
   (\<exists>st. snd (dispatch rq ans m) = inc (h_method rq, route_template (h_route rq), st) m)"
  by (auto simp: dispatch_def split: sum.split)

lemma labels_inc: "fst ` set (inc k m) = insert k (fst ` set m)"
  by (simp add: inc_def dom_update)

lemma dispatch_keys:
  assumes "k \<in> fst ` set (snd (dispatch rq ans m))"
  shows "k \<in> fst ` set m \<or> fst (snd k) = route_template (h_route rq)"
  using dispatch_labels [of rq ans m]
proof
  assume "\<exists>st. snd (dispatch rq ans m) = inc (h_method rq, route_template (h_route rq), st) m"
  then show ?thesis using assms by (elim exE) (simp only: labels_inc, auto)
qed (use assms in simp)

text \<open>What the labels rely on in the framework: the route it puts into the scope is a registered one.\<close>

locale route_finder =
  fixes R :: finder
  assumes found: "R rs m p = Found r vs \<Longrightarrow> r \<in> set rs"
    and partial: "R rs m p = Method_not_allowed r \<Longrightarrow> r \<in> set rs"
begin

lemma scope_known: "scope_route (R rs m p) = Some t \<Longrightarrow> t \<in> template_of ` set rs"
  using found partial by (cases "R rs m p") (auto simp: scope_route_def)

lemma label_known:
  "route_template (scope_route (R rs m p)) \<in> insert (lit ''unmatched'') (template_of ` set rs)"
  using scope_known [of rs m p] by (auto simp: route_template_def split: option.split)

lemma serve_http_labels:
  assumes "x \<in> set (snd (snd (serve_http E C S R rq wm)))"
  shows "fst x \<in> fst ` set (snd wm) \<or> fst (snd (fst x)) \<in> insert (lit ''unmatched'') (template_of ` set app_routes)"
proof -
  let ?h = "\<lparr>h_method = hr_method rq, h_path = hr_path rq, h_route = scope_route (R app_routes (hr_method rq) (hr_path rq))\<rparr>"
  have "snd (snd (serve_http E C S R rq wm)) = snd (dispatch ?h (fst (answer_http E C S R rq (fst wm))) (snd wm))"
    by (simp add: serve_http_def Let_def case_prod_beta)
  then have "fst x \<in> fst ` set (snd (dispatch ?h (fst (answer_http E C S R rq (fst wm))) (snd wm)))" using assms by simp
  from dispatch_keys [OF this] label_known [of app_routes "hr_method rq" "hr_path rq"] show ?thesis by auto
qed

lemma serve_all_labels:
  "list_all (\<lambda>x. fst (snd (fst x)) \<in> insert (lit ''unmatched'') (template_of ` set app_routes)) (snd wm) \<Longrightarrow>
   list_all (\<lambda>x. fst (snd (fst x)) \<in> insert (lit ''unmatched'') (template_of ` set app_routes)) (snd (serve_all E C S R rqs wm))"
proof (induction rqs arbitrary: wm)
  case (Cons rq rqs)
  have "list_all (\<lambda>x. fst (snd (fst x)) \<in> insert (lit ''unmatched'') (template_of ` set app_routes))
      (snd (snd (serve_http E C S R rq wm)))"
    using serve_http_labels [of _ E C S rq wm] Cons.prems by (fastforce simp: list_all_iff)
  from Cons.IH [OF this] show ?case by simp
qed simp

end

interpretation documented: route_finder resolve
proof
  have f: "full_match rs m ss = Some (r, vs) \<Longrightarrow> r \<in> set rs" for rs m ss r vs
    by (induction rs) (auto split: option.splits if_splits)
  have q: "path_match rs ss = Some r \<Longrightarrow> r \<in> set rs" for rs ss r
    by (auto simp: path_match_def find_Some_iff)
  show "resolve rs m p = Found r vs \<Longrightarrow> r \<in> set rs" "resolve rs m p = Method_not_allowed r \<Longrightarrow> r \<in> set rs" for rs m p r vs
    using f q by (auto simp: resolve_def Let_def split: option.splits if_splits)
qed

text \<open>
  the path label of the counters is bounded. Whatever is requested, every counter is labelled with the
  template of a registered route or with \<open>unmatched\<close>.
\<close>

theorem labels_are_bounded:
  assumes "route_finder R"
  shows "list_all (\<lambda>x. fst (snd (fst x)) \<in> insert (lit ''unmatched'') (template_of ` set app_routes))
     (snd (serve_all E C S R rqs (w, [])))"
  by (rule route_finder.serve_all_labels [OF assms]) simp

theorem labels_are_bounded_witness:
  "list_all (\<lambda>x. fst (snd (fst x)) \<in> insert (lit ''unmatched'') (template_of ` set app_routes))
     (snd (serve_all sample_env root_crypto (\<lambda>b. None) resolve [rejecting, rejecting\<lparr>hr_path := lit ''/a/b''\<rparr>] (console_world, [])))"
  by (rule labels_are_bounded [OF documented.route_finder_axioms])

end
