(* ===== verification/Limits.thy ===== *)
theory Limits
  imports Routing
begin

text \<open>
  The rate limiter of the sign-in endpoints: \<open>api/limiter.py\<close>, the decorators in \<open>api/auth.py\<close> and the handler that
  \<open>api/main.py\<close> registers. The counting itself is the library's and a parameter here; what the library documents of its
  fixed windows is the hypothesis \<open>fixed_window\<close>.
\<close>

section \<open>The limiter\<close>

text \<open>The limit of both decorators: so many requests in so much time.\<close>

definition SIGN_IN_LIMIT :: "nat \<times> time" where
  "SIGN_IN_LIMIT = (10, minutes 1)"

text \<open>What is counted together: the requests to one endpoint from one remote address (\<open>key_func\<close>).\<close>

type_synonym limit_key = "endpoint \<times> pystr"

record client_request =
  cl_wait :: time
  cl_address :: pystr
  cl_request :: http_request

text \<open>
  The endpoint whose decorated function a request gets to, if it is one of the limited ones: its body can be read and
  validated.
\<close>

definition limited_endpoint :: "finder \<Rightarrow> http_request \<Rightarrow> endpoint option" where
  "limited_endpoint R rq =
     (case R app_routes (hr_method rq) (hr_path rq) of
        Found r vs \<Rightarrow>
          if hr_json rq \<and> rt_endpoint r \<in> {Ep_login, Ep_token} \<and> validated rq (rt_endpoint r) vs \<noteq> None
          then Some (rt_endpoint r) else None
      | _ \<Rightarrow> None)"

text \<open>
  The application in front of its clients: the limiter's memory, the store, and, for the record, the sign-ins that
  were not refused with 429, so that the password was checked.
\<close>

record 's front =
  fr_limiter :: 's
  fr_world :: world
  fr_checked :: "(limit_key \<times> time) list"

definition serve_client ::
  "env \<Rightarrow> crypto \<Rightarrow> (response \<Rightarrow> exn option) \<Rightarrow> finder \<Rightarrow> ('s \<Rightarrow> time \<Rightarrow> limit_key \<Rightarrow> bool \<times> 's) \<Rightarrow> client_request \<Rightarrow> 's front \<Rightarrow> int result \<times> 's front" where
  "serve_client E C S R hit c f =
     (let w = sleep (cl_wait c) (fr_world f)
      in case limited_endpoint R (cl_request c) of
           None \<Rightarrow> (let (ans, w1) = answer_http E C S R (cl_request c) w in (ans, f\<lparr>fr_world := w1\<rparr>))
         | Some e \<Rightarrow>
             (let k = (e, cl_address c); (ok, l1) = hit (fr_limiter f) (wclock w) k;
                  (ans, w1) = answer_http E C S R ((cl_request c)\<lparr>hr_limited := \<not> ok\<rparr>) w
              in (ans, f\<lparr>fr_limiter := l1, fr_world := w1,
                         fr_checked := fr_checked f @ (if ans \<noteq> Inr 429 then [(k, wclock w)] else [])\<rparr>)))"

fun serve_clients ::
  "env \<Rightarrow> crypto \<Rightarrow> (response \<Rightarrow> exn option) \<Rightarrow> finder \<Rightarrow> ('s \<Rightarrow> time \<Rightarrow> limit_key \<Rightarrow> bool \<times> 's) \<Rightarrow> client_request list \<Rightarrow> 's front \<Rightarrow> 's front" where
  "serve_clients E C S R hit [] f = f"
| "serve_clients E C S R hit (c # cs) f = serve_clients E C S R hit cs (snd (serve_client E C S R hit c f))"

section \<open>What the library documents\<close>

text \<open>
  A window of a key opens with the first hit, counts the hits in it and lets the first so many of them through; once
  it has expired, the next hit opens another one. The keys are counted apart.
\<close>

definition fixed_window :: "nat \<times> time \<Rightarrow> ('s \<Rightarrow> time \<Rightarrow> 'k \<Rightarrow> bool \<times> 's) \<Rightarrow> ('s \<Rightarrow> 'k \<Rightarrow> (time \<times> nat) option) \<Rightarrow> bool" where
  "fixed_window lim hit window \<longleftrightarrow>
     (\<forall>s now k k'. window (snd (hit s now k)) k' =
        (if k' \<noteq> k then window s k'
         else case window s k of
           None \<Rightarrow> Some (now, 1)
         | Some (opened, n) \<Rightarrow> if now < opened + snd lim then Some (opened, n + 1) else Some (now, 1))) \<and>
     (\<forall>s now k. fst (hit s now k) =
        (case window s k of
           None \<Rightarrow> True
         | Some (opened, n) \<Rightarrow> opened + snd lim \<le> now \<or> n < fst lim))"

section \<open>Answering takes no time\<close>

lemma enqueue_publish_clock [simp]: "wclock (snd (enqueue_publish E pid dl w)) = wclock w"
  by (simp add: enqueue_publish_def)

lemma enqueue_bind_clock:
  "wclock (snd (case enqueue_publish E k dl w1 of (Inl e, w2) \<Rightarrow> (Inl e, w2) | (Inr u, w2) \<Rightarrow> (Inr (f w2), w2))) = wclock w1"
  using enqueue_publish_clock [of E k dl w1] by (cases "enqueue_publish E k dl w1") (simp split: sum.split)

lemma decide_core_clock [simp]: "wclock (snd (decide_core E pid dec a w)) = wclock w"
  by (simp add: decide_core_def Let_def enqueue_bind_clock split: sum.split option.split)

lemma edit_tags_clock [simp]: "wclock (snd (edit_tags pid ids a w)) = wclock w"
  by (simp add: edit_tags_def Let_def split: sum.split)

lemma vocabulary_clock [simp]:
  "wclock (snd (create_tag U tc w)) = wclock w" "wclock (snd (update_tag k tu w)) = wclock w"
  "wclock (snd (delete_tag k w)) = wclock w" "wclock (snd (create_template pc w)) = wclock w"
  "wclock (snd (update_template k pu w)) = wclock w" "wclock (snd (delete_template k w)) = wclock w"
  by (simp_all add: create_tag_def update_tag_def delete_tag_def create_template_def update_template_def
      delete_template_def Let_def split: sum.split option.split)

lemma channel_clock [simp]:
  "wclock (snd (create_channel s cc w)) = wclock w" "wclock (snd (update_channel k cu w)) = wclock w"
  "wclock (snd (delete_channel k w)) = wclock w" "wclock (snd (update_ai_settings k au w)) = wclock w"
  by (simp_all add: create_channel_def update_channel_def delete_channel_def update_ai_settings_def Let_def
      split: sum.split option.split exn.split)

lemma account_clock [simp]:
  "wclock (snd (create_admin C ac w)) = wclock w" "wclock (snd (update_admin C k u w)) = wclock w"
  "wclock (snd (authenticate C uname password w)) = wclock w"
  by (simp_all add: create_admin_def update_admin_def commit_admin_def authenticate_def Let_def
      split: sum.split option.split bool.split)

lemma login_clock [simp]: "wclock (snd (login C s uname password w)) = wclock w"
  using account_clock(3) [of C uname password w]
  by (cases "authenticate C uname password w") (simp add: login_def Let_def split: sum.split)

lemma reply_clock [simp]: "wclock (snd (reply E C rq a w)) = wclock w"
proof -
  have "snd (reply E C rq a w) = snd (handle E C rq a w)" by (rule reply_world)
  also have "wclock \<dots> = wclock w" by (cases rq) (simp_all add: decide_def approve_def schedule_def reject_def)
  finally show ?thesis .
qed

lemma metrics_clock [simp]: "wclock (snd (refresh_queue_depths E z w)) = wclock w"
  by (auto simp: refresh_queue_depths_def queued_job_count_def get_pool_def Let_def split: prod.split sum.split option.split)

lemma run_call_clock [simp]: "wclock (snd (run_call E C S z c who w)) = wclock w"
proof (cases c)
  case (Api_call rq)
  then show ?thesis
    using reply_clock [of E C rq _ w] by (cases who) (simp_all add: case_prod_beta split: sum.split)
qed (simp_all add: logout_def)

lemma answer_http_clock [simp]: "wclock (snd (answer_http E C S R rq w)) = wclock w"
  by (simp add: answer_http_def split: resolution.split sum.split option.split)

section \<open>Counting\<close>

lemma fixed_windowD:
  assumes "fixed_window lim hit window"
  shows "k' \<noteq> k \<Longrightarrow> window (snd (hit s now k)) k' = window s k'"
    and "window s k = None \<Longrightarrow> fst (hit s now k) \<and> window (snd (hit s now k)) k = Some (now, 1)"
    and "window s k = Some (opened, n) \<Longrightarrow> now < opened + snd lim \<Longrightarrow>
      fst (hit s now k) = (n < fst lim) \<and> window (snd (hit s now k)) k = Some (opened, n + 1)"
    and "window s k = Some (opened, n) \<Longrightarrow> \<not> now < opened + snd lim \<Longrightarrow>
      fst (hit s now k) \<and> window (snd (hit s now k)) k = Some (now, 1)"
  using assms by (auto simp: fixed_window_def)

text \<open>How many more hits of a key are let through within a time, by what its window says.\<close>

fun budget :: "nat \<times> time \<Rightarrow> (time \<times> nat) option \<Rightarrow> time \<Rightarrow> time \<Rightarrow> nat" where
  "budget (m, d) None now T = m * (nat (T div d) + 1)"
| "budget (m, d) (Some (opened, n)) now T = (m - n) + m * nat ((now + T - opened) div d)"

lemma budget_wait:
  assumes "0 < d" and "0 \<le> dt" and "0 \<le> T"
  shows "budget (m, d) win (now + dt) T \<le> budget (m, d) win now (dt + T)"
proof (cases win)
  case None
  have "T div d \<le> (dt + T) div d" using assms by (intro zdiv_mono1) simp_all
  then show ?thesis using None by (simp add: mult_le_mono nat_mono)
next
  case (Some p)
  then show ?thesis by (cases p) (simp add: algebra_simps)
qed

text \<open>A hit takes one from the budget, if it is let through.\<close>

lemma budget_hit:
  assumes "fixed_window (m, d) hit window" and "0 < d" and "0 < m" and "0 \<le> T"
  shows "(if fst (hit s now k) then 1 else 0) + budget (m, d) (window (snd (hit s now k)) k) now T \<le> budget (m, d) (window s k) now T"
proof (cases "window s k")
  case None
  then show ?thesis using fixed_windowD(2) [OF assms(1) None, of now] assms(3) by simp
next
  case (Some p)
  obtain opened n where p: "p = (opened, n)" by (cases p)
  show ?thesis
  proof (cases "now < opened + d")
    case True
    with fixed_windowD(3) [OF assms(1) Some [unfolded p], of now] show ?thesis by (cases "n < m") (simp_all add: Some p)
  next
    case False
    have "(d + T) div d \<le> (now + T - opened) div d" using False assms(2) by (intro zdiv_mono1) simp_all
    moreover have "(d + T) div d = T div d + 1" using assms(2) by (simp add: div_add_self1)
    moreover have "0 \<le> T div d" using assms(2,4) by (simp add: pos_imp_zdiv_nonneg_iff)
    ultimately have "nat (T div d) + 1 \<le> nat ((now + T - opened) div d)" by linarith
    then have "m * (nat (T div d) + 1) \<le> m * nat ((now + T - opened) div d)" by (rule mult_le_mono2)
    moreover have "1 + ((m - 1) + m * nat (T div d)) = m * (nat (T div d) + 1)" using assms(3) by simp
    ultimately show ?thesis
      using fixed_windowD(4) [OF assms(1) Some [unfolded p], of now] False by (simp add: Some p)
  qed
qed

definition checks :: "limit_key \<Rightarrow> (limit_key \<times> time) list \<Rightarrow> nat" where
  "checks k xs = length (filter (\<lambda>x. fst x = k) xs)"

lemma checks_append [simp]: "checks k (xs @ ys) = checks k xs + checks k ys"
  by (simp add: checks_def)

text \<open>What the limiter stops is answered with 429, and the store stays as it is.\<close>

lemma limited_answer:
  assumes "limited_endpoint R rq = Some e"
  shows "answer_http E C S R (rq\<lparr>hr_limited := True\<rparr>) w = (Inr 429, w)"
proof -
  have "validated (rq\<lparr>hr_limited := True\<rparr>) = validated rq" by (simp add: validated_def fun_eq_iff)
  then show ?thesis
    using assms by (auto simp: limited_endpoint_def answer_http_def guard_check_def split: resolution.splits if_splits)
qed

lemma serve_client_clock: "wclock (fr_world (snd (serve_client E C S R hit c f))) = wclock (fr_world f) + cl_wait c"
  by (simp add: serve_client_def Let_def case_prod_beta split: option.split)

lemma serve_client_budget:
  assumes "fixed_window (m, d) hit window" and "0 < d" and "0 < m" and "0 \<le> T" and "0 \<le> cl_wait c"
  shows "checks k (fr_checked (snd (serve_client E C S R hit c f)))
      + budget (m, d) (window (fr_limiter (snd (serve_client E C S R hit c f))) k) (wclock (fr_world f) + cl_wait c) T
    \<le> checks k (fr_checked f) + budget (m, d) (window (fr_limiter f) k) (wclock (fr_world f)) (cl_wait c + T)"
proof -
  let ?now = "wclock (fr_world f) + cl_wait c"
  note wait = budget_wait [OF assms(2,5,4), of m "window (fr_limiter f) k" "wclock (fr_world f)"]
  show ?thesis
  proof (cases "limited_endpoint R (cl_request c)")
    case None
    then show ?thesis using wait by (simp add: serve_client_def Let_def case_prod_beta)
  next
    case (Some e)
    let ?k = "(e, cl_address c)"
    have l: "fr_limiter (snd (serve_client E C S R hit c f)) = snd (hit (fr_limiter f) ?now ?k)"
      and c: "fr_checked (snd (serve_client E C S R hit c f)) \<in>
        {fr_checked f, fr_checked f @ (if fst (hit (fr_limiter f) ?now ?k) then [(?k, ?now)] else [])}"
      by (simp_all add: serve_client_def Some Let_def case_prod_beta limited_answer [OF Some])
    show ?thesis
    proof (cases "?k = k")
      case True
      have "checks k (fr_checked (snd (serve_client E C S R hit c f)))
          \<le> checks k (fr_checked f) + (if fst (hit (fr_limiter f) ?now k) then 1 else 0)"
        using c True by (auto simp: checks_def)
      then show ?thesis using budget_hit [OF assms(1-4), of "fr_limiter f" ?now k] wait True by (simp add: l)
    next
      case False
      then have "checks k (fr_checked (snd (serve_client E C S R hit c f))) = checks k (fr_checked f)"
        using c by (auto simp: checks_def)
      then show ?thesis using fixed_windowD(1) [OF assms(1), of k ?k] wait False by (simp add: l)
    qed
  qed
qed

lemma serve_clients_budget:
  assumes "fixed_window (m, d) hit window" and "0 < d" and "0 < m" and "list_all (\<lambda>c. 0 \<le> cl_wait c) cs"
  shows "checks k (fr_checked (serve_clients E C S R hit cs f))
    \<le> checks k (fr_checked f) + budget (m, d) (window (fr_limiter f) k) (wclock (fr_world f)) (sum_list (map cl_wait cs))"
  using assms(4)
proof (induction cs arbitrary: f)
  case (Cons c cs)
  let ?f = "snd (serve_client E C S R hit c f)"
  have T: "0 \<le> sum_list (map cl_wait cs)" using Cons.prems by (induction cs) auto
  have "checks k (fr_checked (serve_clients E C S R hit cs ?f))
    \<le> checks k (fr_checked ?f) + budget (m, d) (window (fr_limiter ?f) k) (wclock (fr_world f) + cl_wait c) (sum_list (map cl_wait cs))"
    using Cons.IH [of ?f] Cons.prems by (simp add: serve_client_clock)
  also have "\<dots> \<le> checks k (fr_checked f) + budget (m, d) (window (fr_limiter f) k) (wclock (fr_world f)) (cl_wait c + sum_list (map cl_wait cs))"
    using serve_client_budget [OF assms(1-3) T, of c k E C S R f] Cons.prems by simp
  finally show ?case by simp
qed simp

lemma limited_endpoints: "limited_endpoint R rq = Some e \<Longrightarrow> e \<in> {Ep_login, Ep_token}"
  by (auto simp: limited_endpoint_def split: resolution.splits if_splits)

lemma serve_clients_endpoints:
  "list_all (\<lambda>x. fst (fst x) \<in> {Ep_login, Ep_token}) (fr_checked f) \<Longrightarrow>
   list_all (\<lambda>x. fst (fst x) \<in> {Ep_login, Ep_token}) (fr_checked (serve_clients E C S R hit cs f))"
proof (induction cs arbitrary: f)
  case (Cons c cs)
  have "list_all (\<lambda>x. fst (fst x) \<in> {Ep_login, Ep_token}) (fr_checked (snd (serve_client E C S R hit c f)))"
    using Cons.prems limited_endpoints [of R "cl_request c"]
    by (auto simp: serve_client_def Let_def case_prod_beta split: option.split)
  from Cons.IH [OF this] show ?case by simp
qed simp

lemma checks_split:
  "list_all (\<lambda>x. fst (fst x) \<in> {Ep_login, Ep_token}) xs \<Longrightarrow>
   length (filter (\<lambda>x. snd (fst x) = addr) xs) = checks (Ep_login, addr) xs + checks (Ep_token, addr) xs"
  by (induction xs) (auto simp: checks_def prod_eq_iff)

text \<open>A sign-in that the limiter stops is answered with 429 and changes nothing.\<close>

lemma refused_sign_in:
  assumes "limited_endpoint R (cl_request c) = Some e"
    and "hit (fr_limiter f) (wclock (fr_world f) + cl_wait c) (e, cl_address c) = (False, l1)"
  shows "serve_client E C S R hit c f = (Inr 429, f\<lparr>fr_limiter := l1, fr_world := sleep (cl_wait c) (fr_world f)\<rparr>)"
  using assms by (simp add: serve_client_def limited_answer [OF assms(1)])

section \<open>Properties\<close>


text \<open>A limiter with the documented windows, and a client that tries one password after the other.\<close>

definition count_hit :: "(limit_key \<Rightarrow> (time \<times> nat) option) \<Rightarrow> time \<Rightarrow> limit_key \<Rightarrow> bool \<times> (limit_key \<Rightarrow> (time \<times> nat) option)" where
  "count_hit m now k =
     (case m k of
        None \<Rightarrow> (True, m(k \<mapsto> (now, 1)))
      | Some (opened, n) \<Rightarrow>
          if now < opened + snd SIGN_IN_LIMIT then (n < fst SIGN_IN_LIMIT, m(k \<mapsto> (opened, n + 1)))
          else (True, m(k \<mapsto> (now, 1))))"

lemma count_hit_windows: "fixed_window SIGN_IN_LIMIT count_hit (\<lambda>m. m)"
  by (auto simp: fixed_window_def count_hit_def split: option.split)

definition guess :: "time \<Rightarrow> endpoint \<Rightarrow> client_request" where
  "guess dt e = \<lparr>cl_wait = dt, cl_address = lit ''203.0.113.9'', cl_request =
     \<lparr>hr_method = lit ''POST'', hr_path = (if e = Ep_login then lit ''/api/auth/login'' else lit ''/api/auth/token''), hr_token = None, hr_json = True,
      hr_limited = False, hr_zcard = True,
      hr_reading = (\<lambda>e vs. if e = Ep_login then Some (Login_call (lit ''root'') (lit ''x''))
        else if e = Ep_token then Some (Token_call (lit ''root'') (lit ''x'')) else None)\<rparr>\<rparr>"

definition quiet_front :: "(limit_key \<Rightarrow> (time \<times> nat) option) front" where
  "quiet_front = \<lparr>fr_limiter = (\<lambda>k. None), fr_world = sample_world [] [], fr_checked = []\<rparr>"


text \<open>The two endpoints are counted apart: twenty guesses go through at one instant.\<close>

theorem endpoints_are_counted_apart:
  "length (fr_checked (serve_clients sample_env root_crypto (\<lambda>b. None) resolve count_hit
     (replicate 11 (guess 0 Ep_login) @ replicate 11 (guess 0 Ep_token)) quiet_front)) = 20"
  by code_simp

end
