(* ===== verification/App.thy ===== *)
theory App
  imports Limits Ops
begin

text \<open>
  The application of \<open>api/main.py\<close> as \<open>create_app\<close> builds it, and its start under the server: what stands around the
  routes, which answers need nobody's sign-in, and that it does not start with a placeholder for the secret.
\<close>

section \<open>The application\<close>

text \<open>Origins, whether credentials are allowed, methods, headers.\<close>

datatype middleware =
    CORSMiddleware "pystr list" bool "pystr list" "pystr list"
  | MetricsMiddleware

text \<open>The middleware is listed from the outside in.\<close>

record application =
  ap_title :: pystr
  ap_version :: pystr
  ap_root_path :: pystr
  ap_openapi_url :: "pystr option"
  ap_docs_url :: "pystr option"
  ap_redoc_url :: "pystr option"
  ap_middleware :: "middleware list"
  ap_handlers :: "(pystr \<times> int) list"
  ap_limiter_key :: "pystr option"
  ap_routes :: "route list"

definition FastAPI :: application where
  "FastAPI = \<lparr>ap_title = lit ''Telegram CMS Bot '' @ [8212] @ lit '' Back-office API'', ap_version = lit ''0.1.0'',
     ap_root_path = lit ''/api'', ap_openapi_url = Some (lit ''/openapi.json''), ap_docs_url = Some (lit ''/docs''),
     ap_redoc_url = None, ap_middleware = [], ap_handlers = [], ap_limiter_key = None, ap_routes = []\<rparr>"

text \<open>What is added last is outermost.\<close>

definition add_middleware :: "middleware \<Rightarrow> application \<Rightarrow> application" where
  "add_middleware m a = a\<lparr>ap_middleware := m # ap_middleware a\<rparr>"

text \<open>The handler registered for an exceeded limit answers 429.\<close>

definition create_app :: "settings \<Rightarrow> application" where
  "create_app s =
     (let (origins, allow_credentials) = cors_policy s;
          a1 = add_middleware (CORSMiddleware origins allow_credentials [lit ''*'']
                 [lit ''Authorization'', lit ''Content-Type'', lit ''Cookie'']) FastAPI;
          a2 = a1\<lparr>ap_limiter_key := Some (lit ''get_remote_address''), ap_handlers := [(lit ''RateLimitExceeded'', 429)]\<rparr>;
          a3 = add_middleware MetricsMiddleware a2
      in a3\<lparr>ap_routes := app_routes\<rparr>)"

text \<open>The two answers about the application itself: no flags, and a constant health answer.\<close>

record HealthOut =
  ho_status :: pystr
  ho_service :: pystr

definition health_out :: "pystr \<Rightarrow> HealthOut" where
  "health_out service = \<lparr>ho_status = lit ''ok'', ho_service = service\<rparr>"

definition api_meta :: "(pystr \<times> pystr) list" where
  "api_meta = []"

definition api_healthz :: HealthOut where
  "api_healthz = health_out (lit ''api'')"

text \<open>The server enters the lifespan before it accepts a request; an exception there ends the process.\<close>

definition start_app :: "settings \<Rightarrow> application result" where
  "start_app s = (case lifespan s of Inl e \<Rightarrow> Inl e | Inr u \<Rightarrow> Inr (create_app s))"

section \<open>Facts\<close>

text \<open>
  An application that serves was given a secret; it lets browsers send credentials only from origins it lists by
  name; and it counts every request, since the counters stand outside the handling of origins.
\<close>

theorem served_app_is_safe:
  assumes "start_app s = Inr a"
  shows "auth_secret_valid s" "\<exists>c. ap_middleware a = [MetricsMiddleware, c] \<and>
    (\<exists>os cr ms hs. c = CORSMiddleware os cr ms hs \<and> (cr \<longleftrightarrow> lit ''*'' \<notin> set os) \<and> (\<forall>o'\<in>set os. o' \<noteq> [] \<and> strip o' = o'))"
  "ap_routes a = app_routes"
proof -
  have a: "auth_secret_valid s" "a = create_app s"
    using assms by (auto simp: start_app_def lifespan_def require_auth_secret_def split: if_splits)
  then show "auth_secret_valid s" by simp
  have m: "ap_middleware a = [MetricsMiddleware, CORSMiddleware (cors_origin_list s) (lit ''*'' \<notin> set (cors_origin_list s))
      [lit ''*''] [lit ''Authorization'', lit ''Content-Type'', lit ''Cookie'']]"
    by (simp add: a(2) create_app_def cors_policy_def add_middleware_def FastAPI_def Let_def)
  have "\<forall>o'\<in>set (cors_origin_list s). o' \<noteq> [] \<and> strip o' = o'" using cors_origin_list_clean by blast
  then show "\<exists>c. ap_middleware a = [MetricsMiddleware, c] \<and>
    (\<exists>os cr ms hs. c = CORSMiddleware os cr ms hs \<and> (cr \<longleftrightarrow> lit ''*'' \<notin> set os) \<and> (\<forall>o'\<in>set os. o' \<noteq> [] \<and> strip o' = o'))"
    by (simp add: m)
  show "ap_routes a = app_routes"
    by (simp add: a(2) create_app_def Let_def case_prod_beta)
qed

end
