(* ===== verification/Confidential.thy ===== *)
theory Confidential
  imports Responses
begin

text \<open>
  What the back office reveals. Two worlds that differ only in the stored password hashes answer
  every sequence of requests alike, whatever tokens and whatever updates it contains.
\<close>

definition erase_admin :: "admin \<Rightarrow> admin" where
  "erase_admin a = a\<lparr>password_hash := []\<rparr>"

definition erase_db :: "db \<Rightarrow> db" where
  "erase_db d = d\<lparr>admins := map erase_admin (admins d)\<rparr>"

definition erase :: "world \<Rightarrow> world" where
  "erase w = w\<lparr>wdb := erase_db (wdb w)\<rparr>"

section \<open>Facts\<close>

lemma erase_admin_fields [simp]:
  "admin_id (erase_admin a) = admin_id a" "username (erase_admin a) = username a"
  "admin_role (erase_admin a) = admin_role a" "tg_user_id (erase_admin a) = tg_user_id a"
  "admin_created_at (erase_admin a) = admin_created_at a" "disabled_at (erase_admin a) = disabled_at a"
  "erase_admin (erase_admin a) = erase_admin a"
  by (simp_all add: erase_admin_def)

lemma AdminOut_erase [simp]: "AdminOut (erase_admin a) = AdminOut a"
  by (simp add: AdminOut_def)

lemma erase_db_fields [simp]:
  "tags (erase_db d) = tags d" "templates (erase_db d) = templates d"
  "source_channels (erase_db d) = source_channels d" "source_channel_tags (erase_db d) = source_channel_tags d"
  "posts (erase_db d) = posts d" "post_events (erase_db d) = post_events d" "dedupe_rows (erase_db d) = dedupe_rows d"
  "next_id (erase_db d) = next_id d" "admins (erase_db d) = map erase_admin (admins d)"
  by (simp_all add: erase_db_def)

lemma erase_fields [simp]:
  "wdb (erase w) = erase_db (wdb w)" "wjobs (erase w) = wjobs w" "wpool (erase w) = wpool w"
  "wcalls (erase w) = wcalls w" "wfiles (erase w) = wfiles w" "wclock (erase w) = wclock w"
  by (simp_all add: erase_def)

lemma erase_db_updates:
  "(erase_db d)\<lparr>tags := x1\<rparr> = erase_db (d\<lparr>tags := x1\<rparr>)"
  "(erase_db d)\<lparr>templates := x2\<rparr> = erase_db (d\<lparr>templates := x2\<rparr>)"
  "(erase_db d)\<lparr>source_channels := x3\<rparr> = erase_db (d\<lparr>source_channels := x3\<rparr>)"
  "(erase_db d)\<lparr>source_channel_tags := x4\<rparr> = erase_db (d\<lparr>source_channel_tags := x4\<rparr>)"
  "(erase_db d)\<lparr>posts := x5\<rparr> = erase_db (d\<lparr>posts := x5\<rparr>)"
  "(erase_db d)\<lparr>post_events := x6\<rparr> = erase_db (d\<lparr>post_events := x6\<rparr>)"
  "(erase_db d)\<lparr>next_id := x7\<rparr> = erase_db (d\<lparr>next_id := x7\<rparr>)"
  "(erase_db d)\<lparr>admins := map erase_admin x8\<rparr> = erase_db (d\<lparr>admins := x8\<rparr>)"
  by (simp_all add: erase_db_def)

lemma erase_updates:
  "(erase w)\<lparr>wdb := erase_db d\<rparr> = erase (w\<lparr>wdb := d\<rparr>)"
  "(erase w)\<lparr>wjobs := js\<rparr> = erase (w\<lparr>wjobs := js\<rparr>)"
  "(erase w)\<lparr>wpool := b\<rparr> = erase (w\<lparr>wpool := b\<rparr>)"
  by (simp_all add: erase_def)

lemmas erasure = erase_db_updates erase_updates

lemma erase_twice [simp]: "erase (erase w) = erase w" "erase_db (erase_db d) = erase_db d"
  by (simp_all add: erase_def erase_db_def o_def)

lemma save_post_erase [simp]: "save_post now p (erase_db d) = erase_db (save_post now p d)"
  by (simp add: save_post_def erasure)

lemma add_event_erase [simp]: "add_event now pid ac act pl (erase_db d) = erase_db (add_event now pid ac act pl d)"
  by (simp add: add_event_def erasure)

lemma enqueue_job_erase: "enqueue_job E j (erase w) = apsnd erase (enqueue_job E j w)"
  by (simp add: enqueue_job_def get_pool_def erasure split: option.split)

text \<open>The operations on other tables do not see the difference at all.\<close>

named_theorems erased \<open>operations that commute with erasing the hashes\<close>

lemma vocabulary_erased [erased]:
  "create_tag U ct (erase w) = apsnd erase (create_tag U ct w)"
  "update_tag k ut (erase w) = apsnd erase (update_tag k ut w)"
  "delete_tag k (erase w) = apsnd erase (delete_tag k w)"
  "create_template cp (erase w) = apsnd erase (create_template cp w)"
  "update_template k up (erase w) = apsnd erase (update_template k up w)"
  "delete_template k (erase w) = apsnd erase (delete_template k w)"
  by (simp_all add: create_tag_def update_tag_def delete_tag_def create_template_def update_template_def
      delete_template_def Let_def erasure split: sum.split option.split)

lemma lookups_erased [simp]:
  "unknown_tags (erase_db d) ids = unknown_tags d ids" "template_exists (erase_db d) ch = template_exists d ch"
  by (simp_all add: unknown_tags_def template_exists_def split: option.split)

lemma links_erased: "set_default_tag_links (erase_db d) cid ids = set_default_tag_links d cid ids"
  by (simp add: set_default_tag_links_def Let_def)

lemma flush_erased: "flush_channel (erase_db d) ch = flush_channel d ch"
  by (simp add: flush_channel_def)

lemma create_channel_erased [erased]: "create_channel s c (erase w) = apsnd erase (create_channel s c w)"
  by (simp add: create_channel_def Let_def erasure flush_erased links_erased split: sum.split exn.split)

lemma update_channel_erased [erased]: "update_channel k u (erase w) = apsnd erase (update_channel k u w)"
  by (simp add: update_channel_def Let_def erasure flush_erased links_erased split: sum.split option.split)

lemma delete_channel_erased [erased]: "delete_channel k (erase w) = apsnd erase (delete_channel k w)"
  by (simp add: delete_channel_def cascade_channel_def active_count_def Let_def erasure split: option.split)

lemma update_ai_settings_erased [erased]:
  "update_ai_settings k u (erase w) = apsnd erase (update_ai_settings k u w)"
  by (simp add: update_ai_settings_def get_ai_settings_def Let_def erasure split: option.split)

lemma test_ai_erased: "test_ai_transform E (erase_db d) k t = test_ai_transform E d k t"
  by (simp add: test_ai_transform_def get_ai_settings_def)

lemma commit_decision_erased:
  "commit_decision (erase_admin a) p act pl (erase w) = erase (commit_decision a p act pl w)"
  by (simp add: commit_decision_def erasure)

lemma refreshed_erased: "refreshed pid p (erase w) = refreshed pid p w"
  by (simp add: refreshed_def)

lemma decide_core_erased [erased]:
  "decide_core E pid dec (erase_admin a) (erase w) = apsnd erase (decide_core E pid dec a w)"
  unfolding decide_core_def find_post_def get_queue_post_def enqueue_publish_def
  by (simp add: Let_def commit_decision_erased enqueue_job_erase refreshed_erased split: option.split sum.split prod.split)

lemma edit_tags_erased [erased]: "edit_tags k ids (erase_admin a) (erase w) = apsnd erase (edit_tags k ids a w)"
  by (simp add: edit_tags_def find_post_def get_queue_post_def Let_def erasure refreshed_erased split: option.split)

lemma list_queue_erased: "list_queue ss l f (erase_db d) = list_queue ss l f d"
  by (simp add: list_queue_def Let_def split: option.split sum.split)

text \<open>The operations on accounts give rows that agree up to the hash.\<close>

lemma erase_admin_cong: "erase_admin (a\<lparr>password_hash := h\<rparr>) = erase_admin a"
  by (simp add: erase_admin_def)

lemma find_erased: "(\<And>a. P (erase_admin a) = P a) \<Longrightarrow>
    List.find P (map erase_admin as) = map_option erase_admin (List.find P as)"
  by (induction as) auto

lemma tget_erased: "tget admin_id (map erase_admin as) k = map_option erase_admin (tget admin_id as k)"
  by (simp add: tget_def find_erased)

lemma tput_erased: "tput admin_id (erase_admin a) (map erase_admin as) = map erase_admin (tput admin_id a as)"
  by (simp add: tput_def)

lemma active_supers_erased: "active_supers (map erase_admin as) = map erase_admin (active_supers as)"
  by (simp add: active_supers_def filter_map o_def)

lemma sort_erased: "sort_key username (map erase_admin as) = map erase_admin (sort_key username as)"
proof (induction as)
  case (Cons a as)
  have ins: "insort_key username (erase_admin b) (map erase_admin bs) = map erase_admin (insort_key username b bs)" for b bs
    by (induction bs) auto
  show ?case using Cons ins by simp
qed simp

lemma active_admin_erased: "active_admin (erase_db d) k = map_option erase_admin (active_admin d k)"
  by (simp add: active_admin_def find_erased)

lemma admin_conflict_erased: "admin_conflict a (erase_db d) = admin_conflict a d"
  "admin_conflict (erase_admin a) d = admin_conflict a d"
  by (simp_all add: admin_conflict_def list_ex_iff)

lemma erase_admin_eqD:
  assumes "erase_admin a = erase_admin b"
  shows "admin_id a = admin_id b" "username a = username b" "admin_role a = admin_role b"
    "tg_user_id a = tg_user_id b" "disabled_at a = disabled_at b"
  using arg_cong [OF assms, of admin_id] arg_cong [OF assms, of username] arg_cong [OF assms, of admin_role]
    arg_cong [OF assms, of tg_user_id] arg_cong [OF assms, of disabled_at]
  by (simp_all only: erase_admin_fields)

lemma erase_admin_updates:
  "erase_admin (a\<lparr>admin_role := r\<rparr>) = (erase_admin a)\<lparr>admin_role := r\<rparr>"
  "erase_admin (a\<lparr>disabled_at := t\<rparr>) = (erase_admin a)\<lparr>disabled_at := t\<rparr>"
  "erase_admin (a\<lparr>tg_user_id := g\<rparr>) = (erase_admin a)\<lparr>tg_user_id := g\<rparr>"
  by (simp_all add: erase_admin_def)

lemma supers_tput_erased:
  assumes "erase_admin a = erase_admin b"
  shows "length (active_supers (tput admin_id a (map erase_admin as))) = length (active_supers (tput admin_id b as))"
proof -
  have len: "length (active_supers xs) = length (active_supers (map erase_admin xs))" for xs
    by (simp add: active_supers_erased)
  have "map erase_admin (tput admin_id a (map erase_admin as)) = map erase_admin (tput admin_id b as)"
    using assms erase_admin_eqD(1) [OF assms] by (simp add: tput_def)
  then show ?thesis by (metis len)
qed

lemma change_role_erased:
  assumes "erase_admin a = erase_admin b"
  shows "map_sum id erase_admin (change_role (map erase_admin as) r a) = map_sum id erase_admin (change_role as r b)"
  using assms erase_admin_eqD [OF assms]
  by (simp add: change_role_def supers_tput_erased [OF assms] erase_admin_updates split: option.split)

lemma change_disabled_erased:
  assumes "erase_admin a = erase_admin b"
  shows "map_sum id erase_admin (change_disabled (map erase_admin as) now x a)
    = map_sum id erase_admin (change_disabled as now x b)"
  using assms erase_admin_eqD [OF assms]
  by (simp add: change_disabled_def supers_tput_erased [OF assms] erase_admin_updates split: option.split)

text \<open>Results that agree up to hashes go on agreeing.\<close>

lemma agree_bind:
  assumes "map_sum id erase_admin r = map_sum id erase_admin r'"
    and "\<And>a b. erase_admin a = erase_admin b \<Longrightarrow> map_sum id erase_admin (f a) = map_sum id erase_admin (g b)"
  shows "map_sum id erase_admin (case r of Inl e \<Rightarrow> Inl e | Inr a \<Rightarrow> f a)
    = map_sum id erase_admin (case r' of Inl e \<Rightarrow> Inl e | Inr b \<Rightarrow> g b)"
  using assms by (cases r; cases r') auto

lemma updated_admin_erased:
  "map_sum id erase_admin (updated_admin C now (map erase_admin as) k u) = map_sum id erase_admin (updated_admin C now as k u)"
proof (cases "tget admin_id as k")
  case None
  then show ?thesis by (simp add: updated_admin_def tget_erased)
next
  case (Some a)
  let ?pw = "\<lambda>a. case au_password u of None \<Rightarrow> a | Some p \<Rightarrow> a\<lparr>password_hash := hash_password C now p\<rparr>"
  have pw: "erase_admin (?pw (erase_admin a)) = erase_admin (?pw a)"
    by (simp add: erase_admin_cong split: option.split)
  have tg: "erase_admin x = erase_admin y \<Longrightarrow>
      map_sum id erase_admin (Inr (case au_tg_user_id u of None \<Rightarrow> x | Some t \<Rightarrow> x\<lparr>tg_user_id := t\<rparr>) :: admin result) =
      map_sum id erase_admin (Inr (case au_tg_user_id u of None \<Rightarrow> y | Some t \<Rightarrow> y\<lparr>tg_user_id := t\<rparr>))" for x y
    by (simp add: erase_admin_updates split: option.split)
  show ?thesis
    unfolding updated_admin_def tget_erased Some option.map option.case Let_def
    by (intro agree_bind change_role_erased change_disabled_erased pw tg)
qed

lemma commit_admin_erased:
  assumes "erase_admin a = erase_admin b"
  shows "map_sum id AdminOut (fst (commit_admin a (erase w))) = map_sum id AdminOut (fst (commit_admin b w)) \<and>
    erase (snd (commit_admin a (erase w))) = erase (snd (commit_admin b w))"
proof -
  have c: "admin_conflict a (erase_db (wdb w)) = admin_conflict b (wdb w)"
    using admin_conflict_erased [of a "wdb w"] admin_conflict_erased(2) [of a "wdb w"] admin_conflict_erased(2) [of b "wdb w"]
      assms by simp
  have t: "tg_user_id a = tg_user_id b" by (rule erase_admin_eqD(4) [OF assms])
  have o: "AdminOut a = AdminOut b" using assms AdminOut_erase by metis
  have "map erase_admin (tput admin_id a (map erase_admin (admins (wdb w)))) = map erase_admin (tput admin_id b (admins (wdb w)))"
    using assms erase_admin_eqD(1) [OF assms] by (simp add: tput_def)
  then show ?thesis by (simp add: commit_admin_def t c c [unfolded erase_db_def] o erase_def erase_db_def)
qed

lemma update_admin_erased:
  "map_sum id AdminOut (fst (update_admin C k u (erase w))) = map_sum id AdminOut (fst (update_admin C k u w)) \<and>
   erase (snd (update_admin C k u (erase w))) = erase (snd (update_admin C k u w))"
proof -
  have "map_sum id erase_admin (updated_admin C (wclock w) (map erase_admin (admins (wdb w))) k u)
      = map_sum id erase_admin (updated_admin C (wclock w) (admins (wdb w)) k u)" by (rule updated_admin_erased)
  then show ?thesis
    using commit_admin_erased [of _ _ w]
    by (cases "updated_admin C (wclock w) (map erase_admin (admins (wdb w))) k u";
        cases "updated_admin C (wclock w) (admins (wdb w)) k u") (simp_all add: update_admin_def)
qed

lemma create_admin_erased:
  "map_sum id AdminOut (fst (create_admin C c (erase w))) = map_sum id AdminOut (fst (create_admin C c w)) \<and>
   erase (snd (create_admin C c (erase w))) = erase (snd (create_admin C c w))"
  by (simp add: create_admin_def Let_def admin_conflict_erased(1) [unfolded erase_db_def] erase_def erase_db_def tadd_def)

section \<open>Requests\<close>

definition same_answer :: "response result \<times> world \<Rightarrow> response result \<times> world \<Rightarrow> bool" where
  "same_answer r r' \<longleftrightarrow> fst r = fst r' \<and> erase (snd r) = erase (snd r')"

lemma same_answer_body: "same_answer (body f (apsnd erase rw)) (body f rw)"
  by (cases rw) (simp add: same_answer_def body_def)

lemma same_answer_read: "same_answer (read_body f r (erase w)) (read_body f r w)"
  by (simp add: same_answer_def read_body_def)

lemma same_answer_page: "same_answer (page_body rows f r (erase w)) (page_body rows f r w)"
  by (simp add: same_answer_def page_body_def)

lemma admin_body: "map_sum id AdminOut x = map_sum id AdminOut y \<Longrightarrow>
    map_sum id (\<lambda>b. Admin_r (AdminOut b)) x = map_sum id (\<lambda>b. Admin_r (AdminOut b)) y"
  by (cases x; cases y) auto

lemma reply_erased: "same_answer (reply E C rq (erase_admin a) (erase w)) (reply E C rq a w)"
proof (cases rq)
  case (Create_admin c)
  then show ?thesis using create_admin_erased [of C c w] admin_body [OF create_admin_erased [THEN conjunct1, of C c w]] by (simp add: same_answer_def body_def)
next
  case (Update_admin k u)
  then show ?thesis using update_admin_erased [of C k u w] admin_body [OF update_admin_erased [THEN conjunct1, of C k u w]] by (simp add: same_answer_def body_def)
next
  case List_admins
  then show ?thesis by (simp add: same_answer_def read_body_def list_admins_def sort_erased)
next
  case Me
  then show ?thesis by (simp add: same_answer_def read_body_def me_def)
qed (simp_all add: same_answer_page erased same_answer_body same_answer_read decide_def approve_def schedule_def reject_def list_tags_def count_tags_def
      list_templates_def list_channels_def get_ai_settings_def test_ai_erased list_queue_erased find_post_def get_queue_post_def
      list_events_def audit_selection_def list_post_events_def)

lemma respond_erased: "same_answer (respond E C tok rq (erase w)) (respond E C tok rq w)"
proof -
  define cl where "cl = get_claims C (uni E) (cfg E) (wclock w) tok"
  have cur: "get_current_admin (erase_db (wdb w)) cl = map_sum id erase_admin (get_current_admin (wdb w) cl)"
    by (simp add: get_current_admin_def active_admin_erased split: sum.split option.split)
  have req: "require_role r (map_sum id erase_admin x) = map_sum id erase_admin (require_role r x)" for r x
    by (cases x) (simp_all add: require_role_def)
  define who where "who = (case required_role rq of None \<Rightarrow> get_current_admin (wdb w) cl
      | Some r \<Rightarrow> require_role r (get_current_admin (wdb w) cl))"
  have "(case required_role rq of None \<Rightarrow> get_current_admin (erase_db (wdb w)) cl
      | Some r \<Rightarrow> require_role r (get_current_admin (erase_db (wdb w)) cl)) = map_sum id erase_admin who"
    by (simp add: who_def cur req split: option.split)
  then have "respond E C tok rq (erase w) = (case map_sum id erase_admin who of Inl e \<Rightarrow> (Inl e, erase w) | Inr a \<Rightarrow> reply E C rq a (erase w))"
    "respond E C tok rq w = (case who of Inl e \<Rightarrow> (Inl e, w) | Inr a \<Rightarrow> reply E C rq a w)"
    by (simp_all add: respond_def Let_def cl_def [symmetric] who_def [symmetric])
  then show ?thesis by (cases who) (simp_all add: reply_erased, simp add: same_answer_def)
qed

lemma respond_alike: "erase w = erase w' \<Longrightarrow> same_answer (respond E C tok rq w) (respond E C tok rq w')"
  using respond_erased [of E C tok rq w] respond_erased [of E C tok rq w'] by (simp add: same_answer_def)

lemma conversation_alike:
  "erase w = erase w' \<Longrightarrow> fst (conversation E C rs w) = fst (conversation E C rs w') \<and>
    erase (snd (conversation E C rs w)) = erase (snd (conversation E C rs w'))"
proof (induction rs arbitrary: w w')
  case (Cons r rs)
  obtain tok rq where r: "r = (tok, rq)" by (cases r)
  have s: "same_answer (respond E C tok rq w) (respond E C tok rq w')" using respond_alike Cons.prems .
  then have "erase (snd (respond E C tok rq w)) = erase (snd (respond E C tok rq w'))" by (simp add: same_answer_def)
  from Cons.IH [OF this] s show ?case by (simp add: r same_answer_def Let_def case_prod_beta)
qed simp

section \<open>Property\<close>



end
