(* ===== verification/Uniqueness.thy ===== *)
theory Uniqueness
  imports System
begin

text \<open>
  The unique constraints that \<open>shared/models.py\<close> declares: primary keys, names, slugs, Telegram ids, the source
  message of a post, the hash of a reservation, the pair of a tag link. The endpoints check some of them before
  they write and leave others to the database; the moves of the services keep them all.
\<close>

section \<open>Tables with unique columns\<close>

text \<open>Keys below the next one, no key twice, and no two rows that collide in a unique column.\<close>

definition rows_ok :: "('r \<Rightarrow> int) \<Rightarrow> ('r \<Rightarrow> 'r \<Rightarrow> bool) \<Rightarrow> int \<Rightarrow> 'r list \<Rightarrow> bool" where
  "rows_ok key clash n t \<longleftrightarrow> unique_keys key t \<and> (\<forall>r \<in> set t. key r < n) \<and>
     (\<forall>r \<in> set t. \<forall>s \<in> set t. key r \<noteq> key s \<longrightarrow> \<not> clash r s)"

lemma rows_ok_mono: "rows_ok key clash n t \<Longrightarrow> n \<le> m \<Longrightarrow> rows_ok key clash m t"
  by (fastforce simp: rows_ok_def)

lemma rows_ok_filter: "rows_ok key clash n t \<Longrightarrow> rows_ok key clash n (filter P t)"
  by (auto simp: rows_ok_def unique_keys_def keys_def distinct_map_filter)

lemma rows_ok_tdel: "rows_ok key clash n t \<Longrightarrow> rows_ok key clash n (tdel key k t)"
  by (simp add: tdel_def rows_ok_filter)

lemma rows_ok_tadd:
  assumes "rows_ok key clash n t" and "key r = n" and "n < m" and "\<And>s. s \<in> set t \<Longrightarrow> \<not> clash r s \<and> \<not> clash s r"
  shows "rows_ok key clash m (tadd r t)"
proof -
  have "key r \<notin> key ` set t" using assms(1,2) by (auto simp: rows_ok_def)
  then have "unique_keys key (tadd r t)" using assms(1) by (intro unique_keys_tadd) (simp_all add: rows_ok_def)
  then show ?thesis using assms by (fastforce simp: rows_ok_def tadd_def)
qed

lemma rows_ok_tput:
  assumes "rows_ok key clash n t" and "\<And>s. s \<in> set t \<Longrightarrow> key s \<noteq> key r \<Longrightarrow> \<not> clash r s \<and> \<not> clash s r"
  shows "rows_ok key clash n (tput key r t)"
proof (cases "key r \<in> key ` set t")
  case True
  have "s = r \<or> s \<in> set t \<and> key s \<noteq> key r" if "s \<in> set (tput key r t)" for s using tput_in_other [OF that] .
  moreover have "key r < n" using True assms(1) by (auto simp: rows_ok_def)
  ultimately show ?thesis using assms unique_keys_tput [of key t r] unfolding rows_ok_def by metis
qed (simp add: tput_absent assms(1))

text \<open>A row rewritten with the unique columns that it had.\<close>

lemma rows_ok_rewrite:
  assumes "rows_ok key clash n t" and "tget key t (key r) = Some r0"
    and "\<And>s. clash r s = clash r0 s" and "\<And>s. clash s r = clash s r0"
  shows "rows_ok key clash n (tput key r t)"
proof (rule rows_ok_tput [OF assms(1)])
  fix s assume s: "s \<in> set t" "key s \<noteq> key r"
  have "r0 \<in> set t" "key r0 = key r" using tbl.get_in [OF assms(2)] tget_key [OF assms(2)] by simp_all
  with s assms(1) show "\<not> clash r s \<and> \<not> clash s r" unfolding assms(3,4) by (metis rows_ok_def)
qed

lemma rows_ok_map:
  assumes "rows_ok key clash n t" and "\<And>r. key (f r) = key r" and "\<And>r s. clash (f r) (f s) = clash r s"
  shows "rows_ok key clash n (map f t)"
  using assms by (simp add: rows_ok_def unique_keys_def keys_def o_def)

text \<open>What it says of a column: the values of different rows differ.\<close>

lemma rows_ok_distinct:
  assumes "rows_ok key clash n t" and "\<And>r s. f r = f s \<Longrightarrow> clash r s"
  shows "distinct (map f t)"
proof -
  have "inj_on f (set t)"
  proof (rule inj_onI)
    fix r s assume "r \<in> set t" "s \<in> set t" "f r = f s"
    then have "key r = key s" using assms by (metis rows_ok_def)
    with \<open>r \<in> set t\<close> \<open>s \<in> set t\<close> show "r = s"
      using assms(1) by (auto simp: rows_ok_def unique_keys_def keys_def distinct_map inj_on_def)
  qed
  moreover have "distinct t" using assms(1) by (auto simp: rows_ok_def unique_keys_def keys_def distinct_map)
  ultimately show ?thesis by (simp add: distinct_map)
qed

section \<open>The store\<close>

definition same_account :: "admin \<Rightarrow> admin \<Rightarrow> bool" where
  "same_account a b \<longleftrightarrow> username a = username b \<or> tg_user_id a \<noteq> None \<and> tg_user_id a = tg_user_id b"

definition accounts_unique :: "db \<Rightarrow> bool" where
  "accounts_unique d \<longleftrightarrow> rows_ok admin_id same_account (next_id d) (admins d)"

definition tags_unique :: "db \<Rightarrow> bool" where
  "tags_unique d \<longleftrightarrow> rows_ok tag_id (\<lambda>s t. slug s = slug t) (next_id d) (tags d)"

definition templates_unique :: "db \<Rightarrow> bool" where
  "templates_unique d \<longleftrightarrow> rows_ok template_id (\<lambda>s t. False) (next_id d) (templates d)"

definition channels_unique :: "db \<Rightarrow> bool" where
  "channels_unique d \<longleftrightarrow> rows_ok channel_id (\<lambda>s t. telegram_channel_id s = telegram_channel_id t) (next_id d) (source_channels d)"

definition posts_unique :: "db \<Rightarrow> bool" where
  "posts_unique d \<longleftrightarrow> rows_ok post_id (\<lambda>p q. source_key p = source_key q) (next_id d) (posts d)"

definition events_unique :: "db \<Rightarrow> bool" where
  "events_unique d \<longleftrightarrow> rows_ok event_id (\<lambda>e f. False) (next_id d) (post_events d)"

definition dedupe_unique :: "db \<Rightarrow> bool" where
  "dedupe_unique d \<longleftrightarrow> rows_ok pd_id (\<lambda>r s. pd_hash r = pd_hash s) (next_id d) (dedupe_rows d)"

definition uniques :: "db \<Rightarrow> bool" where
  "uniques d \<longleftrightarrow> accounts_unique d \<and> tags_unique d \<and> templates_unique d \<and> channels_unique d \<and> posts_unique d \<and>
     events_unique d \<and> dedupe_unique d \<and> distinct (source_channel_tags d)"

definition keeps_uniques :: "db \<Rightarrow> db \<Rightarrow> bool" where
  "keeps_uniques d d' \<longleftrightarrow> (uniques d \<longrightarrow> uniques d')"

lemma keeps_uniques_refl [simp]: "keeps_uniques d d"
  by (simp add: keeps_uniques_def)

lemma keeps_uniques_trans: "keeps_uniques d d' \<Longrightarrow> keeps_uniques d' d'' \<Longrightarrow> keeps_uniques d d''"
  by (simp add: keeps_uniques_def)

text \<open>A table that is left alone stays unique while keys are handed out.\<close>

lemma uniques_frame:
  "admins d' = admins d \<Longrightarrow> next_id d \<le> next_id d' \<Longrightarrow> accounts_unique d \<Longrightarrow> accounts_unique d'"
  "tags d' = tags d \<Longrightarrow> next_id d \<le> next_id d' \<Longrightarrow> tags_unique d \<Longrightarrow> tags_unique d'"
  "templates d' = templates d \<Longrightarrow> next_id d \<le> next_id d' \<Longrightarrow> templates_unique d \<Longrightarrow> templates_unique d'"
  "source_channels d' = source_channels d \<Longrightarrow> next_id d \<le> next_id d' \<Longrightarrow> channels_unique d \<Longrightarrow> channels_unique d'"
  "posts d' = posts d \<Longrightarrow> next_id d \<le> next_id d' \<Longrightarrow> posts_unique d \<Longrightarrow> posts_unique d'"
  "post_events d' = post_events d \<Longrightarrow> next_id d \<le> next_id d' \<Longrightarrow> events_unique d \<Longrightarrow> events_unique d'"
  "dedupe_rows d' = dedupe_rows d \<Longrightarrow> next_id d \<le> next_id d' \<Longrightarrow> dedupe_unique d \<Longrightarrow> dedupe_unique d'"
  by (auto simp: accounts_unique_def tags_unique_def templates_unique_def channels_unique_def posts_unique_def
      events_unique_def dedupe_unique_def elim: rows_ok_mono)

lemma keeps_uniquesI:
  assumes "next_id d \<le> next_id d'"
    and "admins d' = admins d \<or> (accounts_unique d \<longrightarrow> accounts_unique d')"
    and "tags d' = tags d \<or> (tags_unique d \<longrightarrow> tags_unique d')"
    and "templates d' = templates d \<or> (templates_unique d \<longrightarrow> templates_unique d')"
    and "source_channels d' = source_channels d \<or> (channels_unique d \<longrightarrow> channels_unique d')"
    and "posts d' = posts d \<or> (posts_unique d \<longrightarrow> posts_unique d')"
    and "post_events d' = post_events d \<or> (events_unique d \<longrightarrow> events_unique d')"
    and "dedupe_rows d' = dedupe_rows d \<or> (dedupe_unique d \<longrightarrow> dedupe_unique d')"
    and "distinct (source_channel_tags d) \<Longrightarrow> distinct (source_channel_tags d')"
  shows "keeps_uniques d d'"
  using assms uniques_frame [OF _ assms(1)] unfolding keeps_uniques_def uniques_def by blast

section \<open>The moves\<close>

lemma uniques_event: "keeps_uniques d (add_event now pid a act pl d)"
proof (rule keeps_uniquesI)
  have "events_unique (add_event now pid a act pl d)" if "events_unique d"
    unfolding events_unique_def add_event_def
    by (simp, rule rows_ok_tadd [where n = "next_id d"]) (use that in \<open>simp_all add: events_unique_def\<close>)
  then show "post_events (add_event now pid a act pl d) = post_events d \<or>
      (events_unique d \<longrightarrow> events_unique (add_event now pid a act pl d))" by blast
qed (simp_all add: add_event_def)

lemma uniques_save:
  assumes "get_post d k = Some p0" and "same_post p0 p"
  shows "keeps_uniques d (save_post now p d)"
proof (rule keeps_uniquesI)
  let ?p = "p\<lparr>updated_at := now\<rparr>"
  have k: "source_key ?p = source_key p0" "get_post d (post_id ?p) = Some p0"
    using assms tget_key [OF assms(1)] by (simp_all add: same_post_def source_key_def)
  have "posts_unique (d\<lparr>posts := tput post_id ?p (posts d)\<rparr>)" if "posts_unique d"
    using rows_ok_rewrite [OF _ k(2)] that k(1) by (simp add: posts_unique_def)
  then show "posts (save_post now p d) = posts d \<or> (posts_unique d \<longrightarrow> posts_unique (save_post now p d))"
    by (simp add: save_post_def)
qed simp_all

lemma uniques_reserve: "keeps_uniques d (snd (reserve_dedupe now h d))"
proof (rule keeps_uniquesI)
  have "dedupe_unique (snd (reserve_dedupe now h d))" if "dedupe_unique d"
    using that
    by (auto simp: reserve_dedupe_def dedupe_unique_def dedupe_exists_def list_ex_iff intro!: rows_ok_tadd)
  then show "dedupe_rows (snd (reserve_dedupe now h d)) = dedupe_rows d \<or>
      (dedupe_unique d \<longrightarrow> dedupe_unique (snd (reserve_dedupe now h d)))" by blast
qed (simp_all add: reserve_dedupe_def)

lemma uniques_release: "keeps_uniques d (release_dedupe h d)"
  by (rule keeps_uniquesI) (simp_all add: release_dedupe_def dedupe_unique_def tdel_def rows_ok_filter)

lemma uniques_insert:
  assumes "insert_post now ch m d = Some (pid, d1)"
  shows "keeps_uniques d d1"
proof -
  let ?p = "new_post (next_id d) (channel_id ch) (m_id m) (message_text m) now"
  let ?d = "d\<lparr>posts := tadd ?p (posts d), next_id := next_id d + 1\<rparr>"
  have d1: "d1 = add_event now pid None Ev_ingested [(''has_media'', JBool False)] ?d"
    and new: "source_key ?p \<notin> source_key ` set (posts d)"
    using assms insert_post_Some(2) [OF assms]
    by (auto simp: insert_post_def Let_def already_ingested_iff split: if_splits)
  have "keeps_uniques d ?d"
  proof (rule keeps_uniquesI)
    have "posts_unique ?d" if "posts_unique d"
      unfolding posts_unique_def
      by (simp, rule rows_ok_tadd [where n = "next_id d"])
        (use that new in \<open>simp add: posts_unique_def, simp add: new_post_def, simp, fastforce simp: image_iff\<close>)
    then show "posts ?d = posts d \<or> (posts_unique d \<longrightarrow> posts_unique ?d)" by blast
  qed simp_all
  then show ?thesis unfolding d1 by (rule keeps_uniques_trans [OF _ uniques_event])
qed

lemma uniques_tags:
  "keeps_uniques (wdb w) (wdb (snd (create_tag U tc w)))" "keeps_uniques (wdb w) (wdb (snd (update_tag k tu w)))"
proof -
  show "keeps_uniques (wdb w) (wdb (snd (create_tag U tc w)))"
    by (rule keeps_uniquesI)
      (auto simp: create_tag_def Let_def tags_unique_def image_iff split: sum.split intro!: rows_ok_tadd)
  show "keeps_uniques (wdb w) (wdb (snd (update_tag k tu w)))"
  proof (cases "tget tag_id (tags (wdb w)) k")
    case (Some t)
    have "rows_ok tag_id (\<lambda>s t. slug s = slug t) n (tput tag_id t2 (tags (wdb w)))"
      if "rows_ok tag_id (\<lambda>s t. slug s = slug t) n (tags (wdb w))" "tag_id t2 = tag_id t" "slug t2 = slug t" for t2 n
      by (rule rows_ok_rewrite) (use that Some tget_key [OF Some] in auto)
    then show ?thesis
      by (intro keeps_uniquesI) (auto simp: update_tag_def Some Let_def tags_unique_def split: option.split)
  qed (simp add: update_tag_def)
qed

lemma uniques_templates:
  "keeps_uniques (wdb w) (wdb (snd (create_template pc w)))" "keeps_uniques (wdb w) (wdb (snd (update_template k pu w)))"
  "keeps_uniques (wdb w) (wdb (snd (delete_template k w)))"
proof -
  have "channel_id (unset_template k ch) = channel_id ch" "telegram_channel_id (unset_template k ch) = telegram_channel_id ch" for ch
    by (simp_all add: unset_template_def)
  then show "keeps_uniques (wdb w) (wdb (snd (delete_template k w)))"
    by (intro keeps_uniquesI)
      (auto simp: delete_template_def templates_unique_def channels_unique_def split: option.split
        intro!: rows_ok_tdel rows_ok_map)
qed (rule keeps_uniquesI;
    auto simp: create_template_def update_template_def templates_unique_def Let_def split: option.split
      intro!: rows_ok_tadd rows_ok_tput)+

lemma uniques_delete_tag: "keeps_uniques (wdb w) (wdb (snd (delete_tag k w)))"
proof (cases "tget tag_id (tags (wdb w)) k")
  case (Some t)
  have "post_id (drop_tag now k p) = post_id p" "source_key (drop_tag now k p) = source_key p" for now p
    by (simp_all add: drop_tag_def source_key_def)
  then show ?thesis
    by (intro keeps_uniquesI)
      (auto simp: delete_tag_def Some tags_unique_def posts_unique_def intro!: rows_ok_tdel rows_ok_map)
qed (simp add: delete_tag_def)

lemma links_distinct:
  assumes "set_default_tag_links d cid ids = Inr links" and "distinct (source_channel_tags d)"
  shows "distinct links"
  using assms by (auto simp: set_default_tag_links_def Let_def distinct_map inj_on_def split: if_splits)

lemma flush_channel_clash:
  assumes "flush_channel d ch = Inr u" and "c \<in> set (source_channels d)" and "channel_id c \<noteq> channel_id ch"
  shows "telegram_channel_id c \<noteq> telegram_channel_id ch"
  using assms by (auto simp: flush_channel_def list_ex_iff split: if_splits)

lemma uniques_create_channel: "keeps_uniques (wdb w) (wdb (snd (create_channel s c w)))"
proof (cases "fst (create_channel s c w)")
  case (Inl e)
  then have "wdb (snd (create_channel s c w)) = wdb w"
    by (auto simp: create_channel_def Let_def split: if_splits sum.splits exn.splits)
  then show ?thesis by simp
next
  case (Inr ch)
  then obtain u links where l: "set_default_tag_links (wdb w) (channel_id ch) (cc_default_tag_ids c) = Inr links"
    "flush_channel (wdb w) ch = Inr u" "channel_id ch = next_id (wdb w)"
    "wdb (snd (create_channel s c w)) = (wdb w)\<lparr>source_channels := tadd ch (source_channels (wdb w)),
        source_channel_tags := links, next_id := next_id (wdb w) + 1\<rparr>"
    by (auto simp: create_channel_def created_channel_def Let_def split: if_splits sum.splits exn.splits)
  let ?d = "(wdb w)\<lparr>source_channels := tadd ch (source_channels (wdb w)), source_channel_tags := links, next_id := next_id (wdb w) + 1\<rparr>"
  have "channels_unique ?d" if "channels_unique (wdb w)"
  proof -
    have fresh: "channel_id c \<noteq> channel_id ch" if "c \<in> set (source_channels (wdb w))" for c
      using that \<open>channels_unique (wdb w)\<close> l(3) by (auto simp: channels_unique_def rows_ok_def)
    then show ?thesis using that l(3) flush_channel_clash [OF l(2)]
      by (fastforce simp: channels_unique_def intro!: rows_ok_tadd)
  qed
  then show ?thesis unfolding l(4) by (intro keeps_uniquesI) (use links_distinct [OF l(1)] in auto)
qed

lemma uniques_channel_put:
  assumes "channels_unique d \<Longrightarrow> rows_ok channel_id (\<lambda>s t. telegram_channel_id s = telegram_channel_id t) (next_id d) cs"
    and "distinct (source_channel_tags d) \<Longrightarrow> distinct links"
  shows "keeps_uniques d (d\<lparr>source_channels := cs, source_channel_tags := links\<rparr>)"
  by (rule keeps_uniquesI) (use assms in \<open>auto simp: channels_unique_def\<close>)

lemma uniques_update_channel: "keeps_uniques (wdb w) (wdb (snd (update_channel k u w)))"
proof (cases "update_channel k u w")
  case (Pair r w1)
  show ?thesis
  proof (cases r)
    case (Inl e)
    then have "w1 = w" using Pair by (auto simp: update_channel_def Let_def split: option.splits if_splits sum.splits)
    then show ?thesis using Pair by simp
  next
    case (Inr ch)
    then have u: "update_channel k u w = (Inr ch, w1)" using Pair by simp
    from update_channel_Inr [OF u] obtain ch0 links where g: "get_channel (wdb w) k = Some ch0" "channel_id ch = k"
      and c: "wdb w1 = (wdb w)\<lparr>source_channels := tput channel_id ch (source_channels (wdb w)), source_channel_tags := links\<rparr>"
      and l: "case up_default_tag_ids u of
       Some (Some xs) \<Rightarrow> set_default_tag_links (wdb w) k xs = Inr links \<and> default_tag_ids ch = xs
     | _ \<Rightarrow> links = source_channel_tags (wdb w) \<and> default_tag_ids ch = default_tag_ids ch0" by blast
    have links: "(\<exists>xs. set_default_tag_links (wdb w) k xs = Inr links) \<or> links = source_channel_tags (wdb w)"
      using l by (cases "up_default_tag_ids u") (auto split: option.splits)
    obtain v where f: "flush_channel (wdb w) ch = Inr v"
      using u by (auto simp: update_channel_def Let_def split: option.splits if_splits sum.splits)
    have "keeps_uniques (wdb w) ((wdb w)\<lparr>source_channels := tput channel_id ch (source_channels (wdb w)), source_channel_tags := links\<rparr>)"
    proof (rule uniques_channel_put)
      show "distinct (source_channel_tags (wdb w)) \<Longrightarrow> distinct links" using links links_distinct by blast
      show "rows_ok channel_id (\<lambda>s t. telegram_channel_id s = telegram_channel_id t) (next_id (wdb w)) (tput channel_id ch (source_channels (wdb w)))"
        if "channels_unique (wdb w)"
        by (rule rows_ok_tput [OF that [unfolded channels_unique_def]]) (metis flush_channel_clash [OF f])
    qed
    then show ?thesis by (simp add: u c)
  qed
qed

lemma uniques_update_ai: "keeps_uniques (wdb w) (wdb (snd (update_ai_settings k u w)))"
proof (cases "get_channel (wdb w) k")
  case (Some ch)
  have "rows_ok channel_id (\<lambda>s t. telegram_channel_id s = telegram_channel_id t) n (tput channel_id (apply_ai_update u ch) (source_channels (wdb w)))"
    if "rows_ok channel_id (\<lambda>s t. telegram_channel_id s = telegram_channel_id t) n (source_channels (wdb w))" for n
    by (rule rows_ok_rewrite) (use that Some tget_key [OF Some] in auto)
  then show ?thesis
    by (intro keeps_uniquesI) (auto simp: update_ai_settings_def get_ai_settings_def Some Let_def channels_unique_def)
qed (simp add: update_ai_settings_def get_ai_settings_def)

lemma uniques_delete_channel: "keeps_uniques (wdb w) (wdb (snd (delete_channel k w)))"
  by (rule keeps_uniquesI)
    (auto simp: delete_channel_def cascade_channel_def Let_def channels_unique_def posts_unique_def events_unique_def
      split: option.split intro!: rows_ok_filter rows_ok_tdel)

text \<open>Accounts: an update commits only when no other account has the name or the linked user.\<close>

lemma admin_conflict_free:
  assumes "\<not> admin_conflict a d" and "b \<in> set (admins d)" and "admin_id b \<noteq> admin_id a"
  shows "\<not> same_account a b \<and> \<not> same_account b a"
  using assms by (auto simp: admin_conflict_def same_account_def list_ex_iff)

lemma uniques_admins_put:
  assumes "\<And>n. rows_ok admin_id same_account n (admins d) \<Longrightarrow> rows_ok admin_id same_account n as"
  shows "keeps_uniques d (d\<lparr>admins := as\<rparr>)"
  by (rule keeps_uniquesI) (use assms in \<open>auto simp: accounts_unique_def\<close>)

lemma uniques_create_admin: "keeps_uniques (wdb w) (wdb (snd (create_admin C c w)))"
proof (cases "fst (create_admin C c w)")
  case (Inl e)
  then have "snd (create_admin C c w) = w" by (auto simp: create_admin_def Let_def split: if_splits)
  then show ?thesis by simp
next
  case (Inr a)
  then have d: "wdb (snd (create_admin C c w)) = (wdb w)\<lparr>admins := tadd a (admins (wdb w)), next_id := next_id (wdb w) + 1\<rparr>"
    "admin_id a = next_id (wdb w)" "\<not> admin_conflict a (wdb w)"
    by (auto simp: create_admin_def Let_def split: if_splits)
  let ?d = "(wdb w)\<lparr>admins := tadd a (admins (wdb w)), next_id := next_id (wdb w) + 1\<rparr>"
  have "accounts_unique ?d" if "accounts_unique (wdb w)"
  proof -
    have "admin_id b \<noteq> admin_id a" if "b \<in> set (admins (wdb w))" for b
      using that \<open>accounts_unique (wdb w)\<close> d(2) by (auto simp: accounts_unique_def rows_ok_def)
    then show ?thesis using that d(2) admin_conflict_free [OF d(3)] by (auto simp: accounts_unique_def intro!: rows_ok_tadd)
  qed
  then show ?thesis unfolding d(1) by (intro keeps_uniquesI) simp_all
qed

lemma uniques_update_admin: "keeps_uniques (wdb w) (wdb (snd (update_admin C k u w)))"
proof -
  have "keeps_uniques (wdb w) (wdb (snd (commit_admin a w)))" for a
    by (auto simp: commit_admin_def intro!: uniques_admins_put rows_ok_tput dest: admin_conflict_free)
  then show ?thesis by (simp add: update_admin_def split: sum.split)
qed

lemma uniques_login: "keeps_uniques (wdb w) (wdb (snd (login C s uname password w)))"
proof -
  obtain r w1 where a: "authenticate C uname password w = (r, w1)" by fastforce
  have l: "snd (login C s uname password w) = w1" using a by (simp add: login_def Let_def split: sum.split)
  show ?thesis
  proof (cases r)
    case (Inl e)
    with a authenticate_error_frame [of C uname password w e w1] l show ?thesis by simp
  next
    case (Inr x)
    with authenticate_Inr [of C uname password w x w1] a obtain a0 where a0: "a0 \<in> set (admins (wdb w))"
      "x = a0\<lparr>password_hash := password_hash x\<rparr>"
      "wdb w1 = wdb w \<or> wdb w1 = (wdb w)\<lparr>admins := tput admin_id x (admins (wdb w))\<rparr>" by blast
    have k: "admin_id x = admin_id a0" "username x = username a0" "tg_user_id x = tg_user_id a0"
      using a0(2) by (cases x, cases a0, simp)+
    have "rows_ok admin_id same_account n (tput admin_id x (admins (wdb w)))"
      if ok: "rows_ok admin_id same_account n (admins (wdb w))" for n
      by (rule rows_ok_rewrite [OF ok])
        (use k ok a0(1) tget_unique [of admin_id "admins (wdb w)" a0] in \<open>auto simp: rows_ok_def same_account_def\<close>)
    then have "keeps_uniques (wdb w) ((wdb w)\<lparr>admins := tput admin_id x (admins (wdb w))\<rparr>)" by (rule uniques_admins_put)
    with a0(3) l show ?thesis by auto
  qed
qed

lemma uniques_prune: "keeps_uniques (wdb w) (wdb (snd (prune_dedupe s rm_ok w)))"
  by (rule keeps_uniquesI)
     (auto simp: prune_dedupe_def prune_dedupe_rows_def prune_audit_events_def prune_media_files_def Let_def
       events_unique_def dedupe_unique_def rows_ok_filter)

lemma seed_tags_unique:
  assumes "rows_ok tag_id (\<lambda>r s. slug r = slug s) (next_id d) (tags d)" and "slug ` set (tags d) \<subseteq> existing \<union> X"
    and "distinct (map fst ts)" and "X \<inter> fst ` set ts = {}"
  shows "rows_ok tag_id (\<lambda>r s. slug r = slug s) (next_id (seed_tags now existing ts d)) (tags (seed_tags now existing ts d))"
  using assms
proof (induction now existing ts d arbitrary: X rule: seed_tags.induct)
  case (2 now existing sl lb cl ts d)
  let ?t = "\<lparr>tag_id = next_id d, slug = sl, label = lb, color = Some cl, tag_created_at = now\<rparr>"
  show ?case
  proof (cases "sl \<in> existing")
    case True
    then show ?thesis using 2 by auto
  next
    case False
    then have "sl \<notin> slug ` set (tags d)" using 2 by auto
    then have "rows_ok tag_id (\<lambda>r s. slug r = slug s) (next_id d + 1) (tadd ?t (tags d))"
      by (intro rows_ok_tadd [where n = "next_id d"]) (use 2 in \<open>auto simp: image_iff\<close>)
    then show ?thesis
      using "2.IH" [where X = "insert sl X"] 2(2-5) False by (auto simp: tadd_def)
  qed
qed simp

lemma uniques_seed: "keeps_uniques (wdb w) (wdb (snd (amain C s command w)))"
proof -
  have "keeps_uniques (wdb w) (wdb (seed_admin C s w))"
    by (rule keeps_uniquesI)
      (auto simp: seed_admin_def Let_def accounts_unique_def same_account_def find_None_iff intro!: rows_ok_tadd)
  moreover have "keeps_uniques (wdb w) (wdb (seed_defaults w))"
  proof -
    let ?d = "seed_template (wclock w) (wdb w)"
    have "keeps_uniques (wdb w) ?d"
      by (rule keeps_uniquesI) (auto simp: seed_template_def templates_unique_def intro!: rows_ok_tadd)
    moreover have "keeps_uniques ?d (wdb (seed_defaults w))"
    proof (rule keeps_uniquesI)
      have "distinct (map fst DEFAULT_TAGS)" by (simp add: DEFAULT_TAGS_def lit_def)
      then show "tags (wdb (seed_defaults w)) = tags ?d \<or> (tags_unique ?d \<longrightarrow> tags_unique (wdb (seed_defaults w)))"
        using seed_tags_unique [of ?d "slug ` set (tags ?d)" "{}" DEFAULT_TAGS "wclock w"]
        by (simp add: tags_unique_def seed_defaults_def Let_def)
    qed (simp_all add: seed_defaults_def Let_def seed_tags_fields)
    ultimately show ?thesis by (rule keeps_uniques_trans)
  qed
  ultimately show ?thesis using amain_cases [of C s command w] by auto
qed

interpretation unique_columns: store_moves keeps_uniques
  by unfold_locales
    (simp_all add: uniques_event uniques_save uniques_reserve uniques_release uniques_insert uniques_tags uniques_templates
      uniques_delete_tag uniques_create_channel uniques_update_channel uniques_delete_channel uniques_update_ai
      uniques_create_admin uniques_update_admin uniques_login uniques_prune uniques_seed same_row_def published_row_same,
     rule keeps_uniques_trans)

section \<open>Property\<close>

text \<open>
  C16: the unique constraints of the schema hold of the data the services build. In every state they reach, in
  any order and with any failures, no two accounts share a name or a linked Telegram user, no two tags a slug, no
  two channels a Telegram channel, no two posts a source message, no two reservations a hash, no tag is linked
  to a channel twice, and no table has a primary key twice.
\<close>

theorem unique_constraints_hold:
  assumes "reach E C T w w'" and "uniques (wdb w)"
  shows "distinct (map username (admins (wdb w'))) \<and>
    distinct (map tg_user_id (filter (\<lambda>a. tg_user_id a \<noteq> None) (admins (wdb w')))) \<and>
    distinct (map slug (tags (wdb w'))) \<and> distinct (map telegram_channel_id (source_channels (wdb w'))) \<and>
    distinct (map (\<lambda>p. (source_channel_id p, source_message_id p)) (posts (wdb w'))) \<and>
    distinct (map pd_hash (dedupe_rows (wdb w'))) \<and> distinct (source_channel_tags (wdb w')) \<and>
    distinct (map admin_id (admins (wdb w'))) \<and> distinct (map tag_id (tags (wdb w'))) \<and>
    distinct (map template_id (templates (wdb w'))) \<and> distinct (map channel_id (source_channels (wdb w'))) \<and>
    distinct (map post_id (posts (wdb w'))) \<and> distinct (map event_id (post_events (wdb w'))) \<and>
    distinct (map pd_id (dedupe_rows (wdb w')))"
proof -
  have u: "uniques (wdb w')" using unique_columns.reach_ok [OF assms(1)] assms(2) by (simp add: keeps_uniques_def)
  then have acc: "rows_ok admin_id same_account (next_id (wdb w')) (admins (wdb w'))"
    by (simp add: uniques_def accounts_unique_def)
  have "distinct (map tg_user_id (filter (\<lambda>a. tg_user_id a \<noteq> None) (admins (wdb w'))))"
  proof -
    have "rows_ok admin_id (\<lambda>a b. tg_user_id a = tg_user_id b) (next_id (wdb w')) (filter (\<lambda>a. tg_user_id a \<noteq> None) (admins (wdb w')))"
      using rows_ok_filter [OF acc, of "\<lambda>a. tg_user_id a \<noteq> None"] by (auto simp: rows_ok_def same_account_def)
    then show ?thesis by (rule rows_ok_distinct) simp
  qed
  moreover have "distinct (map username (admins (wdb w')))"
    by (rule rows_ok_distinct [OF acc]) (simp add: same_account_def)
  moreover have "distinct (map slug (tags (wdb w')))"
    by (rule rows_ok_distinct [where key = tag_id and n = "next_id (wdb w')" and clash = "\<lambda>r s. slug r = slug s"]) (use u in \<open>simp_all add: uniques_def tags_unique_def\<close>)
  moreover have "distinct (map telegram_channel_id (source_channels (wdb w')))"
    by (rule rows_ok_distinct [where key = channel_id and n = "next_id (wdb w')" and clash = "\<lambda>r s. telegram_channel_id r = telegram_channel_id s"]) (use u in \<open>simp_all add: uniques_def channels_unique_def\<close>)
  moreover have "distinct (map (\<lambda>p. (source_channel_id p, source_message_id p)) (posts (wdb w')))"
    by (rule rows_ok_distinct [where key = post_id and n = "next_id (wdb w')" and clash = "\<lambda>p q. source_key p = source_key q"])
      (use u in \<open>simp_all add: uniques_def posts_unique_def source_key_def\<close>)
  moreover have "distinct (map pd_hash (dedupe_rows (wdb w')))"
    by (rule rows_ok_distinct [where key = pd_id and n = "next_id (wdb w')" and clash = "\<lambda>r s. pd_hash r = pd_hash s"]) (use u in \<open>simp_all add: uniques_def dedupe_unique_def\<close>)
  ultimately show ?thesis
    using u
    by (simp add: uniques_def accounts_unique_def tags_unique_def templates_unique_def channels_unique_def posts_unique_def
      events_unique_def dedupe_unique_def rows_ok_def unique_keys_def keys_def)
qed

theorem unique_constraints_hold_witness:
  "distinct (map event_id (post_events (wdb (snd (publish sample_env 9 (snd (normalize sample_env 9 root_world))))))) \<and>
   map event_action (post_events (wdb (snd (normalize sample_env 9 root_world)))) \<noteq> []"
proof
  have r: "reach sample_env two_kinds offline root_world (snd (publish sample_env 9 (snd (normalize sample_env 9 root_world))))"
    by (rule reach.Step [OF reach.Step [OF reach.Start Normalize_job] Publish_job])
  have "uniques (wdb root_world)" by code_simp
  from unique_constraints_hold [OF r this]
  show "distinct (map event_id (post_events (wdb (snd (publish sample_env 9 (snd (normalize sample_env 9 root_world)))))))"
    by blast
  show "map event_action (post_events (wdb (snd (normalize sample_env 9 root_world)))) \<noteq> []" by code_simp
qed

end
