(* ===== verification/Schema.thy ===== *)
theory Schema
  imports Prelude
begin

text \<open>
  The catalogue of the relational store and the schema operations that the migrations use: types,
  tables with their columns and constraints, and indexes. An operation that the database refuses
  (a missing table, a name in use, an object others depend on) is \<open>None\<close>. The catalogue holds no rows: a constraint
  that is added to a table is not checked against data, which PostgreSQL does.
\<close>

section \<open>Catalogue\<close>

datatype sql_type =
    Big_integer | Integer | String_of nat | Text | Boolean | Timestamp_tz | Float | Jsonb
  | Big_integer_array | Enum_type string

text \<open>Who supplies the value of a column that is not given: nobody, a sequence, or an identity.\<close>

datatype generated = Plain | Serial | Identity

record column =
  col_name :: string
  col_type :: sql_type
  col_nullable :: bool
  col_default :: "string option"
  col_generated :: generated

text \<open>
  Constraints with their names. A unique constraint says whether \<open>NULL\<close>s are distinct; a foreign key
  has the referenced table and columns and what a delete of the referenced row does.
\<close>

datatype constraint =
    Primary_key string "string list"
  | Unique string "string list" bool
  | Foreign_key string "string list" string "string list" "string option"

fun con_name :: "constraint \<Rightarrow> string" where
  "con_name (Primary_key n cs) = n"
| "con_name (Unique n cs nd) = n"
| "con_name (Foreign_key n cs t rs od) = n"

fun con_columns :: "constraint \<Rightarrow> string list" where
  "con_columns (Primary_key n cs) = cs"
| "con_columns (Unique n cs nd) = cs"
| "con_columns (Foreign_key n cs t rs od) = cs"

fun is_key :: "constraint \<Rightarrow> bool" where
  "is_key (Foreign_key n cs t rs od) = False"
| "is_key c = True"

fun is_primary :: "constraint \<Rightarrow> bool" where
  "is_primary (Primary_key n cs) = True"
| "is_primary c = False"

text \<open>The foreign keys of a constraint into a given table, as the columns they refer to.\<close>

fun refers_to :: "string \<Rightarrow> constraint \<Rightarrow> string list" where
  "refers_to t (Foreign_key n cs t' rs od) = (if t' = t then rs else [])"
| "refers_to t c = []"

record table =
  tab_name :: string
  tab_columns :: "column list"
  tab_constraints :: "constraint list"

record index =
  ix_name :: string
  ix_table :: string
  ix_columns :: "string list"
  ix_unique :: bool

record catalogue =
  cat_types :: "(string \<times> string list) list"
  cat_tables :: "table list"
  cat_indexes :: "index list"

definition empty_catalogue :: catalogue where
  "empty_catalogue = \<lparr>cat_types = [], cat_tables = [], cat_indexes = []\<rparr>"

section \<open>Operations\<close>

datatype ddl =
    Create_type string "string list"
  | Add_value string string
  | Drop_type string
  | Create_table table
  | Drop_table string
  | Add_column string column
  | Drop_column string string
  | Add_constraint string constraint
  | Drop_constraint string string
  | Create_index index
  | Drop_index string
  | Drop_index_if_exists string

definition find_table :: "catalogue \<Rightarrow> string \<Rightarrow> table option" where
  "find_table s n = tget tab_name (cat_tables s) n"

definition put_table :: "table \<Rightarrow> catalogue \<Rightarrow> catalogue" where
  "put_table t s = s\<lparr>cat_tables := tput tab_name t (cat_tables s)\<rparr>"

definition col_names :: "table \<Rightarrow> string list" where
  "col_names t = map col_name (tab_columns t)"

definition subset_list :: "string list \<Rightarrow> string list \<Rightarrow> bool" where
  "subset_list xs ys \<longleftrightarrow> list_all (\<lambda>x. List.member ys x) xs"

fun type_known :: "catalogue \<Rightarrow> sql_type \<Rightarrow> bool" where
  "type_known s (Enum_type n) = List.member (map fst (cat_types s)) n"
| "type_known s ty = True"

definition uses_type :: "string \<Rightarrow> table \<Rightarrow> bool" where
  "uses_type n t \<longleftrightarrow> list_ex (\<lambda>c. col_type c = Enum_type n) (tab_columns t)"

text \<open>A foreign key needs a key on exactly the columns it refers to.\<close>

fun constraint_ok :: "catalogue \<Rightarrow> table \<Rightarrow> constraint \<Rightarrow> bool" where
  "constraint_ok s t (Foreign_key n cs r rs od) =
     (subset_list cs (col_names t) \<and>
      (case (if r = tab_name t then Some t else find_table s r) of
         None \<Rightarrow> False
       | Some t' \<Rightarrow> list_ex (\<lambda>k. is_key k \<and> con_columns k = rs) (tab_constraints t')))"
| "constraint_ok s t c =
     (subset_list (con_columns c) (col_names t) \<and>
      (is_primary c \<longrightarrow> list_all (\<lambda>k. k = c \<or> \<not> is_primary k) (tab_constraints t)))"

text \<open>Whether a foreign key of another table refers to a table, or to one of its column lists.\<close>

definition referenced_by_others :: "catalogue \<Rightarrow> string \<Rightarrow> bool" where
  "referenced_by_others s n \<longleftrightarrow>
     list_ex (\<lambda>t. tab_name t \<noteq> n \<and> list_ex (\<lambda>c. refers_to n c \<noteq> []) (tab_constraints t)) (cat_tables s)"

definition references_columns :: "catalogue \<Rightarrow> string \<Rightarrow> string list \<Rightarrow> bool" where
  "references_columns s n cols \<longleftrightarrow>
     list_ex (\<lambda>t. list_ex (\<lambda>c. list_ex (\<lambda>r. List.member cols r) (refers_to n c)) (tab_constraints t)) (cat_tables s)"

text \<open>A new column of a table that may have rows: nullable, or with a value for the rows there.\<close>

definition column_ok :: "catalogue \<Rightarrow> column \<Rightarrow> bool" where
  "column_ok s c \<longleftrightarrow> type_known s (col_type c) \<and>
     (col_nullable c \<or> col_default c \<noteq> None \<or> col_generated c \<noteq> Plain)"

fun exec_ddl :: "ddl \<Rightarrow> catalogue \<Rightarrow> catalogue option" where
  "exec_ddl (Create_type n ls) s =
     (if List.member (map fst (cat_types s)) n then None
      else Some (s\<lparr>cat_types := cat_types s @ [(n, ls)]\<rparr>))"
| "exec_ddl (Add_value n l) s =
     (if \<not> List.member (map fst (cat_types s)) n then None
      else Some (s\<lparr>cat_types := map (\<lambda>(m, ls). (m, if m = n \<and> \<not> List.member ls l then ls @ [l] else ls))
             (cat_types s)\<rparr>))"
| "exec_ddl (Drop_type n) s =
     (if list_ex (uses_type n) (cat_tables s) then None
      else Some (s\<lparr>cat_types := filter (\<lambda>(m, ls). m \<noteq> n) (cat_types s)\<rparr>))"
| "exec_ddl (Create_table t) s =
     (if find_table s (tab_name t) \<noteq> None \<or> \<not> distinct (col_names t) then None
      else if list_all (\<lambda>c. type_known s (col_type c)) (tab_columns t) \<and>
              list_all (constraint_ok s t) (tab_constraints t)
      then Some (s\<lparr>cat_tables := tadd t (cat_tables s)\<rparr>) else None)"
| "exec_ddl (Drop_table n) s =
     (if find_table s n = None \<or> referenced_by_others s n then None
      else Some (s\<lparr>cat_tables := tdel tab_name n (cat_tables s),
                   cat_indexes := filter (\<lambda>i. ix_table i \<noteq> n) (cat_indexes s)\<rparr>))"
| "exec_ddl (Add_column n c) s =
     (case find_table s n of
        None \<Rightarrow> None
      | Some t \<Rightarrow>
          if List.member (col_names t) (col_name c) \<or> \<not> column_ok s c then None
          else Some (put_table (t\<lparr>tab_columns := tab_columns t @ [c]\<rparr>) s))"
| "exec_ddl (Drop_column n c) s =
     (case find_table s n of
        None \<Rightarrow> None
      | Some t \<Rightarrow>
          if \<not> List.member (col_names t) c \<or> references_columns s n [c] then None
          else Some ((put_table (t\<lparr>tab_columns := filter (\<lambda>k. col_name k \<noteq> c) (tab_columns t),
                       tab_constraints := filter (\<lambda>k. \<not> List.member (con_columns k) c) (tab_constraints t)\<rparr>) s)
                  \<lparr>cat_indexes := filter (\<lambda>i. \<not> (ix_table i = n \<and> List.member (ix_columns i) c)) (cat_indexes s)\<rparr>))"
| "exec_ddl (Add_constraint n k) s =
     (case find_table s n of
        None \<Rightarrow> None
      | Some t \<Rightarrow>
          if List.member (map con_name (tab_constraints t)) (con_name k) \<or> \<not> constraint_ok s t k then None
          else Some (put_table (t\<lparr>tab_constraints := tab_constraints t @ [k]\<rparr>) s))"
| "exec_ddl (Drop_constraint n m) s =
     (case find_table s n of
        None \<Rightarrow> None
      | Some t \<Rightarrow>
          (case tget con_name (tab_constraints t) m of
             None \<Rightarrow> None
           | Some k \<Rightarrow>
               if is_key k \<and> references_columns s n (con_columns k) then None
               else Some (put_table (t\<lparr>tab_constraints := tdel con_name m (tab_constraints t)\<rparr>) s)))"
| "exec_ddl (Create_index i) s =
     (case find_table s (ix_table i) of
        None \<Rightarrow> None
      | Some t \<Rightarrow>
          if List.member (map ix_name (cat_indexes s)) (ix_name i) \<or> \<not> subset_list (ix_columns i) (col_names t)
          then None else Some (s\<lparr>cat_indexes := cat_indexes s @ [i]\<rparr>))"
| "exec_ddl (Drop_index n) s =
     (if \<not> List.member (map ix_name (cat_indexes s)) n then None
      else Some (s\<lparr>cat_indexes := tdel ix_name n (cat_indexes s)\<rparr>))"
| "exec_ddl (Drop_index_if_exists n) s = Some (s\<lparr>cat_indexes := tdel ix_name n (cat_indexes s)\<rparr>)"

text \<open>A migration is one transaction: it applies as a whole or fails.\<close>

fun exec_all :: "ddl list \<Rightarrow> catalogue \<Rightarrow> catalogue option" where
  "exec_all [] s = Some s"
| "exec_all (d # ds) s = (case exec_ddl d s of None \<Rightarrow> None | Some s' \<Rightarrow> exec_all ds s')"

lemma exec_all_append:
  "exec_all (ds @ es) s = (case exec_all ds s of None \<Rightarrow> None | Some s' \<Rightarrow> exec_all es s')"
  by (induction ds s rule: exec_all.induct) (auto split: option.split)

section \<open>Comparing catalogues\<close>

text \<open>
  What two descriptions of a table have to agree on: columns up to their order and up to the kind
  of generator, the primary key, and the sets of unique column lists and of foreign keys, whatever
  the names of the constraints are. A unique index counts as a unique constraint.
\<close>

definition column_view :: "column \<Rightarrow> string \<times> sql_type \<times> bool \<times> string option \<times> bool" where
  "column_view c = (col_name c, col_type c, col_nullable c, col_default c, col_generated c \<noteq> Plain)"

fun key_view :: "constraint \<Rightarrow> (bool \<times> string list \<times> bool) list" where
  "key_view (Primary_key n cs) = [(True, cs, True)]"
| "key_view (Unique n cs nd) = [(False, cs, nd)]"
| "key_view (Foreign_key n cs t rs od) = []"

fun reference_view :: "constraint \<Rightarrow> (string list \<times> string \<times> string list \<times> string option) list" where
  "reference_view (Foreign_key n cs t rs od) = [(cs, t, rs, od)]"
| "reference_view k = []"

definition keys_of :: "catalogue \<Rightarrow> table \<Rightarrow> (bool \<times> string list \<times> bool) list" where
  "keys_of s t = concat (map key_view (tab_constraints t)) @
     map (\<lambda>i. (False, ix_columns i, True)) (filter (\<lambda>i. ix_table i = tab_name t \<and> ix_unique i) (cat_indexes s))"

definition same_table :: "catalogue \<Rightarrow> catalogue \<Rightarrow> table \<Rightarrow> table \<Rightarrow> bool" where
  "same_table s s' t t' \<longleftrightarrow>
     tab_name t = tab_name t' \<and>
     set (map column_view (tab_columns t)) = set (map column_view (tab_columns t')) \<and>
     set (keys_of s t) = set (keys_of s' t') \<and>
     set (concat (map reference_view (tab_constraints t))) = set (concat (map reference_view (tab_constraints t')))"

definition same_tables :: "catalogue \<Rightarrow> catalogue \<Rightarrow> bool" where
  "same_tables s s' \<longleftrightarrow>
     length (cat_tables s) = length (cat_tables s') \<and>
     list_all (\<lambda>t. case find_table s' (tab_name t) of None \<Rightarrow> False | Some t' \<Rightarrow> same_table s s' t t') (cat_tables s)"

text \<open>What is indexed, whether the index is a unique one or not.\<close>

definition indexed_columns :: "catalogue \<Rightarrow> (string \<times> string list) list" where
  "indexed_columns s = map (\<lambda>i. (ix_table i, ix_columns i)) (cat_indexes s)"

definition same_types :: "catalogue \<Rightarrow> catalogue \<Rightarrow> bool" where
  "same_types s s' \<longleftrightarrow> set (map (\<lambda>(n, ls). (n, set ls)) (cat_types s)) = set (map (\<lambda>(n, ls). (n, set ls)) (cat_types s'))"

end
