(* ===== verification/Migrations.thy ===== *)
theory Migrations
  imports Schema
begin

text \<open>
  The migrations of \<open>migrations/versions\<close> as sequences of schema operations, and the schema that the
  models of \<open>shared/models.py\<close> declare. An enum column of a table that Alembic creates brings its type
  with it, so the type is created first; unnamed keys get the names PostgreSQL gives them.
\<close>

section \<open>Columns\<close>

definition required :: "string \<Rightarrow> sql_type \<Rightarrow> column" where
  "required n ty = \<lparr>col_name = n, col_type = ty, col_nullable = False, col_default = None, col_generated = Plain\<rparr>"

definition nullable :: "string \<Rightarrow> sql_type \<Rightarrow> column" where
  "nullable n ty = (required n ty)\<lparr>col_nullable := True\<rparr>"

definition with_default :: "string \<Rightarrow> sql_type \<Rightarrow> string \<Rightarrow> column" where
  "with_default n ty d = (required n ty)\<lparr>col_default := Some d\<rparr>"

definition serial :: "string \<Rightarrow> column" where
  "serial n = (required n Big_integer)\<lparr>col_generated := Serial\<rparr>"

definition stamp :: "string \<Rightarrow> column" where
  "stamp n = with_default n Timestamp_tz ''now()''"

definition plain_index :: "string \<Rightarrow> string \<Rightarrow> string list \<Rightarrow> index" where
  "plain_index n t cs = \<lparr>ix_name = n, ix_table = t, ix_columns = cs, ix_unique = False\<rparr>"

definition unique_index :: "string \<Rightarrow> string \<Rightarrow> string list \<Rightarrow> index" where
  "unique_index n t cs = \<lparr>ix_name = n, ix_table = t, ix_columns = cs, ix_unique = True\<rparr>"

definition foreign_key :: "string \<Rightarrow> string \<Rightarrow> string \<Rightarrow> string option \<Rightarrow> constraint" where
  "foreign_key n c t od = Foreign_key n [c] t [''id''] od"

section \<open>0001: initial schema\<close>

definition admins_0001 :: table where
  "admins_0001 = \<lparr>tab_name = ''admins'', tab_columns =
     [serial ''id'', required ''username'' (String_of 64), required ''password_hash'' (String_of 255),
      with_default ''role'' (Enum_type ''role'') ''editor'', stamp ''created_at'', nullable ''disabled_at'' Timestamp_tz],
     tab_constraints = [Primary_key ''admins_pkey'' [''id''], Unique ''uq_admins_username'' [''username''] True]\<rparr>"

definition tags_0001 :: table where
  "tags_0001 = \<lparr>tab_name = ''tags'', tab_columns =
     [serial ''id'', required ''slug'' (String_of 64), required ''label'' (String_of 64), nullable ''color'' (String_of 16),
      stamp ''created_at''],
     tab_constraints = [Primary_key ''tags_pkey'' [''id''], Unique ''uq_tags_slug'' [''slug''] True]\<rparr>"

definition templates_0001 :: table where
  "templates_0001 = \<lparr>tab_name = ''templates'', tab_columns =
     [serial ''id'', required ''name'' (String_of 128), required ''body'' Text, stamp ''created_at''],
     tab_constraints = [Primary_key ''templates_pkey'' [''id'']]\<rparr>"

definition source_channels_0001 :: table where
  "source_channels_0001 = \<lparr>tab_name = ''source_channels'', tab_columns =
     [serial ''id'', required ''telegram_channel_id'' Big_integer, required ''title'' (String_of 256),
      nullable ''username'' (String_of 128), with_default ''ingestion_enabled'' Boolean ''true'',
      with_default ''policy'' (Enum_type ''policy'') ''queue'', with_default ''default_tag_ids'' Big_integer_array ''{}'',
      nullable ''normalization_template_id'' Big_integer,
      with_default ''max_media_size_bytes'' Big_integer ''2147483648'', nullable ''source_label'' (String_of 64),
      stamp ''created_at''],
     tab_constraints =
       [Primary_key ''source_channels_pkey'' [''id''],
        foreign_key ''source_channels_normalization_template_id_fkey'' ''normalization_template_id'' ''templates''
          (Some ''SET NULL''),
        Unique ''uq_source_channels_tg_id'' [''telegram_channel_id''] True]\<rparr>"

definition source_channel_tags_0001 :: table where
  "source_channel_tags_0001 = \<lparr>tab_name = ''source_channel_tags'', tab_columns =
     [required ''source_channel_id'' Big_integer, required ''tag_id'' Big_integer],
     tab_constraints =
       [foreign_key ''source_channel_tags_source_channel_id_fkey'' ''source_channel_id'' ''source_channels'' (Some ''CASCADE''),
        foreign_key ''source_channel_tags_tag_id_fkey'' ''tag_id'' ''tags'' (Some ''CASCADE''),
        Primary_key ''source_channel_tags_pkey'' [''source_channel_id'', ''tag_id'']]\<rparr>"

definition posts_0001 :: table where
  "posts_0001 = \<lparr>tab_name = ''posts'', tab_columns =
     [serial ''id'', required ''source_channel_id'' Big_integer, required ''source_message_id'' Integer,
      nullable ''raw_text'' Text, with_default ''raw_media_refs'' Jsonb ''[]'', stamp ''received_at'',
      with_default ''state'' (Enum_type ''post_state'') ''pending'', nullable ''normalized_text'' Text,
      with_default ''media_paths'' Jsonb ''[]'', with_default ''tag_ids'' Big_integer_array ''{}'',
      nullable ''scheduled_for'' Timestamp_tz, nullable ''published_message_id'' Integer,
      nullable ''published_at'' Timestamp_tz, nullable ''dedupe_hash'' (String_of 64), nullable ''draft_message_id'' Integer,
      nullable ''created_by'' Big_integer, nullable ''handled_by'' Big_integer, stamp ''created_at'', stamp ''updated_at''],
     tab_constraints =
       [Primary_key ''posts_pkey'' [''id''],
        foreign_key ''posts_source_channel_id_fkey'' ''source_channel_id'' ''source_channels'' (Some ''CASCADE''),
        foreign_key ''posts_created_by_fkey'' ''created_by'' ''admins'' None,
        foreign_key ''posts_handled_by_fkey'' ''handled_by'' ''admins'' None,
        Unique ''uq_post_source_msg'' [''source_channel_id'', ''source_message_id''] True]\<rparr>"

definition post_events_0001 :: table where
  "post_events_0001 = \<lparr>tab_name = ''post_events'', tab_columns =
     [serial ''id'', required ''post_id'' Big_integer, nullable ''actor_admin_id'' Big_integer,
      required ''action'' (Enum_type ''event_action''), with_default ''payload'' Jsonb ''{}'', stamp ''created_at''],
     tab_constraints =
       [Primary_key ''post_events_pkey'' [''id''],
        foreign_key ''post_events_post_id_fkey'' ''post_id'' ''posts'' (Some ''CASCADE''),
        foreign_key ''post_events_actor_admin_id_fkey'' ''actor_admin_id'' ''admins'' None]\<rparr>"

definition published_dedupe_0001 :: table where
  "published_dedupe_0001 = \<lparr>tab_name = ''published_dedupe'', tab_columns =
     [required ''dedupe_hash'' (String_of 64), stamp ''published_at''],
     tab_constraints = [Primary_key ''published_dedupe_pkey'' [''dedupe_hash'']]\<rparr>"

definition upgrade_0001 :: "ddl list" where
  "upgrade_0001 =
     [Create_type ''role'' [''editor'', ''admin'', ''super_admin''],
      Create_table admins_0001,
      Create_index (plain_index ''ix_admins_username'' ''admins'' [''username'']),
      Create_table tags_0001,
      Create_index (plain_index ''ix_tags_slug'' ''tags'' [''slug'']),
      Create_table templates_0001,
      Create_type ''policy'' [''auto'', ''queue''],
      Create_table source_channels_0001,
      Create_index (plain_index ''ix_source_channels_telegram_channel_id'' ''source_channels'' [''telegram_channel_id'']),
      Create_table source_channel_tags_0001,
      Create_type ''post_state''
        [''pending'', ''approved'', ''scheduled'', ''published'', ''rejected'', ''publish_failed''],
      Create_table posts_0001,
      Create_index (plain_index ''ix_posts_source_channel_id'' ''posts'' [''source_channel_id'']),
      Create_index (plain_index ''ix_posts_state'' ''posts'' [''state'']),
      Create_index (plain_index ''ix_posts_scheduled_for'' ''posts'' [''scheduled_for'']),
      Create_index (plain_index ''ix_posts_dedupe_hash'' ''posts'' [''dedupe_hash'']),
      Create_index (plain_index ''ix_posts_state_received_at'' ''posts'' [''state'', ''received_at'']),
      Create_type ''event_action''
        [''ingested'', ''edited'', ''approved'', ''rejected'', ''scheduled'', ''published'',
         ''publish_failed'', ''duplicate'', ''media_omitted'', ''draft_posted''],
      Create_table post_events_0001,
      Create_index (plain_index ''ix_post_events_post_id'' ''post_events'' [''post_id'']),
      Create_table published_dedupe_0001,
      Create_index (plain_index ''ix_published_dedupe_published_at'' ''published_dedupe'' [''published_at''])]"

definition downgrade_0001 :: "ddl list" where
  "downgrade_0001 =
     [Drop_index ''ix_published_dedupe_published_at'', Drop_table ''published_dedupe'',
      Drop_index ''ix_post_events_post_id'', Drop_table ''post_events'',
      Drop_index ''ix_posts_dedupe_hash'', Drop_index ''ix_posts_state_received_at'',
      Drop_index ''ix_posts_scheduled_for'', Drop_index ''ix_posts_state'',
      Drop_index ''ix_posts_source_channel_id'', Drop_table ''posts'',
      Drop_table ''source_channel_tags'',
      Drop_index ''ix_source_channels_telegram_channel_id'', Drop_table ''source_channels'',
      Drop_table ''templates'',
      Drop_index ''ix_tags_slug'', Drop_table ''tags'',
      Drop_index ''ix_admins_username'', Drop_table ''admins'',
      Drop_type ''event_action'', Drop_type ''post_state'', Drop_type ''policy'', Drop_type ''role'']"

section \<open>0002 and 0003: a state and a column\<close>

definition upgrade_0002 :: "ddl list" where
  "upgrade_0002 = [Add_value ''post_state'' ''publishing'']"

definition downgrade_0002 :: "ddl list" where
  "downgrade_0002 = []"

definition upgrade_0003 :: "ddl list" where
  "upgrade_0003 =
     [Add_column ''admins'' (nullable ''tg_user_id'' Big_integer),
      Add_constraint ''admins'' (Unique ''uq_admins_tg_user_id'' [''tg_user_id''] True),
      Create_index (plain_index ''ix_admins_tg_user_id'' ''admins'' [''tg_user_id''])]"

definition downgrade_0003 :: "ddl list" where
  "downgrade_0003 =
     [Drop_index ''ix_admins_tg_user_id'', Drop_constraint ''admins'' ''uq_admins_tg_user_id'',
      Drop_column ''admins'' ''tg_user_id'']"

section \<open>0004 and 0005: AI columns and tenants\<close>

definition ai_mode_type :: sql_type where
  "ai_mode_type = Enum_type ''ai_mode''"

definition ai_columns :: "column list" where
  "ai_columns =
     [with_default ''ai_enabled'' Boolean ''false'', with_default ''ai_mode'' ai_mode_type ''off'',
      nullable ''ai_target_language'' (String_of 16), nullable ''ai_tone_prompt'' Text,
      nullable ''ai_custom_system_prompt'' Text, with_default ''watermark_enabled'' Boolean ''false'',
      nullable ''watermark_text'' Text, with_default ''strip_source_tags'' Boolean ''false'']"

definition tenants_0004 :: table where
  "tenants_0004 = \<lparr>tab_name = ''tenants'', tab_columns =
     [serial ''id'', required ''slug'' (String_of 64), required ''name'' (String_of 256),
      nullable ''bot_token'' (String_of 255), nullable ''destination_channel_id'' Big_integer,
      nullable ''editor_group_id'' Big_integer] @ ai_columns @
     [stamp ''created_at'', nullable ''disabled_at'' Timestamp_tz],
     tab_constraints = [Primary_key ''tenants_pkey'' [''id''], Unique ''uq_tenants_slug'' [''slug''] True]\<rparr>"

text \<open>The column, foreign key and index that a table gets for its tenant, and their removal.\<close>

definition add_tenant :: "string \<Rightarrow> ddl list" where
  "add_tenant t =
     [Add_column t (nullable ''tenant_id'' Big_integer),
      Add_constraint t (foreign_key (''fk_'' @ t @ ''_tenant_id'') ''tenant_id'' ''tenants'' None),
      Create_index (plain_index (''ix_'' @ t @ ''_tenant_id'') t [''tenant_id''])]"

definition drop_tenant :: "string \<Rightarrow> ddl list" where
  "drop_tenant t =
     [Drop_index (''ix_'' @ t @ ''_tenant_id''), Drop_constraint t (''fk_'' @ t @ ''_tenant_id''),
      Drop_column t ''tenant_id'']"

definition upgrade_0004 :: "ddl list" where
  "upgrade_0004 =
     [Create_type ''ai_mode'' [''off'', ''translate'', ''summarize'', ''retone'', ''custom''],
      Add_value ''event_action'' ''ai_transformed'', Add_value ''event_action'' ''ai_failed'',
      Create_table tenants_0004,
      Create_index (plain_index ''ix_tenants_slug'' ''tenants'' [''slug''])]
     @ concat (map add_tenant [''admins'', ''tags'', ''templates'', ''source_channels'', ''posts'', ''post_events''])
     @ add_tenant ''published_dedupe''
     @ map (Add_column ''source_channels'') ai_columns
     @ [Add_column ''posts'' (nullable ''ai_transformed_text'' Text)]"

definition downgrade_0004 :: "ddl list" where
  "downgrade_0004 =
     [Drop_column ''posts'' ''ai_transformed_text'']
     @ map (Drop_column ''source_channels'')
         [''strip_source_tags'', ''watermark_text'', ''watermark_enabled'', ''ai_custom_system_prompt'',
          ''ai_tone_prompt'', ''ai_target_language'', ''ai_mode'', ''ai_enabled'']
     @ drop_tenant ''published_dedupe''
     @ concat (map drop_tenant [''post_events'', ''posts'', ''source_channels'', ''templates'', ''tags'', ''admins''])
     @ [Drop_index ''ix_tenants_slug'', Drop_table ''tenants'', Drop_type ''ai_mode'']"

definition override_columns :: "column list" where
  "override_columns =
     [nullable ''ai_model'' (String_of 128), nullable ''ai_max_tokens'' Integer, nullable ''ai_timeout_seconds'' Integer,
      nullable ''dedupe_lookback_days'' Integer, nullable ''publish_spacing_seconds'' Float,
      nullable ''media_max_size_bytes'' Big_integer]"

definition upgrade_0005 :: "ddl list" where
  "upgrade_0005 = map (Add_column ''tenants'') override_columns"

definition downgrade_0005 :: "ddl list" where
  "downgrade_0005 = map (Drop_column ''tenants'')
     [''media_max_size_bytes'', ''publish_spacing_seconds'', ''dedupe_lookback_days'', ''ai_timeout_seconds'',
      ''ai_max_tokens'', ''ai_model'']"

section \<open>0006 and 0007: the key of the dedupe index, and the end of tenants\<close>

definition tenant_hash_key :: "constraint" where
  "tenant_hash_key = Unique ''uq_published_dedupe_tenant_hash'' [''tenant_id'', ''dedupe_hash''] False"

definition upgrade_0006 :: "ddl list" where
  "upgrade_0006 =
     [Drop_constraint ''published_dedupe'' ''published_dedupe_pkey'',
      Drop_index_if_exists ''ix_published_dedupe_tenant_id'',
      Add_column ''published_dedupe'' ((required ''id'' Big_integer)\<lparr>col_generated := Identity\<rparr>),
      Add_constraint ''published_dedupe'' (Primary_key ''published_dedupe_pkey'' [''id'']),
      Add_constraint ''published_dedupe'' tenant_hash_key]"

definition downgrade_0006 :: "ddl list" where
  "downgrade_0006 =
     [Drop_constraint ''published_dedupe'' ''uq_published_dedupe_tenant_hash'',
      Drop_constraint ''published_dedupe'' ''published_dedupe_pkey'',
      Drop_column ''published_dedupe'' ''id'',
      Add_constraint ''published_dedupe'' (Primary_key ''published_dedupe_pkey'' [''dedupe_hash'']),
      Create_index (plain_index ''ix_published_dedupe_tenant_id'' ''published_dedupe'' [''tenant_id''])]"

definition TENANT_TABLES :: "string list" where
  "TENANT_TABLES = [''post_events'', ''posts'', ''source_channels'', ''templates'', ''tags'', ''admins'']"

definition tenants_0007 :: table where
  "tenants_0007 = \<lparr>tab_name = ''tenants'', tab_columns =
     [serial ''id'', required ''slug'' (String_of 64), required ''name'' (String_of 256),
      nullable ''bot_token'' (String_of 255), nullable ''destination_channel_id'' Big_integer,
      nullable ''editor_group_id'' Big_integer] @ ai_columns @ override_columns @
     [stamp ''created_at'', nullable ''disabled_at'' Timestamp_tz],
     tab_constraints = [Primary_key ''tenants_pkey'' [''id''], Unique ''uq_tenants_slug'' [''slug''] True]\<rparr>"

definition upgrade_0007 :: "ddl list" where
  "upgrade_0007 =
     [Drop_constraint ''published_dedupe'' ''uq_published_dedupe_tenant_hash'',
      Drop_constraint ''published_dedupe'' ''fk_published_dedupe_tenant_id'',
      Drop_column ''published_dedupe'' ''tenant_id'',
      Add_constraint ''published_dedupe'' (Unique ''uq_published_dedupe_hash'' [''dedupe_hash''] True)]
     @ concat (map drop_tenant TENANT_TABLES)
     @ [Drop_index ''ix_tenants_slug'', Drop_table ''tenants'']"

definition downgrade_0007 :: "ddl list" where
  "downgrade_0007 =
     [Create_table tenants_0007,
      Create_index (plain_index ''ix_tenants_slug'' ''tenants'' [''slug''])]
     @ concat (map add_tenant (rev TENANT_TABLES))
     @ [Drop_constraint ''published_dedupe'' ''uq_published_dedupe_hash'',
        Add_column ''published_dedupe'' (nullable ''tenant_id'' Big_integer),
        Add_constraint ''published_dedupe''
          (foreign_key ''fk_published_dedupe_tenant_id'' ''tenant_id'' ''tenants'' None),
        Add_constraint ''published_dedupe'' tenant_hash_key]"

section \<open>The chain\<close>

record migration =
  revision :: string
  down_revision :: "string option"
  upgrade :: "ddl list"
  downgrade :: "ddl list"

definition migrations :: "migration list" where
  "migrations =
     [\<lparr>revision = ''0001'', down_revision = None, upgrade = upgrade_0001, downgrade = downgrade_0001\<rparr>,
      \<lparr>revision = ''0002'', down_revision = Some ''0001'', upgrade = upgrade_0002, downgrade = downgrade_0002\<rparr>,
      \<lparr>revision = ''0003'', down_revision = Some ''0002'', upgrade = upgrade_0003, downgrade = downgrade_0003\<rparr>,
      \<lparr>revision = ''0004'', down_revision = Some ''0003'', upgrade = upgrade_0004, downgrade = downgrade_0004\<rparr>,
      \<lparr>revision = ''0005'', down_revision = Some ''0004'', upgrade = upgrade_0005, downgrade = downgrade_0005\<rparr>,
      \<lparr>revision = ''0006'', down_revision = Some ''0005'', upgrade = upgrade_0006, downgrade = downgrade_0006\<rparr>,
      \<lparr>revision = ''0007'', down_revision = Some ''0006'', upgrade = upgrade_0007, downgrade = downgrade_0007\<rparr>]"

text \<open>The path to a revision follows the \<open>down_revision\<close> links from it to the base.\<close>

fun path_from :: "nat \<Rightarrow> migration list \<Rightarrow> string option \<Rightarrow> migration list" where
  "path_from 0 ms r = []"
| "path_from (Suc n) ms r =
     (case r of
        None \<Rightarrow> []
      | Some k \<Rightarrow> (case tget revision ms k of
                     None \<Rightarrow> []
                   | Some m \<Rightarrow> m # path_from n ms (down_revision m)))"

definition path_to :: "string \<Rightarrow> migration list" where
  "path_to r = rev (path_from (length migrations) migrations (Some r))"

definition upgrade_to :: "string \<Rightarrow> catalogue \<Rightarrow> catalogue option" where
  "upgrade_to r s = exec_all (concat (map upgrade (path_to r))) s"

section \<open>The models\<close>

text \<open>
  The tables of the declarative models. \<open>index=True\<close> declares an index, and together with
  \<open>unique=True\<close> a unique index instead of a constraint; a primary key of one integer column is
  generated.
\<close>

definition model_Admin :: table where
  "model_Admin = \<lparr>tab_name = ''admins'', tab_columns =
     [serial ''id'', required ''username'' (String_of 64), required ''password_hash'' (String_of 255),
      with_default ''role'' (Enum_type ''role'') ''editor'', nullable ''tg_user_id'' Big_integer, stamp ''created_at'',
      nullable ''disabled_at'' Timestamp_tz],
     tab_constraints = [Primary_key ''admins_pkey'' [''id'']]\<rparr>"

definition model_Tag :: table where
  "model_Tag = \<lparr>tab_name = ''tags'', tab_columns =
     [serial ''id'', required ''slug'' (String_of 64), required ''label'' (String_of 64), nullable ''color'' (String_of 16),
      stamp ''created_at''],
     tab_constraints = [Primary_key ''tags_pkey'' [''id'']]\<rparr>"

definition model_Template :: table where
  "model_Template = \<lparr>tab_name = ''templates'', tab_columns =
     [serial ''id'', required ''name'' (String_of 128), required ''body'' Text, stamp ''created_at''],
     tab_constraints = [Primary_key ''templates_pkey'' [''id'']]\<rparr>"

definition model_SourceChannel :: table where
  "model_SourceChannel = \<lparr>tab_name = ''source_channels'', tab_columns =
     [serial ''id'', required ''telegram_channel_id'' Big_integer, required ''title'' (String_of 256),
      nullable ''username'' (String_of 128), with_default ''ingestion_enabled'' Boolean ''true'',
      with_default ''policy'' (Enum_type ''policy'') ''queue'', with_default ''default_tag_ids'' Big_integer_array ''{}'',
      nullable ''normalization_template_id'' Big_integer,
      with_default ''max_media_size_bytes'' Big_integer ''2147483648'', nullable ''source_label'' (String_of 64),
      with_default ''ai_enabled'' Boolean ''false'', with_default ''ai_mode'' (Enum_type ''ai_mode'') ''off'',
      nullable ''ai_target_language'' (String_of 16), nullable ''ai_tone_prompt'' Text,
      nullable ''ai_custom_system_prompt'' Text, with_default ''watermark_enabled'' Boolean ''false'',
      nullable ''watermark_text'' Text, with_default ''strip_source_tags'' Boolean ''false'', stamp ''created_at''],
     tab_constraints =
       [Primary_key ''source_channels_pkey'' [''id''],
        foreign_key ''source_channels_normalization_template_id_fkey'' ''normalization_template_id'' ''templates''
          (Some ''SET NULL'')]\<rparr>"

definition model_SourceChannelTag :: table where
  "model_SourceChannelTag = \<lparr>tab_name = ''source_channel_tags'', tab_columns =
     [required ''source_channel_id'' Big_integer, required ''tag_id'' Big_integer],
     tab_constraints =
       [foreign_key ''source_channel_tags_source_channel_id_fkey'' ''source_channel_id'' ''source_channels'' (Some ''CASCADE''),
        foreign_key ''source_channel_tags_tag_id_fkey'' ''tag_id'' ''tags'' (Some ''CASCADE''),
        Primary_key ''source_channel_tags_pkey'' [''source_channel_id'', ''tag_id'']]\<rparr>"

definition model_Post :: table where
  "model_Post = \<lparr>tab_name = ''posts'', tab_columns =
     [serial ''id'', required ''source_channel_id'' Big_integer, required ''source_message_id'' Integer,
      nullable ''raw_text'' Text, with_default ''raw_media_refs'' Jsonb ''[]'', stamp ''received_at'',
      with_default ''state'' (Enum_type ''post_state'') ''pending'', nullable ''normalized_text'' Text,
      nullable ''ai_transformed_text'' Text, with_default ''media_paths'' Jsonb ''[]'',
      with_default ''tag_ids'' Big_integer_array ''{}'', nullable ''scheduled_for'' Timestamp_tz,
      nullable ''published_message_id'' Integer, nullable ''published_at'' Timestamp_tz,
      nullable ''dedupe_hash'' (String_of 64), nullable ''draft_message_id'' Integer,
      nullable ''created_by'' Big_integer, nullable ''handled_by'' Big_integer, stamp ''created_at'', stamp ''updated_at''],
     tab_constraints =
       [Primary_key ''posts_pkey'' [''id''],
        foreign_key ''posts_source_channel_id_fkey'' ''source_channel_id'' ''source_channels'' (Some ''CASCADE''),
        foreign_key ''posts_created_by_fkey'' ''created_by'' ''admins'' None,
        foreign_key ''posts_handled_by_fkey'' ''handled_by'' ''admins'' None,
        Unique ''uq_post_source_msg'' [''source_channel_id'', ''source_message_id''] True]\<rparr>"

definition model_PostEvent :: table where
  "model_PostEvent = \<lparr>tab_name = ''post_events'', tab_columns =
     [serial ''id'', required ''post_id'' Big_integer, nullable ''actor_admin_id'' Big_integer,
      required ''action'' (Enum_type ''event_action''), with_default ''payload'' Jsonb ''{}'', stamp ''created_at''],
     tab_constraints =
       [Primary_key ''post_events_pkey'' [''id''],
        foreign_key ''post_events_post_id_fkey'' ''post_id'' ''posts'' (Some ''CASCADE''),
        foreign_key ''post_events_actor_admin_id_fkey'' ''actor_admin_id'' ''admins'' None]\<rparr>"

definition model_PublishedDedupe :: table where
  "model_PublishedDedupe = \<lparr>tab_name = ''published_dedupe'', tab_columns =
     [serial ''id'', required ''dedupe_hash'' (String_of 64), stamp ''published_at''],
     tab_constraints =
       [Primary_key ''published_dedupe_pkey'' [''id''], Unique ''uq_published_dedupe_hash'' [''dedupe_hash''] True]\<rparr>"

definition model_types :: "(string \<times> string list) list" where
  "model_types =
     [(''role'', [''editor'', ''admin'', ''super_admin'']), (''policy'', [''auto'', ''queue'']),
      (''post_state'', [''pending'', ''approved'', ''scheduled'', ''published'', ''rejected'', ''publishing'', ''publish_failed'']),
      (''ai_mode'', [''off'', ''translate'', ''summarize'', ''retone'', ''custom'']),
      (''event_action'', [''ingested'', ''edited'', ''approved'', ''rejected'', ''scheduled'', ''published'',
         ''publish_failed'', ''duplicate'', ''media_omitted'', ''draft_posted'', ''ai_transformed'', ''ai_failed''])]"

definition metadata :: catalogue where
  "metadata = \<lparr>cat_types = model_types,
     cat_tables = [model_Admin, model_Tag, model_Template, model_SourceChannel, model_SourceChannelTag, model_Post,
        model_PostEvent, model_PublishedDedupe],
     cat_indexes =
       [unique_index ''ix_admins_username'' ''admins'' [''username''],
        unique_index ''ix_admins_tg_user_id'' ''admins'' [''tg_user_id''],
        unique_index ''ix_tags_slug'' ''tags'' [''slug''],
        unique_index ''ix_source_channels_telegram_channel_id'' ''source_channels'' [''telegram_channel_id''],
        plain_index ''ix_posts_source_channel_id'' ''posts'' [''source_channel_id''],
        plain_index ''ix_posts_state'' ''posts'' [''state''],
        plain_index ''ix_posts_scheduled_for'' ''posts'' [''scheduled_for''],
        plain_index ''ix_posts_dedupe_hash'' ''posts'' [''dedupe_hash''],
        plain_index ''ix_post_events_post_id'' ''post_events'' [''post_id''],
        plain_index ''ix_published_dedupe_published_at'' ''published_dedupe'' [''published_at'']]\<rparr>"

section \<open>Properties\<close>

text \<open>
  Each migration of a list applies to the catalogue that the ones before it built, and its downgrade
  leads back there: to the same tables and the same indexes. Labels added to an enum stay.
\<close>

definition same_shape :: "catalogue \<Rightarrow> catalogue \<Rightarrow> bool" where
  "same_shape s s' \<longleftrightarrow> same_tables s s' \<and> set (cat_indexes s) = set (cat_indexes s')"

fun reversible :: "migration list \<Rightarrow> catalogue \<Rightarrow> bool" where
  "reversible [] s = True"
| "reversible (m # ms) s =
     (case exec_all (upgrade m) s of
        None \<Rightarrow> False
      | Some s1 \<Rightarrow>
          (case exec_all (downgrade m) s1 of
             None \<Rightarrow> False
           | Some s2 \<Rightarrow> same_shape s2 s \<and> reversible ms s1))"

definition downgrade_to_base :: "string \<Rightarrow> catalogue \<Rightarrow> catalogue option" where
  "downgrade_to_base r s = exec_all (concat (map downgrade (rev (path_to r)))) s"

lemma head_checks:
  "(case upgrade_to ''0007'' empty_catalogue of
      None \<Rightarrow> False
    | Some s \<Rightarrow> same_tables s metadata \<and> same_types s metadata \<and>
        set (indexed_columns metadata) \<subseteq> set (indexed_columns s) \<and>
        downgrade_to_base ''0007'' s = Some empty_catalogue)"
  by code_simp

text \<open>
  The migrations and the models agree. The chain up to the head applies to an empty database,
  with no operation refused, and ends in the tables, columns, defaults, keys, references and enum
  types that the models declare, with an index on everything the models want indexed.
\<close>

theorem migrations_build_the_models:
  "\<exists>s. upgrade_to ''0007'' empty_catalogue = Some s \<and> same_tables s metadata \<and> same_types s metadata \<and>
     set (indexed_columns metadata) \<subseteq> set (indexed_columns s)"
  using head_checks by (auto split: option.splits)

text \<open>
  migrations can be rolled back. Downgrading from the head to the base removes everything that
  was created, and each single downgrade leads back to the tables and indexes before its upgrade.
\<close>

theorem downgrades_undo_upgrades:
  "reversible migrations empty_catalogue \<and>
   (\<exists>s. upgrade_to ''0007'' empty_catalogue = Some s \<and> downgrade_to_base ''0007'' s = Some empty_catalogue)"
proof
  show "reversible migrations empty_catalogue" by code_simp
  show "\<exists>s. upgrade_to ''0007'' empty_catalogue = Some s \<and> downgrade_to_base ''0007'' s = Some empty_catalogue"
    using head_checks by (auto split: option.splits)
qed

end
