(* ===== verification/Bootstrap.thy ===== *)
theory Bootstrap
  imports Integrity Uniqueness Migrations
begin

text \<open>
  The first start of an installation: the command line of \<open>api/cli.py\<close>, which migrates the database and seeds it,
  and what that gives: the invariants of the store hold from then on, with no assumption about it.
\<close>

section \<open>The command line\<close>

text \<open>
  The revision recorded in the database and its catalogue. Alembic applies, in order, the revisions on the path to
  the head that the database does not have yet, and records the head.
\<close>

type_synonym versioned = "string option \<times> catalogue"

definition head_revisions :: "string list" where
  "head_revisions = filter (\<lambda>r. Some r \<notin> down_revision ` set migrations) (map revision migrations)"

definition pending_revisions :: "string option \<Rightarrow> migration list" where
  "pending_revisions v = filter (\<lambda>m. case v of None \<Rightarrow> True | Some r \<Rightarrow> revision m \<notin> revision ` set (path_to r))
     (path_to (hd head_revisions))"

text \<open>A database that a newer release has migrated carries a revision that this one does not know: Alembic raises.\<close>

definition known_revision :: "string option \<Rightarrow> bool" where
  "known_revision v \<longleftrightarrow> (case v of None \<Rightarrow> True | Some r \<Rightarrow> List.member (map revision migrations) r)"

definition run_migrations :: "versioned \<Rightarrow> versioned option" where
  "run_migrations vc =
     (if known_revision (fst vc)
      then map_option (\<lambda>c. (Some (hd head_revisions), c))
             (exec_all (concat (map upgrade (pending_revisions (fst vc)))) (snd vc))
      else None)"

text \<open>
  \<open>main\<close>: the command is the first argument, or \<open>migrate\<close>. \<open>None\<close> is an exception of a migration, which ends the
  process before anything is seeded; otherwise the exit status and the state.
\<close>

definition cli_main :: "crypto \<Rightarrow> settings \<Rightarrow> pystr list \<Rightarrow> versioned \<times> world \<Rightarrow> (int \<times> versioned \<times> world) option" where
  "cli_main C s args st =
     (let cmd = (case args of [] \<Rightarrow> lit ''migrate'' | a # as \<Rightarrow> a)
      in if cmd = lit ''migrate''
         then (case run_migrations (fst st) of
                 None \<Rightarrow> None
               | Some vc \<Rightarrow> Some (0, vc, seed_all C s (snd st)))
         else let (code, w) = amain C s cmd (snd st) in Some (code, fst st, w))"

section \<open>Facts\<close>

lemma head_facts: "head_revisions = [''0007'']" "pending_revisions None = path_to ''0007''" "pending_revisions (Some ''0007'') = []"
  "known_revision None" "known_revision (Some ''0007'')"
  by code_simp+

lemma migrate_empty:
  "\<exists>c. run_migrations (None, empty_catalogue) = Some (Some ''0007'', c) \<and> same_tables c metadata \<and> same_types c metadata \<and>
     set (indexed_columns metadata) \<subseteq> set (indexed_columns c)"
  using head_checks by (auto simp: run_migrations_def head_facts upgrade_to_def split: option.splits)

lemma migrate_again: "run_migrations (Some ''0007'', c) = Some (Some ''0007'', c)"
  by (simp add: run_migrations_def head_facts)

text \<open>Seeding is two commands in a row.\<close>

context row_moves begin

lemma seed_all_moves: "moves (wdb w) (wdb (seed_all C s w))"
proof -
  have "seed_all C s w = snd (amain C s (lit ''seed-defaults'') (snd (amain C s (lit ''seed-admin'') w)))"
    by (simp add: seed_all_def amain_def lit_def)
  then show ?thesis using go_on [OF seeded seeded] by simp
qed

end

text \<open>A database whose tables are all empty.\<close>

definition empty_db :: db where
  "empty_db = \<lparr>admins = [], tags = [], templates = [], source_channels = [], source_channel_tags = [], posts = [],
     post_events = [], dedupe_rows = [], next_id = 1\<rparr>"

lemma empty_db_ok: "references empty_db" "uniques empty_db"
  by code_simp+

lemma seeded_empty:
  assumes "seed_admin_username s \<noteq> []" and "seed_admin_password s \<noteq> []" and "wdb w = empty_db"
  shows "good (wdb (seed_all C s w)) \<and> references (wdb (seed_all C s w)) \<and> uniques (wdb (seed_all C s w))"
proof -
  define w1 where "w1 = seed_admin C s w"
  have w1: "admins (wdb w1) = [\<lparr>admin_id = 1, username = seed_admin_username s,
      password_hash = hash_password C (wclock w) (seed_admin_password s), admin_role = R_super_admin,
      tg_user_id = None, admin_created_at = wclock w, disabled_at = None\<rparr>]" "posts (wdb w1) = []"
    "dedupe_rows (wdb w1) = []" "next_id (wdb w1) = 2"
    using assms by (simp_all add: w1_def seed_admin_def Let_def tadd_def empty_db_def)
  have "good (wdb w1)"
    by (simp add: good_def sound_def store_ok_def ids_fresh_def unique_sources_def unique_keys_def keys_def admins_ok_def has_super_def
        active_supers_def w1)
  moreover have "step_ok (wdb w1) (wdb (seed_all C s w))"
  proof -
    have "wdb (seed_all C s w) = wdb (snd (amain C s (lit ''seed-defaults'') w1))"
      by (simp add: seed_all_def w1_def amain_def lit_def)
    then show ?thesis using seed_step [of w1 C s "lit ''seed-defaults''"] by simp
  qed
  moreover have "keeps_references empty_db (wdb (seed_all C s w))" "keeps_uniques empty_db (wdb (seed_all C s w))"
    using foreign_keys.seed_all_moves [of w C s] unique_columns.seed_all_moves [of w C s] assms(3) by simp_all
  ultimately show ?thesis using empty_db_ok step_good by (simp add: keeps_references_def keeps_uniques_def)
qed

section \<open>Property\<close>

text \<open>
  C17: an installation is sound from its first start. When the settings name a first account and give it a password (by
  default they give none, and no account is seeded), the command that the migration container runs (\<open>migrate\<close>, also
  when no command is given) succeeds on an empty database: it builds the tables of the models, leaves a store with an
  active super-admin that satisfies the invariants, its foreign keys and its unique constraints, and a second run applies
  nothing and changes nothing. From there on these hold in every state that runs of the services reach, each
  of which starts after the one before has ended.
\<close>

theorem first_start_is_sound:
  assumes "seed_admin_username s \<noteq> []" and "seed_admin_password s \<noteq> []" and "wdb w = empty_db"
    and "args \<in> {[], [lit ''migrate'']}"
  shows "\<exists>c w1. cli_main C s args ((None, empty_catalogue), w) = Some (0, (Some ''0007'', c), w1) \<and>
    same_tables c metadata \<and> same_types c metadata \<and> has_super (admins (wdb w1)) \<and>
    cli_main C s args ((Some ''0007'', c), w1) = Some (0, (Some ''0007'', c), w1) \<and>
    (\<forall>E T w2. reach E C T w1 w2 \<longrightarrow> good (wdb w2) \<and> references (wdb w2) \<and> uniques (wdb w2))"
proof -
  obtain c where c: "run_migrations (None, empty_catalogue) = Some (Some ''0007'', c)" "same_tables c metadata" "same_types c metadata"
    using migrate_empty by blast
  define w1 where "w1 = seed_all C s w"
  have ok: "good (wdb w1)" "references (wdb w1)" "uniques (wdb w1)"
    using seeded_empty [OF assms(1-3), of C] by (simp_all add: w1_def)
  have "cli_main C s args ((None, empty_catalogue), w) = Some (0, (Some ''0007'', c), w1)"
    using assms(4) c(1) by (auto simp: cli_main_def w1_def)
  moreover have "cli_main C s args ((Some ''0007'', c), w1) = Some (0, (Some ''0007'', c), w1)"
    using assms(4) migrate_again [of c] seed_all_again [of C s w] by (auto simp: cli_main_def w1_def)
  moreover have "good (wdb w2) \<and> references (wdb w2) \<and> uniques (wdb w2)" if "reach E C T w1 w2" for E T w2
    using step_good [OF invariant.reach_ok [OF that]] foreign_keys.reach_ok [OF that] unique_columns.reach_ok [OF that] ok
    by (simp add: keeps_references_def keeps_uniques_def)
  ultimately show ?thesis using c(2,3) ok(1) by (auto simp: good_def admins_ok_def)
qed

definition first_settings :: settings where
  "first_settings = default_settings\<lparr>seed_admin_username := lit ''admin'', seed_admin_password := lit ''changeme''\<rparr>"

theorem first_start_is_sound_witness:
  "\<exists>c w1. cli_main two_kinds first_settings [] ((None, empty_catalogue), (sample_world [] [])\<lparr>wdb := empty_db\<rparr>)
     = Some (0, (Some ''0007'', c), w1) \<and> has_super (admins (wdb w1))"
proof -
  have s: "seed_admin_username first_settings \<noteq> []" "seed_admin_password first_settings \<noteq> []"
    by (simp_all add: first_settings_def lit_def)
  have w: "wdb ((sample_world [] [])\<lparr>wdb := empty_db\<rparr>) = empty_db" by simp
  have a: "[] \<in> {[], [lit ''migrate'']}" by simp
  from first_start_is_sound [OF s w a, of two_kinds] show ?thesis by blast
qed

text \<open>The module's own description calls the second seeding command \<open>seed-tags\<close>; that name is refused.\<close>

theorem seed_tags_is_unknown: "cli_main C s [lit ''seed-tags''] st = Some (2, st)"
  by (simp add: cli_main_def amain_def lit_def)

end
