(* ===== verification/MigrationRun.thy ===== *)
theory MigrationRun
  imports Bootstrap
begin

text \<open>
  The runner of the migrations, \<open>migrations/env.py\<close>: where the address of the database comes from, and what an upgrade
  to the head or a downgrade by one revision does to a database of any release. Alembic's choice of the revisions is
  modelled as it documents it; whether a connection can be opened is a parameter.
\<close>

section \<open>The address\<close>

text \<open>
  The address goes through the options of Alembic's configuration, a \<open>ConfigParser\<close> with its basic interpolation: a
  value may hold \<open>%%\<close> for a percent sign and \<open>%(name)s\<close> for another option, and no other percent sign. The value is
  checked when it is set and expanded when it is read.
\<close>

fun drop_doubled :: "pystr \<Rightarrow> pystr" where
  "drop_doubled (a # b # cs) = (if a = 37 \<and> b = 37 then drop_doubled cs else a # drop_doubled (b # cs))"
| "drop_doubled cs = cs"

text \<open>After a percent sign: the name of an option and what follows the reference.\<close>

definition option_reference :: "pystr \<Rightarrow> (pystr \<times> pystr) option" where
  "option_reference s =
     (case s of
        [] \<Rightarrow> None
      | c # cs \<Rightarrow>
          (let name = takeWhile (\<lambda>k. k \<noteq> 41) cs; rest = dropWhile (\<lambda>k. k \<noteq> 41) cs
           in if c = 40 \<and> name \<noteq> [] \<and> take 2 rest = [41, 115] then Some (name, drop 2 rest) else None))"

lemma option_reference_shorter: "option_reference s = Some (n, r) \<Longrightarrow> length r < length s"
  using length_dropWhile_le [of "\<lambda>k. k \<noteq> 41" "tl s"]
  by (auto simp: option_reference_def Let_def split: list.splits if_splits)

function drop_references :: "pystr \<Rightarrow> pystr" where
  "drop_references [] = []"
| "drop_references (c # cs) =
     (case (if c = 37 then option_reference cs else None) of
        None \<Rightarrow> c # drop_references cs
      | Some (name, rest) \<Rightarrow> drop_references rest)"
  by pat_completeness auto

termination drop_references
  by (relation "measure length") (auto dest: option_reference_shorter split: if_splits)

definition set_main_option :: "pystr \<Rightarrow> pystr result" where
  "set_main_option v =
     (if 37 \<in> set (drop_references (drop_doubled v)) then Inl (OtherError (lit ''invalid interpolation syntax'')) else Inr v)"

function interpolate :: "(pystr \<Rightarrow> pystr option) \<Rightarrow> pystr \<Rightarrow> pystr option" where
  "interpolate look [] = Some []"
| "interpolate look (c # cs) =
     (if c \<noteq> 37 then map_option ((#) c) (interpolate look cs)
      else case cs of
             [] \<Rightarrow> None
           | b # bs \<Rightarrow>
               if b = 37 then map_option ((#) 37) (interpolate look bs)
               else case option_reference cs of
                      None \<Rightarrow> None
                    | Some (name, rest) \<Rightarrow>
                        (case look name of None \<Rightarrow> None | Some v \<Rightarrow> map_option ((@) v) (interpolate look rest)))"
  by pat_completeness auto

termination interpolate
  by (relation "measure (\<lambda>(look, s). length s)") (auto dest: option_reference_shorter)

text \<open>\<open>get_main_option\<close>: the expanded value; the other options of the section are given by \<open>look\<close>.\<close>

definition get_main_option :: "(pystr \<Rightarrow> pystr option) \<Rightarrow> pystr \<Rightarrow> pystr result" where
  "get_main_option look v =
     (case interpolate look v of
        None \<Rightarrow> Inl (OtherError (lit ''bad interpolation variable reference''))
      | Some u \<Rightarrow> Inr u)"

section \<open>The revisions\<close>

text \<open>
  What \<open>context.run_migrations\<close> executes and the revision it records, for the two commands that the project uses:
  \<open>upgrade head\<close> (the migration container) and \<open>downgrade -1\<close> (the runbook). A recorded revision that the code does
  not know stops either one.
\<close>

datatype alembic_command = Upgrade_head | Downgrade_one

fun revision_script :: "alembic_command \<Rightarrow> string option \<Rightarrow> (ddl list \<times> string option) result" where
  "revision_script Upgrade_head v =
     (if known_revision v then Inr (concat (map upgrade (pending_revisions v)), Some (hd head_revisions))
      else Inl (OtherError (lit ''CommandError'')))"
| "revision_script Downgrade_one v =
     (case v of
        None \<Rightarrow> Inl (OtherError (lit ''CommandError''))
      | Some r \<Rightarrow>
          (case tget revision migrations r of
             None \<Rightarrow> Inl (OtherError (lit ''CommandError''))
           | Some m \<Rightarrow> Inr (downgrade m, down_revision m)))"

text \<open>\<open>do_run_migrations\<close>: one transaction around everything that is to be executed.\<close>

definition do_run_migrations :: "alembic_command \<Rightarrow> versioned \<Rightarrow> unit result \<times> versioned" where
  "do_run_migrations cmd vc =
     (case revision_script cmd (fst vc) of
        Inl e \<Rightarrow> (Inl e, vc)
      | Inr (ds, v) \<Rightarrow>
          (case exec_all ds (snd vc) of
             None \<Rightarrow> (Inl (OtherError (lit ''ProgrammingError'')), vc)
           | Some c \<Rightarrow> (Inr (), v, c)))"

text \<open>\<open>run_migrations_online\<close>: an engine for the address, one connection, and the migrations over it.\<close>

definition run_migrations_online ::
  "(pystr \<Rightarrow> exn option) \<Rightarrow> (pystr \<Rightarrow> pystr option) \<Rightarrow> alembic_command \<Rightarrow> pystr \<Rightarrow> versioned \<Rightarrow> unit result \<times> versioned" where
  "run_migrations_online connect look cmd raw vc =
     (case get_main_option look raw of
        Inl e \<Rightarrow> (Inl e, vc)
      | Inr url \<Rightarrow> (case connect url of Some e \<Rightarrow> (Inl e, vc) | None \<Rightarrow> do_run_migrations cmd vc))"

text \<open>\<open>run_migrations_offline\<close>: the script from an empty database, written out; no database is touched.\<close>

definition run_migrations_offline :: "(pystr \<Rightarrow> pystr option) \<Rightarrow> alembic_command \<Rightarrow> pystr \<Rightarrow> ddl list result" where
  "run_migrations_offline look cmd raw =
     (case get_main_option look raw of
        Inl e \<Rightarrow> Inl e
      | Inr url \<Rightarrow> (case revision_script cmd None of Inl e \<Rightarrow> Inl e | Inr (ds, v) \<Rightarrow> Inr ds))"

text \<open>The module: the address of the settings is set first; then one of the two modes. The result is the script, if any.\<close>

definition migration_env ::
  "(pystr \<Rightarrow> exn option) \<Rightarrow> (pystr \<Rightarrow> pystr option) \<Rightarrow> settings \<Rightarrow> bool \<Rightarrow> alembic_command \<Rightarrow> versioned \<Rightarrow> ddl list result \<times> versioned" where
  "migration_env connect look s script_only cmd vc =
     (case set_main_option (postgres_dsn s) of
        Inl e \<Rightarrow> (Inl e, vc)
      | Inr raw \<Rightarrow>
          (if script_only then (run_migrations_offline look cmd raw, vc)
           else (case run_migrations_online connect look cmd raw vc of
                   (Inl e, vc1) \<Rightarrow> (Inl e, vc1)
                 | (Inr u, vc1) \<Rightarrow> (Inr [], vc1))))"

section \<open>Facts about the address\<close>

lemma no_doubled: "37 \<notin> set s \<Longrightarrow> drop_doubled s = s"
  by (induction s rule: drop_doubled.induct) auto

lemma no_references: "37 \<notin> set s \<Longrightarrow> drop_references s = s"
  by (induction s) auto

lemma no_interpolation: "37 \<notin> set s \<Longrightarrow> interpolate look s = Some s"
  by (induction s) auto

lemma keep_doubled: "37 \<notin> set a \<Longrightarrow> drop_doubled (a @ s) = a @ drop_doubled s"
proof (induction a)
  case (Cons x a)
  then show ?case by (cases "a @ s") (auto simp: Cons_eq_append_conv)
qed simp

lemma keep_references: "37 \<notin> set a \<Longrightarrow> drop_references (a @ s) = a @ drop_references s"
  by (induction a) auto

text \<open>An address without a percent sign is used as it is; one with an octet in percent encoding is refused.\<close>

lemma plain_address: "37 \<notin> set v \<Longrightarrow> set_main_option v = Inr v \<and> get_main_option look v = Inr v"
  by (simp add: set_main_option_def get_main_option_def no_doubled no_references no_interpolation)

theorem encoded_password_stops_migrations:
  assumes "37 \<notin> set a" "37 \<notin> set b" "x \<noteq> 37" "x \<noteq> 40" "postgres_dsn s = a @ 37 # x # b"
  shows "migration_env connect look s script_only cmd vc = (Inl (OtherError (lit ''invalid interpolation syntax'')), vc)"
proof -
  have "37 \<notin> set (x # b)" using assms(2,3) by simp
  then have "drop_doubled (a @ 37 # x # b) = a @ 37 # x # b"
    using assms(1,3) by (simp add: keep_doubled no_doubled)
  moreover have "option_reference (x # b) = None" using assms(4) by (simp add: option_reference_def Let_def)
  ultimately have "37 \<in> set (drop_references (drop_doubled (a @ 37 # x # b)))"
    using assms(1) by (simp add: keep_references)
  then show ?thesis by (simp add: migration_env_def set_main_option_def assms(5))
qed

lemma migration_env_online:
  assumes "37 \<notin> set (postgres_dsn s)" "connect (postgres_dsn s) = None"
  shows "migration_env connect look s False cmd vc =
    (case do_run_migrations cmd vc of (Inl e, vc1) \<Rightarrow> (Inl e, vc1) | (Inr u, vc1) \<Rightarrow> (Inr [], vc1))"
  using assms by (simp add: migration_env_def plain_address run_migrations_online_def)

text \<open>The configured default has none.\<close>

lemma default_address: "37 \<notin> set (postgres_dsn default_settings)"
  by (simp add: default_settings_def lit_def)

section \<open>Facts about the revisions\<close>

lemma path_facts:
  "path_to ''0001'' = take 1 migrations" "path_to ''0002'' = take 2 migrations" "path_to ''0003'' = take 3 migrations"
  "path_to ''0004'' = take 4 migrations" "path_to ''0005'' = take 5 migrations" "path_to ''0006'' = take 6 migrations"
  "path_to ''0007'' = take 7 migrations"
  by (simp_all add: path_to_def migrations_def tget_def numeral_eq_Suc)

text \<open>The path to the head is the path to a revision and then what is pending there.\<close>

lemma head_path:
  "list_all (\<lambda>m. path_to ''0007'' = path_to (revision m) @ pending_revisions (Some (revision m)) \<and>
     known_revision (Some (revision m))) migrations"
  by (simp add: pending_revisions_def head_facts known_revision_def path_facts migrations_def)

text \<open>A command of the code's own runs as the upgrade of the seeding commands.\<close>

lemma upgrade_is_run_migrations:
  "do_run_migrations Upgrade_head vc =
     (case run_migrations vc of
        Some vc1 \<Rightarrow> (Inr (), vc1)
      | None \<Rightarrow> (Inl (OtherError (if known_revision (fst vc) then lit ''ProgrammingError'' else lit ''CommandError'')), vc))"
  by (simp add: do_run_migrations_def run_migrations_def split: option.split)

text \<open>From the head one step down and up again.\<close>

lemma round_checks:
  "(case upgrade_to ''0007'' empty_catalogue of
      None \<Rightarrow> False
    | Some c \<Rightarrow>
        (case exec_all downgrade_0007 c of
           None \<Rightarrow> False
         | Some c1 \<Rightarrow>
             (case exec_all upgrade_0007 c1 of
                None \<Rightarrow> False
              | Some c2 \<Rightarrow> same_tables c2 metadata \<and> same_types c2 metadata)))"
  by code_simp

lemma upgrade_from_release:
  assumes "m \<in> set migrations"
  shows "\<exists>c. upgrade_to (revision m) empty_catalogue = Some c \<and>
    do_run_migrations Upgrade_head (Some (revision m), c) = do_run_migrations Upgrade_head (None, empty_catalogue)"
proof -
  have path: "path_to ''0007'' = path_to (revision m) @ pending_revisions (Some (revision m))"
    and known: "known_revision (Some (revision m))"
    using head_path assms by (auto simp: list_all_iff)
  obtain h where h: "upgrade_to ''0007'' empty_catalogue = Some h" using head_checks by (auto split: option.splits)
  then obtain c where c: "upgrade_to (revision m) empty_catalogue = Some c"
    "exec_all (concat (map upgrade (pending_revisions (Some (revision m))))) c = Some h"
    by (auto simp: upgrade_to_def path exec_all_append split: option.splits)
  have "exec_all (concat (map upgrade (pending_revisions None))) empty_catalogue = Some h"
    using h by (simp add: head_facts upgrade_to_def)
  then show ?thesis using c known by (auto simp: do_run_migrations_def head_facts)
qed

lemma step_scripts:
  "revision_script Downgrade_one (Some ''0007'') = Inr (downgrade_0007, Some ''0006'')"
  "revision_script Upgrade_head (Some ''0006'') = Inr (upgrade_0007, Some ''0007'')"
  "revision_script Upgrade_head None = Inr (concat (map upgrade (path_to ''0007'')), Some ''0007'')"
  by (simp_all add: head_facts migrations_def tget_def known_revision_def pending_revisions_def path_facts)

section \<open>Properties\<close>

text \<open>
  The schema of any release can be brought to the head, and ends like a fresh one. For each revision, the upgrade
  of the catalogue that the chain built up to there gives exactly what the upgrade of an empty one gives: the
  tables and types of the models, with the head recorded; and from the head, the downgrade by one revision that the
  runbook gives and a further upgrade both succeed and end in the tables and types of the models again.
\<close>

theorem every_release_upgrades:
  "list_all (\<lambda>m. \<exists>c. upgrade_to (revision m) empty_catalogue = Some c \<and>
      do_run_migrations Upgrade_head (Some (revision m), c) = do_run_migrations Upgrade_head (None, empty_catalogue)) migrations \<and>
   (\<exists>c c1 c2. do_run_migrations Upgrade_head (None, empty_catalogue) = (Inr (), Some ''0007'', c) \<and>
      same_tables c metadata \<and> same_types c metadata \<and>
      do_run_migrations Downgrade_one (Some ''0007'', c) = (Inr (), Some ''0006'', c1) \<and>
      do_run_migrations Upgrade_head (Some ''0006'', c1) = (Inr (), Some ''0007'', c2) \<and>
      same_tables c2 metadata \<and> same_types c2 metadata)"
proof
  show "list_all (\<lambda>m. \<exists>c. upgrade_to (revision m) empty_catalogue = Some c \<and>
      do_run_migrations Upgrade_head (Some (revision m), c) = do_run_migrations Upgrade_head (None, empty_catalogue)) migrations"
    by (simp only: list_all_iff) (use upgrade_from_release in blast)
  obtain c where c: "upgrade_to ''0007'' empty_catalogue = Some c" "same_tables c metadata" "same_types c metadata"
    using head_checks by (auto split: option.splits)
  obtain c1 c2 where "exec_all downgrade_0007 c = Some c1" "exec_all upgrade_0007 c1 = Some c2"
    "same_tables c2 metadata" "same_types c2 metadata"
    using round_checks c(1) by (auto split: option.splits)
  then show "\<exists>c c1 c2. do_run_migrations Upgrade_head (None, empty_catalogue) = (Inr (), Some ''0007'', c) \<and>
      same_tables c metadata \<and> same_types c metadata \<and>
      do_run_migrations Downgrade_one (Some ''0007'', c) = (Inr (), Some ''0006'', c1) \<and>
      do_run_migrations Upgrade_head (Some ''0006'', c1) = (Inr (), Some ''0007'', c2) \<and>
      same_tables c2 metadata \<and> same_types c2 metadata"
    using c by (simp add: do_run_migrations_def step_scripts upgrade_to_def del: revision_script.simps)
qed

end
