(* ===== verification/UserAccount.thy ===== *)
theory UserAccount
  imports Startup Uniqueness
begin

text \<open>
  The user account as a process (\<open>run\<close> of \<open>userbot/main.py\<close> after it has signed in): the live handler, the
  channel reloader and the watchdog are tasks that share the channel map and the liveness state, and the
  process ends when it is told to stop. It runs among the other services.
\<close>

section \<open>The process\<close>

record account =
  ua_map :: channel_map
  ua_live :: liveness
  ua_was :: "bool option"
  ua_running :: bool
  ua_world :: world

definition listening :: "channel_map \<Rightarrow> liveness \<Rightarrow> world \<Rightarrow> account" where
  "listening cm st w = \<lparr>ua_map = cm, ua_live = st, ua_was = None, ua_running = True, ua_world = w\<rparr>"

text \<open>
  One round of the reloader; when the query raises, the round is logged and given up. The watchdog's stop event
  and a signal or a disconnection end the process.
\<close>

definition reload_round :: "telethon \<Rightarrow> bool \<Rightarrow> account \<Rightarrow> account" where
  "reload_round T loads s = (if loads then s\<lparr>ua_map := reload_channels T (wdb (ua_world s)) (ua_map s)\<rparr> else s)"

definition watchdog_round :: "env \<Rightarrow> probe \<Rightarrow> account \<Rightarrow> account" where
  "watchdog_round E pr s =
     (case watchdog_cycle E pr (ua_live s, ua_was s, ua_world s) of
        (v, st, was, w) \<Rightarrow> s\<lparr>ua_live := st, ua_was := was, ua_world := w, ua_running := (v \<noteq> Terminated)\<rparr>)"

inductive user_step :: "env \<Rightarrow> crypto \<Rightarrow> telethon \<Rightarrow> account \<Rightarrow> account \<Rightarrow> bool" for E C T where
  Message: "ua_running s \<Longrightarrow> user_step E C T s (s\<lparr>ua_world := on_new_message E T (ua_map s) chat m (ua_world s)\<rparr>)"
| Reload: "ua_running s \<Longrightarrow> user_step E C T s (reload_round T loads s)"
| Probe: "ua_running s \<Longrightarrow> 0 \<le> pr_elapsed pr \<Longrightarrow> user_step E C T s (watchdog_round E pr s)"
| Stop: "user_step E C T s (s\<lparr>ua_running := False\<rparr>)"
| Others: "sys_step E C T (ua_world s) w \<Longrightarrow> user_step E C T s (s\<lparr>ua_world := w\<rparr>)"

inductive user_steps :: "env \<Rightarrow> crypto \<Rightarrow> telethon \<Rightarrow> account \<Rightarrow> account \<Rightarrow> bool" for E C T s where
  Here: "user_steps E C T s s"
| Then: "user_steps E C T s s1 \<Longrightarrow> user_step E C T s1 s2 \<Longrightarrow> user_steps E C T s s2"

inductive_cases user_stepE: "user_step E C T s s'"

section \<open>The process as a part of the system\<close>

lemma reach_step: "sys_step E C T w w' \<Longrightarrow> reach E C T w w'"
  by (rule reach.Step [OF reach.Start])

lemma reach_trans: "reach E C T w1 w2 \<Longrightarrow> reach E C T w0 w1 \<Longrightarrow> reach E C T w0 w2"
  by (induction rule: reach.induct) (auto intro: reach.Step)

lemma backoff_not_negative: "0 \<le> backoff n"
  by (simp add: backoff_def seconds_def WATCHDOG_INTERVAL_SECONDS_def)

lemma edge_reach: "reach E C T w (edge E was h w)"
  by (auto simp: edge_def intro: reach.Start reach_step [OF sys_step.Notice] split: option.split)

lemma watchdog_reach:
  assumes "0 \<le> pr_elapsed pr" and "watchdog_cycle E pr (st, was, w) = (v, st', was', w')"
  shows "reach E C T w w'"
proof -
  define w1 where "w1 = sleep (backoff (mt_failure_count st) + pr_elapsed pr) w"
  have slept: "reach E C T w w1"
    unfolding w1_def using assms(1) backoff_not_negative by (intro reach_step sys_step.Tick) simp
  have "reach E C T w1 w'"
    using assms(2)
    by (auto simp: watchdog_cycle_def Let_def w1_def [symmetric] split: prod.splits option.splits probe_exn.splits
        intro: edge_reach reach.Start reach_step [OF sys_step.Notice])
  from reach_trans [OF this slept] show ?thesis .
qed

lemma user_step_reach: "user_step E C T s s' \<Longrightarrow> reach E C T (ua_world s) (ua_world s')"
proof (induction rule: user_step.induct)
  case (Message s chat m)
  show ?case by (simp add: reach_step [OF sys_step.Live])
next
  case (Reload s loads)
  show ?case by (simp add: reload_round_def reach.Start)
next
  case (Probe s pr)
  then show ?case by (auto simp: watchdog_round_def intro: watchdog_reach split: prod.split)
next
  case (Stop s)
  show ?case by (simp add: reach.Start)
next
  case (Others s w)
  then show ?case by (simp add: reach_step)
qed

lemma user_steps_reach: "user_steps E C T s s' \<Longrightarrow> reach E C T (ua_world s) (ua_world s')"
  by (induction rule: user_steps.induct) (auto intro: reach.Start reach_trans [OF user_step_reach])

lemma start_channels_reach: "reach E C T (snd s) (snd (start_channels E T chs s))"
proof (induction chs arbitrary: s)
  case (Cons ch chs)
  have "reach E C T (snd s) (snd (backfill E T ch (snd s)))" by (rule reach_step [OF sys_step.Catch_up])
  with Cons.IH [of "(map_put ch (fst s), snd (backfill E T ch (snd s)))"] Cons.IH [of s] show ?case
    by (auto intro: reach_trans)
qed (simp add: reach.Start)

lemma run_userbot_reach: "reach E C T w (snd (run_userbot E T si w))"
proof -
  have "reach E C T w (snd (start E T w))"
    using reach_trans [OF start_channels_reach [of E C T "([], w1)" for w1, unfolded snd_conv] reach_step [OF sys_step.Recover]]
    by (simp add: start_def Let_def)
  then show ?thesis
    by (auto simp: run_userbot_def Let_def case_prod_beta split: sum.split sign_in.split
        intro: reach.Start reach_step [OF sys_step.Notice])
qed

lemma run_userbot_starts:
  assumes "build_client (cfg E) = Inr c"
  shows "run_userbot E T (Signed_in b) w = (Listening (fst (start E T w)) (connected_state b (wclock w)), snd (start E T w))"
  using assms by (auto simp: run_userbot_def Let_def case_prod_beta build_client_def split: if_splits)

text \<open>The channel map holds each row under its own Telegram id.\<close>

definition map_ok :: "channel_map \<Rightarrow> bool" where
  "map_ok cm \<longleftrightarrow> (\<forall>k ch. map_of cm k = Some ch \<longrightarrow> telegram_channel_id ch = k)"

lemma map_ok_put: "map_ok cm \<Longrightarrow> map_ok (map_put ch cm)"
  by (simp add: map_ok_def map_put_get)

lemma map_ok_reload: "map_ok cm \<Longrightarrow> map_ok (reload_channels T d cm)"
  by (auto simp: map_ok_def reload_channels_get Let_def dest!: find_SomeD split: if_splits)

lemma map_ok_start_channels: "map_ok (fst s) \<Longrightarrow> map_ok (fst (start_channels E T chs s))"
  by (induction chs arbitrary: s) (simp_all add: map_ok_put)

lemma user_step_map_ok: "user_step E C T s s' \<Longrightarrow> map_ok (ua_map s) \<Longrightarrow> map_ok (ua_map s')"
  by (induction rule: user_step.induct)
    (auto simp: reload_round_def watchdog_round_def map_ok_reload split: prod.split)

section \<open>From the reloader to the store\<close>

lemma find_unique:
  assumes "distinct (map f xs)" and "x \<in> set xs"
  shows "List.find (\<lambda>y. f y = f x) xs = Some x"
  using assms by (induction xs) auto

lemma telegram_ids_distinct: "uniques d \<Longrightarrow> distinct (map telegram_channel_id (source_channels d))"
  by (rule rows_ok_distinct [where key = channel_id and n = "next_id d" and clash = "\<lambda>r s. telegram_channel_id r = telegram_channel_id s"])
    (simp_all add: uniques_def channels_unique_def)

text \<open>After a round of the reloader, a channel that is enabled and resolves is in the map.\<close>

lemma reload_follows:
  assumes "uniques d" and "get_channel d cid = Some ch" and "ingestion_enabled ch" and "tl_resolve T (telegram_channel_id ch)"
    and "\<And>r. map_of cm (telegram_channel_id ch) = Some r \<Longrightarrow> channel_id r = cid"
  shows "\<exists>r. map_of (reload_channels T d cm) (telegram_channel_id ch) = Some r \<and> channel_id r = cid"
proof -
  let ?k = "telegram_channel_id ch"
  have ch: "ch \<in> set (load_channels d)" using tbl.get_in [OF assms(2)] assms(3) by (simp add: load_channels_def)
  have "distinct (map telegram_channel_id (rev (load_channels d)))"
    using telegram_ids_distinct [OF assms(1)] by (simp add: load_channels_def rev_map [symmetric] distinct_map_filter)
  from find_unique [OF this, of ch] have f: "List.find (\<lambda>y. telegram_channel_id y = ?k) (rev (load_channels d)) = Some ch"
    using ch by simp
  have n: "?k \<in> fst ` set cm \<longleftrightarrow> map_of cm ?k \<noteq> None" by (metis map_of_eq_None_iff)
  show ?thesis
    unfolding reload_channels_get Let_def
    using ch f n assms(4,5) tget_key [OF assms(2)] by (cases "map_of cm ?k") auto
qed

lemma uniques_fresh: "uniques d \<Longrightarrow> ids_fresh d"
  by (simp add: uniques_def posts_unique_def rows_ok_def ids_fresh_def)

lemma reach_uniques: "reach E C T w w' \<Longrightarrow> uniques (wdb w) \<Longrightarrow> uniques (wdb w')"
  using unique_columns.reach_ok by (simp add: keeps_uniques_def)

lemma live_stores:
  assumes "map_of cm chat = Some r" and "get_channel (wdb w) (channel_id r) \<noteq> None" and "ids_fresh (wdb w)"
  shows "already_ingested (wdb (on_new_message E T cm chat m w)) (channel_id r) (m_id m)"
proof -
  obtain res w1 where i: "ingest_message E T m r w = (res, w1)" by fastforce
  note one = ingest_grows [OF assms(3), where E = E and T = T and m = m and ch = r, unfolded i snd_conv]
  have kept: "already_ingested (wdb w1) (channel_id r) (m_id m)" by (rule one(3) [OF assms(2)])
  have "already_ingested (wdb (snd (ingest_message E T m r (sleep t w1)))) (channel_id r) (m_id m)" for t
    using ingest_grows(1) [of "sleep t w1" E T m r] one(2) kept by (auto simp: grows_def already_ingested_def)
  with kept show ?thesis by (simp add: on_new_message_def assms(1) i split: sum.split exn.split)
qed

text \<open>The channel stays in the map under its row as long as the row stays enabled under its Telegram id.\<close>

definition enabled_row :: "int \<Rightarrow> int \<Rightarrow> db \<Rightarrow> bool" where
  "enabled_row cid k d \<longleftrightarrow> (\<exists>ch. get_channel d cid = Some ch \<and> ingestion_enabled ch \<and> telegram_channel_id ch = k)"

inductive followed :: "env \<Rightarrow> crypto \<Rightarrow> telethon \<Rightarrow> int \<Rightarrow> int \<Rightarrow> account \<Rightarrow> account \<Rightarrow> bool" for E C T cid k s where
  Stay: "followed E C T cid k s s"
| Go: "followed E C T cid k s s1 \<Longrightarrow> user_step E C T s1 s2 \<Longrightarrow> enabled_row cid k (wdb (ua_world s2)) \<Longrightarrow> followed E C T cid k s s2"

lemma followed_row: "followed E C T cid k s s' \<Longrightarrow> enabled_row cid k (wdb (ua_world s)) \<Longrightarrow> enabled_row cid k (wdb (ua_world s'))"
  by (induction rule: followed.induct)

lemma followed_reach: "followed E C T cid k s s' \<Longrightarrow> reach E C T (ua_world s) (ua_world s')"
  by (induction rule: followed.induct) (auto intro: reach.Start reach_trans [OF user_step_reach])

lemma reload_keeps:
  assumes "enabled_row cid k d" and "map_of cm k = Some r"
  shows "map_of (reload_channels T d cm) k = Some r"
proof -
  obtain ch where ch: "ch \<in> set (load_channels d)" "telegram_channel_id ch = k"
    using assms(1) tbl.get_in [of channel_id] by (fastforce simp: enabled_row_def load_channels_def)
  moreover have "k \<in> fst ` set cm" using assms(2) by (metis map_of_eq_None_iff option.distinct(1))
  ultimately show ?thesis using assms(2) by (auto simp: reload_channels_get Let_def)
qed

lemma user_step_keeps:
  assumes "user_step E C T s s'" and "enabled_row cid k (wdb (ua_world s'))" and "map_of (ua_map s) k = Some r"
  shows "map_of (ua_map s') k = Some r"
  using assms
  by (induction rule: user_step.induct) (auto simp: reload_round_def watchdog_round_def reload_keeps split: prod.split)

lemma followed_map: "followed E C T cid k s s' \<Longrightarrow> map_of (ua_map s) k = Some r \<Longrightarrow> map_of (ua_map s') k = Some r"
  by (induction rule: followed.induct) (auto intro: user_step_keeps)

section \<open>Properties\<close>

text \<open>
  The user account is a part of the system. From the start of the process on, whatever its tasks do in
  whatever order, among requests, jobs and buttons of the other services, is a run of the system, so what holds
  of every reachable state holds while it runs; and its channel map has each channel under its own id.
\<close>

theorem user_account_joins_system:
  assumes "run_userbot E T si w = (Listening cm st, w1)" and "user_steps E C T (listening cm st w1) s"
  shows "reach E C T w (ua_world s) \<and> map_ok (ua_map s)"
proof
  have "reach E C T w w1" using run_userbot_reach [of E C T w si] assms(1) by simp
  with user_steps_reach [OF assms(2)] show "reach E C T w (ua_world s)" by (auto simp: listening_def intro: reach_trans)
  have "cm = fst (start E T w)"
    using assms(1) by (auto simp: run_userbot_def Let_def case_prod_beta split: if_splits sum.splits sign_in.splits)
  then have "map_ok cm" using map_ok_start_channels [of "([], w')" for w'] by (simp add: start_def Let_def map_ok_def)
  with assms(2) show "map_ok (ua_map s)"
    by (induction rule: user_steps.induct) (auto simp: listening_def intro: user_step_map_ok)
qed

definition app_env :: env where
  "app_env = sample_env\<lparr>cfg := (cfg sample_env)\<lparr>telegram_api_id := 1, telegram_api_hash := lit ''h''\<rparr>\<rparr>"

theorem user_account_joins_system_witness:
  "reach app_env two_kinds offline (sample_world [] [])
     (on_new_message app_env offline [(-500, sample_channel)] (-500) text_message (snd (run_userbot app_env offline (Signed_in True) (sample_world [] []))))"
proof -
  let ?w1 = "snd (run_userbot app_env offline (Signed_in True) (sample_world [] []))"
  have b: "\<exists>c. build_client (cfg app_env) = Inr c" by (simp add: build_client_def app_env_def lit_def)
  then obtain st where r: "run_userbot app_env offline (Signed_in True) (sample_world [] [])
      = (Listening (fst (start app_env offline (sample_world [] []))) st, ?w1)"
    using run_userbot_starts [of app_env _ offline True "sample_world [] []"] by auto
  have cm: "fst (start app_env offline (sample_world [] [])) = [(-500, sample_channel)]" by code_simp
  note r = r [unfolded cm]
  have "user_steps app_env two_kinds offline (listening [(-500, sample_channel)] st ?w1)
      ((listening [(-500, sample_channel)] st ?w1)\<lparr>ua_world := on_new_message app_env offline (ua_map (listening [(-500, sample_channel)] st ?w1)) (-500) text_message (ua_world (listening [(-500, sample_channel)] st ?w1))\<rparr>)"
    by (rule user_steps.Then [OF user_steps.Here user_step.Message]) (simp add: listening_def)
  from user_account_joins_system [OF r this] show ?thesis by (simp add: listening_def)
qed



text \<open>
  A channel that is deleted and created again between two rounds keeps its old row in the map, however
  often the map is reloaded: the store refuses every message for the row that is gone, and nothing is stored.
\<close>

theorem recreated_channel_is_deaf:
  assumes "map_of cm k = Some old" and "get_channel (wdb w) (channel_id old) = None"
    and "k \<in> telegram_channel_id ` set (load_channels (wdb w))"
  shows "on_new_message E T (((reload_channels T (wdb w)) ^^ n) cm) k m w = w"
proof -
  have "map_of (((reload_channels T (wdb w)) ^^ n) cm) k = Some old"
  proof (induction n)
    case (Suc n)
    then show ?case using assms(3) by (auto simp: reload_channels_get Let_def intro: map_of_SomeD [THEN imageI, of _ _ _ fst, simplified])
  qed (simp add: assms(1))
  moreover have "ingest_message E T m old w = (Inr None, w)"
    using assms(2) by (simp add: ingest_message_def insert_post_def)
  ultimately show ?thesis by (simp add: on_new_message_def)
qed

end
