(* ===== verification/BotMain.thy ===== *)
theory BotMain
  imports UserAccount Pipeline
begin

text \<open>
  The bot process (\<open>bot/main.py\<close>): which handler an update reaches, what the process does when it starts, and what
  it closes when it ends; and the interactive sign-in of the user account (\<open>userbot/login.py\<close>).
\<close>

section \<open>Updates\<close>

text \<open>
  An update as the dispatcher sees it: a message with the command that the filter of the library reads from it,
  if any, and its chat; a pressed button; or another update, for which no handler is registered.
\<close>

datatype bot_update = Chat_message "pystr option" int | Button_press callback | Other_update

definition admin_router :: "(pystr \<times> (env \<Rightarrow> int \<Rightarrow> unit eff)) list" where
  "admin_router = [(lit ''queue'', cmd_queue), (lit ''stats'', cmd_stats), (lit ''health'', cmd_health)]"

text \<open>The routers are asked in the order in which they are included.\<close>

definition dispatch_update :: "env \<Rightarrow> bot_update \<Rightarrow> unit eff" where
  "dispatch_update E u w =
     (case u of
        Chat_message c chat \<Rightarrow>
          (case c of
             None \<Rightarrow> (Inr (), w)
           | Some name \<Rightarrow> (case map_of admin_router name of None \<Rightarrow> (Inr (), w) | Some h \<Rightarrow> h E chat w))
      | Button_press cb \<Rightarrow> handle_callback E cb w
      | Other_update \<Rightarrow> (Inr (), w))"

text \<open>
  What happens to the running process, in the order in which it happens: an update is handled, and an exception of its
  handler is logged; the consumer that runs in the same loop starts one of the jobs of the bot's queue, some time after
  what came before; or the other services change the world.
\<close>

datatype bot_event = Update bot_update | Job_due nat time | Elsewhere "world \<Rightarrow> world"

definition take_job :: "env \<Rightarrow> nat \<Rightarrow> time \<Rightarrow> world \<Rightarrow> world" where
  "take_job E i dt w =
     (if i < length (wjobs w) \<and> job_queue (wjobs w ! i) = QUEUE_BOT \<and> 0 \<le> dt
      then let w1 = taken dt (take i (wjobs w) @ drop (Suc i) (wjobs w)) w
           in if job_name (wjobs w ! i) \<in> set (WorkerSettings_functions QUEUE_BOT)
              then snd (run_job E (\<lambda>f. True) (wjobs w ! i) w1) else w1
      else w)"

definition bot_turn :: "env \<Rightarrow> bot_event \<Rightarrow> world \<Rightarrow> world" where
  "bot_turn E ev w =
     (case ev of Update u \<Rightarrow> snd (dispatch_update E u w) | Job_due i dt \<Rightarrow> take_job E i dt w | Elsewhere f \<Rightarrow> f w)"

section \<open>The process\<close>

text \<open>
  The three tasks that the process waits for. The wait ends when one of them is done, or because it is
  cancelled itself; in that case the name that holds the pending tasks was never bound, and the clean-up stops
  at its first line.
\<close>

datatype bot_task = Polling | Arq | Stop_wait

datatype wait_end = First_done "bot_task list" | Wait_cancelled

datatype cleanup = Cancel_task bot_task | Cancel_health | Close_worker | Close_session

definition clean_up :: "wait_end \<Rightarrow> exn option \<times> cleanup list" where
  "clean_up e =
     (case e of
        First_done ts \<Rightarrow>
          (None, map Cancel_task (filter (\<lambda>t. t \<notin> set ts) [Polling, Arq, Stop_wait]) @ [Cancel_health, Close_worker, Close_session])
      | Wait_cancelled \<Rightarrow> (Some (OtherError (lit ''UnboundLocalError'')), []))"

text \<open>
  \<open>run\<close>: without a token it raises, and so it does when Telegram refuses the two calls made at the start, of
  which the first drops the updates that waited for the bot. Otherwise the updates that arrive are handled and the jobs
  that are due are run, beside what the other services do, until the wait ends.
\<close>

definition run_bot :: "env \<Rightarrow> exn option \<Rightarrow> bot_update list \<Rightarrow> bot_event list \<Rightarrow> wait_end \<Rightarrow> world \<Rightarrow> (exn option \<times> cleanup list) \<times> world" where
  "run_bot E refusal waiting events e w =
     (case get_bot (cfg E) None of
        Inl exc \<Rightarrow> ((Some exc, []), w)
      | Inr b \<Rightarrow>
          (case refusal of
             Some exc \<Rightarrow> ((Some exc, []), w)
           | None \<Rightarrow> (clean_up e, fold (bot_turn E) events w)))"

text \<open>The first sign-in, which asks on the terminal: the exit status, or what the client raises.\<close>

definition login_userbot :: "settings \<Rightarrow> exn option \<Rightarrow> int result" where
  "login_userbot s sign_in_raises =
     (case build_client s of
        Inl e \<Rightarrow> Inl e
      | Inr c \<Rightarrow> (case sign_in_raises of Some e \<Rightarrow> Inl e | None \<Rightarrow> Inr 0))"

section \<open>Facts\<close>

lemma admin_router_handlers: "map_of admin_router c = Some h \<Longrightarrow> h \<in> {cmd_queue, cmd_stats, cmd_health}"
  by (auto simp: admin_router_def split: if_splits)

text \<open>An update that changes the store or the queues is a button that a linked admin pressed in the editor group.\<close>

definition editor_press :: "env \<Rightarrow> db \<Rightarrow> callback \<Rightarrow> bool" where
  "editor_press E d cb \<longleftrightarrow> cb_chat cb = Some (editor_group_id (cfg E)) \<and>
     list_ex (\<lambda>a. tg_user_id a = Some (cb_from cb) \<and> disabled_at a = None) (admins d)"

lemma dispatch_changes:
  assumes "wdb (snd (dispatch_update E u w)) \<noteq> wdb w \<or> wjobs (snd (dispatch_update E u w)) \<noteq> wjobs w"
  obtains cb where "u = Button_press cb" and "editor_press E (wdb w) cb"
proof (cases u)
  case (Button_press cb)
  then show ?thesis
    using assms callback_change_needs_editor [of E cb w] that [of cb] by (auto simp: dispatch_update_def editor_press_def list_ex_iff)
next
  case (Chat_message c chat)
  have "wdb (snd (h E chat w)) = wdb w \<and> wjobs (snd (h E chat w)) = wjobs w" if "h \<in> {cmd_queue, cmd_stats, cmd_health}" for h
    using commands_stay_in_group [OF that, of E chat w] by simp
  then show ?thesis
    using assms admin_router_handlers by (auto simp: dispatch_update_def Chat_message split: option.splits)
qed (use assms in \<open>simp add: dispatch_update_def\<close>)

section \<open>Properties\<close>


definition token_env :: env where
  "token_env = answering_env\<lparr>cfg := (cfg answering_env)\<lparr>bot_token := lit ''123:abc''\<rparr>\<rparr>"


text \<open>
  The end of the process: without a token, or when Telegram refuses the calls made at the start, nothing was opened
  and it raises. The end of one of the tasks cancels the others and closes the worker and the session, each once; when the
  wait itself is cancelled nothing is closed.
\<close>

theorem bot_cleans_up:
  "fst (run_bot E refusal waiting events e w) =
     (if bot_token (cfg E) = [] then (Some (RuntimeError (lit ''BOT_TOKEN is required for the bot service'')), [])
      else case refusal of
        Some exc \<Rightarrow> (Some exc, [])
      | None \<Rightarrow> (case e of
          First_done ts \<Rightarrow> (None, map Cancel_task (filter (\<lambda>t. t \<notin> set ts) [Polling, Arq, Stop_wait]) @ [Cancel_health, Close_worker, Close_session])
        | Wait_cancelled \<Rightarrow> (Some (OtherError (lit ''UnboundLocalError'')), [])))"
  by (simp add: run_bot_def get_bot_def clean_up_def split: wait_end.split option.split)

text \<open>
  The buttons that were pressed while the bot was down are dropped at its start: a decision made then is
  not carried out, whatever it was.
\<close>

theorem waiting_updates_are_dropped: "run_bot E refusal waiting events e w = run_bot E refusal [] events e w"
  by (simp add: run_bot_def)

text \<open>A message outside the editor group reaches no command: the bot answers nobody there.\<close>

theorem commands_need_editor_group:
  "chat \<noteq> editor_group_id (cfg E) \<Longrightarrow> dispatch_update E (Chat_message c chat) w = (Inr (), w)"
  by (auto simp: dispatch_update_def admin_router_def cmd_queue_def cmd_stats_def cmd_health_def cmd_authorized_def
      split: option.split)

end
