(* ===== verification/Conformance.thy ===== *)
theory Conformance
  imports NormalizeSpec Wire Startup
begin

text \<open>
  The repository's own unit tests, run on the model. Each lemma states what one of the functions of
  \<open>tests/test_transform.py\<close>, \<open>tests/test_dedupe.py\<close>, \<open>tests/test_normalize_dedupe.py\<close>,
  \<open>tests/test_arq_json_serializer.py\<close>, \<open>tests/test_bot_client_mode.py\<close>, \<open>tests/test_metrics.py\<close> and
  \<open>migrations/tests\<close> asserts, under its name, and is proved by evaluating the definitions that model the tested
  code. Hashing is the identity here, which keeps different inputs apart.
\<close>

definition ascii_word :: "int \<Rightarrow> bool" where
  "ascii_word c \<longleftrightarrow> is_lower c \<or> is_upper c \<or> is_digit c \<or> c = 95"

definition test_env :: env where
  "test_env = sample_env\<lparr>uni := \<lparr>u_lower = (\<lambda>s. s), u_word = ascii_word, u_decimal = (\<lambda>c. None)\<rparr>\<rparr>"

abbreviation U0 :: unicode where
  "U0 \<equiv> uni test_env"

fun has_part :: "pystr \<Rightarrow> pystr \<Rightarrow> bool" where
  "has_part [] part = (part = [])"
| "has_part (c # s) part = (strip_prefix part (c # s) \<noteq> None \<or> has_part s part)"

section \<open>System prompts\<close>

lemma test_translate_default_language: "has_part (build_system_prompt AI_translate None None None) (lit ''Persian'')"
  by code_simp

lemma test_translate_custom_language:
  "has_part (build_system_prompt AI_translate (Some (lit ''French'')) None None) (lit ''French'')"
  "\<not> has_part (build_system_prompt AI_translate (Some (lit ''French'')) None None) (lit ''Persian'')"
  by code_simp+

lemma test_summarize: "has_part (py_lower U0 (build_system_prompt AI_summarize None None None)) (lit ''bullet'')"
  by code_simp

lemma test_retone_default: "has_part (py_lower U0 (build_system_prompt AI_retone None None None)) (lit ''professional'')"
  by code_simp

lemma test_retone_custom:
  "has_part (build_system_prompt AI_retone None (Some (lit ''casual and humorous'')) None) (lit ''casual and humorous'')"
  by code_simp

lemma test_custom_with_prompt:
  "has_part (build_system_prompt AI_custom None None (Some (lit ''You are a pirate. Rewrite in pirate speak.''))) (lit ''pirate'')"
  by code_simp

lemma test_custom_fallback:
  "has_part (py_lower U0 (build_system_prompt AI_custom None None None)) (lit ''helpful assistant'')"
  by code_simp

lemma test_off_returns_empty: "build_system_prompt AI_off lang tone custom = []"
  by simp

section \<open>Watermark\<close>

lemma test_no_changes: "apply_watermark U0 (lit ''Hello world'') None False = lit ''Hello world''"
  by code_simp

lemma test_append_watermark:
  "apply_watermark U0 (lit ''Hello world'') (Some ([128279] @ lit '' Follow @mychannel'')) False =
     lit ''Hello world'' @ [10, 10, 128279] @ lit '' Follow @mychannel''"
  by code_simp

lemma test_strip_hashtags:
  "apply_watermark U0 (lit ''Breaking news #crypto #news via @source_channel'') None True = lit ''Breaking news   via''"
  by code_simp

lemma test_strip_telegram_links:
  "\<not> has_part (apply_watermark U0 (lit ''Check out https://t.me/some_channel for more'') None True) (lit ''https://t.me/some_channel'')"
  by code_simp

lemma test_strip_and_watermark_combined:
  "apply_watermark U0 (lit ''News from #source @source_ch'') (Some ([128204] @ lit '' Our Channel'')) True =
     lit ''News from'' @ [10, 10, 128204] @ lit '' Our Channel''"
  by code_simp

lemma test_strip_cleans_extra_newlines:
  "apply_watermark U0 (lit ''Line 1'' @ [10, 10, 10, 10, 10] @ lit ''Line 2'') None True = lit ''Line 1'' @ [10, 10] @ lit ''Line 2''"
  by code_simp

section \<open>Transformation\<close>

definition ai_settings :: settings where
  "ai_settings = default_settings\<lparr>ai_api_key := lit ''test-key'', ai_model := lit ''gpt-4o-mini'', ai_max_tokens := 2048,
     ai_timeout_seconds := 30\<rparr>"

definition answering :: "pystr option list \<Rightarrow> llm" where
  "answering cs = Some (\<lambda>rq. Inr \<lparr>rs_choices = cs, rs_model = Some (lit ''gpt-4o-mini''), rs_usage = Some (10, 15), rs_latency_ms = 3\<rparr>)"

lemma test_off_mode_returns_unchanged:
  "transform_text s client (lit ''hello'') AI_off lang tone custom m n t =
     Inr \<lparr>tr_text = lit ''hello'', tr_model = lit ''none'', tr_prompt_tokens = 0, tr_completion_tokens = 0, tr_latency_ms = 0\<rparr>"
  by (simp add: transform_text_def)

lemma test_no_api_key_raises:
  "transform_text (ai_settings\<lparr>ai_api_key := []\<rparr>) (answering [Some (lit ''x'')]) (lit ''hello'') AI_translate None None None None None None =
     Inl (AITransformError (lit ''AI_API_KEY is not configured''))"
  by (simp add: transform_text_def)

lemma test_successful_transform:
  "transform_text ai_settings (answering [Some (lit ''Translated text here'')]) (lit ''Hello world'') AI_translate
      (Some (lit ''Persian'')) None None None None None =
     Inr \<lparr>tr_text = lit ''Translated text here'', tr_model = lit ''gpt-4o-mini'', tr_prompt_tokens = 10,
       tr_completion_tokens = 15, tr_latency_ms = 3\<rparr>"
  by code_simp

lemma test_empty_response_raises:
  "transform_text ai_settings (answering [Some []]) (lit ''Hello'') AI_translate None None None None None None =
     Inl (AITransformError (lit ''LLM returned an empty response''))"
  by code_simp

lemma test_api_error_raises:
  "transform_text ai_settings (Some (\<lambda>rq. Inl (OtherError (lit ''Connection refused'')))) (lit ''Hello'') AI_summarize
      None None None None None None =
     Inl (AITransformError (lit ''LLM API call failed: '' @ exn_text (OtherError (lit ''Connection refused''))))"
  by code_simp

section \<open>Deduplication\<close>

definition H0 :: "pystr \<Rightarrow> pystr" where
  "H0 s = s"

definition ref :: "string \<Rightarrow> int \<Rightarrow> string \<Rightarrow> media_ref" where
  "ref kind n mime = \<lparr>mr_type = Some (lit kind), mr_file = None, mr_size = Some n, mr_mime = Some (lit mime), mr_omitted = False\<rparr>"

lemma test_text_fingerprint_normalizes_whitespace_and_case:
  "text_fingerprint U0 H0 (Some (lit ''  Hello   World  '')) = text_fingerprint U0 H0 (Some (lit ''hello world''))"
  "text_fingerprint U0 H0 (Some (lit ''HELLO'')) = text_fingerprint U0 H0 (Some (lit ''hello''))"
  "text_fingerprint U0 H0 (Some (lit ''Hello   World'' @ [10, 10] @ lit ''Foo'')) = text_fingerprint U0 H0 (Some (lit ''hello world foo''))"
  by code_simp+

lemma test_text_fingerprint_none_equals_empty:
  "text_fingerprint U0 H0 None = text_fingerprint U0 H0 (Some [])" "text_fingerprint U0 H0 None = H0 []"
  "text_fingerprint U0 H0 (Some []) = text_fingerprint U0 H0 (Some (lit ''   ''))"
  by code_simp+

lemma test_media_fingerprint_empty_set: "media_fingerprint H [] = H []"
  by (simp add: media_fingerprint_def media_parts_def)

lemma test_media_fingerprint_is_order_invariant:
  "media_fingerprint H0 [ref ''photo'' 1024 ''image/jpeg'', ref ''video'' 5000 ''video/mp4''] =
   media_fingerprint H0 [ref ''video'' 5000 ''video/mp4'', ref ''photo'' 1024 ''image/jpeg'']"
  by code_simp

lemma test_media_fingerprint_ignores_local_file_path:
  "media_fingerprint H [r\<lparr>mr_file := f\<rparr>] = media_fingerprint H [r\<lparr>mr_file := g\<rparr>]"
  by (simp add: media_fingerprint_def media_parts_def media_part_def Let_def)

lemma test_media_fingerprint_distinct:
  "media_fingerprint H0 [ref ''photo'' 100 ''image/jpeg''] \<noteq> media_fingerprint H0 [ref ''photo'' 999 ''image/jpeg'']"
  "media_fingerprint H0 [ref ''photo'' 1024 ''image/jpeg''] \<noteq> media_fingerprint H0 [ref ''video'' 1024 ''video/mp4'']"
  by code_simp+

lemma test_dedupe_hash_combines_text_and_media_as_documented:
  "compute_dedupe_hash U H t refs = H (text_fingerprint U H t @ [58] @ media_fingerprint H refs)"
  by (simp add: compute_dedupe_hash_def)

lemma test_differing_text_or_media_hashes_differ:
  "compute_dedupe_hash U0 H0 (Some (lit ''post A'')) [] \<noteq> compute_dedupe_hash U0 H0 (Some (lit ''post B'')) []"
  "compute_dedupe_hash U0 H0 (Some (lit ''post A'')) [] \<noteq> compute_dedupe_hash U0 H0 (Some (lit ''post A'')) [ref ''photo'' 1 ''image/jpeg'']"
  by code_simp+

lemma test_local_media_path:
  "local_media_path U0 (lit ''/media'') 7 0 (lit ''.JPG'') MT_photo = lit ''/media/7_0_photo.jpg''"
  "local_media_path U0 (lit ''/media'') 7 1 [] MT_document = lit ''/media/7_1_document.bin''"
  "local_media_path U0 (lit ''/m'') 1 0 (lit ''.mp4'') MT_video = lit ''/m/1_0_video.mp4''"
  by code_simp+

section \<open>Routing and the normalize job\<close>

lemma test_decide_route:
  "decide_route P_auto True = ''duplicate''" "decide_route P_queue True = ''duplicate''"
  "decide_route P_auto False = ''publish''" "decide_route P_queue False = ''draft''"
  by (simp_all add: decide_route_def)

definition routed_world :: "policy \<Rightarrow> published_dedupe list \<Rightarrow> world" where
  "routed_world pol rows =
     (sample_world [] [])\<lparr>wdb := (sample_db [sample_post] rows)\<lparr>source_channels := [sample_channel\<lparr>channel_policy := pol, default_tag_ids := []\<rparr>]\<rparr>\<rparr>"

lemma test_duplicate_is_rejected_and_never_published:
  "let w = routed_world P_auto [\<lparr>pd_id = 1, pd_hash = content_hash test_env sample_post, pd_published_at = days 1000\<rparr>];
       (r, w1) = normalize test_env 9 w
   in r = Inr (lit ''duplicate'') \<and> map post_state (posts (wdb w1)) = [Rejected] \<and> wjobs w1 = [] \<and>
      map event_action (post_events (wdb w1)) = [Ev_duplicate]"
  by code_simp

lemma test_auto_channel_non_duplicate_enqueues_publish:
  "let (r, w1) = normalize test_env 9 (routed_world P_auto [])
   in r = Inr (lit ''enqueued_publish'') \<and> wjobs w1 = [publish_job 9 None] \<and> map post_state (posts (wdb w1)) = [Pending] \<and>
      list_all (\<lambda>p. normalized_text p \<noteq> None) (posts (wdb w1))"
  by code_simp

lemma test_queue_channel_non_duplicate_enqueues_draft:
  "let (r, w1) = normalize test_env 9 (routed_world P_queue [])
   in r = Inr (lit ''enqueued_draft'') \<and> wjobs w1 = [post_draft_job 9]"
  by code_simp

lemma test_format_tag_string:
  "format_tag_string U0 [lit ''News'', lit ''Tech Talk''] = lit ''#news #tech_talk''" "format_tag_string U0 [] = []"
  by code_simp+

section \<open>The job serializer, the bot client, the counters\<close>

definition go_body :: pystr where
  "go_body = [123] @ [34, 116, 34] @ lit '': null, '' @ [34, 102, 34] @ lit '': '' @ [34] @ lit ''publish'' @ [34] @ lit '', ''
     @ [34, 97, 34] @ lit '': [123], '' @ [34, 107, 34] @ lit '': {}, '' @ [34] @ lit ''et'' @ [34] @ lit '': 1751299200000'' @ [125]"

lemma test_go_style_job_body_is_consumable:
  "arq_job_deserializer (\<lambda>bs. None) go_body =
     Some (J_dict [(lit ''t'', J_null), (lit ''f'', J_str (lit ''publish'')), (lit ''a'', J_list [J_int 123]), (lit ''k'', J_dict []),
       (lit ''et'', J_int 1751299200000)])"
  by code_simp

lemma test_use_local_bot_api:
  "use_local_bot_api (s\<lparr>bot_api_server_url := lit ''http://botapi:8081''\<rparr>)" "\<not> use_local_bot_api (s\<lparr>bot_api_server_url := []\<rparr>)"
  by (simp_all add: use_local_bot_api_def lit_def)

lemma test_build_bot:
  "build_bot (s\<lparr>bot_api_server_url := lit ''http://botapi:8081''\<rparr>) t = (t, Some (lit ''http://botapi:8081''))"
  "build_bot (s\<lparr>bot_api_server_url := []\<rparr>) t = (t, None)"
  by (simp_all add: build_bot_def lit_def)

lemma test_metrics_endpoint_serves_prometheus_format:
  "snd (dispatch \<lparr>h_method = lit ''GET'', h_path = lit ''/this-route-does-not-exist'', h_route = None\<rparr> (Inr 404) []) =
     [((lit ''GET'', lit ''unmatched'', 404), 1)]"
  by code_simp

end
