(* ===== verification/Spec2Isabelle.thy ===== *)
theory Spec2Isabelle
  imports Recovery SendQueue Provenance Concurrent Wire App Confidential MigrationRun BotMain Conformance
begin

text \<open>
  Verification library of the Telegram content-management bot.

  The program. Four processes share a PostgreSQL database and two job queues in Redis. The user
  account (\<open>userbot/\<close>) reads source channels and stores every message as a pending post. The worker
  (\<open>worker/\<close>) renders a post through its template, has a language model rewrite it if the channel asks
  for that, brands it, hashes it, rejects it when the hash was published lately, and hands it on: to the
  publisher (auto channels) or to the editors (queue channels). The bot (\<open>bot/\<close>) posts draft cards with
  approve and reject buttons to the editor group and publishes posts to the destination channel. The
  back office (\<open>api/\<close>) serves the queue, tags, templates, channels, accounts and the audit log over HTTP.
  What they share is in \<open>shared/\<close>; \<open>migrations/\<close> builds the schema.

  Theories and code. Each component theory has the definitions in the order of its source file, then
  its lemmas; theories named \<open>...Spec\<close>, \<open>...Facts\<close> or \<open>...Race\<close> hold proofs only, or what several files
  do together.

  \<^item> \<open>Prelude\<close>: keyed tables (\<open>tget\<close>, \<open>tput\<close>, \<open>tdel\<close>, \<open>tadd\<close>) with the contract \<open>keyed_table\<close>, and lemmas on lists.
  \<^item> \<open>PyText\<close>, \<open>DateTime\<close>: Python strings as lists of code points with the methods the code uses; civil dates.
  \<^item> \<open>Enums\<close>, \<open>Models\<close>, \<open>Config\<close>: \<open>shared/enums.py\<close>, \<open>shared/models.py\<close> (a record per table, \<open>db\<close> the record of
    tables, exceptions as the datatype \<open>exn\<close>), \<open>shared/config.py\<close>.
  \<^item> \<open>World\<close>: the state that operations pass along (\<open>world\<close>: database, queues, pool, calls to Telegram,
    files, clock) and the environment \<open>env\<close>: settings and everything outside the repository, as functions.
  \<^item> \<open>Dedupe\<close>, \<open>NormalizeText\<close>, \<open>Transform\<close>, \<open>Watermark\<close>: \<open>shared/dedupe.py\<close>, \<open>shared/normalize.py\<close>, \<open>shared/transform.py\<close>.
  \<^item> \<open>Tasks\<close>, \<open>Wire\<close>: \<open>shared/tasks.py\<close>: pool, producers and registered consumers; the byte format of jobs, with
    the part of Python's JSON it rests on.
  \<^item> \<open>WorkerNormalize\<close>, \<open>NormalizeSpec\<close>: \<open>worker/normalize.py\<close>. \<open>Reconcile\<close>: \<open>worker/reconcile.py\<close>.
  \<^item> \<open>Publisher\<close>, \<open>PublisherFacts\<close>, \<open>PublishSpec\<close>, \<open>PublishRace\<close>, \<open>PublishRun\<close>: \<open>bot/publisher.py\<close>, as a
    function and as a step relation: \<open>job_step\<close> is one transaction or one call of one job, \<open>race_step\<close> lets many jobs,
    crashes, pruning and other services interleave; and that a run of the function is a run of the relation. \<open>SendPlan\<close>: the calls
    that a send makes, as a list (\<open>send_plan\<close>). \<open>SendQueue\<close>: its send lock, with the line of waiting jobs, the pauses and the clock.
  \<^item> \<open>Cards\<close>, \<open>BotJobs\<close>, \<open>Callbacks\<close>: \<open>bot/cards.py\<close>; \<open>bot/draft.py\<close>, \<open>bot/alerts.py\<close>, \<open>bot/handlers/admin.py\<close>;
    \<open>bot/handlers/callbacks.py\<close>.
  \<^item> \<open>Security\<close>, \<open>Auth\<close>, \<open>Admins\<close>, \<open>Vocabulary\<close>, \<open>Channels\<close>, \<open>QueueApi\<close>, \<open>Api\<close>, \<open>Responses\<close>, \<open>Confidential\<close>, \<open>Routing\<close>:
    \<open>shared/security.py\<close> with \<open>api/deps.py\<close>, \<open>api/auth.py\<close>, the routers under \<open>api/routers/\<close>, the table of
    endpoints of \<open>api/main.py\<close> with the role each one requires, the response models of \<open>api/schemas.py\<close>, and the
    routers as tables with the order of checks around a handler.
  \<^item> \<open>Limits\<close>, \<open>App\<close>: the rate limit of the sign-ins (\<open>api/limiter.py\<close> and its uses in \<open>api/auth.py\<close>) with many clients
    and their pauses, and the application that \<open>create_app\<close> puts together, with its start.
  \<^item> \<open>Ingest\<close>, \<open>IngestSpec\<close>, \<open>Userbot\<close>, \<open>Watchdog\<close>: \<open>userbot/ingest.py\<close> and \<open>userbot/main.py\<close>.
  \<^item> \<open>Seeding\<close>, \<open>Bootstrap\<close>: the seeds of \<open>api/cli.py\<close>; its command line with the migrations it runs, and the first
    start of an installation. \<open>MigrationRun\<close>: \<open>migrations/env.py\<close>, from the address of the database to the transaction.
  \<^item> \<open>Ops\<close>, \<open>Startup\<close>: \<open>shared/health.py\<close>, \<open>api/metrics.py\<close>, \<open>bot/client.py\<close>, \<open>userbot/client.py\<close>, and how the
    processes start (\<open>api/main.py\<close>, \<open>worker/main.py\<close>, \<open>run\<close> in \<open>userbot/main.py\<close>).
  \<^item> \<open>UserAccount\<close>, \<open>BotMain\<close>: the tasks of the running user account (\<open>userbot/main.py\<close>) as a step relation on the
    state they share, and the bot process (\<open>bot/main.py\<close>, \<open>userbot/login.py\<close>), each as a part of the system.
  \<^item> \<open>Schema\<close>, \<open>Migrations\<close>: \<open>migrations/versions/\<close>, and the schema that \<open>shared/models.py\<close> declares.
  \<^item> \<open>System\<close>: the processes together; one step per request, sign-in, button, command, job, ingestion, live message,
    backfill, alert, seeding or housekeeping run, each ended before the next starts. \<open>Integrity\<close>, \<open>Uniqueness\<close>,
    \<open>Provenance\<close>: what holds over its runs. \<open>Concurrent\<close>: these steps with the parts of publish jobs, of ingestions and
    of account updates between them.
  \<^item> \<open>Pipeline\<close>, \<open>Delivery\<close>: the consumers that \<open>worker/main.py\<close> and \<open>bot/main.py\<close> register, taking the queued
    jobs in any order, with starts that are cut short and made again (\<open>attempt\<close>), and the way of a message from its source channel to the readers. \<open>Schedule\<close>: consumers that take a
    job when it is due. \<open>Recovery\<close>: what an interrupted publish job leaves to everything that runs by itself.
  \<^item> \<open>Conformance\<close>: the cases of the repository's unit tests, evaluated on the model.

  Interfaces. \<open>keyed_table\<close> (Prelude) is what the operations use of a table; \<open>reservation\<close> (PublisherFacts) what the
  publisher relies on in the dedupe index; \<open>route_finder\<close> (Routing) what the counters rely on in the framework; \<open>role_gate\<close> (Security) what the endpoints rely on in their guard;
  \<open>codec\<close> (Wire) what producers and consumers share; \<open>row_moves\<close> (System) the few ways in which the services
  change the store: a relation that these moves keep is kept by every run, whatever else the publish job does; \<open>store_moves\<close>
  extends it by the publish job, \<open>overlapping_moves\<close> (Concurrent) by a publish job and an account update that write on whatever
  state there is by then; it is interpreted by the invariant without the accounts. The first is interpreted by the recorded message ids of \<open>Provenance\<close>, the second by the
  invariant of \<open>System\<close>, the foreign keys of \<open>Integrity\<close> and the unique columns of \<open>Uniqueness\<close>. Each locale is
  interpreted on the definitions of the model.

  Conventions. An operation on the shared state has the type \<open>'a eff = world \<Rightarrow> 'a result \<times> world\<close>; a
  result is \<open>Inl\<close> of the exception that left the function or \<open>Inr\<close> of its value, and the world is the
  one after it, so that what was committed or sent before an exception stays. A transaction is a
  function on \<open>db\<close>. Time is an integer number of microseconds. Only steps that the source separates
  by a commit or a call are separated here; the atomic versions are what single jobs do, \<open>PublishRace\<close>,
  \<open>Concurrent\<close> and \<open>Admins\<close> say what happens when others come in between. What is proved over \<open>sys_step\<close> alone is about
  operations one after another.

  What the lemmas show. \<open>PublishRace\<close>: content whose send has returned is not sent again within the window, however jobs
  overlap, fail or crash, as long as the index is not pruned while a send is older than the window
  (\<open>no_stale_reservation\<close>). \<open>SendPlan\<close>: a send makes the calls of its plan. \<open>Concurrent\<close>: the invariant of the
  store while the services overlap. \<open>System\<close>: a super-admin is left and a published message id is final, when operations
  follow one another. \<open>PublishRun\<close>: the publish job refines the interleaved relation, for pauses that are not negative
  (\<open>patient\<close>) and an editor group of its own. \<open>Integrity\<close>, \<open>Uniqueness\<close>: foreign keys
  and unique constraints hold in every reachable state, and \<open>Bootstrap\<close>: the first start establishes them.
  \<open>Provenance\<close>: what is recorded as published was delivered, and the destination channel shows posts only.
  \<open>UserAccount\<close>: a followed channel's messages are stored, round after round of the reloader. \<open>BotMain\<close>: the bot process changes the
  store only for a button that an editor pressed or a job that was queued for it. \<open>Pipeline\<close>: the queues run dry. \<open>Delivery\<close>: a message of an auto channel is delivered once, one of a
  queue channel after an approval. \<open>Schedule\<close>: a scheduled post waits for its instant.
  \<open>SendQueue\<close>: posts go out one at a time, in the order of their jobs, with the configured pause between them. \<open>Recovery\<close>: a
  publish job that ends after its claim is never made up for. \<open>Limits\<close>: how many passwords one address can try. \<open>App\<close>: what
  serves has a real secret, and credentials only for origins listed by name. \<open>Wire\<close>: what is queued is read back. \<open>PublishSpec\<close>, \<open>NormalizeSpec\<close>, \<open>IngestSpec\<close>, \<open>QueueApi\<close>: each job and decision on each of
  its branches, errors included. \<open>Api\<close>, \<open>Auth\<close>, \<open>Security\<close>, \<open>Callbacks\<close>, \<open>Confidential\<close>, \<open>Routing\<close>: who may
  change what, what answers give away, and that no endpoint hides another. \<open>Watchdog\<close>, \<open>Userbot\<close>, \<open>Reconcile\<close>: detection, recovery and pruning.
  \<open>Migrations\<close>, \<open>MigrationRun\<close>: the migrations build the schema of the models and can be rolled back, and the schema of any
  release ends like a fresh one. Some lemmas show what the
  code does against its comments: delivered posts that are recorded as failed, text that is published
  unbranded, rows that recovery does not see, a photo sent again after its text was refused, addresses that stop the migrations.

  Bounds and fuel. Loops over lists are structural recursion. The choice of a free file name searches
  as many candidates as there are files, plus one, so one of them is free. The migration chain is
  walked for as many links as there are migrations. The JSON reader gets its input's length as fuel for nested
  values, and each level takes at least one character. No other recursion is bounded.

  Parameters. SHA-256, Argon2, JWT signing, Jinja, the language model, Telegram's answers, downloads,
  Unicode tables and Redis reachability are functions of the environment. Hypotheses on them are named
  where they are used and state documented behaviour, for example that decoding a signed token with the key
  that signed it gives back its claims from the second of issue on (\<open>jwt_roundtrip\<close>), or that a rate limit's window opens with the first hit and counts the hits in
  it (\<open>fixed_window\<close>).

  Not modelled. The internals of SQLAlchemy, Alembic, ARQ, aiogram, Telethon, FastAPI and pydantic;
  the schema operations have the meaning that PostgreSQL and Alembic document, on a catalogue without rows, so a constraint
  that old data would break is not refused. Integers in requests that exceed the range of a column are refused
  where an account or a channel is stored; elsewhere ids are taken to fit. Within \<open>sys_step\<close> and \<open>consume\<close> an operation
  runs in one go. The database engine,
  logging, the latency histogram, CORS preflights, the time limits configured for the queues, the prompts of the first login
  and the registration of signal handlers are library configuration or input and output. The Go port of the API, the web front-end and the deployment
  scripts are other programs.
\<close>

end
